(* ===== verification/Prelude.thy ===== *)
theory Prelude
  imports Main "HOL-Library.Multiset" "HOL-Library.Word" "HOL-Library.Monad_Syntax" "HOL-Library.Signed_Division"
begin

text \<open>
  Shared vocabulary of the development: the machine integer types of the C code, the reading
  of a Wayland intrusive list (\<^verbatim>\<open>wl_list\<close>) as a HOL list, the option monad in which a
  memory fault of the C code is the value \<open>None\<close>, and the collections of facts that the
  component theories extend.
\<close>

named_theorems cg_defs \<open>definitions of the small accessors, unfolded by the component proofs\<close>
named_theorems cg_inv \<open>preservation of an invariant by an operation\<close>

type_synonym u8 = "8 word"
type_synonym u16 = "16 word"
type_synonym u32 = "32 word"

section \<open>The option monad\<close>

lemma bind_SomeE:
  assumes "Option.bind m f = Some r"
  obtains a where "m = Some a" and "f a = Some r"
  using assms by (cases m) auto

lemma bind_eq_Some: "Option.bind m f = Some r \<longleftrightarrow> (\<exists>a. m = Some a \<and> f a = Some r)"
  by (cases m) auto

text \<open>A loop over a list whose body may fault: the C \<^verbatim>\<open>wl_list_for_each\<close> with a state.\<close>

fun ofold :: "('a \<Rightarrow> 's \<Rightarrow> 's option) \<Rightarrow> 'a list \<Rightarrow> 's \<Rightarrow> 's option" where
  "ofold f [] s = Some s"
| "ofold f (x # xs) s = Option.bind (f x s) (ofold f xs)"

lemma ofold_append: "ofold f (xs @ ys) s = Option.bind (ofold f xs s) (ofold f ys)"
  by (induction xs arbitrary: s) (auto split: bind_split)

lemma ofold_invariant:
  assumes "ofold f xs s = Some t" and "P s"
    and "\<And>x s s'. x \<in> set xs \<Longrightarrow> P s \<Longrightarrow> f x s = Some s' \<Longrightarrow> P s'"
  shows "P t"
  using assms
proof (induction xs arbitrary: s)
  case Nil
  then show ?case by simp
next
  case (Cons x xs)
  then obtain s' where "f x s = Some s'" and "ofold f xs s' = Some t"
    by (auto simp: bind_eq_Some)
  with Cons.prems(2,3) Cons.IH [of s'] show ?case by (metis list.set_intros)
qed

lemma ofold_total:
  assumes "P s" and "\<And>x s. x \<in> set xs \<Longrightarrow> P s \<Longrightarrow> \<exists>s'. f x s = Some s' \<and> P s'"
  shows "\<exists>t. ofold f xs s = Some t \<and> P t"
  using assms
proof (induction xs arbitrary: s)
  case Nil
  then show ?case by simp
next
  case (Cons x xs)
  from Cons.prems obtain s' where "f x s = Some s'" and "P s'" by (meson list.set_intros(1))
  with Cons.IH [of s'] Cons.prems(2) show ?case by auto
qed

section \<open>Wayland lists\<close>

text \<open>
  A \<^verbatim>\<open>wl_list\<close> head is read as the HOL list of the elements met from
  \<^verbatim>\<open>head.next\<close> on. \<^verbatim>\<open>wl_list_insert(&head, e)\<close> puts \<open>e\<close> in front,
  \<^verbatim>\<open>wl_list_remove(e)\<close> deletes it, and inserting after an element \<open>p\<close> of the
  list is \<open>insert_after\<close>. \<open>move_head_after v\<close> is the idiom of
  \<^verbatim>\<open>seat_set_focus\<close>: the head itself is removed from the ring and linked in behind \<open>v\<close>,
  which makes \<open>v\<close> the last element and keeps the cyclic order.
\<close>

definition wl_insert :: "'a \<Rightarrow> 'a list \<Rightarrow> 'a list" where
  "wl_insert e xs = e # xs"

definition wl_remove :: "'a \<Rightarrow> 'a list \<Rightarrow> 'a list" where
  "wl_remove e xs = remove1 e xs"

fun insert_after :: "'a \<Rightarrow> 'a \<Rightarrow> 'a list \<Rightarrow> 'a list" where
  "insert_after p e [] = []"
| "insert_after p e (x # xs) = (if x = p then x # e # xs else x # insert_after p e xs)"

definition move_head_after :: "'a \<Rightarrow> 'a list \<Rightarrow> 'a list option" where
  "move_head_after v xs =
     (if v \<in> set xs
      then Some (tl (dropWhile (\<lambda>x. x \<noteq> v) xs) @ takeWhile (\<lambda>x. x \<noteq> v) xs @ [v])
      else None)"

lemma move_head_after_cons:
  "move_head_after v (v # xs) = Some (xs @ [v])"
  by (simp add: move_head_after_def)

lemma dropWhile_neq_in:
  "v \<in> set xs \<Longrightarrow> dropWhile (\<lambda>x. x \<noteq> v) xs = v # tl (dropWhile (\<lambda>x. x \<noteq> v) xs)"
  by (induction xs) auto

lemma move_head_after_perm:
  assumes "move_head_after v xs = Some ys"
  shows "mset ys = mset xs" and "last ys = v" and "ys \<noteq> []"
proof -
  from assms have v: "v \<in> set xs"
    and ys: "ys = tl (dropWhile (\<lambda>x. x \<noteq> v) xs) @ takeWhile (\<lambda>x. x \<noteq> v) xs @ [v]"
    by (auto simp: move_head_after_def split: if_splits)
  have "mset xs = mset (takeWhile (\<lambda>x. x \<noteq> v) xs @ dropWhile (\<lambda>x. x \<noteq> v) xs)"
    by (simp only: takeWhile_dropWhile_id)
  also have "\<dots> = mset ys"
    unfolding ys by (subst dropWhile_neq_in [OF v]) simp
  finally show "mset ys = mset xs" by simp
  show "last ys = v" and "ys \<noteq> []" by (simp_all add: ys)
qed

lemma move_head_after_set:
  "move_head_after v xs = Some ys \<Longrightarrow> set ys = set xs"
  by (metis move_head_after_perm(1) mset_eq_setD)

lemma move_head_after_distinct:
  "move_head_after v xs = Some ys \<Longrightarrow> distinct ys = distinct xs"
  by (metis move_head_after_perm(1) mset_eq_imp_distinct_iff)

lemma move_head_after_total: "v \<in> set xs \<Longrightarrow> \<exists>ys. move_head_after v xs = Some ys"
  by (simp add: move_head_after_def)

section \<open>Lists\<close>

lemma distinct_remove1_set: "distinct xs \<Longrightarrow> set (remove1 x xs) = set xs - {x}"
  by (rule set_remove1_eq)

lemma option_eqI: "(\<And>x. a = Some x \<longleftrightarrow> b = Some x) \<Longrightarrow> a = b"
  by (cases a; cases b) auto

section \<open>Machine words\<close>

lemma unat_of_nat_less: "n < 2 ^ LENGTH('a) \<Longrightarrow> unat (of_nat n :: 'a :: len word) = n"
  by (simp add: unsigned_of_nat take_bit_nat_eq_self)

lemma unat_diff_of_nat:
  fixes x :: "'a :: len word"
  assumes "n \<le> unat x"
  shows "unat (x - of_nat n) = unat x - n"
proof -
  have "x - of_nat n = of_nat (unat x - n)" using assms by (simp add: of_nat_diff)
  moreover have "unat x - n < 2 ^ LENGTH('a)" using unsigned_less [of x] by (simp add: less_imp_diff_less)
  ultimately show ?thesis by (simp add: unsigned_of_nat take_bit_nat_eq_self)
qed

lemma unat_add_of_nat:
  fixes x :: "'a :: len word"
  assumes "unat x + n < 2 ^ LENGTH('a)"
  shows "unat (x + of_nat n) = unat x + n"
proof -
  have "x + of_nat n = of_nat (unat x + n)" by simp
  then show ?thesis using unat_of_nat_less [OF assms] by metis
qed

end
