(* ===== verification/CString.thy ===== *)
theory CString
  imports Prelude
begin

text \<open>
  The part of the C string library that the sources use. A C string is the HOL string of the
  characters before its terminating NUL; a \<^verbatim>\<open>char *\<close> that may be NULL is a
  \<open>string option\<close>. \<open>strtok_r\<close>, \<open>strtol\<close> and \<open>isspace\<close> follow the C standard and
  glibc: \<open>strtok_r\<close> leaves the save pointer at the terminator when the string is used up,
  and \<open>strtol\<close> saturates and reports \<open>ERANGE\<close>.
\<close>

section \<open>Character classes\<close>

definition isspace :: "char \<Rightarrow> bool" where
  "isspace c \<longleftrightarrow> of_char c \<in> {9, 10, 11, 12, 13, 32 :: nat}"

definition isdigit :: "char \<Rightarrow> bool" where
  "isdigit c \<longleftrightarrow> 48 \<le> (of_char c :: nat) \<and> (of_char c :: nat) \<le> 57"

definition digit_val :: "char \<Rightarrow> nat" where
  "digit_val c = of_char c - 48"

definition isprint :: "char \<Rightarrow> bool" where
  "isprint c \<longleftrightarrow> 32 \<le> (of_char c :: nat) \<and> (of_char c :: nat) \<le> 126"

section \<open>strtok_r\<close>

definition strtok_r :: "char list \<Rightarrow> string \<Rightarrow> string option \<times> string" where
  "strtok_r delim s =
     (let s1 = dropWhile (\<lambda>c. c \<in> set delim) s in
      if s1 = [] then (None, [])
      else (Some (takeWhile (\<lambda>c. c \<notin> set delim) s1),
            tl (dropWhile (\<lambda>c. c \<notin> set delim) s1)))"

lemma strtok_r_token:
  assumes "strtok_r delim s = (Some t, r)"
  shows "t \<noteq> []" and "\<forall>c \<in> set t. c \<notin> set delim"
proof -
  have ne: "dropWhile (\<lambda>c. c \<in> set delim) s \<noteq> []"
    and t: "t = takeWhile (\<lambda>c. c \<notin> set delim) (dropWhile (\<lambda>c. c \<in> set delim) s)"
    using assms by (auto simp: strtok_r_def Let_def split: if_splits)
  show "t \<noteq> []"
    using ne hd_dropWhile [OF ne] by (cases "dropWhile (\<lambda>c. c \<in> set delim) s") (auto simp: t)
  show "\<forall>c \<in> set t. c \<notin> set delim" by (auto simp: t dest: set_takeWhileD)
qed

lemma length_tl_dropWhile: "length (tl (dropWhile P xs)) \<le> length xs"
  using length_dropWhile_le [of P xs] by simp

lemma strtok_r_shorter:
  assumes "strtok_r delim s = (Some t, r)"
  shows "length r < length s"
proof -
  let ?s1 = "dropWhile (\<lambda>c. c \<in> set delim) s"
  have ne: "?s1 \<noteq> []" and r: "r = tl (dropWhile (\<lambda>c. c \<notin> set delim) ?s1)"
    using assms by (auto simp: strtok_r_def Let_def split: if_splits)
  have "length (dropWhile (\<lambda>c. c \<notin> set delim) ?s1) \<le> length ?s1"
    by (rule length_dropWhile_le)
  moreover have "length ?s1 \<le> length s" by (rule length_dropWhile_le)
  moreover have "length r \<le> length (dropWhile (\<lambda>c. c \<notin> set delim) ?s1) - 1" by (simp add: r)
  moreover have "0 < length ?s1" using ne by simp
  ultimately show ?thesis by linarith
qed

lemma takeWhile_append_sep:
  "\<forall>c \<in> set t. P c \<Longrightarrow> \<not> P d \<Longrightarrow> takeWhile P (t @ d # rest) = t"
  "\<forall>c \<in> set t. P c \<Longrightarrow> \<not> P d \<Longrightarrow> dropWhile P (t @ d # rest) = d # rest"
  by (induction t) auto

lemma strtok_r_append:
  assumes "t \<noteq> []" and "\<forall>c \<in> set t. c \<notin> set delim" and "d \<in> set delim"
  shows "strtok_r delim (t @ d # rest) = (Some t, rest)"
proof -
  obtain c cs where t: "t = c # cs" using assms(1) by (cases t) auto
  have "dropWhile (\<lambda>c. c \<in> set delim) (t @ d # rest) = t @ d # rest"
    using assms(2) by (simp add: t)
  then show ?thesis
    using assms takeWhile_append_sep [of t "\<lambda>c. c \<notin> set delim" d rest]
    by (simp add: strtok_r_def)
qed

lemma strtok_r_last:
  assumes "t \<noteq> []" and "\<forall>c \<in> set t. c \<notin> set delim"
  shows "strtok_r delim t = (Some t, [])"
proof -
  obtain c cs where t: "t = c # cs" using assms(1) by (cases t) auto
  have "dropWhile (\<lambda>c. c \<in> set delim) t = t" using assms(2) by (simp add: t)
  moreover have "takeWhile (\<lambda>c. c \<notin> set delim) t = t" using assms(2) by simp
  moreover have "tl (dropWhile (\<lambda>c. c \<notin> set delim) t) = []"
    using assms(2) by (metis dropWhile_eq_Nil_conv list.sel(2))
  ultimately show ?thesis using assms(1) by (simp add: strtok_r_def)
qed

section \<open>strtol\<close>

abbreviation (input) LONG_MAX :: int where "LONG_MAX \<equiv> 9223372036854775807"
abbreviation (input) LONG_MIN :: int where "LONG_MIN \<equiv> - 9223372036854775808"
abbreviation (input) INT_MAX :: int where "INT_MAX \<equiv> 2147483647"
abbreviation (input) INT_MIN :: int where "INT_MIN \<equiv> - 2147483648"

definition digits_val :: "string \<Rightarrow> nat" where
  "digits_val ds = foldl (\<lambda>n c. 10 * n + digit_val c) 0 ds"

fun split_sign :: "string \<Rightarrow> bool \<times> string" where
  "split_sign (c # cs) =
     (if c = CHR ''-'' then (True, cs) else if c = CHR ''+'' then (False, cs) else (False, c # cs))"
| "split_sign [] = (False, [])"

text \<open>
  \<open>strtol s = (value, ERANGE raised, rest)\<close>; when there is no digit the value is 0 and the
  end pointer is the start of the string (\<open>rest = s\<close>).
\<close>

definition strtol :: "string \<Rightarrow> int \<times> bool \<times> string" where
  "strtol s =
     (let (neg, r) = split_sign (dropWhile isspace s);
          ds = takeWhile isdigit r;
          v = (if neg then - int (digits_val ds) else int (digits_val ds))
      in if ds = [] then (0, False, s)
         else if v > LONG_MAX then (LONG_MAX, True, dropWhile isdigit r)
         else if v < LONG_MIN then (LONG_MIN, True, dropWhile isdigit r)
         else (v, False, dropWhile isdigit r))"

lemma strtol_bounds: "LONG_MIN \<le> fst (strtol s) \<and> fst (strtol s) \<le> LONG_MAX"
  by (auto simp: strtol_def Let_def split: prod.splits)

section \<open>Printing decimal integers\<close>

fun nat_digits :: "nat \<Rightarrow> string" where
  "nat_digits n =
     (if n < 10 then [char_of (48 + n)] else nat_digits (n div 10) @ [char_of (48 + n mod 10)])"

declare nat_digits.simps [simp del]

definition fmt_d :: "int \<Rightarrow> string" where
  "fmt_d i = (if i < 0 then CHR ''-'' # nat_digits (nat (- i)) else nat_digits (nat i))"

lemma digit_char:
  assumes "d < 10"
  shows "isdigit (char_of (48 + d))" and "digit_val (char_of (48 + d)) = d"
    and "\<not> isspace (char_of (48 + d))"
  using assms by (auto simp: isdigit_def digit_val_def isspace_def)

lemma nat_digits_digits: "\<forall>c \<in> set (nat_digits n). isdigit c"
proof (induction n rule: nat_digits.induct)
  case (1 n)
  show ?case
    by (cases "n < 10") (use 1 in \<open>auto simp: nat_digits.simps [of n] digit_char\<close>)
qed

lemma nat_digits_nonempty: "nat_digits n \<noteq> []"
  by (subst nat_digits.simps) simp

lemma digits_val_snoc: "digits_val (ds @ [c]) = 10 * digits_val ds + digit_val c"
  by (simp add: digits_val_def)

lemma digits_val_nat_digits: "digits_val (nat_digits n) = n"
proof (induction n rule: nat_digits.induct)
  case (1 n)
  show ?case
  proof (cases "n < 10")
    case True
    then show ?thesis by (simp add: nat_digits.simps [of n] digits_val_def digit_char)
  next
    case False
    with 1 show ?thesis
      by (simp add: nat_digits.simps [of n] digits_val_snoc digit_char)
  qed
qed

lemma isdigit_not_sign: "isdigit c \<Longrightarrow> c \<noteq> CHR ''-'' \<and> c \<noteq> CHR ''+'' \<and> \<not> isspace c"
  by (auto simp: isdigit_def isspace_def)

lemma takeWhile_digits:
  "\<forall>c \<in> set ds. isdigit c \<Longrightarrow> takeWhile isdigit ds = ds"
  by (induction ds) auto

lemma strtol_nat_digits:
  assumes "int n \<le> LONG_MAX"
  shows "strtol (nat_digits n) = (int n, False, [])"
proof -
  obtain c cs where d: "nat_digits n = c # cs"
    using nat_digits_nonempty [of n] by (cases "nat_digits n") auto
  have dig: "\<forall>c \<in> set (c # cs). isdigit c" using nat_digits_digits [of n] by (simp only: d)
  have "dropWhile isspace (c # cs) = c # cs" using dig isdigit_not_sign by auto
  moreover have "split_sign (c # cs) = (False, c # cs)" using dig isdigit_not_sign [of c] by auto
  moreover have "takeWhile isdigit (c # cs) = c # cs" and "dropWhile isdigit (c # cs) = []"
    using dig by (auto simp: takeWhile_digits)
  moreover have "digits_val (c # cs) = n" using digits_val_nat_digits [of n] by (simp only: d)
  ultimately show ?thesis using assms by (simp add: strtol_def d Let_def)
qed

text \<open>Reading back what was printed: \<open>strtol\<close> inverts \<^verbatim>\<open>%d\<close> on the range of \<^verbatim>\<open>long\<close>.\<close>

lemma strtol_fmt_d:
  assumes "LONG_MIN \<le> i" and "i \<le> LONG_MAX"
  shows "strtol (fmt_d i) = (i, False, [])"
proof (cases "i < 0")
  case False
  with assms strtol_nat_digits [of "nat i"] show ?thesis by (simp add: fmt_d_def)
next
  case True
  let ?n = "nat (- i)"
  have dig: "takeWhile isdigit (nat_digits ?n) = nat_digits ?n"
    and emp: "dropWhile isdigit (nat_digits ?n) = []"
    using nat_digits_digits [of ?n] by (auto simp: takeWhile_digits)
  have sp: "\<not> isspace (CHR ''-'')" by (simp add: isspace_def)
  from True assms nat_digits_nonempty [of ?n] show ?thesis
    by (simp add: fmt_d_def strtol_def sp dig emp digits_val_nat_digits Let_def)
qed

end
