(* ===== verification/Ipc.thy ===== *)
theory Ipc
  imports CString
begin

text \<open>
  The IPC server (\<^verbatim>\<open>ipc_server.c\<close>): a client's read buffer, from which complete lines are
  cut and executed, and its write buffer, into which events are framed. The memory of a buffer is
  a list of bytes of the length of its allocation. The lines that are handed to
  \<^verbatim>\<open>parse_rc_line\<close> are the output of the model.
\<close>

record ipc_client =
  c_write_len :: nat
  c_write_size :: nat
  c_write_buffer :: string
  c_read_len :: u16
  c_read_cap :: nat
  c_read_discard :: bool
  c_read_buffer :: string
  c_connected :: bool

abbreviation (input) NUL :: char where "NUL \<equiv> CHR 0x00"
abbreviation (input) NL :: char where "NL \<equiv> CHR 0x0A"

definition ipc_magic :: string where "ipc_magic = ''cg-ipc''"

definition ipc_new_client :: ipc_client where
  "ipc_new_client =
     \<lparr>c_write_len = 0, c_write_size = 128, c_write_buffer = [], c_read_len = 0, c_read_cap = 64,
      c_read_discard = False, c_read_buffer = replicate 64 NUL, c_connected = True\<rparr>"

definition ipc_client_disconnect :: "ipc_client \<Rightarrow> ipc_client" where
  "ipc_client_disconnect c = c\<lparr>c_connected := False\<rparr>"

section \<open>Reading\<close>

text \<open>\<^verbatim>\<open>strchr(s, '\n')\<close>, as the distance to the newline; the string ends at its first NUL.\<close>

fun strchr_nl :: "string \<Rightarrow> nat option" where
  "strchr_nl [] = None"
| "strchr_nl (c # cs) =
     (if c = NL then Some 0 else if c = NUL then None else map_option Suc (strchr_nl cs))"

definition c_string :: "string \<Rightarrow> string" where
  "c_string m = takeWhile (\<lambda>c. c \<noteq> NUL) m"

lemma strchr_nl_less: "strchr_nl cs = Some i \<Longrightarrow> i < length cs"
  by (induction cs arbitrary: i) (auto split: if_splits)

text \<open>A line is executed unless it is empty or a comment.\<close>

definition is_command :: "string \<Rightarrow> bool" where
  "is_command line \<longleftrightarrow> line \<noteq> [] \<and> hd line \<noteq> CHR ''#''"

text \<open>
  The loop of \<^verbatim>\<open>ipc_client_handle_command\<close>: the state is the memory, the offset and the discard
  flag; the lines to execute are collected.
\<close>

function command_loop :: "string \<Rightarrow> nat \<Rightarrow> bool \<Rightarrow> string list \<times> string \<times> nat \<times> bool" where
  "command_loop m offset discard =
     (case strchr_nl (drop offset m) of
        None \<Rightarrow> ([], m, offset, discard)
      | Some i \<Rightarrow>
          let nl = offset + i in
          if discard then command_loop m (nl + 1) False
          else let m' = m[nl := NUL]; line = c_string (drop offset m');
                   (lines, r) = command_loop m' (nl + 1) False
               in (if is_command line then line # lines else lines, r))"
  by pat_completeness auto

termination
  by (relation "measure (\<lambda>(m, offset, _). length m - offset)") (auto dest!: strchr_nl_less)

declare command_loop.simps [simp del]

definition ipc_client_handle_command :: "ipc_client \<Rightarrow> string list \<times> ipc_client" where
  "ipc_client_handle_command c =
     (let len = unat (c_read_len c);
          m = (c_read_buffer c)[len := NUL];
          (lines, m, offset, discard) = command_loop m 0 (c_read_discard c);
          m = (if offset < len then take (len - offset) (drop offset m) @ drop (len - offset) m else m)
      in (lines, c\<lparr>c_read_buffer := m, c_read_discard := discard,
                   c_read_len := c_read_len c - of_nat offset\<rparr>))"

text \<open>The read buffer is doubled until it holds the new bytes; a capacity of 0 does not occur.\<close>

function grow_cap :: "nat \<Rightarrow> nat \<Rightarrow> nat" where
  "grow_cap need cap = (if 0 < cap \<and> need > cap - 1 then grow_cap need (cap * 2) else cap)"
  by pat_completeness auto

termination
  by (relation "measure (\<lambda>(need, cap). need + 1 - cap)") auto

declare grow_cap.simps [simp del]

text \<open>
  \<^verbatim>\<open>ipc_client_handle_readable\<close>, given the bytes that \<^verbatim>\<open>recv\<close> returns, all that
  \<^verbatim>\<open>FIONREAD\<close> announced. \<^verbatim>\<open>read_buf_len\<close> has 16 bits, so its sum with the number of bytes
  received is cut off.
\<close>

definition ipc_client_handle_readable :: "string \<Rightarrow> ipc_client \<Rightarrow> string list \<times> ipc_client" where
  "ipc_client_handle_readable bytes c =
     (let len = unat (c_read_len c);
          cap = grow_cap (length bytes + len) (c_read_cap c);
          m = take cap (c_read_buffer c @ replicate cap NUL)
      in if bytes = [] then ([], ipc_client_disconnect (c\<lparr>c_read_cap := cap, c_read_buffer := m\<rparr>))
         else ipc_client_handle_command
                (c\<lparr>c_read_cap := cap,
                   c_read_buffer := take len m @ bytes @ drop (len + length bytes) m,
                   c_read_len := c_read_len c + of_nat (length bytes)\<rparr>))"

section \<open>Writing\<close>

function grow_write :: "nat \<Rightarrow> nat \<Rightarrow> nat" where
  "grow_write need sz = (if 0 < sz \<and> need \<ge> sz then grow_write need (sz * 2) else sz)"
  by pat_completeness auto

termination
  by (relation "measure (\<lambda>(need, sz). need + 1 - sz)") auto

declare grow_write.simps [simp del]

definition ipc_send_event_client :: "string \<Rightarrow> ipc_client \<Rightarrow> ipc_client" where
  "ipc_send_event_client payload c =
     (let sz = grow_write (c_write_len c + length ipc_magic + length payload + 1) (c_write_size c);
          c = c\<lparr>c_write_size := sz\<rparr>
      in if sz > 4000000 then ipc_client_disconnect c
         else c\<lparr>c_write_buffer := take (c_write_len c) (c_write_buffer c) @ ipc_magic @ payload @ [NUL],
                c_write_len := c_write_len c + length ipc_magic + length payload + 1\<rparr>)"

text \<open>\<^verbatim>\<open>ipc_client_handle_writable\<close>, after \<^verbatim>\<open>write\<close> took the first \<open>n\<close> bytes.\<close>

definition ipc_client_handle_writable :: "nat \<Rightarrow> ipc_client \<Rightarrow> ipc_client" where
  "ipc_client_handle_writable n c =
     c\<lparr>c_write_buffer := drop n (c_write_buffer c), c_write_len := c_write_len c - n\<rparr>"

section \<open>The lines of a stream\<close>

text \<open>The complete lines of a text, and what follows the last newline.\<close>

fun lines_of :: "string \<Rightarrow> string list \<times> string" where
  "lines_of [] = ([], [])"
| "lines_of (c # cs) =
     (case lines_of cs of (ls, r) \<Rightarrow>
        if c = NL then ([] # ls, r)
        else case ls of [] \<Rightarrow> ([], c # r) | l # ls \<Rightarrow> ((c # l) # ls, r))"

lemma lines_of_no_nl: "NL \<notin> set s \<Longrightarrow> lines_of s = ([], s)"
  by (induction s) auto

lemma lines_of_line: "NL \<notin> set l \<Longrightarrow> lines_of (l @ NL # s) = (l # fst (lines_of s), snd (lines_of s))"
  by (induction l) (auto split: prod.split)

lemma lines_of_cases:
  obtains (rest) "NL \<notin> set s" | (line) l t where "s = l @ NL # t" "NL \<notin> set l"
  using split_list_first [of NL s] by blast

lemma lines_of_append:
  "lines_of (a @ b) =
     (fst (lines_of a) @ fst (lines_of (snd (lines_of a) @ b)), snd (lines_of (snd (lines_of a) @ b)))"
proof (induction "length a" arbitrary: a rule: less_induct)
  case less
  show ?case
  proof (cases a rule: lines_of_cases)
    case rest
    then show ?thesis by (simp add: lines_of_no_nl)
  next
    case (line l t)
    with less [of t] show ?thesis by (simp add: lines_of_line)
  qed
qed

lemma lines_of_rest: "NL \<notin> set (snd (lines_of s))"
  by (induction s) (auto split: prod.splits list.splits)

lemma lines_of_rest_subset: "set (snd (lines_of s)) \<subseteq> set s"
  by (induction s) (auto split: prod.splits list.splits)

lemma lines_of_rest_length: "length (snd (lines_of s)) \<le> length s"
  by (induction s) (auto split: prod.splits list.splits)

lemma lines_of_concat: "concat (map (\<lambda>l. l @ [NL]) (fst (lines_of s))) @ snd (lines_of s) = s"
proof (induction "length s" arbitrary: s rule: less_induct)
  case less
  show ?case
  proof (cases s rule: lines_of_cases)
    case rest
    then show ?thesis by (simp add: lines_of_no_nl)
  next
    case (line l t)
    with less [of t] show ?thesis by (simp add: lines_of_line)
  qed
qed

section \<open>The read side refines the lines of the stream\<close>

lemma strchr_nl_none: "NL \<notin> set s \<Longrightarrow> strchr_nl (s @ NUL # junk) = None"
  by (induction s) auto

lemma strchr_nl_some: "NL \<notin> set l \<Longrightarrow> NUL \<notin> set l \<Longrightarrow> strchr_nl (l @ NL # t) = Some (length l)"
  by (induction l) auto

lemma c_string_stop: "NUL \<notin> set l \<Longrightarrow> c_string (l @ NUL # t) = l"
  by (induction l) (auto simp: c_string_def)

text \<open>The loop executes the commands among the complete lines and stops behind the last newline.\<close>

lemma command_loop_lines:
  assumes "NUL \<notin> set s"
  shows "\<exists>pre'. command_loop (pre @ s @ NUL # junk) (length pre) False =
           (filter is_command (fst (lines_of s)), pre' @ snd (lines_of s) @ NUL # junk, length pre', False)
         \<and> length pre' + length (snd (lines_of s)) = length pre + length s"
  using assms
proof (induction "length s" arbitrary: s pre rule: less_induct)
  case less
  show ?case
  proof (cases s rule: lines_of_cases)
    case rest
    then have "command_loop (pre @ s @ NUL # junk) (length pre) False = ([], pre @ s @ NUL # junk, length pre, False)"
      by (subst command_loop.simps) (simp add: strchr_nl_none)
    with rest show ?thesis by (auto simp: lines_of_no_nl)
  next
    case (line l t)
    let ?m = "pre @ s @ NUL # junk" and ?pre = "pre @ l @ [NUL]"
    have nul: "NUL \<notin> set l" "NUL \<notin> set t" using less.prems line by auto
    have find: "strchr_nl (s @ NUL # junk) = Some (length l)"
      using line nul by (simp add: strchr_nl_some)
    have m': "?m[length pre + length l := NUL] = ?pre @ t @ NUL # junk"
      using line by (simp add: list_update_append)
    have str: "c_string (drop (length pre) (?pre @ t @ NUL # junk)) = l"
      using nul by (simp add: c_string_stop)
    obtain pre' where IH: "command_loop (?pre @ t @ NUL # junk) (length ?pre) False =
        (filter is_command (fst (lines_of t)), pre' @ snd (lines_of t) @ NUL # junk, length pre', False)"
      and len: "length pre' + length (snd (lines_of t)) = length ?pre + length t"
      using less.hyps [of t ?pre] line nul by auto
    have "command_loop ?m (length pre) False =
        (filter is_command (l # fst (lines_of t)), pre' @ snd (lines_of t) @ NUL # junk, length pre', False)"
      using IH m' str by (subst command_loop.simps) (simp add: find Let_def)
    with len line show ?thesis by (auto simp: lines_of_line)
  qed
qed

definition reads :: "ipc_client \<Rightarrow> string \<Rightarrow> bool" where
  "reads c pend \<longleftrightarrow>
     \<not> c_read_discard c \<and> unat (c_read_len c) = length pend \<and> length pend < c_read_cap c \<and>
     length (c_read_buffer c) = c_read_cap c \<and> take (length pend) (c_read_buffer c) = pend \<and>
     NUL \<notin> set pend \<and> NL \<notin> set pend"

lemma reads_new_client: "reads ipc_new_client []"
  by (simp add: reads_def ipc_new_client_def)

lemma grow_cap_bound: "0 < cap \<Longrightarrow> need < grow_cap need cap \<and> cap \<le> grow_cap need cap"
proof (induction need cap rule: grow_cap.induct)
  case (1 need cap)
  show ?case
  proof (cases "need > cap - 1")
    case True
    with 1 have "need < grow_cap need (cap * 2) \<and> cap * 2 \<le> grow_cap need (cap * 2)" by simp
    with True 1 show ?thesis by (subst (1 2) grow_cap.simps) auto
  next
    case False
    with 1 show ?thesis by (subst (1 2) grow_cap.simps) auto
  qed
qed

lemma ipc_client_handle_command_lines:
  assumes "c_read_buffer c = s @ x # junk" and "unat (c_read_len c) = length s" and "NUL \<notin> set s"
    and "\<not> c_read_discard c" and "c_read_cap c = length (c_read_buffer c)"
  shows "fst (ipc_client_handle_command c) = filter is_command (fst (lines_of s))"
    and "reads (snd (ipc_client_handle_command c)) (snd (lines_of s))"
proof -
  let ?r = "snd (lines_of s)"
  obtain pre where loop: "command_loop (s @ NUL # junk) 0 False =
      (filter is_command (fst (lines_of s)), pre @ ?r @ NUL # junk, length pre, False)"
    and len: "length pre + length ?r = length s"
    using command_loop_lines [OF assms(3), of "[]" junk] by auto
  have m: "(c_read_buffer c)[length s := NUL] = s @ NUL # junk"
    using assms(1) by (simp add: list_update_append)
  have step: "ipc_client_handle_command c = (filter is_command (fst (lines_of s)),
      c\<lparr>c_read_buffer := (if length pre < length s
                          then take (length s - length pre) (drop (length pre) (pre @ ?r @ NUL # junk))
                               @ drop (length s - length pre) (pre @ ?r @ NUL # junk)
                          else pre @ ?r @ NUL # junk),
        c_read_discard := False, c_read_len := c_read_len c - of_nat (length pre)\<rparr>)"
    using loop m assms(2,4) by (simp add: ipc_client_handle_command_def Let_def)
  then show "fst (ipc_client_handle_command c) = filter is_command (fst (lines_of s))" by simp
  have "length pre \<le> unat (c_read_len c)" using len assms(2) by simp
  then have "unat (c_read_len c - of_nat (length pre)) = length ?r"
    using len assms(2) by (simp add: unat_diff_of_nat)
  moreover have "\<not> length pre < length s \<Longrightarrow> ?r = []" using len by (cases ?r) auto
  ultimately show "reads (snd (ipc_client_handle_command c)) ?r"
    using step len assms(1,5) lines_of_rest_subset [of s] lines_of_rest [of s] assms(3)
    by (auto simp: reads_def)
qed

text \<open>
  One call of \<^verbatim>\<open>ipc_client_handle_readable\<close>: as long as the unfinished line and the new bytes
  stay below 65536 bytes, the commands executed are those among the lines that are now complete,
  and the rest waits in the buffer.
\<close>

lemma ipc_client_handle_readable_lines:
  assumes r: "reads c pend" and ne: "bytes \<noteq> []" and nul: "NUL \<notin> set bytes"
    and small: "length pend + length bytes < 65536"
  shows "fst (ipc_client_handle_readable bytes c) = filter is_command (fst (lines_of (pend @ bytes)))"
    and "reads (snd (ipc_client_handle_readable bytes c)) (snd (lines_of (pend @ bytes)))"
proof -
  let ?len = "unat (c_read_len c)"
  let ?cap = "grow_cap (length bytes + ?len) (c_read_cap c)"
  let ?m = "take ?cap (c_read_buffer c @ replicate ?cap NUL)"
  let ?c = "c\<lparr>c_read_cap := ?cap, c_read_buffer := take ?len ?m @ bytes @ drop (?len + length bytes) ?m,
              c_read_len := c_read_len c + of_nat (length bytes)\<rparr>"
  have len: "?len = length pend" and pos: "0 < c_read_cap c" using r by (auto simp: reads_def)
  have cap: "length bytes + ?len < ?cap" "c_read_cap c \<le> ?cap" using grow_cap_bound [OF pos] by auto
  have mlen: "length ?m = ?cap" by simp
  have take: "take ?len ?m = pend" using r cap by (simp add: reads_def take_take min_absorb2 min_absorb1)
  obtain x junk where d: "drop (?len + length bytes) ?m = x # junk"
    using cap mlen by (cases "drop (?len + length bytes) ?m") (auto simp: drop_eq_Nil)
  have buf: "c_read_buffer ?c = (pend @ bytes) @ x # junk" using take d by simp
  have l: "unat (c_read_len ?c) = length (pend @ bytes)"
    using small len by (simp add: unat_add_of_nat)
  have "length (x # junk) = ?cap - (?len + length bytes)" using d mlen by (metis length_drop)
  then have capeq: "c_read_cap ?c = length (c_read_buffer ?c)" using buf cap len by simp
  have "NUL \<notin> set (pend @ bytes)" and "\<not> c_read_discard ?c" using r nul by (auto simp: reads_def)
  note H = ipc_client_handle_command_lines [OF buf l this capeq]
  have "ipc_client_handle_readable bytes c = ipc_client_handle_command ?c"
    using ne by (simp add: ipc_client_handle_readable_def Let_def)
  then show "fst (ipc_client_handle_readable bytes c) = filter is_command (fst (lines_of (pend @ bytes)))"
    and "reads (snd (ipc_client_handle_readable bytes c)) (snd (lines_of (pend @ bytes)))"
    using H by simp_all
qed

text \<open>A client that receives a list of chunks.\<close>

fun receive_all :: "string list \<Rightarrow> ipc_client \<Rightarrow> string list \<times> ipc_client" where
  "receive_all [] c = ([], c)"
| "receive_all (b # bs) c =
     (case ipc_client_handle_readable b c of (ls, c) \<Rightarrow>
      case receive_all bs c of (ls', c) \<Rightarrow> (ls @ ls', c))"

text \<open>
  The commands executed depend only on the bytes sent, not on how they are cut into chunks, when
  chunks and lines stay below the bound.
\<close>

fun chunks_fit :: "string \<Rightarrow> string list \<Rightarrow> bool" where
  "chunks_fit pend [] = True"
| "chunks_fit pend (b # bs) \<longleftrightarrow>
     b \<noteq> [] \<and> NUL \<notin> set b \<and> length pend + length b < 65536 \<and> chunks_fit (snd (lines_of (pend @ b))) bs"

lemma receive_all_from:
  assumes "reads c pend" and "chunks_fit pend bs"
  shows "fst (receive_all bs c) = filter is_command (fst (lines_of (pend @ concat bs)))"
    and "reads (snd (receive_all bs c)) (snd (lines_of (pend @ concat bs)))"
proof -
  have "fst (receive_all bs c) = filter is_command (fst (lines_of (pend @ concat bs))) \<and>
        reads (snd (receive_all bs c)) (snd (lines_of (pend @ concat bs)))"
    using assms
  proof (induction bs arbitrary: c pend)
    case Nil
    then show ?case by (simp add: reads_def lines_of_no_nl)
  next
    case (Cons b bs)
    obtain ls c' where h: "ipc_client_handle_readable b c = (ls, c')" by (cases "ipc_client_handle_readable b c")
    have "ls = filter is_command (fst (lines_of (pend @ b)))" and "reads c' (snd (lines_of (pend @ b)))"
      using ipc_client_handle_readable_lines [OF Cons.prems(1), of b] Cons.prems(2) h by auto
    with Cons.IH [of c' "snd (lines_of (pend @ b))"] Cons.prems(2) h
    show ?case using lines_of_append [of "pend @ b" "concat bs"] by (simp add: case_prod_beta)
  qed
  then show "fst (receive_all bs c) = filter is_command (fst (lines_of (pend @ concat bs)))"
    and "reads (snd (receive_all bs c)) (snd (lines_of (pend @ concat bs)))" by blast+
qed

section \<open>Framing of events\<close>

definition frame :: "string \<Rightarrow> string" where
  "frame payload = ipc_magic @ payload @ [NUL]"

definition writes :: "ipc_client \<Rightarrow> string \<Rightarrow> bool" where
  "writes c out \<longleftrightarrow> c_connected c \<and> c_write_buffer c = out \<and> c_write_len c = length out \<and>
     length out < c_write_size c \<and> c_write_size c \<le> 4000000"

lemma grow_write_bound: "0 < sz \<Longrightarrow> need < grow_write need sz \<and> sz \<le> grow_write need sz"
proof (induction need sz rule: grow_write.induct)
  case (1 need sz)
  show ?case
  proof (cases "need \<ge> sz")
    case True
    with 1 have "need < grow_write need (sz * 2) \<and> sz * 2 \<le> grow_write need (sz * 2)" by simp
    with True 1 show ?thesis by (subst (1 2) grow_write.simps) auto
  next
    case False
    with 1 show ?thesis by (subst (1 2) grow_write.simps) auto
  qed
qed

lemma grow_write_upper: "0 < sz \<Longrightarrow> grow_write need sz \<le> max sz (2 * need)"
proof (induction need sz rule: grow_write.induct)
  case (1 need sz)
  show ?case
  proof (cases "need \<ge> sz")
    case True
    with 1 have "grow_write need (sz * 2) \<le> max (sz * 2) (2 * need)" by simp
    with True 1 show ?thesis by (subst grow_write.simps) auto
  next
    case False
    with 1 show ?thesis by (subst grow_write.simps) auto
  qed
qed

lemma ipc_send_event_client_frame:
  assumes "writes c out" and "2 * (length out + length payload + 7) \<le> 4000000"
  shows "writes (ipc_send_event_client payload c) (out @ frame payload)"
proof -
  let ?need = "c_write_len c + length ipc_magic + length payload + 1"
  let ?sz = "grow_write ?need (c_write_size c)"
  have pos: "0 < c_write_size c" using assms(1) by (auto simp: writes_def)
  have "?need < ?sz" using grow_write_bound [OF pos, of ?need] by simp
  moreover have "?sz \<le> max (c_write_size c) (2 * ?need)" using grow_write_upper [OF pos, of ?need] .
  then have "?sz \<le> 4000000" using assms by (auto simp: writes_def ipc_magic_def)
  ultimately show ?thesis
    using assms(1) by (auto simp: writes_def ipc_send_event_client_def frame_def Let_def)
qed

text \<open>Whatever is queued, the buffer never exceeds four million bytes; a client beyond is dropped.\<close>

lemma ipc_send_event_client_bound:
  assumes "c_connected c" and "writes c out"
  shows "writes (ipc_send_event_client payload c) (out @ frame payload) \<or>
         \<not> c_connected (ipc_send_event_client payload c)"
proof -
  let ?need = "c_write_len c + length ipc_magic + length payload + 1"
  have pos: "0 < c_write_size c" using assms(2) by (auto simp: writes_def)
  then show ?thesis
    using assms grow_write_bound [OF pos, of ?need]
    by (auto simp: writes_def ipc_send_event_client_def frame_def Let_def ipc_client_disconnect_def)
qed

lemma ipc_client_handle_writable_drop:
  "writes c out \<Longrightarrow> n \<le> length out \<Longrightarrow> writes (ipc_client_handle_writable n c) (drop n out)"
  by (auto simp: writes_def ipc_client_handle_writable_def)

text \<open>A reader of the stream recovers the payloads: it cuts at the NUL bytes and drops the magic.\<close>

function unframe :: "string \<Rightarrow> string list" where
  "unframe s = (if NUL \<in> set s
                then drop (length ipc_magic) (c_string s) # unframe (tl (dropWhile (\<lambda>c. c \<noteq> NUL) s))
                else [])"
  by pat_completeness auto

termination
proof (relation "measure length", goal_cases)
  case (2 s)
  then have "dropWhile (\<lambda>c. c \<noteq> NUL) s \<noteq> []" by (simp add: dropWhile_eq_Nil_conv)
  then show ?case using length_dropWhile_le [of "\<lambda>c. c \<noteq> NUL" s]
    by (cases "dropWhile (\<lambda>c. c \<noteq> NUL) s") auto
qed simp

declare unframe.simps [simp del]

lemma unframe_frame:
  assumes "NUL \<notin> set payload"
  shows "unframe (frame payload @ s) = payload # unframe s"
proof -
  have f: "frame payload @ s = (ipc_magic @ payload) @ NUL # s" by (simp add: frame_def)
  have nul: "NUL \<notin> set (ipc_magic @ payload)" using assms by (simp add: ipc_magic_def)
  have "dropWhile (\<lambda>c. c \<noteq> NUL) ((ipc_magic @ payload) @ NUL # s) = NUL # s"
    using nul by (subst dropWhile_append2) auto
  then show ?thesis
    unfolding f using c_string_stop [OF nul, of s]
    by (subst unframe.simps) simp
qed

lemma unframe_frames:
  "\<forall>p \<in> set ps. NUL \<notin> set p \<Longrightarrow> unframe (concat (map frame ps)) = ps"
  by (induction ps) (simp_all add: unframe_frame, simp add: unframe.simps)

section \<open>Whole sessions\<close>

lemma ipc_send_events:
  assumes "writes c out" and "2 * (length out + length (concat (map frame ps))) \<le> 4000000"
  shows "writes (fold ipc_send_event_client ps c) (out @ concat (map frame ps))"
  using assms
proof (induction ps arbitrary: c out)
  case Nil
  then show ?case by simp
next
  case (Cons p ps)
  have "length (frame p) = length p + 7" by (simp add: frame_def ipc_magic_def)
  then have "writes (ipc_send_event_client p c) (out @ frame p)"
    using Cons.prems by (intro ipc_send_event_client_frame) auto
  from Cons.IH [OF this] Cons.prems(2) show ?case by simp
qed

lemma writes_new_client: "writes ipc_new_client []"
  by (simp add: writes_def ipc_new_client_def)

text \<open>
  C12: The commands that a client's session executes are those among the complete lines of the
  bytes it sent, in order, without the empty lines and the comments; how the bytes were cut into
  packets does not matter, as long as no unfinished line and packet reach 65536 bytes together.
\<close>

theorem ipc_session_commands:
  assumes "chunks_fit [] bs"
  shows "fst (receive_all bs ipc_new_client) = filter is_command (fst (lines_of (concat bs)))"
  using receive_all_from(1) [OF reads_new_client assms] by simp

theorem ipc_session_commands_witness:
  "fst (receive_all [''quit'', [NL] @ ''#c'' @ [NL] @ ''ab'', ''ort'' @ [NL]] ipc_new_client) =
     filter is_command (fst (lines_of (concat [''quit'', [NL] @ ''#c'' @ [NL] @ ''ab'', ''ort'' @ [NL]])))
   \<and> filter is_command (fst (lines_of (concat [''quit'', [NL] @ ''#c'' @ [NL] @ ''ab'', ''ort'' @ [NL]])))
     = [''quit'', ''abort'']"
  using ipc_session_commands [of "[''quit'', [NL] @ ''#c'' @ [NL] @ ''ab'', ''ort'' @ [NL]]"]
  by (simp add: is_command_def)

text \<open>
  C13: The events queued for a new client and not yet written form a stream from which the reader
  gets every payload back, unchanged and in order.
\<close>

theorem ipc_events_roundtrip:
  assumes "\<forall>p \<in> set ps. NUL \<notin> set p" and "length (concat (map frame ps)) \<le> 2000000"
  shows "unframe (c_write_buffer (fold ipc_send_event_client ps ipc_new_client)) = ps"
proof -
  have "writes (fold ipc_send_event_client ps ipc_new_client) (concat (map frame ps))"
    using ipc_send_events [OF writes_new_client, of ps] assms(2) by simp
  then show ?thesis using unframe_frames [OF assms(1)] by (simp add: writes_def)
qed

theorem ipc_events_roundtrip_witness:
  "unframe (c_write_buffer (fold ipc_send_event_client [''a'', [], ''bc''] ipc_new_client)) = [''a'', [], ''bc'']"
  by (rule ipc_events_roundtrip) (simp_all add: frame_def ipc_magic_def)

lemma handle_command_empty:
  assumes "c_read_len c = 0" and "c_read_buffer c \<noteq> []" and "\<not> c_read_discard c"
  shows "ipc_client_handle_command c = ([], c\<lparr>c_read_buffer := (c_read_buffer c)[0 := NUL]\<rparr>)"
proof -
  obtain b bs where "c_read_buffer c = b # bs" using assms(2) by (cases "c_read_buffer c") auto
  moreover have "command_loop (NUL # bs) 0 False = ([], NUL # bs, 0, False)"
    by (subst command_loop.simps) simp
  ultimately show ?thesis using assms(1,3) by (simp add: ipc_client_handle_command_def)
qed

text \<open>
  C14: The counter of the read buffer has 16 bits. When the unfinished line and a packet add up to
  65536 bytes it wraps to 0: nothing is executed and all the bytes are forgotten.
\<close>

theorem ipc_read_len_wraps:
  assumes "reads c pend" and "length pend + length bytes = 65536" and "bytes \<noteq> []"
  shows "fst (ipc_client_handle_readable bytes c) = [] \<and> reads (snd (ipc_client_handle_readable bytes c)) []"
proof -
  let ?len = "unat (c_read_len c)"
  let ?cap = "grow_cap (length bytes + ?len) (c_read_cap c)"
  let ?m = "take ?cap (c_read_buffer c @ replicate ?cap NUL)"
  let ?b = "take ?len ?m @ bytes @ drop (?len + length bytes) ?m"
  let ?c = "c\<lparr>c_read_cap := ?cap, c_read_buffer := ?b,
              c_read_len := c_read_len c + of_nat (length bytes)\<rparr>"
  have len: "?len = length pend" and pos: "0 < c_read_cap c" and nd: "\<not> c_read_discard c"
    using assms(1) by (auto simp: reads_def)
  have cap: "length bytes + ?len < ?cap" using grow_cap_bound [OF pos] by auto
  have "c_read_len c + of_nat (length bytes) = of_nat (?len + length bytes)" by simp
  moreover have "?len + length bytes = 65536" using assms(2) len by (simp only:)
  ultimately have "c_read_len c + of_nat (length bytes) = of_nat 65536" by (simp only:)
  moreover have "(of_nat 65536 :: u16) = 0" by simp
  ultimately have zero: "c_read_len ?c = 0" by simp
  have "length ?m = ?cap" by simp
  moreover have "length (take n m @ bytes @ drop (n + length bytes) m) = length m"
    if "length bytes + n < length m" for n and m :: string using that by simp
  ultimately have "length ?b = ?cap" using cap by (simp only:)
  note bl = this
  have "?b \<noteq> []" using cap bl by (metis list.size(3) not_less0)
  then have ne: "c_read_buffer ?c \<noteq> []" by simp
  have "ipc_client_handle_readable bytes c = ipc_client_handle_command ?c"
    using assms(3) by (simp add: ipc_client_handle_readable_def Let_def)
  also have "\<dots> = ([], ?c\<lparr>c_read_buffer := (c_read_buffer ?c)[0 := NUL]\<rparr>)"
    using zero ne nd by (intro handle_command_empty) simp_all
  finally show ?thesis using bl zero cap nd by (simp add: reads_def)
qed

theorem ipc_read_len_wraps_witness:
  "fst (ipc_client_handle_readable (replicate 65535 CHR ''a'' @ [NL]) ipc_new_client) = []"
proof -
  define bytes where "bytes = replicate 65535 CHR ''a'' @ [NL]"
  have "length [] + length bytes = 65536" unfolding bytes_def length_append length_replicate by simp
  moreover have "bytes \<noteq> []" unfolding bytes_def by blast
  ultimately have "fst (ipc_client_handle_readable bytes ipc_new_client) = []"
    using ipc_read_len_wraps [OF reads_new_client] by blast
  then show ?thesis unfolding bytes_def .
qed

end
