(* ===== verification/CFloat.thy ===== *)
theory CFloat
  imports CString
begin

text \<open>
  IEEE single precision, as far as the sources use it: parsing with \<^verbatim>\<open>strtof\<close>, comparison,
  one multiplication (\<^verbatim>\<open>(float)width * percentage\<close>) and the cast back to \<^verbatim>\<open>int\<close>.
  A finite value is \<open>Fin m e\<close>, that is \<open>m * 2^e\<close>; \<open>round_f32\<close> rounds a rational to the nearest
  representable value, ties to even, with gradual underflow and overflow to infinity.
  The sign of zero is not kept: no comparison or cast of the sources can see it.
\<close>

datatype f32 = Fin int int | Inf bool | NaN

fun bitlen :: "nat \<Rightarrow> nat" where
  "bitlen n = (if n = 0 then 0 else Suc (bitlen (n div 2)))"

declare bitlen.simps [simp del]

lemma bitlen_numeral [simp]:
  "bitlen 0 = 0"
  "bitlen 1 = 1"
  "bitlen (Suc 0) = 1"
  "bitlen (numeral Num.One) = 1"
  "bitlen (numeral (Num.Bit0 n)) = Suc (bitlen (numeral n))"
  "bitlen (numeral (Num.Bit1 n)) = Suc (bitlen (numeral n))"
  by (simp_all add: bitlen.simps [of 0] bitlen.simps [of 1] bitlen.simps [of "Suc 0"]
      bitlen.simps [of "numeral (Num.Bit0 n)"] bitlen.simps [of "numeral (Num.Bit1 n)"]
      numeral_One)

text \<open>Division rounding half to even.\<close>

definition div_even :: "nat \<Rightarrow> nat \<Rightarrow> nat" where
  "div_even p q =
     (let d = p div q; r = p mod q
      in if 2 * r < q then d else if q < 2 * r then d + 1 else if even d then d else d + 1)"

text \<open>\<open>scaled p q e\<close> is the numerator and the denominator of \<open>p / q / 2^e\<close>.\<close>

definition scaled :: "nat \<Rightarrow> nat \<Rightarrow> int \<Rightarrow> nat \<times> nat" where
  "scaled p q e = (if 0 \<le> e then (p, q * 2 ^ nat e) else (p * 2 ^ nat (- e), q))"

definition f32_exponent :: "nat \<Rightarrow> nat \<Rightarrow> int" where
  "f32_exponent p q =
     (let e0 = int (bitlen p) - int (bitlen q) - 24; (a, b) = scaled p q e0;
          e = (if 2 ^ 24 * b \<le> a then e0 + 1 else e0)
      in max e (- 149))"

definition round_f32 :: "bool \<Rightarrow> nat \<Rightarrow> nat \<Rightarrow> f32" where
  "round_f32 neg p q =
     (if p = 0 then Fin 0 0 else
      let e = f32_exponent p q; (a, b) = scaled p q e; m = div_even a b;
          (m', e') = (if m = 2 ^ 24 then (2 ^ 23, e + 1) else (m, e))
      in if 104 < e' then Inf neg
         else if m' = 0 then Fin 0 0
         else Fin (if neg then - int m' else int m') e')"

definition f32_of_dyadic :: "int \<Rightarrow> int \<Rightarrow> f32" where
  "f32_of_dyadic m e =
     (if 0 \<le> e then round_f32 (m < 0) (nat \<bar>m\<bar> * 2 ^ nat e) 1
      else round_f32 (m < 0) (nat \<bar>m\<bar>) (2 ^ nat (- e)))"

definition f32_of_int :: "int \<Rightarrow> f32" where
  "f32_of_int i = f32_of_dyadic i 0"

fun f32_mult :: "f32 \<Rightarrow> f32 \<Rightarrow> f32" where
  "f32_mult (Fin m e) (Fin n f) = f32_of_dyadic (m * n) (e + f)"
| "f32_mult NaN _ = NaN"
| "f32_mult _ NaN = NaN"
| "f32_mult (Inf s) (Inf t) = Inf (s \<noteq> t)"
| "f32_mult (Inf s) (Fin m e) = (if m = 0 then NaN else Inf (s \<noteq> (m < 0)))"
| "f32_mult (Fin m e) (Inf s) = (if m = 0 then NaN else Inf (s \<noteq> (m < 0)))"

text \<open>Comparison of \<open>m * 2^e\<close> with \<open>n * 2^f\<close>: both are brought to the smaller exponent.\<close>

definition dyadic_less :: "int \<Rightarrow> int \<Rightarrow> int \<Rightarrow> int \<Rightarrow> bool" where
  "dyadic_less m e n f \<longleftrightarrow> m * 2 ^ nat (e - min e f) < n * 2 ^ nat (f - min e f)"

fun f32_less :: "f32 \<Rightarrow> f32 \<Rightarrow> bool" where
  "f32_less (Fin m e) (Fin n f) = dyadic_less m e n f"
| "f32_less (Inf s) (Fin n f) = s"
| "f32_less (Fin m e) (Inf s) = (\<not> s)"
| "f32_less (Inf s) (Inf t) = (s \<and> \<not> t)"
| "f32_less NaN _ = False"
| "f32_less _ NaN = False"

fun f32_eq :: "f32 \<Rightarrow> f32 \<Rightarrow> bool" where
  "f32_eq (Fin m e) (Fin n f) = (\<not> dyadic_less m e n f \<and> \<not> dyadic_less n f m e)"
| "f32_eq (Inf s) (Inf t) = (s = t)"
| "f32_eq _ _ = False"

definition f32_le :: "f32 \<Rightarrow> f32 \<Rightarrow> bool" where
  "f32_le a b \<longleftrightarrow> f32_less a b \<or> f32_eq a b"

text \<open>
  The cast \<^verbatim>\<open>(int)f\<close> truncates towards zero; it is undefined in C for a value outside the
  range of \<^verbatim>\<open>int\<close>, for an infinity and for NaN (\<open>None\<close>).
\<close>

fun f32_to_int :: "f32 \<Rightarrow> int option" where
  "f32_to_int (Fin m e) =
     (let v = (if 0 \<le> e then m * 2 ^ nat e else sgn m * (\<bar>m\<bar> div 2 ^ nat (- e)))
      in if INT_MIN \<le> v \<and> v \<le> INT_MAX then Some v else None)"
| "f32_to_int _ = None"

abbreviation (input) FLT_MIN :: f32 where "FLT_MIN \<equiv> Fin 8388608 (- 149)"

definition f32_half :: f32 where "f32_half = Fin 8388608 (- 24)"

section \<open>strtof\<close>

definition to_lower :: "char \<Rightarrow> char" where
  "to_lower c = (let n = of_char c :: nat in if 65 \<le> n \<and> n \<le> 90 then char_of (n + 32) else c)"

fun strip_prefix_ci :: "string \<Rightarrow> string \<Rightarrow> string option" where
  "strip_prefix_ci [] s = Some s"
| "strip_prefix_ci (p # ps) [] = None"
| "strip_prefix_ci (p # ps) (c # cs) =
     (if to_lower c = p then strip_prefix_ci ps cs else None)"

definition isxdigit :: "char \<Rightarrow> bool" where
  "isxdigit c \<longleftrightarrow> isdigit c \<or> to_lower c \<in> set ''abcdef''"

definition xdigit_val :: "char \<Rightarrow> nat" where
  "xdigit_val c = (if isdigit c then digit_val c else of_char (to_lower c) - 87)"

definition base_val :: "nat \<Rightarrow> (char \<Rightarrow> nat) \<Rightarrow> string \<Rightarrow> nat" where
  "base_val b v ds = foldl (\<lambda>n c. b * n + v c) 0 ds"

text \<open>An optional exponent \<^verbatim>\<open>e[+-]ddd\<close>; without a digit it is not part of the number.\<close>

definition parse_exponent :: "char \<Rightarrow> string \<Rightarrow> int \<times> string" where
  "parse_exponent mark s =
     (case s of
        [] \<Rightarrow> (0, s)
      | c # cs \<Rightarrow>
          if to_lower c \<noteq> mark then (0, s)
          else let (neg, r) = split_sign cs; ds = takeWhile isdigit r
               in if ds = [] then (0, s)
                  else (if neg then - int (digits_val ds) else int (digits_val ds),
                        dropWhile isdigit r))"

text \<open>Digits with an optional radix point: \<open>(integer digits, fraction digits, rest)\<close>.\<close>

definition split_mantissa :: "(char \<Rightarrow> bool) \<Rightarrow> string \<Rightarrow> string \<times> string \<times> string" where
  "split_mantissa isd s =
     (let ip = takeWhile isd s; r = dropWhile isd s in
      case r of
        [] \<Rightarrow> (ip, [], r)
      | c # cs \<Rightarrow> if c = CHR ''.'' then (ip, takeWhile isd cs, dropWhile isd cs) else (ip, [], r))"

text \<open>
  \<open>ratio base m k\<close> is \<open>m * base^k\<close> as a fraction. \<open>ERANGE\<close> is raised on overflow and when the
  result is subnormal (or zero) and inexact.
\<close>

definition ratio :: "nat \<Rightarrow> nat \<Rightarrow> int \<Rightarrow> nat \<times> nat" where
  "ratio b m k = (if 0 \<le> k then (m * b ^ nat k, 1) else (m, b ^ nat (- k)))"

definition inexact_tiny :: "nat \<Rightarrow> nat \<Rightarrow> bool" where
  "inexact_tiny p q \<longleftrightarrow>
     p \<noteq> 0 \<and> p * 2 ^ 126 < q \<and> (p * 2 ^ 149) mod q \<noteq> 0"

definition strtof_number :: "bool \<Rightarrow> nat \<Rightarrow> nat \<Rightarrow> f32 \<times> bool" where
  "strtof_number neg p q =
     (let r = round_f32 neg p q in (r, r = Inf neg \<or> inexact_tiny p q))"

definition strtof_dec :: "bool \<Rightarrow> string \<Rightarrow> (f32 \<times> bool \<times> string) option" where
  "strtof_dec neg s =
     (let (ip, fp, r) = split_mantissa isdigit s in
      if ip = [] \<and> fp = [] then None
      else let (ex, r') = parse_exponent (CHR ''e'') r;
               (p, q) = ratio 10 (digits_val (ip @ fp)) (ex - int (length fp));
               (v, er) = strtof_number neg p q
           in Some (v, er, r'))"

definition strtof_hex :: "bool \<Rightarrow> string \<Rightarrow> (f32 \<times> bool \<times> string) option" where
  "strtof_hex neg s =
     (case strip_prefix_ci ''0x'' s of
        None \<Rightarrow> None
      | Some t \<Rightarrow>
          let (ip, fp, r) = split_mantissa isxdigit t in
          if ip = [] \<and> fp = [] then None
          else let (ex, r') = parse_exponent (CHR ''p'') r;
                   (p, q) = ratio 2 (base_val 16 xdigit_val (ip @ fp)) (ex - 4 * int (length fp));
                   (v, er) = strtof_number neg p q
               in Some (v, er, r'))"

definition strtof_special :: "bool \<Rightarrow> string \<Rightarrow> (f32 \<times> bool \<times> string) option" where
  "strtof_special neg s =
     (case strip_prefix_ci ''infinity'' s of
        Some r \<Rightarrow> Some (Inf neg, False, r)
      | None \<Rightarrow>
         (case strip_prefix_ci ''inf'' s of
            Some r \<Rightarrow> Some (Inf neg, False, r)
          | None \<Rightarrow> map_option (\<lambda>r. (NaN, False, r)) (strip_prefix_ci ''nan'' s)))"

text \<open>\<open>strtof s = (value, ERANGE raised, rest)\<close>.\<close>

definition strtof :: "string \<Rightarrow> f32 \<times> bool \<times> string" where
  "strtof s =
     (let (neg, r) = split_sign (dropWhile isspace s) in
      case strtof_hex neg r of
        Some x \<Rightarrow> x
      | None \<Rightarrow>
         (case strtof_dec neg r of
            Some x \<Rightarrow> x
          | None \<Rightarrow> (case strtof_special neg r of Some x \<Rightarrow> x | None \<Rightarrow> (Fin 0 0, False, s))))"

text \<open>Equations that evaluate the model of \<open>strtof\<close> and of the arithmetic on numerals.\<close>

lemmas f32_eval = f32_of_int_def f32_of_dyadic_def round_f32_def f32_exponent_def scaled_def
  div_even_def dyadic_less_def f32_le_def f32_half_def

lemmas strtol_eval = strtol_def isdigit_def isspace_def digits_val_def digit_val_def

lemmas strtof_eval = f32_eval strtol_eval strtof_def strtof_hex_def strtof_dec_def
  strtof_special_def split_mantissa_def strtof_number_def ratio_def parse_exponent_def
  inexact_tiny_def to_lower_def isxdigit_def base_val_def xdigit_val_def

section \<open>Facts used by the tile arithmetic\<close>

text \<open>
  Splitting computes \<^verbatim>\<open>(int)((float)w * p)\<close>. For \<open>0 \<le> w < 2^24\<close> the first cast is exact, and
  since rounding is monotone the result stays below \<open>w\<close> whenever \<open>p \<le> 1\<close>.
\<close>

lemma div_even_bounds:
  assumes "0 < q"
  shows "p div q \<le> div_even p q" and "div_even p q \<le> p div q + 1"
  by (simp_all add: div_even_def Let_def)

lemma div_even_le:
  assumes "0 < q" and "p \<le> k * q"
  shows "div_even p q \<le> k"
proof -
  have dm: "p div q * q + p mod q = p" by simp
  have lt: "p mod q < q" using assms(1) by simp
  show ?thesis
  proof (cases "p mod q = 0")
    case True
    then have "p div q * q \<le> k * q" using assms(2) dm by linarith
    with True assms(1) show ?thesis by (simp add: div_even_def Let_def)
  next
    case False
    have "p div q < k"
    proof (rule ccontr)
      assume "\<not> p div q < k"
      then have "k * q \<le> p div q * q" by simp
      with False dm assms(2) show False by linarith
    qed
    with div_even_bounds(2) [OF assms(1), of p] show ?thesis by linarith
  qed
qed

end
