(* ===== verification/Config_Types.thy ===== *)
theory Config_Types
  imports CFloat
begin

text \<open>
  The plain data of the program: boxes, the configuration structs filled by the parser
  (\<^verbatim>\<open>output.h\<close>, \<^verbatim>\<open>input_manager.h\<close>, \<^verbatim>\<open>message.h\<close>) and the key bindings
  with their parameter union (\<^verbatim>\<open>keybinding.h\<close>). Constants of wlroots, libinput and xkbcommon
  carry the values of their public headers.
\<close>

section \<open>Boxes and outputs\<close>

record wlr_box =
  box_x :: int
  box_y :: int
  box_width :: int
  box_height :: int

definition wlr_box_empty :: "wlr_box \<Rightarrow> bool" where
  "wlr_box_empty b \<longleftrightarrow> box_width b \<le> 0 \<or> box_height b \<le> 0"

datatype output_role = OUTPUT_ROLE_PERIPHERAL | OUTPUT_ROLE_PERMANENT | OUTPUT_ROLE_DEFAULT

datatype output_status = OUTPUT_ENABLE | OUTPUT_DISABLE | OUTPUT_DEFAULT

record cg_output_config =
  oc_status :: output_status
  oc_role :: output_role
  oc_pos :: wlr_box
  oc_output_name :: "string option"
  oc_refresh_rate :: f32
  oc_scale :: f32
  oc_priority :: int
  oc_angle :: int

section \<open>Input devices\<close>

record calibration_matrix =
  cm_configured :: bool
  cm_matrix :: "f32 list"

record cg_input_config =
  ic_identifier :: "string option"
  ic_accel_profile :: int
  ic_calibration_matrix :: calibration_matrix
  ic_click_method :: int
  ic_drag :: int
  ic_drag_lock :: int
  ic_dwt :: int
  ic_left_handed :: int
  ic_middle_emulation :: int
  ic_natural_scroll :: int
  ic_pointer_accel :: f32
  ic_scroll_factor :: f32
  ic_scroll_button :: int
  ic_scroll_method :: int
  ic_send_events :: int
  ic_tap :: int
  ic_tap_button_map :: int
  ic_mapped_to_output :: "string option"
  ic_enable_keybindings :: int
  ic_repeat_delay :: int
  ic_repeat_rate :: int

abbreviation (input) LIBINPUT_CONFIG_ACCEL_PROFILE_FLAT :: int where "LIBINPUT_CONFIG_ACCEL_PROFILE_FLAT \<equiv> 1"
abbreviation (input) LIBINPUT_CONFIG_ACCEL_PROFILE_ADAPTIVE :: int where "LIBINPUT_CONFIG_ACCEL_PROFILE_ADAPTIVE \<equiv> 2"
abbreviation (input) LIBINPUT_CONFIG_CLICK_METHOD_NONE :: int where "LIBINPUT_CONFIG_CLICK_METHOD_NONE \<equiv> 0"
abbreviation (input) LIBINPUT_CONFIG_CLICK_METHOD_BUTTON_AREAS :: int where "LIBINPUT_CONFIG_CLICK_METHOD_BUTTON_AREAS \<equiv> 1"
abbreviation (input) LIBINPUT_CONFIG_CLICK_METHOD_CLICKFINGER :: int where "LIBINPUT_CONFIG_CLICK_METHOD_CLICKFINGER \<equiv> 2"
abbreviation (input) LIBINPUT_CONFIG_DRAG_DISABLED :: int where "LIBINPUT_CONFIG_DRAG_DISABLED \<equiv> 0"
abbreviation (input) LIBINPUT_CONFIG_DRAG_ENABLED :: int where "LIBINPUT_CONFIG_DRAG_ENABLED \<equiv> 1"
abbreviation (input) LIBINPUT_CONFIG_DRAG_LOCK_DISABLED :: int where "LIBINPUT_CONFIG_DRAG_LOCK_DISABLED \<equiv> 0"
abbreviation (input) LIBINPUT_CONFIG_DRAG_LOCK_ENABLED :: int where "LIBINPUT_CONFIG_DRAG_LOCK_ENABLED \<equiv> 1"
abbreviation (input) LIBINPUT_CONFIG_DWT_DISABLED :: int where "LIBINPUT_CONFIG_DWT_DISABLED \<equiv> 0"
abbreviation (input) LIBINPUT_CONFIG_DWT_ENABLED :: int where "LIBINPUT_CONFIG_DWT_ENABLED \<equiv> 1"
abbreviation (input) LIBINPUT_CONFIG_SEND_EVENTS_ENABLED :: int where "LIBINPUT_CONFIG_SEND_EVENTS_ENABLED \<equiv> 0"
abbreviation (input) LIBINPUT_CONFIG_SEND_EVENTS_DISABLED :: int where "LIBINPUT_CONFIG_SEND_EVENTS_DISABLED \<equiv> 1"
abbreviation (input) LIBINPUT_CONFIG_SEND_EVENTS_DISABLED_ON_EXTERNAL_MOUSE :: int where "LIBINPUT_CONFIG_SEND_EVENTS_DISABLED_ON_EXTERNAL_MOUSE \<equiv> 2"
abbreviation (input) LIBINPUT_CONFIG_MIDDLE_EMULATION_DISABLED :: int where "LIBINPUT_CONFIG_MIDDLE_EMULATION_DISABLED \<equiv> 0"
abbreviation (input) LIBINPUT_CONFIG_MIDDLE_EMULATION_ENABLED :: int where "LIBINPUT_CONFIG_MIDDLE_EMULATION_ENABLED \<equiv> 1"
abbreviation (input) LIBINPUT_CONFIG_SCROLL_NO_SCROLL :: int where "LIBINPUT_CONFIG_SCROLL_NO_SCROLL \<equiv> 0"
abbreviation (input) LIBINPUT_CONFIG_SCROLL_2FG :: int where "LIBINPUT_CONFIG_SCROLL_2FG \<equiv> 1"
abbreviation (input) LIBINPUT_CONFIG_SCROLL_EDGE :: int where "LIBINPUT_CONFIG_SCROLL_EDGE \<equiv> 2"
abbreviation (input) LIBINPUT_CONFIG_SCROLL_ON_BUTTON_DOWN :: int where "LIBINPUT_CONFIG_SCROLL_ON_BUTTON_DOWN \<equiv> 4"
abbreviation (input) LIBINPUT_CONFIG_TAP_DISABLED :: int where "LIBINPUT_CONFIG_TAP_DISABLED \<equiv> 0"
abbreviation (input) LIBINPUT_CONFIG_TAP_ENABLED :: int where "LIBINPUT_CONFIG_TAP_ENABLED \<equiv> 1"
abbreviation (input) LIBINPUT_CONFIG_TAP_MAP_LRM :: int where "LIBINPUT_CONFIG_TAP_MAP_LRM \<equiv> 0"
abbreviation (input) LIBINPUT_CONFIG_TAP_MAP_LMR :: int where "LIBINPUT_CONFIG_TAP_MAP_LMR \<equiv> 1"

section \<open>Messages\<close>

datatype cg_message_anchor =
    CG_MESSAGE_TOP_LEFT | CG_MESSAGE_TOP_CENTER | CG_MESSAGE_TOP_RIGHT
  | CG_MESSAGE_BOTTOM_LEFT | CG_MESSAGE_BOTTOM_CENTER | CG_MESSAGE_BOTTOM_RIGHT
  | CG_MESSAGE_CENTER | CG_MESSAGE_NOPT

record cg_message_config =
  mc_font :: "string option"
  mc_display_time :: int
  mc_bg_color :: "f32 list"
  mc_fg_color :: "f32 list"
  mc_enabled :: int
  mc_anchor :: cg_message_anchor

section \<open>Key bindings\<close>

datatype keybinding_action =
    KEYBINDING_RUN_COMMAND
  | KEYBINDING_CLOSE_VIEW
  | KEYBINDING_SPLIT_VERTICAL
  | KEYBINDING_SPLIT_HORIZONTAL
  | KEYBINDING_CHANGE_TTY
  | KEYBINDING_LAYOUT_FULLSCREEN
  | KEYBINDING_CYCLE_VIEWS
  | KEYBINDING_CYCLE_TILES
  | KEYBINDING_CYCLE_OUTPUT
  | KEYBINDING_CONFIGURE_OUTPUT
  | KEYBINDING_CONFIGURE_MESSAGE
  | KEYBINDING_CONFIGURE_INPUT
  | KEYBINDING_QUIT
  | KEYBINDING_NOOP
  | KEYBINDING_SWITCH_OUTPUT
  | KEYBINDING_SWITCH_WORKSPACE
  | KEYBINDING_SWITCH_MODE
  | KEYBINDING_SWITCH_DEFAULT_MODE
  | KEYBINDING_RESIZE_TILE_HORIZONTAL
  | KEYBINDING_RESIZE_TILE_VERTICAL
  | KEYBINDING_MOVE_TO_TILE
  | KEYBINDING_MOVE_TO_WORKSPACE
  | KEYBINDING_MOVE_TO_OUTPUT
  | KEYBINDING_MOVE_VIEW_TO_TILE
  | KEYBINDING_MOVE_VIEW_TO_WORKSPACE
  | KEYBINDING_MOVE_VIEW_TO_OUTPUT
  | KEYBINDING_MOVE_VIEW_TO_CYCLE_OUTPUT
  | KEYBINDING_DUMP
  | KEYBINDING_SHOW_TIME
  | KEYBINDING_SHOW_INFO
  | KEYBINDING_DISPLAY_MESSAGE
  | KEYBINDING_SEND_CUSTOM_EVENT
  | KEYBINDING_CURSOR
  | KEYBINDING_SWAP_LEFT
  | KEYBINDING_SWAP_RIGHT
  | KEYBINDING_SWAP_TOP
  | KEYBINDING_SWAP_BOTTOM
  | KEYBINDING_SWAP
  | KEYBINDING_MERGE_LEFT
  | KEYBINDING_MERGE_RIGHT
  | KEYBINDING_MERGE_TOP
  | KEYBINDING_MERGE_BOTTOM
  | KEYBINDING_FOCUS_LEFT
  | KEYBINDING_FOCUS_RIGHT
  | KEYBINDING_FOCUS_TOP
  | KEYBINDING_FOCUS_BOTTOM
  | KEYBINDING_DEFINEKEY
  | KEYBINDING_SETMODECURSOR
  | KEYBINDING_BACKGROUND
  | KEYBINDING_DEFINEMODE
  | KEYBINDING_WORKSPACES

text \<open>
  The union \<^verbatim>\<open>keybinding_params\<close> has one constructor per member, \<open>Data_none\<close> for the value
  \<^verbatim>\<open>{.c = NULL}\<close> that \<^verbatim>\<open>parse_command\<close> starts from. A binding can hold another one
  (\<^verbatim>\<open>data.kb\<close>, the argument of \<^verbatim>\<open>definekey\<close>).
\<close>

datatype keybinding =
  Keybinding (kb_mode: u16) (kb_modifiers: u32) (kb_key: u32)
    (kb_action: keybinding_action) (kb_data: keybinding_params)
and keybinding_params =
    Data_none
  | Data_c string
  | Data_cs string string
  | Data_u u32
  | Data_is u32 u32
  | Data_us u32 u32 u32
  | Data_i int
  | Data_b bool
  | Data_f f32
  | Data_color f32 f32 f32
  | Data_kb keybinding
  | Data_o_cfg cg_output_config
  | Data_i_cfg cg_input_config
  | Data_m_cfg cg_message_config

abbreviation (input) WLR_MODIFIER_SHIFT :: u32 where "WLR_MODIFIER_SHIFT \<equiv> 1"
abbreviation (input) WLR_MODIFIER_CTRL :: u32 where "WLR_MODIFIER_CTRL \<equiv> 4"
abbreviation (input) WLR_MODIFIER_ALT :: u32 where "WLR_MODIFIER_ALT \<equiv> 8"
abbreviation (input) WLR_MODIFIER_MOD2 :: u32 where "WLR_MODIFIER_MOD2 \<equiv> 16"
abbreviation (input) WLR_MODIFIER_MOD3 :: u32 where "WLR_MODIFIER_MOD3 \<equiv> 32"
abbreviation (input) WLR_MODIFIER_LOGO :: u32 where "WLR_MODIFIER_LOGO \<equiv> 64"
abbreviation (input) WLR_MODIFIER_MOD5 :: u32 where "WLR_MODIFIER_MOD5 \<equiv> 128"

end
