(* ===== verification/Keybindings.thy ===== *)
theory Keybindings
  imports Config_Types
begin

text \<open>
  The table of key bindings (\<^verbatim>\<open>keybinding.c\<close>). Bindings live at addresses, the table is the
  growing array of \<^verbatim>\<open>struct keybinding_list\<close>; freeing twice, or reading a freed binding, is
  the fault \<open>None\<close>. The array holds as many slots as were allocated, so a write past them is a
  fault too. Whether \<^verbatim>\<open>realloc\<close> succeeds is an argument.
\<close>

unbundle bit_operations_syntax

type_synonym kb_ptr = nat

text \<open>A binding in memory; \<open>kc_kb\<close> is the pointer \<^verbatim>\<open>data.kb\<close>, the other parameters are in \<open>kc_data\<close>.\<close>

record kb_cell =
  kc_mode :: u16
  kc_modifiers :: u32
  kc_key :: u32
  kc_action :: keybinding_action
  kc_data :: keybinding_params
  kc_kb :: "kb_ptr option"

type_synonym kb_heap = "kb_ptr \<rightharpoonup> kb_cell"

record keybinding_list =
  kl_length :: u32
  kl_capacity :: u32
  kl_array :: "kb_ptr option list"

section \<open>Operations\<close>

definition keybinding_list_init :: keybinding_list where
  "keybinding_list_init = \<lparr>kl_length = 0, kl_capacity = 1, kl_array = [None]\<rparr>"

definition keybinding_resize :: "bool \<Rightarrow> keybinding_list \<Rightarrow> int \<times> keybinding_list" where
  "keybinding_resize realloc_ok l =
     (if kl_length l = kl_capacity l
      then let l = l\<lparr>kl_capacity := kl_capacity l * 2\<rparr>
           in if \<not> realloc_ok then (- 1, l)
              else (0, l\<lparr>kl_array := take (unat (kl_capacity l))
                           (kl_array l @ replicate (unat (kl_capacity l)) None)\<rparr>)
      else (0, l))"

text \<open>The search for a binding with the same modifiers, mode and key, from slot \<open>i\<close> on.\<close>

definition kb_match :: "u32 \<Rightarrow> u16 \<Rightarrow> u32 \<Rightarrow> kb_cell \<Rightarrow> bool" where
  "kb_match modifiers mode key c \<longleftrightarrow>
     modifiers XOR kc_modifiers c = 0 \<and> mode = kc_mode c \<and> key = kc_key c"

fun find_slot :: "(kb_cell \<Rightarrow> bool) \<Rightarrow> nat \<Rightarrow> kb_ptr option list \<Rightarrow> kb_heap \<Rightarrow> nat option option" where
  "find_slot P i [] h = Some None"
| "find_slot P i (None # ps) h = None"
| "find_slot P i (Some p # ps) h =
     (case h p of
        None \<Rightarrow> None
      | Some c \<Rightarrow> if P c then Some (Some i) else find_slot P (Suc i) ps h)"

definition find_keybinding :: "keybinding_list \<Rightarrow> u32 \<Rightarrow> u16 \<Rightarrow> u32 \<Rightarrow> kb_heap \<Rightarrow> nat option option" where
  "find_keybinding l modifiers mode key h =
     (if unat (kl_length l) \<le> length (kl_array l)
      then find_slot (kb_match modifiers mode key) 0 (take (unat (kl_length l)) (kl_array l)) h
      else None)"

text \<open>
  \<^verbatim>\<open>keybinding_free\<close>: the strings and configurations of a binding belong to it alone and go with
  it; a nested binding is freed as well when \<open>recursive\<close>. The fuel bounds the nesting.
\<close>

fun keybinding_free :: "nat \<Rightarrow> kb_ptr \<Rightarrow> bool \<Rightarrow> kb_heap \<Rightarrow> kb_heap option" where
  "keybinding_free 0 p recursive h = None"
| "keybinding_free (Suc fuel) p recursive h = do {
     c \<leftarrow> h p;
     h \<leftarrow> (if kc_action c = KEYBINDING_DEFINEKEY \<and> recursive
           then (case kc_kb c of None \<Rightarrow> Some h | Some q \<Rightarrow> keybinding_free fuel q True h)
           else Some h);
     if h p = None then None else Some (h(p := None))
   }"

definition keybinding_list_push ::
    "nat \<Rightarrow> bool \<Rightarrow> keybinding_list \<Rightarrow> kb_ptr \<Rightarrow> kb_heap \<Rightarrow> (int \<times> keybinding_list \<times> kb_heap) option" where
  "keybinding_list_push fuel realloc_ok l p h =
     (case keybinding_resize realloc_ok l of (r, l) \<Rightarrow>
      if r \<noteq> 0 then Some (- 1, l, h)
      else do {
        c \<leftarrow> h p;
        found \<leftarrow> find_keybinding l (kc_modifiers c) (kc_mode c) (kc_key c) h;
        case found of
          Some i \<Rightarrow> do {
            old \<leftarrow> kl_array l ! i;
            h \<leftarrow> keybinding_free fuel old True h;
            Some (0, l\<lparr>kl_array := (kl_array l)[i := Some p]\<rparr>, h)
          }
        | None \<Rightarrow>
            if unat (kl_length l) < length (kl_array l)
            then Some (0, l\<lparr>kl_array := (kl_array l)[unat (kl_length l) := Some p],
                            kl_length := kl_length l + 1\<rparr>, h)
            else None
      })"

fun free_slots :: "nat \<Rightarrow> kb_ptr option list \<Rightarrow> kb_heap \<Rightarrow> kb_heap option" where
  "free_slots fuel [] h = Some h"
| "free_slots fuel (None # ps) h = None"
| "free_slots fuel (Some p # ps) h = do { h \<leftarrow> keybinding_free fuel p True h; free_slots fuel ps h }"

definition keybinding_list_free :: "nat \<Rightarrow> keybinding_list \<Rightarrow> kb_heap \<Rightarrow> kb_heap option" where
  "keybinding_list_free fuel l h =
     (if unat (kl_length l) \<le> length (kl_array l)
      then free_slots fuel (take (unat (kl_length l)) (kl_array l)) h else None)"

section \<open>Ownership\<close>

text \<open>The addresses that a recursive free of \<open>p\<close> returns to the allocator.\<close>

fun kb_tree :: "nat \<Rightarrow> kb_heap \<Rightarrow> kb_ptr \<Rightarrow> kb_ptr list option" where
  "kb_tree 0 h p = None"
| "kb_tree (Suc fuel) h p = do {
     c \<leftarrow> h p;
     if kc_action c = KEYBINDING_DEFINEKEY
     then (case kc_kb c of None \<Rightarrow> Some [p] | Some q \<Rightarrow> map_option ((#) p) (kb_tree fuel h q))
     else Some [p]
   }"

fun kb_forest :: "nat \<Rightarrow> kb_heap \<Rightarrow> kb_ptr list \<Rightarrow> kb_ptr list option" where
  "kb_forest fuel h [] = Some []"
| "kb_forest fuel h (p # ps) = do {
     ts \<leftarrow> kb_tree fuel h p;
     us \<leftarrow> kb_forest fuel h ps;
     Some (ts @ us)
   }"

definition remove_cells :: "kb_ptr list \<Rightarrow> kb_heap \<Rightarrow> kb_heap" where
  "remove_cells ps h = h |` (- set ps)"

lemma kb_tree_Suc:
  assumes "kb_tree (Suc fuel) h p = Some ts"
  obtains (leaf) c where "h p = Some c" "\<not> (kc_action c = KEYBINDING_DEFINEKEY \<and> kc_kb c \<noteq> None)" "ts = [p]"
  | (node) c q us where "h p = Some c" "kc_action c = KEYBINDING_DEFINEKEY" "kc_kb c = Some q"
      "kb_tree fuel h q = Some us" "ts = p # us"
proof -
  from assms obtain c where c: "h p = Some c" by (auto simp: bind_eq_Some)
  show thesis
  proof (cases "kc_action c = KEYBINDING_DEFINEKEY \<and> kc_kb c \<noteq> None")
    case True
    with assms c node [of c] show thesis by auto
  next
    case False
    with assms c leaf [of c] show thesis by (auto split: if_splits)
  qed
qed

lemma kb_tree_dom: "kb_tree fuel h p = Some ts \<Longrightarrow> p \<in> set ts \<and> set ts \<subseteq> dom h"
proof (induction fuel arbitrary: p ts)
  case (Suc fuel)
  from Suc.prems show ?case
    by (cases rule: kb_tree_Suc) (use Suc.IH in fastforce)+
qed simp

lemma kb_tree_frame:
  assumes "kb_tree fuel h p = Some ts" and "\<And>q. q \<in> set ts \<Longrightarrow> h' q = h q"
  shows "kb_tree fuel h' p = Some ts"
  using assms
proof (induction fuel arbitrary: p ts)
  case (Suc fuel)
  from Suc.prems(1) show ?case
  proof (cases rule: kb_tree_Suc)
    case (leaf c)
    with Suc.prems(2) show ?thesis by auto
  next
    case (node c q us)
    with Suc.IH [of q us] Suc.prems(2) show ?thesis by auto
  qed
qed simp

lemma kb_forest_dom: "kb_forest fuel h ps = Some ts \<Longrightarrow> set ps \<subseteq> set ts \<and> set ts \<subseteq> dom h"
proof (induction ps arbitrary: ts)
  case (Cons p ps)
  then obtain ts' us where t: "kb_tree fuel h p = Some ts'" and u: "kb_forest fuel h ps = Some us"
    and ts: "ts = ts' @ us" by (auto simp: bind_eq_Some)
  from kb_tree_dom [OF t] Cons.IH [OF u] ts show ?case by auto
qed simp

lemma kb_forest_frame:
  assumes "kb_forest fuel h ps = Some ts" and "\<And>q. q \<in> set ts \<Longrightarrow> h' q = h q"
  shows "kb_forest fuel h' ps = Some ts"
  using assms
proof (induction ps arbitrary: ts)
  case (Cons p ps)
  then obtain ts' us where t: "kb_tree fuel h p = Some ts'" and u: "kb_forest fuel h ps = Some us"
    and ts: "ts = ts' @ us" by (auto simp: bind_eq_Some)
  have "kb_tree fuel h' p = Some ts'" using Cons.prems(2) ts by (intro kb_tree_frame [OF t]) auto
  moreover have "kb_forest fuel h' ps = Some us" using Cons.prems(2) ts by (intro Cons.IH [OF u]) auto
  ultimately show ?case using ts by simp
qed simp

lemma kb_forest_append:
  "kb_forest fuel h (ps @ qs) =
     do { ts \<leftarrow> kb_forest fuel h ps; us \<leftarrow> kb_forest fuel h qs; Some (ts @ us) }"
  by (induction ps) (auto split: bind_split)

text \<open>On a tree without sharing the recursive free removes exactly the cells of the tree.\<close>

lemma keybinding_free_tree:
  assumes "kb_tree fuel h p = Some ts" and "distinct ts"
  shows "keybinding_free fuel p True h = Some (remove_cells ts h)"
  using assms
proof (induction fuel arbitrary: p ts h)
  case (Suc fuel)
  from Suc.prems(1) show ?case
  proof (cases rule: kb_tree_Suc)
    case (leaf c)
    then show ?thesis by (auto simp: remove_cells_def restrict_map_def fun_eq_iff split: option.split)
  next
    case (node c q us)
    have "p \<notin> set us" using Suc.prems(2) node by simp
    moreover have "keybinding_free fuel q True h = Some (remove_cells us h)"
      using Suc node by auto
    ultimately show ?thesis
      using node by (auto simp: remove_cells_def restrict_map_def fun_eq_iff)
  qed
qed simp

section \<open>The table as a map\<close>

type_synonym kb_id = "u32 \<times> u16 \<times> u32"

definition kb_id_of :: "kb_cell \<Rightarrow> kb_id" where
  "kb_id_of c = (kc_modifiers c, kc_mode c, kc_key c)"

lemma xor_eq_0: "(a :: 'a :: len word) XOR b = 0 \<longleftrightarrow> a = b"
  by (auto simp: bit_eq_iff bit_xor_iff)

lemma kb_match_id: "kb_match m md k c \<longleftrightarrow> kb_id_of c = (m, md, k)"
  by (auto simp: kb_match_def kb_id_of_def xor_eq_0)

definition kb_entries :: "keybinding_list \<Rightarrow> kb_ptr list" where
  "kb_entries l = map the (take (unat (kl_length l)) (kl_array l))"

text \<open>
  The invariant: the array has \<^verbatim>\<open>capacity\<close> slots, of which the first \<^verbatim>\<open>length\<close> are filled; the
  bindings are trees in memory without sharing; no two have the same modifiers, mode and key.
\<close>

definition kl_wf :: "nat \<Rightarrow> keybinding_list \<Rightarrow> kb_heap \<Rightarrow> bool" where
  "kl_wf fuel l h \<longleftrightarrow>
     length (kl_array l) = unat (kl_capacity l) \<and> kl_length l \<le> kl_capacity l \<and> 0 < kl_capacity l \<and>
     (\<forall>i < unat (kl_length l). kl_array l ! i \<noteq> None) \<and>
     (\<exists>ts. kb_forest fuel h (kb_entries l) = Some ts \<and> distinct ts) \<and>
     distinct (map (\<lambda>p. kb_id_of (the (h p))) (kb_entries l))"

definition kb_lookup :: "keybinding_list \<Rightarrow> kb_heap \<Rightarrow> kb_id \<Rightarrow> kb_ptr option" where
  "kb_lookup l h k =
     (case find_keybinding l (fst k) (fst (snd k)) (snd (snd k)) h of
        Some (Some i) \<Rightarrow> kl_array l ! i
      | _ \<Rightarrow> None)"

section \<open>Searching\<close>

lemma find_slot_hit:
  assumes "find_slot P i (map Some ps) h = Some (Some j)"
  shows "i \<le> j" and "j - i < length ps" and "\<exists>c. h (ps ! (j - i)) = Some c \<and> P c"
proof -
  have "i \<le> j \<and> j - i < length ps \<and> (\<exists>c. h (ps ! (j - i)) = Some c \<and> P c)"
    using assms
  proof (induction ps arbitrary: i)
    case (Cons p ps)
    then obtain c where c: "h p = Some c" by (auto split: option.splits)
    show ?case
    proof (cases "P c")
      case False
      then have "find_slot P (Suc i) (map Some ps) h = Some (Some j)" using Cons.prems c by simp
      from Cons.IH [OF this] show ?thesis by (cases "j - i") (auto simp: Suc_diff_Suc [symmetric])
    qed (use Cons.prems c in auto)
  qed simp
  then show "i \<le> j" and "j - i < length ps" and "\<exists>c. h (ps ! (j - i)) = Some c \<and> P c" by blast+
qed

lemma find_slot_miss:
  assumes "find_slot P i (map Some ps) h = Some None" and "p \<in> set ps"
  shows "\<exists>c. h p = Some c \<and> \<not> P c"
  using assms by (induction ps arbitrary: i) (auto split: option.splits if_splits)

lemma find_slot_total:
  assumes "set ps \<subseteq> dom h"
  shows "\<exists>r. find_slot P i (map Some ps) h = Some r"
  using assms by (induction ps arbitrary: i) (auto split: option.splits if_splits)

lemma kl_wf_entries:
  assumes "kl_wf fuel l h"
  shows "take (unat (kl_length l)) (kl_array l) = map Some (kb_entries l)"
    and "length (kb_entries l) = unat (kl_length l)" and "set (kb_entries l) \<subseteq> dom h"
    and "unat (kl_length l) \<le> length (kl_array l)"
proof -
  have le: "unat (kl_length l) \<le> length (kl_array l)"
    using assms by (auto simp: kl_wf_def word_le_nat_alt)
  then show "unat (kl_length l) \<le> length (kl_array l)"
    and "length (kb_entries l) = unat (kl_length l)" by (simp_all add: kb_entries_def)
  show "take (unat (kl_length l)) (kl_array l) = map Some (kb_entries l)"
    using assms le by (auto simp: kb_entries_def kl_wf_def list_eq_iff_nth_eq)
  show "set (kb_entries l) \<subseteq> dom h"
    using assms kb_forest_dom by (fastforce simp: kl_wf_def)
qed

lemma kl_wf_find:
  assumes "kl_wf fuel l h"
  shows "find_keybinding l m md k h = find_slot (\<lambda>c. kb_id_of c = (m, md, k)) 0 (map Some (kb_entries l)) h"
  using kl_wf_entries [OF assms] by (simp add: find_keybinding_def kb_match_id [abs_def])

text \<open>Under the invariant the search finds the one binding with the given id, if there is one.\<close>

lemma kb_lookup_iff:
  assumes "kl_wf fuel l h"
  shows "kb_lookup l h k = Some p \<longleftrightarrow> p \<in> set (kb_entries l) \<and> kb_id_of (the (h p)) = k"
proof -
  let ?es = "kb_entries l"
  obtain m md ky where k: "k = (m, md, ky)" by (cases k)
  note wf = kl_wf_entries [OF assms]
  let ?f = "find_slot (\<lambda>c. kb_id_of c = k) 0 (map Some ?es) h"
  have f: "find_keybinding l m md ky h = ?f" by (simp add: kl_wf_find [OF assms] k)
  have inj: "p = q" if "p \<in> set ?es" "q \<in> set ?es" "kb_id_of (the (h p)) = kb_id_of (the (h q))" for p q
    using assms that by (auto simp: kl_wf_def distinct_map dest: inj_onD)
  obtain r where r: "?f = Some r" using find_slot_total [OF wf(3)] by blast
  show ?thesis
  proof (cases r)
    case None
    then have "kb_lookup l h k = None" using r f by (simp add: kb_lookup_def k)
    moreover have "kb_id_of (the (h p)) \<noteq> k" if "p \<in> set ?es"
      using find_slot_miss [of _ 0 ?es h p] r None that by force
    ultimately show ?thesis by auto
  next
    case (Some i)
    note hit = find_slot_hit [OF r [unfolded Some]]
    then have i: "i < length ?es" and id: "kb_id_of (the (h (?es ! i))) = k" by auto
    have "kl_array l ! i = Some (?es ! i)"
      using i wf(1,2,4) by (metis nth_map nth_take)
    then have "kb_lookup l h k = Some (?es ! i)"
      using r f Some by (simp add: kb_lookup_def k)
    moreover have "p = ?es ! i" if "p \<in> set ?es" "kb_id_of (the (h p)) = k"
      using inj [of p "?es ! i"] that id nth_mem [OF i] by simp
    ultimately show ?thesis using id nth_mem [OF i] by auto
  qed
qed

section \<open>Adding a binding\<close>

text \<open>The resized list has room for one more binding and the same entries.\<close>

lemma keybinding_resize_ok:
  assumes wf: "kl_wf fuel l h" and small: "unat (kl_capacity l) < 2 ^ 31"
  obtains l' where "keybinding_resize True l = (0, l')" and "kl_wf fuel l' h"
    and "kb_entries l' = kb_entries l" and "kl_length l' = kl_length l" and "kl_length l < kl_capacity l'"
proof (cases "kl_length l = kl_capacity l")
  case True
  let ?c = "kl_capacity l"
  let ?l = "l\<lparr>kl_capacity := ?c * 2, kl_array := take (unat (?c * 2)) (kl_array l @ replicate (unat (?c * 2)) None)\<rparr>"
  have c2: "unat (?c * 2) = 2 * unat ?c" using small by (simp add: unat_word_ariths)
  have pos: "0 < unat ?c" and len: "length (kl_array l) = unat ?c"
    using wf by (auto simp: kl_wf_def word_less_nat_alt)
  have lt: "?c < ?c * 2" using c2 pos by (simp add: word_less_nat_alt)
  have arr: "take (unat ?c) (kl_array ?l) = kl_array l" using c2 len by simp
  have e: "kb_entries ?l = kb_entries l" using arr True len by (simp add: kb_entries_def)
  have nth: "kl_array ?l ! i = kl_array l ! i" if "i < unat ?c" for i
    using that len c2 by (simp add: nth_append)
  have "length (kl_array ?l) = unat (?c * 2)" using len c2 by simp
  moreover have "0 < ?c * 2" using lt by (metis word_gt_0 not_less_zero word_less_nat_alt unat_0)
  ultimately have "kl_wf fuel ?l h"
    using wf lt nth True unfolding kl_wf_def e by auto
  with lt e True show thesis
    by (intro that [of ?l]) (auto simp: keybinding_resize_def Let_def)
next
  case False
  with wf have "kl_length l < kl_capacity l" by (auto simp: kl_wf_def)
  with False wf show thesis by (intro that [of l]) (auto simp: keybinding_resize_def)
qed

lemma kb_entries_update:
  assumes "unat (kl_length l) \<le> length (kl_array l)" and "i < unat (kl_length l)"
  shows "kb_entries (l\<lparr>kl_array := (kl_array l)[i := Some p]\<rparr>) = (kb_entries l)[i := p]"
  using assms by (simp add: kb_entries_def take_update_swap map_update)

text \<open>Replacing the entry \<open>old\<close> of the forest by the tree of \<open>p\<close>, the cells of \<open>old\<close> being freed.\<close>

lemma kb_forest_replace:
  assumes f: "kb_forest fuel h (xs @ old # ys) = Some ts" and d: "distinct ts"
    and t: "kb_tree fuel h p = Some tp" and dp: "distinct tp" and dis: "set tp \<inter> set ts = {}"
  obtains told us where "kb_tree fuel h old = Some told" and "distinct told"
    and "kb_forest fuel (remove_cells told h) (xs @ p # ys) = Some us" and "distinct us"
    and "set told \<inter> set us = {}"
proof -
  obtain A told B where A: "kb_forest fuel h xs = Some A" and o: "kb_tree fuel h old = Some told"
    and B: "kb_forest fuel h ys = Some B" and ts: "ts = A @ told @ B"
    using f by (auto simp: kb_forest_append bind_eq_Some)
  let ?h = "remove_cells told h"
  have same: "?h q = h q" if "q \<notin> set told" for q using that by (simp add: remove_cells_def restrict_map_def)
  have "kb_forest fuel ?h xs = Some A" using d ts by (intro kb_forest_frame [OF A] same) auto
  moreover have "kb_forest fuel ?h ys = Some B" using d ts by (intro kb_forest_frame [OF B] same) auto
  moreover have "kb_tree fuel ?h p = Some tp" using dis ts by (intro kb_tree_frame [OF t] same) auto
  ultimately have "kb_forest fuel ?h (xs @ p # ys) = Some (A @ tp @ B)" by (simp add: kb_forest_append)
  with o d dp dis ts show thesis by (intro that [of told "A @ tp @ B"]) auto
qed

lemma kb_id_frame:
  assumes "set es \<inter> set ts = {}"
  shows "map (\<lambda>p. kb_id_of (the (remove_cells ts h p))) es = map (\<lambda>p. kb_id_of (the (h p))) es"
  using assms by (auto simp: remove_cells_def restrict_map_def)

lemma push_replaces:
  assumes wf: "kl_wf fuel l h" and i: "i < unat (kl_length l)"
    and t: "kb_tree fuel h p = Some tp" and dp: "distinct tp"
    and f: "kb_forest fuel h (kb_entries l) = Some ts" and dis: "set tp \<inter> set ts = {}"
    and id: "kb_id_of (the (h (kb_entries l ! i))) = kb_id_of (the (h p))"
  obtains told where "kb_tree fuel h (kb_entries l ! i) = Some told" and "distinct told"
    and "kl_wf fuel (l\<lparr>kl_array := (kl_array l)[i := Some p]\<rparr>) (remove_cells told h)"
    and "set told \<inter> set tp = {}"
proof -
  let ?es = "kb_entries l" and ?l = "l\<lparr>kl_array := (kl_array l)[i := Some p]\<rparr>"
  note E = kl_wf_entries [OF wf]
  have d: "distinct ts" and ids: "distinct (map (\<lambda>p. kb_id_of (the (h p))) ?es)"
    using wf f by (auto simp: kl_wf_def)
  have split: "?es = take i ?es @ ?es ! i # drop (Suc i) ?es"
    using i E(2) by (simp add: id_take_nth_drop)
  have upd: "?es[i := p] = take i ?es @ p # drop (Suc i) ?es"
    using i E(2) by (simp add: upd_conv_take_nth_drop)
  obtain told us where told: "kb_tree fuel h (?es ! i) = Some told" "distinct told"
    and us: "kb_forest fuel (remove_cells told h) (?es[i := p]) = Some us" "distinct us"
    and sep: "set told \<inter> set us = {}"
    using kb_forest_replace [OF f [unfolded arg_cong [OF split, of "kb_forest fuel h"]] d t dp dis] upd by metis
  have e: "kb_entries ?l = ?es[i := p]" using kb_entries_update [OF E(4) i] .
  have mem: "set (?es[i := p]) \<subseteq> set us" using kb_forest_dom [OF us(1)] by blast
  have "map (\<lambda>p. kb_id_of (the (remove_cells told h p))) (?es[i := p])
      = map (\<lambda>p. kb_id_of (the (h p))) (?es[i := p])"
    using sep mem by (intro kb_id_frame) auto
  also have "\<dots> = map (\<lambda>p. kb_id_of (the (h p))) ?es"
    using i E(2) id by (simp add: map_update list_update_same_conv)
  finally have "distinct (map (\<lambda>p. kb_id_of (the (remove_cells told h p))) (kb_entries ?l))"
    using ids e by simp
  moreover have "\<forall>j < unat (kl_length l). (kl_array l)[i := Some p] ! j \<noteq> None"
    using wf i E(4) by (auto simp: kl_wf_def nth_list_update)
  ultimately have "kl_wf fuel ?l (remove_cells told h)"
    using wf us e unfolding kl_wf_def by auto
  moreover have "set told \<subseteq> set ts"
    using f told(1) by (subst (asm) split) (auto simp: kb_forest_append bind_eq_Some)
  ultimately show thesis using told dis by (intro that [of told]) auto
qed

lemma push_appends:
  assumes wf: "kl_wf fuel l h" and room: "kl_length l < kl_capacity l"
    and t: "kb_tree fuel h p = Some tp" and dp: "distinct tp"
    and f: "kb_forest fuel h (kb_entries l) = Some ts" and dis: "set tp \<inter> set ts = {}"
    and new: "\<forall>q \<in> set (kb_entries l). kb_id_of (the (h q)) \<noteq> kb_id_of (the (h p))"
  defines "l' \<equiv> l\<lparr>kl_array := (kl_array l)[unat (kl_length l) := Some p], kl_length := kl_length l + 1\<rparr>"
  shows "kl_wf fuel l' h" and "kb_entries l' = kb_entries l @ [p]"
proof -
  note E = kl_wf_entries [OF wf]
  have len: "length (kl_array l) = unat (kl_capacity l)" using wf by (simp add: kl_wf_def)
  have lt: "unat (kl_length l) < length (kl_array l)" using room len by (simp add: word_less_nat_alt)
  have suc: "unat (kl_length l + 1) = Suc (unat (kl_length l))"
  proof -
    have "unat (kl_length l) < unat (kl_capacity l)" using room by (simp add: word_less_nat_alt)
    moreover have "unat (kl_capacity l) < 2 ^ 32" using unsigned_less [of "kl_capacity l"] by simp
    ultimately show ?thesis by (simp add: unat_word_ariths)
  qed
  show e: "kb_entries l' = kb_entries l @ [p]"
    using lt by (simp add: kb_entries_def l'_def suc take_Suc_conv_app_nth)
  have "kb_forest fuel h (kb_entries l') = Some (ts @ tp)"
    using f t by (simp add: e kb_forest_append)
  moreover have "distinct (ts @ tp)" using wf f dp dis by (auto simp: kl_wf_def)
  moreover have "distinct (map (\<lambda>p. kb_id_of (the (h p))) (kb_entries l'))"
    using wf new by (auto simp: kl_wf_def e)
  moreover have "\<forall>i < unat (kl_length l'). kl_array l' ! i \<noteq> None"
    using wf lt by (auto simp: kl_wf_def l'_def suc nth_list_update less_Suc_eq)
  moreover have "kl_length l' \<le> kl_capacity l'"
    using room suc by (simp add: l'_def word_le_nat_alt word_less_nat_alt)
  ultimately show "kl_wf fuel l' h"
    using wf unfolding kl_wf_def by (auto simp: l'_def)
qed

text \<open>The push, whether it grows the array, replaces a binding or adds one.\<close>

lemma keybinding_list_push_ok:
  assumes wf: "kl_wf fuel l h" and small: "unat (kl_capacity l) < 2 ^ 31"
    and t: "kb_tree fuel h p = Some tp" and dp: "distinct tp"
    and f: "kb_forest fuel h (kb_entries l) = Some ts" and dis: "set tp \<inter> set ts = {}"
  shows "\<exists>l' h'. keybinding_list_push fuel True l p h = Some (0, l', h') \<and> kl_wf fuel l' h' \<and>
           (\<forall>k. kb_lookup l' h' k = (if k = kb_id_of (the (h p)) then Some p else kb_lookup l h k))"
proof -
  obtain r where r: "keybinding_resize True l = (0, r)" and wr: "kl_wf fuel r h"
    and er: "kb_entries r = kb_entries l" and room: "kl_length r < kl_capacity r"
    using keybinding_resize_ok [OF wf small] by metis
  note E = kl_wf_entries [OF wr]
  have fr: "kb_forest fuel h (kb_entries r) = Some ts" using f er by simp
  obtain c where c: "h p = Some c" using kb_tree_dom [OF t] by auto
  have lk: "kb_lookup l h k = kb_lookup r h k" for k
    by (rule option_eqI) (simp add: kb_lookup_iff [OF wf] kb_lookup_iff [OF wr] er)
  let ?find = "find_slot (\<lambda>c'. kb_id_of c' = kb_id_of c) 0 (map Some (kb_entries r)) h"
  have find: "find_keybinding r (kc_modifiers c) (kc_mode c) (kc_key c) h = ?find"
    by (simp add: kl_wf_find [OF wr] kb_id_of_def [of c])
  obtain q where q: "?find = Some q" using find_slot_total [OF E(3)] by blast
  show ?thesis
  proof (cases q)
    case None
    then have new: "\<forall>q \<in> set (kb_entries r). kb_id_of (the (h q)) \<noteq> kb_id_of (the (h p))"
      using find_slot_miss [of _ 0 "kb_entries r" h] q c by force
    let ?l = "r\<lparr>kl_array := (kl_array r)[unat (kl_length r) := Some p], kl_length := kl_length r + 1\<rparr>"
    note A = push_appends [OF wr room t dp fr dis new]
    have "unat (kl_length r) < length (kl_array r)"
      using wr room by (auto simp: kl_wf_def word_less_nat_alt)
    then have "keybinding_list_push fuel True l p h = Some (0, ?l, h)"
      using r c find q None by (simp add: keybinding_list_push_def)
    moreover have "kb_lookup ?l h k = (if k = kb_id_of (the (h p)) then Some p else kb_lookup l h k)" for k
      unfolding lk by (rule option_eqI) (use new in \<open>auto simp: kb_lookup_iff [OF A(1)] kb_lookup_iff [OF wr] A(2)\<close>)
    ultimately show ?thesis using A(1) by blast
  next
    case (Some i)
    note hit = find_slot_hit [OF q [unfolded Some]]
    have i: "i < unat (kl_length r)" using hit E(2) by simp
    have id: "kb_id_of (the (h (kb_entries r ! i))) = kb_id_of (the (h p))" using hit c by auto
    obtain told where told: "kb_tree fuel h (kb_entries r ! i) = Some told" "distinct told"
      and w: "kl_wf fuel (r\<lparr>kl_array := (kl_array r)[i := Some p]\<rparr>) (remove_cells told h)"
      and sep: "set told \<inter> set tp = {}"
      using push_replaces [OF wr i t dp fr dis id] by metis
    let ?l = "r\<lparr>kl_array := (kl_array r)[i := Some p]\<rparr>" and ?h = "remove_cells told h"
    have "kl_array r ! i = Some (kb_entries r ! i)"
      using i E(1,2,4) by (metis nth_map nth_take)
    then have "keybinding_list_push fuel True l p h = Some (0, ?l, ?h)"
      using r c find q Some keybinding_free_tree [OF told] by (simp add: keybinding_list_push_def)
    moreover have "kb_lookup ?l ?h k = (if k = kb_id_of (the (h p)) then Some p else kb_lookup l h k)" for k
    proof -
      let ?es = "kb_entries r"
      have e: "kb_entries ?l = ?es[i := p]" using kb_entries_update [OF E(4) i] .
      have same: "?h q = h q" if "q \<in> set (?es[i := p])" for q
        using kl_wf_entries(3) [OF w] that unfolding e by (auto simp: remove_cells_def restrict_map_def)
      have i': "i < length ?es" using i E(2) by simp
      have p: "p \<in> set (?es[i := p])" using i' by (simp add: set_update_memI)
      show ?thesis
      proof (cases "k = kb_id_of (the (h p))")
        case True
        then show ?thesis using p same [OF p] by (simp add: kb_lookup_iff [OF w] e)
      next
        case False
        have "q \<in> set (?es[i := p]) \<and> kb_id_of (the (?h q)) = k \<longleftrightarrow> q \<in> set ?es \<and> kb_id_of (the (h q)) = k" for q
        proof
          assume q: "q \<in> set (?es[i := p]) \<and> kb_id_of (the (?h q)) = k"
          then have "kb_id_of (the (h q)) = k" using same [of q] by simp
          moreover have "q \<noteq> p" using False calculation by auto
          ultimately show "q \<in> set ?es \<and> kb_id_of (the (h q)) = k"
            using q set_update_subset_insert [of ?es i p] by auto
        next
          assume q: "q \<in> set ?es \<and> kb_id_of (the (h q)) = k"
          then obtain j where j: "j < length ?es" "q = ?es ! j" by (auto simp: in_set_conv_nth)
          then have "j \<noteq> i" using q False id by auto
          then have "q \<in> set (?es[i := p])" using j by (metis length_list_update nth_list_update_neq nth_mem)
          with q same show "q \<in> set (?es[i := p]) \<and> kb_id_of (the (?h q)) = k" by auto
        qed
        with False show ?thesis
          unfolding lk by (intro option_eqI) (simp add: kb_lookup_iff [OF w] kb_lookup_iff [OF wr] e)
      qed
    qed
    ultimately show ?thesis using w by blast
  qed
qed

text \<open>
  C21: Pushing a binding into the table makes it the one found under its modifiers, mode and key,
  leaves what is found under every other key, frees exactly the binding it replaces (with those
  nested in it), and keeps the table well formed; growing the array is included.
\<close>

theorem keybinding_list_push_correct:
  assumes wf: "kl_wf fuel l h" and small: "unat (kl_capacity l) < 2 ^ 31"
    and t: "kb_tree fuel h p = Some tp" and dp: "distinct tp"
    and f: "kb_forest fuel h (kb_entries l) = Some ts" and dis: "set tp \<inter> set ts = {}"
  shows "\<exists>l' h'. keybinding_list_push fuel True l p h = Some (0, l', h') \<and> kl_wf fuel l' h' \<and>
           (\<forall>k. kb_lookup l' h' k = (if k = kb_id_of (the (h p)) then Some p else kb_lookup l h k))"
  using keybinding_list_push_ok [OF assms] .

definition example_binding :: kb_cell where
  "example_binding =
     \<lparr>kc_mode = 0, kc_modifiers = 0, kc_key = 97, kc_action = KEYBINDING_NOOP, kc_data = Data_none, kc_kb = None\<rparr>"

lemma example_table:
  "kl_wf 1 keybinding_list_init h"
  "kb_tree 1 [0 \<mapsto> example_binding] 0 = Some [0]"
  "kb_forest 1 h (kb_entries keybinding_list_init) = Some []"
  by (simp_all add: kl_wf_def keybinding_list_init_def kb_entries_def example_binding_def)

theorem keybinding_list_push_correct_witness:
  "\<exists>l' h'. keybinding_list_push 1 True keybinding_list_init 0 [0 \<mapsto> example_binding] = Some (0, l', h') \<and>
     kb_lookup l' h' (0, 0, 97) = Some 0"
  using keybinding_list_push_correct [OF example_table(1) _ example_table(2) _ example_table(3)]
  by (auto simp: keybinding_list_init_def kb_id_of_def example_binding_def)

section \<open>Freeing the table, and the failure path\<close>

lemma free_slots_forest:
  assumes "kb_forest fuel h ps = Some ts" and "distinct ts"
  shows "free_slots fuel (map Some ps) h = Some (remove_cells ts h)"
  using assms
proof (induction ps arbitrary: ts h)
  case Nil
  then show ?case by (simp add: remove_cells_def)
next
  case (Cons p ps)
  then obtain ts' us where t: "kb_tree fuel h p = Some ts'" and u: "kb_forest fuel h ps = Some us"
    and ts: "ts = ts' @ us" by (auto simp: bind_eq_Some)
  let ?h = "remove_cells ts' h"
  have "kb_forest fuel ?h ps = Some us"
    using Cons.prems(2) ts by (intro kb_forest_frame [OF u]) (auto simp: remove_cells_def restrict_map_def)
  then have "free_slots fuel (map Some ps) ?h = Some (remove_cells us ?h)"
    using Cons.IH Cons.prems(2) ts by simp
  moreover have "keybinding_free fuel p True h = Some ?h"
    using Cons.prems(2) ts by (intro keybinding_free_tree [OF t]) simp
  ultimately show ?case by (simp add: ts remove_cells_def Int_commute)
qed

text \<open>
  C22: Freeing the table frees every binding it owns, nested ones included, exactly once and
  nothing else.
\<close>

theorem keybinding_list_free_correct:
  assumes "kl_wf fuel l h" and "kb_forest fuel h (kb_entries l) = Some ts"
  shows "keybinding_list_free fuel l h = Some (remove_cells ts h)"
proof -
  have "distinct ts" using assms by (auto simp: kl_wf_def)
  with kl_wf_entries [OF assms(1)] free_slots_forest [OF assms(2)] show ?thesis
    by (simp add: keybinding_list_free_def)
qed

theorem keybinding_list_free_correct_witness:
  "keybinding_list_free 1 \<lparr>kl_length = 1, kl_capacity = 1, kl_array = [Some 0]\<rparr>
      [0 \<mapsto> example_binding, 1 \<mapsto> example_binding\<lparr>kc_key := 98\<rparr>] =
    Some (remove_cells [0] [0 \<mapsto> example_binding, 1 \<mapsto> example_binding\<lparr>kc_key := 98\<rparr>])"
  by (rule keybinding_list_free_correct) (simp_all add: kl_wf_def kb_entries_def example_binding_def)

text \<open>
  C23: When \<^verbatim>\<open>realloc\<close> fails the push reports it, but the capacity stays doubled although the array did not grow, and the
  next binding with a new id is written past the end of the array.
\<close>

theorem keybinding_push_after_failed_realloc:
  assumes wf: "kl_wf fuel l h" and full: "kl_length l = kl_capacity l" and small: "unat (kl_capacity l) < 2 ^ 31"
    and q: "h q = Some c" and new: "kb_lookup l h (kb_id_of c) = None"
  shows "\<exists>l'. keybinding_list_push fuel False l p h = Some (- 1, l', h) \<and>
              keybinding_list_push fuel ok l' q h = None"
proof -
  let ?l = "l\<lparr>kl_capacity := kl_capacity l * 2\<rparr>"
  note E = kl_wf_entries [OF wf]
  have pos: "0 < unat (kl_capacity l)" using wf by (auto simp: kl_wf_def word_less_nat_alt)
  have "unat (kl_capacity l * 2) = 2 * unat (kl_capacity l)" using small by (simp add: unat_word_ariths)
  then have "kl_capacity l \<noteq> kl_capacity l * 2" using pos by (metis less_irrefl_nat mult_2 add_less_cancel_left add_0_right)
  then have r: "keybinding_resize ok ?l = (0, ?l)" using full by (simp add: keybinding_resize_def)
  let ?find = "find_slot (\<lambda>c'. kb_id_of c' = kb_id_of c) 0 (map Some (kb_entries l)) h"
  have f: "find_keybinding ?l (kc_modifiers c) (kc_mode c) (kc_key c) h = ?find"
    using E(4) kl_wf_find [OF wf, of "kc_modifiers c" "kc_mode c" "kc_key c"]
    by (simp add: find_keybinding_def kb_id_of_def [of c])
  obtain x where x: "?find = Some x" using find_slot_total [OF E(3)] by blast
  have "x = None"
  proof (rule ccontr)
    assume "x \<noteq> None"
    then obtain i where "?find = Some (Some i)" using x by auto
    then have i: "i < length (kb_entries l)" and hc: "\<exists>c'. h (kb_entries l ! i) = Some c' \<and> kb_id_of c' = kb_id_of c"
      using find_slot_hit [of _ 0 "kb_entries l" h i] by auto
    from hc have "kb_id_of (the (h (kb_entries l ! i))) = kb_id_of c" by force
    then have "kb_lookup l h (kb_id_of c) = Some (kb_entries l ! i)"
      using nth_mem [OF i] by (simp add: kb_lookup_iff [OF wf])
    with new show False by simp
  qed
  moreover have "length (kl_array l) = unat (kl_length l)" using wf full by (simp add: kl_wf_def)
  ultimately have "keybinding_list_push fuel ok ?l q h = None"
    using q f x by (simp add: keybinding_list_push_def r)
  moreover have "keybinding_list_push fuel False l p h = Some (- 1, ?l, h)"
    using full by (simp add: keybinding_list_push_def keybinding_resize_def)
  ultimately show ?thesis by blast
qed

theorem keybinding_push_after_failed_realloc_witness:
  "\<exists>l l'. keybinding_list_push 1 False l 1 [0 \<mapsto> example_binding, 1 \<mapsto> example_binding\<lparr>kc_key := 98\<rparr>]
            = Some (- 1, l', [0 \<mapsto> example_binding, 1 \<mapsto> example_binding\<lparr>kc_key := 98\<rparr>]) \<and>
          keybinding_list_push 1 True l' 1 [0 \<mapsto> example_binding, 1 \<mapsto> example_binding\<lparr>kc_key := 98\<rparr>] = None"
proof -
  let ?l = "\<lparr>kl_length = 1, kl_capacity = 1, kl_array = [Some 0]\<rparr>"
  let ?h = "[0 \<mapsto> example_binding, 1 \<mapsto> example_binding\<lparr>kc_key := 98\<rparr>]"
  have wf: "kl_wf 1 ?l ?h"
    by (simp add: kl_wf_def kb_entries_def example_binding_def)
  have "kb_lookup ?l ?h (kb_id_of (example_binding\<lparr>kc_key := 98\<rparr>)) = None"
    by (simp add: kb_lookup_def find_keybinding_def kb_match_def kb_id_of_def example_binding_def)
  from keybinding_push_after_failed_realloc [OF wf _ _ _ this, of 1 1 True] show ?thesis by auto
qed

end
