(* ===== verification/Parse_Config.thy ===== *)
theory Parse_Config
  imports Config_Types CString
begin

text \<open>
  The first half of \<^verbatim>\<open>parse.c\<close>: keys, numbers, colours and the three configuration structs.
  A parser takes what is left of the line (\<^verbatim>\<open>*saveptr\<close>) and whether \<^verbatim>\<open>errno\<close> holds
  \<^verbatim>\<open>ERANGE\<close>, which is only ever set here, never cleared; it returns the value or the error
  text of \<^verbatim>\<open>*errstr\<close> (\<open>Inl None\<close>: an error that leaves \<^verbatim>\<open>*errstr\<close> unset), and the new
  \<^verbatim>\<open>errno\<close>. Allocation is taken to succeed.
\<close>

unbundle bit_operations_syntax

section \<open>Results\<close>

type_synonym 'a pres = "(string option + 'a) \<times> bool"

definition perr :: "string \<Rightarrow> bool \<Rightarrow> 'a pres" where
  "perr msg en = (Inl (Some msg), en)"

definition pok :: "'a \<Rightarrow> bool \<Rightarrow> 'a pres" where
  "pok x en = (Inr x, en)"

definition pbind :: "'a pres \<Rightarrow> ('a \<Rightarrow> bool \<Rightarrow> 'b pres) \<Rightarrow> 'b pres" where
  "pbind r f = (case r of (Inl e, en) \<Rightarrow> (Inl e, en) | (Inr x, en) \<Rightarrow> f x en)"

lemma pbind_simps [simp]:
  "pbind (Inl e, en) f = (Inl e, en)"
  "pbind (Inr x, en) f = f x en"
  "pbind (perr msg en) f = perr msg en"
  "pbind (pok x en) f = f x en"
  by (simp_all add: pbind_def perr_def pok_def)

lemma pbind_Inr:
  "pbind r f = (Inr y, en') \<longleftrightarrow> (\<exists>x en. r = (Inr x, en) \<and> f x en = (Inr y, en'))"
  by (cases r; cases "fst r") (auto simp: pbind_def)

lemma pok_eq [simp]: "pok x en = (Inr y, en') \<longleftrightarrow> x = y \<and> en = en'"
  by (simp add: pok_def)

lemma perr_neq [simp]: "perr msg en \<noteq> (Inr y, en')" "pok x en \<noteq> (Inl e, en')"
  by (simp_all add: perr_def pok_def)

text \<open>
  The libraries the parser asks: xkbcommon for keysyms (0 is \<^verbatim>\<open>XKB_KEY_NoSymbol\<close>), libevdev for
  button names and codes; and what the parser reads of the server, the names of the modes.
  \<open>pe_uninit\<close> is the value of struct fields that are never written.
\<close>

record parse_env =
  pe_modes :: "string list"
  pe_keysym_from_name :: "string \<Rightarrow> u32"
  pe_code_from_name :: "string \<Rightarrow> int"
  pe_code_get_name :: "int \<Rightarrow> string option"
  pe_uninit :: int

section \<open>Keys\<close>

definition modifier_of :: "char \<Rightarrow> u32 option" where
  "modifier_of c =
     (if c = CHR ''S'' then Some WLR_MODIFIER_SHIFT
      else if c = CHR ''A'' then Some WLR_MODIFIER_ALT
      else if c = CHR ''C'' then Some WLR_MODIFIER_CTRL
      else if c = CHR ''L'' then Some WLR_MODIFIER_LOGO
      else if c = CHR ''2'' then Some WLR_MODIFIER_MOD2
      else if c = CHR ''3'' then Some WLR_MODIFIER_MOD3
      else if c = CHR ''5'' then Some WLR_MODIFIER_MOD5
      else None)"

fun parse_modifiers :: "u32 \<Rightarrow> string \<Rightarrow> string + (u32 \<times> string)" where
  "parse_modifiers m (c # d # cs) =
     (if d \<noteq> CHR ''-'' then Inr (m, c # d # cs)
      else case modifier_of c of
             None \<Rightarrow> Inl (''Unknown modifier '' @ [CHR 0x22, c, CHR 0x22])
           | Some b \<Rightarrow> parse_modifiers (m OR b) cs)"
| "parse_modifiers m s = Inr (m, s)"

definition quoted :: "string \<Rightarrow> string" where
  "quoted s = CHR 0x22 # s @ [CHR 0x22]"

definition parse_key :: "parse_env \<Rightarrow> string option \<Rightarrow> string + (u32 \<times> u32)" where
  "parse_key env key_def =
     (case key_def of
        None \<Rightarrow> Inl ''Expected key definition, got nothing.''
      | Some s \<Rightarrow>
          (case parse_modifiers 0 s of
             Inl e \<Rightarrow> Inl e
           | Inr (m, name) \<Rightarrow>
               let keysym = pe_keysym_from_name env name
               in if keysym = 0
                  then Inl (''Could not convert key '' @ quoted name @ '' to keysym.'')
                  else Inr (m, keysym)))"

section \<open>Numbers\<close>

definition parse_float :: "string \<Rightarrow> string \<Rightarrow> bool \<Rightarrow> f32 \<times> string \<times> bool" where
  "parse_float delim s en =
     (case strtok_r delim s of
        (None, rest) \<Rightarrow> (Fin (- 1) 0, rest, en)
      | (Some t, rest) \<Rightarrow>
          let (v, er, _) = strtof t; en = (en \<or> er)
          in if \<not> f32_eq v (Inf False) \<and> \<not> en then (v, rest, en) else (FLT_MIN, rest, en))"

definition parse_uint :: "string \<Rightarrow> string \<Rightarrow> bool \<Rightarrow> int \<times> string \<times> bool" where
  "parse_uint delim s en =
     (case strtok_r delim s of
        (None, rest) \<Rightarrow> (- 1, rest, en)
      | (Some t, rest) \<Rightarrow>
          let (v, er, _) = strtol t; en = (en \<or> er)
          in if v \<ge> 0 \<and> v \<le> INT_MAX \<and> \<not> en then (v, rest, en) else (- 1, rest, en))"

text \<open>\<open>parse_floats n\<close> is the loop that reads \<open>n\<close> floats and fails when one is \<^verbatim>\<open>FLT_MIN\<close>.\<close>

fun parse_floats :: "nat \<Rightarrow> string \<Rightarrow> string \<Rightarrow> bool \<Rightarrow> f32 list pres" where
  "parse_floats 0 msg s en = pok [] en"
| "parse_floats (Suc n) msg s en =
     (let (v, rest, en) = parse_float '' '' s en
      in if f32_eq v FLT_MIN then perr msg en
         else pbind (parse_floats n msg rest en) (\<lambda>vs en. pok (v # vs) en))"

text \<open>
  \<^verbatim>\<open>f <= 0.01\<close>: no float lies between the double \<^verbatim>\<open>0.01\<close> and one hundredth, so the exact
  comparison gives the same answer.
\<close>

fun f32_le_hundredth :: "f32 \<Rightarrow> bool" where
  "f32_le_hundredth (Fin m e) =
     (if 0 \<le> e then 100 * m * 2 ^ nat e \<le> 1 else 100 * m \<le> 2 ^ nat (- e))"
| "f32_le_hundredth (Inf s) = s"
| "f32_le_hundredth NaN = False"

section \<open>Mouse buttons\<close>

text \<open>The result is the button and the error text; \<^verbatim>\<open>errno\<close> is reset on this path.\<close>

definition get_mouse_bindsym :: "parse_env \<Rightarrow> string \<Rightarrow> u32 \<times> string option" where
  "get_mouse_bindsym env name =
     (let code = pe_code_from_name env name
      in if code = - 1 then (0, Some (''Unknown event '' @ name)) else (word_of_int code, None))"

definition get_mouse_bindcode :: "parse_env \<Rightarrow> string \<Rightarrow> (u32 \<times> string option) \<times> bool" where
  "get_mouse_bindcode env name =
     (let (v, er, rest) = strtol name; code = sint (word_of_int v :: u32)
      in if rest = name \<and> code \<le> 0
         then ((0, Some ''Button event code must be a positive integer.''), er)
         else if er then ((0, Some ''Button event code out of range.''), er)
         else case pe_code_get_name env code of
                None \<Rightarrow> ((0, Some (''Event code '' @ fmt_d code @ '' ((null)) is not a button'')), er)
              | Some event \<Rightarrow>
                  if take 4 event \<noteq> ''BTN_''
                  then ((0, Some (''Event code '' @ fmt_d code @ '' ('' @ event @ '') is not a button'')), er)
                  else ((word_of_int code, None), er))"

definition input_manager_get_mouse_button ::
    "parse_env \<Rightarrow> string \<Rightarrow> bool \<Rightarrow> (u32 \<times> string option) \<times> bool" where
  "input_manager_get_mouse_button env name en =
     (let (button, error) = get_mouse_bindsym env name
      in if button = 0 \<and> error = None then get_mouse_bindcode env name
         else ((button, error), en))"

section \<open>Input devices\<close>

definition empty_input_config :: cg_input_config where
  "empty_input_config =
     \<lparr>ic_identifier = None, ic_accel_profile = INT_MIN,
      ic_calibration_matrix = \<lparr>cm_configured = False, cm_matrix = replicate 6 (Fin 0 0)\<rparr>,
      ic_click_method = INT_MIN, ic_drag = INT_MIN, ic_drag_lock = INT_MIN, ic_dwt = INT_MIN,
      ic_left_handed = INT_MIN, ic_middle_emulation = INT_MIN, ic_natural_scroll = INT_MIN,
      ic_pointer_accel = FLT_MIN, ic_scroll_factor = FLT_MIN, ic_scroll_button = INT_MIN,
      ic_scroll_method = INT_MIN, ic_send_events = INT_MIN, ic_tap = INT_MIN,
      ic_tap_button_map = INT_MIN, ic_mapped_to_output = None, ic_enable_keybindings = - 1,
      ic_repeat_delay = - 1, ic_repeat_rate = - 1\<rparr>"

definition input_option_error :: "string \<Rightarrow> string \<Rightarrow> string" where
  "input_option_error setting value =
     ''Invalid option '' @ quoted value @ '' to setting '' @ quoted setting"

text \<open>A setting with the two values \<^verbatim>\<open>enabled\<close> and \<^verbatim>\<open>disabled\<close>.\<close>

definition on_off :: "string \<Rightarrow> string \<Rightarrow> int \<Rightarrow> int \<Rightarrow> bool \<Rightarrow> int pres" where
  "on_off setting value on off en =
     (if value = ''enabled'' then pok on en
      else if value = ''disabled'' then pok off en
      else perr (input_option_error setting value) en)"

text \<open>
  The settings of \<^verbatim>\<open>parse_input_config\<close> up to \<^verbatim>\<open>natural_scroll\<close>; \<open>None\<close> when the setting
  is none of them. \<open>s\<close> is the rest of the line, the same text as \<^verbatim>\<open>value\<close>.
\<close>

definition parse_input_setting1 ::
    "string \<Rightarrow> string \<Rightarrow> cg_input_config \<Rightarrow> bool \<Rightarrow> cg_input_config pres option" where
  "parse_input_setting1 setting value cfg en =
     (if setting = ''accel_profile'' then Some
        (if value = ''adaptive''
         then pok (cfg\<lparr>ic_accel_profile := LIBINPUT_CONFIG_ACCEL_PROFILE_ADAPTIVE\<rparr>) en
         else if value = ''flat''
         then pok (cfg\<lparr>ic_accel_profile := LIBINPUT_CONFIG_ACCEL_PROFILE_FLAT\<rparr>) en
         else perr (''Invalid profile '' @ quoted value @ '' for accel_profile configuration'') en)
      else if setting = ''calibration_matrix'' then Some
        (pbind (parse_floats 6 (''Failed to read calibration matrix, expected 6 '' @
                                ''floating point values separated by spaces'') value en)
           (\<lambda>vs en. pok (cfg\<lparr>ic_calibration_matrix := \<lparr>cm_configured = True, cm_matrix = vs\<rparr>\<rparr>) en))
      else if setting = ''click_method'' then Some
        (if value \<noteq> ''none''
         then pok (cfg\<lparr>ic_click_method := LIBINPUT_CONFIG_CLICK_METHOD_NONE\<rparr>) en
         else if value \<noteq> ''button_areas''
         then pok (cfg\<lparr>ic_click_method := LIBINPUT_CONFIG_CLICK_METHOD_BUTTON_AREAS\<rparr>) en
         else if value \<noteq> ''clickfinger''
         then pok (cfg\<lparr>ic_click_method := LIBINPUT_CONFIG_CLICK_METHOD_CLICKFINGER\<rparr>) en
         else perr (''Invalid method '' @ quoted value @ '' for click_method configuration'') en)
      else if setting = ''drag'' then Some
        (pbind (on_off setting value LIBINPUT_CONFIG_DRAG_ENABLED LIBINPUT_CONFIG_DRAG_DISABLED en)
           (\<lambda>i. pok (cfg\<lparr>ic_drag := i\<rparr>)))
      else if setting = ''drag_lock'' then Some
        (pbind (on_off setting value LIBINPUT_CONFIG_DRAG_LOCK_ENABLED LIBINPUT_CONFIG_DRAG_LOCK_DISABLED en)
           (\<lambda>i. pok (cfg\<lparr>ic_drag_lock := i\<rparr>)))
      else if setting = ''dwt'' then Some
        (pbind (on_off setting value LIBINPUT_CONFIG_DWT_ENABLED LIBINPUT_CONFIG_DWT_DISABLED en)
           (\<lambda>i. pok (cfg\<lparr>ic_dwt := i\<rparr>)))
      else if setting = ''events'' then Some
        (if value = ''disabled_on_external_mouse''
         then pok (cfg\<lparr>ic_send_events := LIBINPUT_CONFIG_SEND_EVENTS_DISABLED_ON_EXTERNAL_MOUSE\<rparr>) en
         else pbind (on_off setting value LIBINPUT_CONFIG_SEND_EVENTS_ENABLED
                       LIBINPUT_CONFIG_SEND_EVENTS_DISABLED en)
                (\<lambda>i. pok (cfg\<lparr>ic_send_events := i\<rparr>)))
      else if setting = ''left_handed'' then Some
        (pbind (on_off setting value 1 0 en) (\<lambda>i. pok (cfg\<lparr>ic_left_handed := i\<rparr>)))
      else if setting = ''middle_emulation'' then Some
        (pbind (on_off setting value LIBINPUT_CONFIG_MIDDLE_EMULATION_ENABLED
                  LIBINPUT_CONFIG_MIDDLE_EMULATION_DISABLED en)
           (\<lambda>i. pok (cfg\<lparr>ic_middle_emulation := i\<rparr>)))
      else if setting = ''natural_scroll'' then Some
        (pbind (on_off setting value 1 0 en) (\<lambda>i. pok (cfg\<lparr>ic_natural_scroll := i\<rparr>)))
      else None)"

definition float_setting ::
    "string \<Rightarrow> string \<Rightarrow> (f32 \<Rightarrow> cg_input_config) \<Rightarrow> bool \<Rightarrow> cg_input_config pres" where
  "float_setting setting value upd en =
     (let (v, _, en) = parse_float '' '' value en
      in if f32_eq v FLT_MIN
         then perr (input_option_error setting value @ '', expected float value'') en
         else pok (upd v) en)"

definition uint_setting ::
    "string \<Rightarrow> string \<Rightarrow> (int \<Rightarrow> cg_input_config) \<Rightarrow> bool \<Rightarrow> cg_input_config pres" where
  "uint_setting setting value upd en =
     (let (v, _, en) = parse_uint '' '' value en
      in if v < 0
         then perr (input_option_error setting value @ '', expected positive integer'') en
         else pok (upd v) en)"

definition parse_input_setting2 ::
    "parse_env \<Rightarrow> string \<Rightarrow> string \<Rightarrow> cg_input_config \<Rightarrow> bool \<Rightarrow> cg_input_config pres" where
  "parse_input_setting2 env setting value cfg en =
     (if setting = ''pointer_accel''
      then float_setting setting value (\<lambda>v. cfg\<lparr>ic_pointer_accel := v\<rparr>) en
      else if setting = ''scroll_button'' then
        (case input_manager_get_mouse_button env value en of
           ((_, Some err), en) \<Rightarrow>
             perr (''Error parsing button for '' @ quoted ''scroll_button'' @
                   '' setting. Returned error '' @ quoted err) en
         | ((b, None), en) \<Rightarrow> pok (cfg\<lparr>ic_scroll_button := sint b\<rparr>) en)
      else if setting = ''scroll_factor''
      then float_setting setting value (\<lambda>v. cfg\<lparr>ic_scroll_factor := v\<rparr>) en
      else if setting = ''scroll_method'' then
        (if value = ''none'' then pok (cfg\<lparr>ic_scroll_method := LIBINPUT_CONFIG_SCROLL_NO_SCROLL\<rparr>) en
         else if value = ''two_finger'' then pok (cfg\<lparr>ic_scroll_method := LIBINPUT_CONFIG_SCROLL_2FG\<rparr>) en
         else if value = ''edge'' then pok (cfg\<lparr>ic_scroll_method := LIBINPUT_CONFIG_SCROLL_EDGE\<rparr>) en
         else if value = ''on_button_down''
         then pok (cfg\<lparr>ic_scroll_method := LIBINPUT_CONFIG_SCROLL_ON_BUTTON_DOWN\<rparr>) en
         else perr (input_option_error setting value) en)
      else if setting = ''tap'' then
        pbind (on_off setting value LIBINPUT_CONFIG_TAP_ENABLED LIBINPUT_CONFIG_TAP_DISABLED en)
          (\<lambda>i. pok (cfg\<lparr>ic_tap := i\<rparr>))
      else if setting = ''tap_button_map'' then
        (if value = ''lrm'' then pok (cfg\<lparr>ic_tap := LIBINPUT_CONFIG_TAP_MAP_LRM\<rparr>) en
         else if value = ''lmr'' then pok (cfg\<lparr>ic_tap := LIBINPUT_CONFIG_TAP_MAP_LMR\<rparr>) en
         else perr (input_option_error setting value) en)
      else if setting = ''keybindings'' then
        pbind (on_off setting value 1 0 en) (\<lambda>i. pok (cfg\<lparr>ic_enable_keybindings := i\<rparr>))
      else if setting = ''repeat_delay''
      then uint_setting setting value (\<lambda>v. cfg\<lparr>ic_repeat_delay := v\<rparr>) en
      else if setting = ''repeat_rate''
      then uint_setting setting value (\<lambda>v. cfg\<lparr>ic_repeat_rate := v\<rparr>) en
      else perr (''Invalid option to command '' @ quoted ''input'') en)"

definition parse_input_config :: "parse_env \<Rightarrow> string \<Rightarrow> bool \<Rightarrow> cg_input_config pres" where
  "parse_input_config env s en =
     (case strtok_r '' '' s of
        (None, _) \<Rightarrow> perr ''Expected identifier of input device to configure, got none'' en
      | (Some ident, s) \<Rightarrow>
          (case strtok_r '' '' s of
             (None, _) \<Rightarrow> perr ''Expected setting to be set on input device, got none'' en
           | (Some setting, value) \<Rightarrow>
               let cfg = empty_input_config\<lparr>ic_identifier := Some ident\<rparr>
               in case parse_input_setting1 setting value cfg en of
                    Some r \<Rightarrow> r
                  | None \<Rightarrow> parse_input_setting2 env setting value cfg en))"

section \<open>Colours, the cursor, modes and workspaces\<close>

text \<open>
  \<^verbatim>\<open>%f\<close>: six decimals, the exact value rounded half to even. (A signed zero and the sign of
  NaN are not represented.)
\<close>

definition pad6 :: "nat \<Rightarrow> string" where
  "pad6 n = (let ds = nat_digits n in replicate (6 - length ds) (CHR ''0'') @ ds)"

fun fmt_f :: "f32 \<Rightarrow> string" where
  "fmt_f (Fin m e) =
     (let n = (if 0 \<le> e then nat \<bar>m\<bar> * 2 ^ nat e * 1000000
               else div_even (nat \<bar>m\<bar> * 1000000) (2 ^ nat (- e)))
      in (if m < 0 then ''-'' else []) @ nat_digits (n div 1000000) @ ''.'' @ pad6 (n mod 1000000))"
| "fmt_f (Inf s) = (if s then ''-inf'' else ''inf'')"
| "fmt_f NaN = ''nan''"

text \<open>
  \<^verbatim>\<open>parse_background\<close> reads the colours \<open>i\<close>, \<open>i + 1\<close>, ... up to the third. A token of
  \<^verbatim>\<open>strtok_r\<close> is never empty and holds no newline, so the code that strips one has no effect.
\<close>

fun parse_colors :: "nat \<Rightarrow> nat \<Rightarrow> string \<Rightarrow> bool \<Rightarrow> f32 list pres" where
  "parse_colors 0 i s en = pok [] en"
| "parse_colors (Suc n) i s en =
     (case strtok_r [CHR '' '', CHR 0x0A] s of
        (None, _) \<Rightarrow>
          perr (''Expected three space-separated numbers (rgb) '' @
                ''for background color setting. Got '' @ fmt_d (int i) @ ''.'') en
      | (Some nstr, rest) \<Rightarrow>
          let (nval, er, endptr) = strtof nstr; en = (en \<or> er)
          in if endptr \<noteq> []
             then perr (''Could not parse number '' @ quoted nstr @ '' for background color setting.'') en
             else if f32_less nval (Fin 0 0) \<or> f32_less (Fin 1 0) nval
             then perr (''Expected a number between 0 and 1 for setting '' @
                        ''of background color. Got '' @ fmt_f nval @ ''.'') en
             else pbind (parse_colors n (Suc i) rest en) (\<lambda>vs en. pok (nval # vs) en))"

definition parse_background :: "string \<Rightarrow> bool \<Rightarrow> (f32 \<times> f32 \<times> f32) pres" where
  "parse_background s en =
     pbind (parse_colors 3 0 s en) (\<lambda>vs en. pok (vs ! 0, vs ! 1, vs ! 2) en)"

definition parse_escape :: "parse_env \<Rightarrow> string \<Rightarrow> bool \<Rightarrow> keybinding pres" where
  "parse_escape env s en =
     (case parse_key env (fst (strtok_r '' '' s)) of
        Inl e \<Rightarrow> perr e en
      | Inr (m, k) \<Rightarrow> pok (Keybinding 0 m k KEYBINDING_SWITCH_MODE (Data_u 1)) en)"

definition parse_cursor :: "string \<Rightarrow> bool \<Rightarrow> int pres" where
  "parse_cursor s en =
     (if s = ''enable'' then pok 1 en
      else if s = ''disable'' then pok 0 en
      else perr (''Invalid option '' @ quoted s @ '' for '' @ quoted ''cursor'' @ ''. Expected '' @
                 quoted ''enable'' @ '' or '' @ quoted ''disable'' @ ''.'') en)"

definition parse_definemode :: "string \<Rightarrow> bool \<Rightarrow> string pres" where
  "parse_definemode s en =
     (case strtok_r '' '' s of
        (None, _) \<Rightarrow> perr (''Expected mode to succeed '' @ quoted ''definemode'' @ '' keyword.'') en
      | (Some mode, _) \<Rightarrow> pok mode en)"

definition parse_workspaces :: "string \<Rightarrow> bool \<Rightarrow> int pres" where
  "parse_workspaces s en =
     (case strtok_r '' '' s of
        (None, _) \<Rightarrow> perr (''Expected argument for '' @ quoted ''workspaces'' @ '' command, got none.'') en
      | (Some nws_str, _) \<Rightarrow>
          let (nws, er, _) = strtol nws_str; en = (en \<or> er)
          in if \<not> (1 \<le> nws \<and> nws \<le> 30)
             then perr (''More than 30 workspaces are not supported. Received '' @ fmt_d nws) en
             else pok nws en)"

section \<open>Outputs\<close>

definition parse_output_config_keyword :: "string option \<Rightarrow> output_status option" where
  "parse_output_config_keyword key_str =
     (case key_str of
        None \<Rightarrow> None
      | Some k \<Rightarrow>
          if k = ''pos'' then Some OUTPUT_DEFAULT
          else if k = ''prio'' then Some OUTPUT_DEFAULT
          else if k = ''rotate'' then Some OUTPUT_DEFAULT
          else if k = ''scale'' then Some OUTPUT_DEFAULT
          else if k = ''enable'' then Some OUTPUT_ENABLE
          else if k = ''permanent'' then Some OUTPUT_DEFAULT
          else if k = ''peripheral'' then Some OUTPUT_DEFAULT
          else if k = ''disable'' then Some OUTPUT_DISABLE
          else None)"

definition initial_output_config :: "parse_env \<Rightarrow> cg_output_config" where
  "initial_output_config env =
     \<lparr>oc_status = OUTPUT_DEFAULT, oc_role = OUTPUT_ROLE_DEFAULT,
      oc_pos = \<lparr>box_x = - 1, box_y = pe_uninit env, box_width = pe_uninit env, box_height = pe_uninit env\<rparr>,
      oc_output_name = None, oc_refresh_rate = Fin 0 0, oc_scale = Fin (- 1) 0,
      oc_priority = - 1, oc_angle = - 1\<rparr>"

text \<open>The part for the keyword \<^verbatim>\<open>pos\<close>: \<^verbatim>\<open>pos <x> <y> res <w>x<h> rate <r>\<close>.\<close>

definition parse_output_pos :: "string \<Rightarrow> cg_output_config \<Rightarrow> string \<Rightarrow> bool \<Rightarrow> cg_output_config pres" where
  "parse_output_pos name cfg s en =
     (let (x, s, en) = parse_uint '' '' s en in
      if x < 0 then perr (''Error parsing x coordinate of output configuration for output '' @ name) en
      else let (y, s, en) = parse_uint '' '' s en in
      if y < 0 then perr (''Error parsing y coordinate of output configuration for output '' @ name) en
      else case strtok_r '' '' s of (res_str, s) \<Rightarrow>
      if res_str \<noteq> Some ''res''
      then perr (''Expected keyword '' @ quoted ''res'' @ '' in output configuration for output '' @ name) en
      else let (w, s, en) = parse_uint ''x'' s en in
      if w \<le> 0
      then perr (''Error parsing width of output configuration for '' @ ''output '' @ name @
                 '' (hint: width must be larger than 0)'') en
      else let (h, s, en) = parse_uint '' '' s en in
      if h \<le> 0
      then perr (''Error parsing height of output configuration for '' @ ''output '' @ name @
                 '' (hint: height must e larger than 0)'') en
      else case strtok_r '' '' s of (rate_str, s) \<Rightarrow>
      if rate_str \<noteq> Some ''rate''
      then perr (''Expected keyword '' @ quoted ''rate'' @ '' in output configuration for output '' @ name) en
      else let (r, s, en) = parse_float '' '' s en in
      if f32_le_hundredth r
      then perr (''Error parsing refresh rate of output configuration for '' @ ''output '' @ name @
                 '', expected positive float'') en
      else pok (cfg\<lparr>oc_pos := \<lparr>box_x = x, box_y = y, box_width = w, box_height = h\<rparr>,
                    oc_refresh_rate := r, oc_output_name := Some name\<rparr>) en)"

definition parse_output_config :: "parse_env \<Rightarrow> string \<Rightarrow> bool \<Rightarrow> cg_output_config pres" where
  "parse_output_config env s en =
     (case strtok_r '' '' s of
        (None, _) \<Rightarrow> perr ''Expected name of output to be configured, got none'' en
      | (Some name, s) \<Rightarrow>
      (case strtok_r '' '' s of (key_str, s) \<Rightarrow>
       case parse_output_config_keyword key_str of
         None \<Rightarrow>
           perr (''Expected keyword '' @ quoted ''pos'' @ '', '' @ quoted ''prio'' @ '', '' @ quoted ''enable'' @
                 '', '' @ quoted ''disable'' @ '', '' @ quoted ''permanent'' @ '' or '' @ quoted ''peripheral'' @
                 '' in output configuration for output '' @ name) en
       | Some status \<Rightarrow>
           let cfg = (initial_output_config env)\<lparr>oc_status := status\<rparr>;
               named = cfg\<lparr>oc_output_name := Some name\<rparr>
           in if status = OUTPUT_ENABLE \<or> status = OUTPUT_DISABLE then pok named en
              else if key_str = Some ''rotate'' then
                (let (v, _, en) = parse_uint '' '' s en; angle = (word_of_int v :: u32)
                 in pok (named\<lparr>oc_angle := uint (angle mod 4)\<rparr>) en)
              else if key_str = Some ''prio'' then
                (let (v, _, en) = parse_uint '' '' s en
                 in if v < 0
                    then perr (''Error parsing priority of output configuration for output '' @ name) en
                    else pok (named\<lparr>oc_priority := v\<rparr>) en)
              else if key_str = Some ''scale'' then
                (let (v, _, en) = parse_float '' '' s en
                 in if f32_le_hundredth v
                    then perr (''Error parsing scale of output configuration for '' @ ''output '' @ name @
                               '', expected positive float'') en
                    else pok (named\<lparr>oc_scale := v\<rparr>) en)
              else if key_str = Some ''peripheral'' then pok (named\<lparr>oc_role := OUTPUT_ROLE_PERIPHERAL\<rparr>) en
              else if key_str = Some ''permanent'' then pok (named\<lparr>oc_role := OUTPUT_ROLE_PERMANENT\<rparr>) en
              else parse_output_pos name cfg s en))"

section \<open>Messages\<close>

definition initial_message_config :: cg_message_config where
  "initial_message_config =
     \<lparr>mc_font = None, mc_display_time = - 1, mc_bg_color = Fin (- 1) 0 # replicate 3 (Fin 0 0),
      mc_fg_color = Fin (- 1) 0 # replicate 3 (Fin 0 0), mc_enabled = - 1, mc_anchor = CG_MESSAGE_NOPT\<rparr>"

definition anchor_names :: "(string \<times> cg_message_anchor) list" where
  "anchor_names =
     [(''top_left'', CG_MESSAGE_TOP_LEFT), (''top_center'', CG_MESSAGE_TOP_CENTER),
      (''top_right'', CG_MESSAGE_TOP_RIGHT), (''bottom_left'', CG_MESSAGE_BOTTOM_LEFT),
      (''bottom_center'', CG_MESSAGE_BOTTOM_CENTER), (''bottom_right'', CG_MESSAGE_BOTTOM_RIGHT),
      (''center'', CG_MESSAGE_CENTER)]"

definition color_setting_error :: string where
  "color_setting_error =
     ''Error parsing command '' @ quoted ''configure_message bg_color'' @
     '', expected 4 float values separated by spaces''"

definition parse_message_config :: "string \<Rightarrow> bool \<Rightarrow> cg_message_config pres" where
  "parse_message_config s en =
     (let cfg = initial_message_config in
      case strtok_r '' '' s of
        (None, _) \<Rightarrow> perr ''Expected setting to be set for message configuration, got none'' en
      | (Some setting, s) \<Rightarrow>
          if setting = ''font'' then pok (cfg\<lparr>mc_font := Some s\<rparr>) en
          else if setting = ''display_time'' then
            (let (v, _, en) = parse_uint '' '' s en
             in if v < 0
                then perr (''Error parsing command '' @ quoted ''configure_message display_time'' @
                           '', expected a non-negative integer'') en
                else pok (cfg\<lparr>mc_display_time := v\<rparr>) en)
          else if setting = ''bg_color'' then
            pbind (parse_floats 4 color_setting_error s en) (\<lambda>vs en. pok (cfg\<lparr>mc_bg_color := vs\<rparr>) en)
          else if setting = ''fg_color'' then
            pbind (parse_floats 4 color_setting_error s en) (\<lambda>vs en. pok (cfg\<lparr>mc_fg_color := vs\<rparr>) en)
          else if setting = ''anchor'' then
            (case map_of anchor_names s of
               None \<Rightarrow> perr (''Error parsing command '' @ quoted ''configure_message anchor'' @
                             '', the given anchor value is not a valid option'') en
             | Some a \<Rightarrow> pok (cfg\<lparr>mc_anchor := a\<rparr>) en)
          else if setting = ''enable'' then pok (cfg\<lparr>mc_enabled := 1\<rparr>) en
          else if setting = ''disable'' then pok (cfg\<lparr>mc_enabled := 0\<rparr>) en
          else perr (''Invalid option to command '' @ quoted ''configure_message'') en)"

end
