(* ===== verification/Parse_Command.thy ===== *)
theory Parse_Command
  imports Parse_Config
begin

text \<open>
  \<^verbatim>\<open>parse_command\<close> and what it calls to read bindings (\<^verbatim>\<open>parse.c\<close>). The chain of
  \<^verbatim>\<open>strcmp\<close> tests is cut into groups of neighbouring actions; a group returns \<open>None\<close> for an
  action that is not one of its own. A command is the action with its parameters.
\<close>

type_synonym command = "keybinding_action \<times> keybinding_params"

fun mode_index_from :: "int \<Rightarrow> string list \<Rightarrow> string \<Rightarrow> int" where
  "mode_index_from i [] name = - 1"
| "mode_index_from i (m # ms) name = (if m = name then i else mode_index_from (i + 1) ms name)"

definition get_mode_index_from_name :: "string list \<Rightarrow> string \<Rightarrow> int" where
  "get_mode_index_from_name modes name = mode_index_from 0 modes name"

section \<open>Arguments\<close>

text \<open>
  \<^verbatim>\<open>strtol\<close> with the check that the number is at least 1; only some of the actions look at
  \<^verbatim>\<open>errno\<close> as well.
\<close>

definition pos_arg :: "bool \<Rightarrow> string \<Rightarrow> string \<Rightarrow> bool \<Rightarrow> int pres" where
  "pos_arg check_errno msg t en =
     (let (v, er, _) = strtol t; en = (en \<or> er)
      in if v < 1 \<or> (check_errno \<and> en) then perr (msg @ fmt_d v) en else pok v en)"

definition tile_id_msg :: string where
  "tile_id_msg = ''The tile id must be an integer number larger or equal to 1. Got ''"

definition int_msg :: "string \<Rightarrow> string" where
  "int_msg what = what @ '' must be an integer number larger or equal to 1. Got ''"

definition int_msg' :: "string \<Rightarrow> string" where
  "int_msg' what = what @ '' must be an integer larger or equal to 1. Got ''"

definition got_none :: "string \<Rightarrow> string" where
  "got_none action = ''Expected argument for '' @ quoted action @ '' action, got none.''"

definition follow_value :: "string \<Rightarrow> bool \<Rightarrow> u32 pres" where
  "follow_value t en =
     (if t = ''true'' then pok 1 en
      else if t = ''false'' then pok 0 en
      else perr (''The value of '' @ quoted ''follow'' @ '' must be '' @ quoted ''true'' @ '' or '' @
                 quoted ''false'' @ '', got '' @ t) en)"

text \<open>The optional last argument \<^verbatim>\<open>follow\<close>, by default true.\<close>

definition follow_arg :: "string \<Rightarrow> bool \<Rightarrow> u32 pres" where
  "follow_arg s en =
     (case strtok_r '' '' s of
        (None, _) \<Rightarrow> pok 1 en
      | (Some t, _) \<Rightarrow> follow_value t en)"

text \<open>A mandatory number, an optional number with its default.\<close>

definition need_pos :: "bool \<Rightarrow> string \<Rightarrow> string \<Rightarrow> string \<Rightarrow> bool \<Rightarrow> (int \<times> string) pres" where
  "need_pos check_errno none_msg msg s en =
     (case strtok_r '' '' s of
        (None, _) \<Rightarrow> perr none_msg en
      | (Some t, s) \<Rightarrow> pbind (pos_arg check_errno msg t en) (\<lambda>v. pok (v, s)))"

definition opt_pos :: "bool \<Rightarrow> int \<Rightarrow> string \<Rightarrow> string \<Rightarrow> bool \<Rightarrow> (int \<times> string) pres" where
  "opt_pos check_errno dflt msg s en =
     (case strtok_r '' '' s of
        (None, s) \<Rightarrow> pok (dflt, s) en
      | (Some t, s) \<Rightarrow> pbind (pos_arg check_errno msg t en) (\<lambda>v. pok (v, s)))"

section \<open>The groups of actions\<close>

text \<open>The errors of \<^verbatim>\<open>vsplit\<close> and \<^verbatim>\<open>hsplit\<close> leave \<^verbatim>\<open>*errstr\<close> unset.\<close>

definition parse_percentage :: "string \<Rightarrow> bool \<Rightarrow> f32 pres" where
  "parse_percentage s en =
     (case strtok_r '' '' s of
        (None, _) \<Rightarrow> pok f32_half en
      | (Some t, _) \<Rightarrow>
          let (percentage, er, _) = strtof t; en = (en \<or> er)
          in if f32_eq percentage (Inf False) \<or> en then (Inl None, en)
             else if f32_le (Fin 1 0) percentage \<or> f32_le_hundredth percentage then (Inl None, en)
             else pok percentage en)"

definition cmd_split :: "string \<Rightarrow> string \<Rightarrow> bool \<Rightarrow> command pres option" where
  "cmd_split action s en =
     (if action = ''vsplit''
      then Some (pbind (parse_percentage s en) (\<lambda>f. pok (KEYBINDING_SPLIT_VERTICAL, Data_f f)))
      else if action = ''hsplit''
      then Some (pbind (parse_percentage s en) (\<lambda>f. pok (KEYBINDING_SPLIT_HORIZONTAL, Data_f f)))
      else None)"

definition cmd_only :: "string \<Rightarrow> bool \<Rightarrow> command pres" where
  "cmd_only s en =
     (case strtok_r '' '' s of
        (None, _) \<Rightarrow> pok (KEYBINDING_LAYOUT_FULLSCREEN, Data_us 0 0 0) en
      | (Some t, s) \<Rightarrow>
          pbind (pos_arg False (int_msg ''Screen'') t en) (\<lambda>screen en.
          pbind (need_pos False (quoted ''only'' @ '' requires either none or two arguments, got one'')
                   (int_msg ''Workspace'') s en) (\<lambda>(ws, _).
          pok (KEYBINDING_LAYOUT_FULLSCREEN, Data_us (word_of_int screen) (word_of_int (ws - 1)) 0))))"

text \<open>
  The save pointer of \<^verbatim>\<open>strtok_r\<close> is never NULL after a token was found, so \<^verbatim>\<open>message\<close>,
  \<^verbatim>\<open>custom_event\<close> and \<^verbatim>\<open>exec\<close> take the rest of the line, even an empty one.
\<close>

definition cmd_basic :: "string \<Rightarrow> string \<Rightarrow> bool \<Rightarrow> command pres option" where
  "cmd_basic action s en =
     (if action = ''quit'' then Some (pok (KEYBINDING_QUIT, Data_none) en)
      else if action = ''dump'' then Some (pok (KEYBINDING_DUMP, Data_none) en)
      else if action = ''show_info'' then Some (pok (KEYBINDING_SHOW_INFO, Data_none) en)
      else if action = ''close'' then Some (pok (KEYBINDING_CLOSE_VIEW, Data_none) en)
      else if action = ''focus'' then Some
        (pbind (opt_pos False 0 (int_msg ''Tile id'') s en)
           (\<lambda>(v, _). pok (KEYBINDING_CYCLE_TILES, Data_us 0 (word_of_int v) 0)))
      else if action = ''focusprev'' then Some (pok (KEYBINDING_CYCLE_TILES, Data_us 1 0 0) en)
      else if action = ''next'' then Some
        (pbind (opt_pos False 0 (int_msg ''View id'') s en)
           (\<lambda>(v, _). pok (KEYBINDING_CYCLE_VIEWS, Data_us 0 (word_of_int v) 0)))
      else if action = ''prev'' then Some (pok (KEYBINDING_CYCLE_VIEWS, Data_us 1 0 0) en)
      else if action = ''only'' then Some (cmd_only s en)
      else if action = ''abort'' then Some (pok (KEYBINDING_NOOP, Data_none) en)
      else if action = ''message'' then Some (pok (KEYBINDING_DISPLAY_MESSAGE, Data_c s) en)
      else if action = ''custom_event'' then Some (pok (KEYBINDING_SEND_CUSTOM_EVENT, Data_c s) en)
      else if action = ''time'' then Some (pok (KEYBINDING_SHOW_TIME, Data_none) en)
      else if action = ''nextscreen'' then Some (pok (KEYBINDING_CYCLE_OUTPUT, Data_b False) en)
      else if action = ''prevscreen'' then Some (pok (KEYBINDING_CYCLE_OUTPUT, Data_b True) en)
      else if action = ''exec'' then Some (pok (KEYBINDING_RUN_COMMAND, Data_c s) en)
      else None)"

text \<open>\<open>sign\<close> is 1 for \<^verbatim>\<open>resizeright\<close> and \<^verbatim>\<open>resizedown\<close>, -1 for the other two.\<close>

definition parse_resize :: "keybinding_action \<Rightarrow> int \<Rightarrow> string \<Rightarrow> bool \<Rightarrow> command pres" where
  "parse_resize act sign s en =
     pbind (opt_pos False 10 (int_msg ''Number of pixels'') s en) (\<lambda>(n, s) en.
     pbind (opt_pos False 0 tile_id_msg s en) (\<lambda>(tile, _).
     pok (act, Data_is (word_of_int (sign * n)) (word_of_int tile))))"

definition cmd_resize :: "string \<Rightarrow> string \<Rightarrow> bool \<Rightarrow> command pres option" where
  "cmd_resize action s en =
     (if action = ''resizeleft'' then Some (parse_resize KEYBINDING_RESIZE_TILE_HORIZONTAL (- 1) s en)
      else if action = ''resizeright'' then Some (parse_resize KEYBINDING_RESIZE_TILE_HORIZONTAL 1 s en)
      else if action = ''resizedown'' then Some (parse_resize KEYBINDING_RESIZE_TILE_VERTICAL 1 s en)
      else if action = ''resizeup'' then Some (parse_resize KEYBINDING_RESIZE_TILE_VERTICAL (- 1) s en)
      else None)"

definition cmd_switch :: "string \<Rightarrow> string \<Rightarrow> bool \<Rightarrow> command pres option" where
  "cmd_switch action s en =
     (if action = ''screen'' then Some
        (pbind (need_pos False (got_none ''output'') (int_msg ''Workspace number'') s en)
           (\<lambda>(v, _). pok (KEYBINDING_SWITCH_OUTPUT, Data_u (word_of_int v))))
      else if action = ''workspace'' then Some
        (pbind (need_pos False (got_none ''workspace'') (int_msg ''Workspace number'') s en)
           (\<lambda>(v, _). pok (KEYBINDING_SWITCH_WORKSPACE, Data_u (word_of_int (v - 1)))))
      else None)"

text \<open>\<^verbatim>\<open>moveviewto...\<close> with a view id, a target (reduced by \<open>off\<close>) and \<^verbatim>\<open>follow\<close>.\<close>

definition parse_move_view ::
    "keybinding_action \<Rightarrow> int \<Rightarrow> string \<Rightarrow> string \<Rightarrow> string \<Rightarrow> string \<Rightarrow> string \<Rightarrow> bool \<Rightarrow> command pres" where
  "parse_move_view act off none1 msg1 none2 msg2 s en =
     pbind (need_pos False none1 msg1 s en) (\<lambda>(view_id, s) en.
     pbind (need_pos False none2 msg2 s en) (\<lambda>(target, s) en.
     pbind (follow_arg s en) (\<lambda>follow.
     pok (act, Data_us (word_of_int view_id) (word_of_int (target - off)) follow))))"

definition cmd_move_view :: "string \<Rightarrow> string \<Rightarrow> bool \<Rightarrow> command pres option" where
  "cmd_move_view action s en =
     (if action = ''moveviewtoscreen'' then Some
        (parse_move_view KEYBINDING_MOVE_VIEW_TO_OUTPUT 0
           (got_none ''moveviewtoscreen'') (int_msg' ''View id'')
           (''Expected two arguments for '' @ quoted ''moveviewtoscreen'' @ '' action, got one.'')
           (int_msg' ''Output number'') s en)
      else if action = ''moveviewtoworkspace'' then Some
        (parse_move_view KEYBINDING_MOVE_VIEW_TO_WORKSPACE 1
           (got_none ''moveviewtoworkspace'') (int_msg' ''View id number'')
           (got_none ''moveviewtoworkspace'') (int_msg' ''Workspace number'') s en)
      else if action = ''moveviewtotile'' then Some
        (parse_move_view KEYBINDING_MOVE_VIEW_TO_TILE 0
           (got_none ''moveviewtotile'') (int_msg' ''View id number'')
           (got_none ''moveviewtoworkspace'') (int_msg' ''Tile id'') s en)
      else None)"

definition parse_move_to ::
    "keybinding_action \<Rightarrow> bool \<Rightarrow> int \<Rightarrow> string \<Rightarrow> string \<Rightarrow> string \<Rightarrow> bool \<Rightarrow> command pres" where
  "parse_move_to act check_errno off none msg s en =
     pbind (need_pos check_errno none msg s en) (\<lambda>(target, s) en.
     pbind (follow_arg s en) (\<lambda>follow.
     pok (act, Data_us (word_of_int (target - off)) follow 0)))"

definition cmd_move_to :: "string \<Rightarrow> string \<Rightarrow> bool \<Rightarrow> command pres option" where
  "cmd_move_to action s en =
     (if action = ''movetoscreen'' then Some
        (parse_move_to KEYBINDING_MOVE_TO_OUTPUT False 0 (got_none ''movetoscreen'')
           (int_msg' ''Output number'') s en)
      else if action = ''movetoworkspace'' then Some
        (parse_move_to KEYBINDING_MOVE_TO_WORKSPACE False 1 (got_none ''movetoworkspace'')
           (int_msg' ''Workspace number'') s en)
      else if action = ''movetotile'' then Some
        (parse_move_to KEYBINDING_MOVE_TO_TILE True 0 (got_none ''movetotile'')
           (int_msg' ''Tile number'') s en)
      else None)"

definition parse_merge :: "keybinding_action \<Rightarrow> string \<Rightarrow> bool \<Rightarrow> command pres" where
  "parse_merge act s en =
     pbind (opt_pos True 0 tile_id_msg s en) (\<lambda>(v, _). pok (act, Data_u (word_of_int v)))"

definition cmd_merge :: "string \<Rightarrow> string \<Rightarrow> bool \<Rightarrow> command pres option" where
  "cmd_merge action s en =
     (if action = ''mergeleft'' then Some (parse_merge KEYBINDING_MERGE_LEFT s en)
      else if action = ''mergeright'' then Some (parse_merge KEYBINDING_MERGE_RIGHT s en)
      else if action = ''mergeup'' then Some (parse_merge KEYBINDING_MERGE_TOP s en)
      else if action = ''mergedown'' then Some (parse_merge KEYBINDING_MERGE_BOTTOM s en)
      else None)"

text \<open>\<^verbatim>\<open>exchangeleft [tile] [true|false]\<close>: either argument may be missing.\<close>

definition parse_swap :: "keybinding_action \<Rightarrow> string \<Rightarrow> bool \<Rightarrow> command pres" where
  "parse_swap act s en =
     (case strtok_r '' '' s of
        (None, _) \<Rightarrow> pok (act, Data_us 0 1 0) en
      | (Some t, s) \<Rightarrow>
          if t = ''true'' \<or> t = ''false''
          then pbind (follow_value t en) (\<lambda>f. pok (act, Data_us 0 f 0))
          else pbind (pos_arg True tile_id_msg t en) (\<lambda>v en.
               case strtok_r '' '' s of
                 (None, _) \<Rightarrow> pok (act, Data_us (word_of_int v) 1 0) en
               | (Some t, _) \<Rightarrow>
                   pbind (follow_value t en) (\<lambda>f. pok (act, Data_us (word_of_int v) f 0))))"

definition cmd_swap :: "string \<Rightarrow> string \<Rightarrow> bool \<Rightarrow> command pres option" where
  "cmd_swap action s en =
     (if action = ''exchangeleft'' then Some (parse_swap KEYBINDING_SWAP_LEFT s en)
      else if action = ''exchangeright'' then Some (parse_swap KEYBINDING_SWAP_RIGHT s en)
      else if action = ''exchangeup'' then Some (parse_swap KEYBINDING_SWAP_TOP s en)
      else if action = ''exchangedown'' then Some (parse_swap KEYBINDING_SWAP_BOTTOM s en)
      else None)"

definition cmd_exchange :: "string \<Rightarrow> string \<Rightarrow> bool \<Rightarrow> command pres option" where
  "cmd_exchange action s en =
     (if action = ''exchange'' then Some
        (pbind (need_pos True (quoted ''exchange'' @ '' requires two arguments, but none were provided'')
                  tile_id_msg s en) (\<lambda>(t1, s) en.
         pbind (need_pos True (quoted ''exchange'' @ '' requires two arguments, but only one was provided'')
                  tile_id_msg s en) (\<lambda>(t2, s) en.
         pbind (follow_arg s en) (\<lambda>follow.
         pok (KEYBINDING_SWAP, Data_us (word_of_int t1) (word_of_int t2) follow)))))
      else None)"

definition cmd_focus_dir :: "string \<Rightarrow> string \<Rightarrow> bool \<Rightarrow> command pres option" where
  "cmd_focus_dir action s en =
     (if action = ''focusleft'' then Some (pok (KEYBINDING_FOCUS_LEFT, Data_none) en)
      else if action = ''focusright'' then Some (pok (KEYBINDING_FOCUS_RIGHT, Data_none) en)
      else if action = ''focusup'' then Some (pok (KEYBINDING_FOCUS_TOP, Data_none) en)
      else if action = ''focusdown'' then Some (pok (KEYBINDING_FOCUS_BOTTOM, Data_none) en)
      else if action = ''movetonextscreen''
      then Some (pok (KEYBINDING_MOVE_VIEW_TO_CYCLE_OUTPUT, Data_b False) en)
      else if action = ''movetoprevscreen''
      then Some (pok (KEYBINDING_MOVE_VIEW_TO_CYCLE_OUTPUT, Data_b True) en)
      else None)"

definition parse_mode :: "parse_env \<Rightarrow> string \<Rightarrow> (string \<Rightarrow> string) \<Rightarrow> string \<Rightarrow> bool \<Rightarrow> u32 pres" where
  "parse_mode env none unknown s en =
     (case strtok_r '' '' s of
        (None, _) \<Rightarrow> perr none en
      | (Some mode, _) \<Rightarrow>
          let i = get_mode_index_from_name (pe_modes env) mode
          in if i = - 1 then perr (unknown mode) en else pok (word_of_int i) en)"

definition cmd_mode :: "parse_env \<Rightarrow> string \<Rightarrow> string \<Rightarrow> bool \<Rightarrow> command pres option" where
  "cmd_mode env action s en =
     (if action = ''switchvt'' then Some
        (case strtok_r '' '' s of
           (None, _) \<Rightarrow> perr (''Expected argument for '' @ quoted ''switchvt'' @ '' command, got none.'') en
         | (Some ntty, _) \<Rightarrow>
             let (tty, er, _) = strtol ntty; en = (en \<or> er)
             in if en then perr ''TTY number out of range.'' en
                else pok (KEYBINDING_CHANGE_TTY, Data_u (word_of_int tty)) en)
      else if action = ''mode'' then Some
        (pbind (parse_mode env (''Expected mode after '' @ quoted ''mode'' @ ''. Got nothing.'')
                  (\<lambda>m. ''Unknown mode '' @ quoted m @ '' for '' @ quoted ''mode'') s en)
           (\<lambda>i. pok (KEYBINDING_SWITCH_MODE, Data_u i)))
      else if action = ''setmode'' then Some
        (pbind (parse_mode env (''Expected mode after '' @ quoted ''switch_default_mode'' @ ''. Got nothing.'')
                  (\<lambda>m. ''Unknown mode '' @ quoted m @ '' for switch_default_mode'') s en)
           (\<lambda>i. pok (KEYBINDING_SWITCH_DEFAULT_MODE, Data_u i)))
      else if action = ''setmodecursor'' then Some
        (let msg = ''Expected mode name and cursor name after '' @ quoted ''setmodecursor'' @ ''. Got nothing.''
         in case strtok_r '' '' s of
              (None, _) \<Rightarrow> perr msg en
            | (Some mode, s) \<Rightarrow>
                (case strtok_r '' '' s of
                   (None, _) \<Rightarrow> perr msg en
                 | (Some cursor, _) \<Rightarrow> pok (KEYBINDING_SETMODECURSOR, Data_cs mode cursor) en))
      else None)"

definition cmd_config :: "parse_env \<Rightarrow> string \<Rightarrow> string \<Rightarrow> bool \<Rightarrow> command pres option" where
  "cmd_config env action s en =
     (if action = ''background'' then Some
        (pbind (parse_background s en) (\<lambda>(r, g, b). pok (KEYBINDING_BACKGROUND, Data_color r g b)))
      else if action = ''escape'' then Some
        (pbind (parse_escape env s en) (\<lambda>kb. pok (KEYBINDING_DEFINEKEY, Data_kb kb)))
      else if action = ''cursor'' then Some
        (pbind (parse_cursor s en) (\<lambda>i. pok (KEYBINDING_CURSOR, Data_i i)))
      else if action = ''definemode'' then Some
        (pbind (parse_definemode s en) (\<lambda>m. pok (KEYBINDING_DEFINEMODE, Data_c m)))
      else if action = ''workspaces'' then Some
        (pbind (parse_workspaces s en) (\<lambda>n. pok (KEYBINDING_WORKSPACES, Data_i n)))
      else if action = ''output'' then Some
        (pbind (parse_output_config env s en) (\<lambda>c. pok (KEYBINDING_CONFIGURE_OUTPUT, Data_o_cfg c)))
      else if action = ''input'' then Some
        (pbind (parse_input_config env s en) (\<lambda>c. pok (KEYBINDING_CONFIGURE_INPUT, Data_i_cfg c)))
      else if action = ''configure_message'' then Some
        (pbind (parse_message_config s en) (\<lambda>c. pok (KEYBINDING_CONFIGURE_MESSAGE, Data_m_cfg c)))
      else None)"

text \<open>The groups that need no recursion, in the order of the source.\<close>

definition orelse :: "'a option \<Rightarrow> 'a option \<Rightarrow> 'a option" where
  "orelse a b = (case a of Some x \<Rightarrow> Some x | None \<Rightarrow> b)"

lemma orelse_simps [simp]: "orelse (Some x) b = Some x" "orelse None b = b"
  by (simp_all add: orelse_def)

definition cmd_simple :: "parse_env \<Rightarrow> string \<Rightarrow> string \<Rightarrow> bool \<Rightarrow> command pres option" where
  "cmd_simple env action s en =
     orelse (cmd_split action s en)
    (orelse (cmd_basic action s en)
    (orelse (cmd_resize action s en)
    (orelse (cmd_switch action s en)
    (orelse (cmd_move_view action s en)
    (orelse (cmd_move_to action s en)
    (orelse (cmd_merge action s en)
    (orelse (cmd_swap action s en)
    (orelse (cmd_exchange action s en)
    (orelse (cmd_focus_dir action s en)
    (orelse (cmd_mode env action s en)
            (cmd_config env action s en)))))))))))"

section \<open>Commands and bindings\<close>

abbreviation (input) MAX_NESTING_LEVEL :: nat where "MAX_NESTING_LEVEL \<equiv> 50"

text \<open>
  \<^verbatim>\<open>parse_command\<close> calls \<^verbatim>\<open>parse_bind\<close> and \<^verbatim>\<open>parse_definekey\<close>, which call
  \<^verbatim>\<open>parse_keybinding\<close>, which calls \<^verbatim>\<open>parse_command\<close> again one level deeper. The levels left
  up to \<^verbatim>\<open>MAX_NESTING_LEVEL\<close> bound the recursion; the test in \<open>parse_keybinding\<close> gives the
  answer that the called \<^verbatim>\<open>parse_command\<close> would give and is there for the termination proof.
\<close>

function parse_command :: "parse_env \<Rightarrow> string \<Rightarrow> bool \<Rightarrow> nat \<Rightarrow> command pres"
  and parse_keybinding :: "parse_env \<Rightarrow> u16 \<Rightarrow> string \<Rightarrow> bool \<Rightarrow> nat \<Rightarrow> keybinding pres" where
  "parse_command env line en nesting_level =
     (case strtok_r '' '' line of (action, s) \<Rightarrow>
      if nesting_level \<ge> MAX_NESTING_LEVEL
      then perr ''Nesting level of commands is too deep. Giving up.'' en
      else case action of
        None \<Rightarrow> perr ''Expexted an action to parse, got none.'' en
      | Some action \<Rightarrow>
          (case cmd_simple env action s en of
             Some r \<Rightarrow> r
           | None \<Rightarrow>
               if action = ''bind''
               then pbind (parse_keybinding env 1 s en nesting_level)
                      (\<lambda>kb. pok (KEYBINDING_DEFINEKEY, Data_kb kb))
               else if action = ''definekey''
               then (case strtok_r '' '' s of
                       (None, _) \<Rightarrow>
                         perr (''Too few arguments to '' @ quoted ''definekey'' @ ''. Expected mode'') en
                     | (Some mode, s) \<Rightarrow>
                         let i = get_mode_index_from_name (pe_modes env) mode
                         in if i = - 1 then perr (''Unknown mode '' @ quoted mode) en
                            else pbind (parse_keybinding env (word_of_int i) s en nesting_level)
                                   (\<lambda>kb. pok (KEYBINDING_DEFINEKEY, Data_kb kb)))
               else perr (''Error, unsupported action '' @ quoted action @ ''.'') en))"
| "parse_keybinding env mode line en nesting_level =
     (case strtok_r '' '' line of (key, s) \<Rightarrow>
      case parse_key env key of
        Inl e \<Rightarrow> perr e en
      | Inr (m, k) \<Rightarrow>
          if nesting_level < MAX_NESTING_LEVEL
          then pbind (parse_command env s en (nesting_level + 1))
                 (\<lambda>(act, data). pok (Keybinding mode m k act data))
          else perr ''Nesting level of commands is too deep. Giving up.'' en)"
  by pat_completeness auto

termination
  by (relation "measure (\<lambda>x. case x of Inl (_, _, _, n) \<Rightarrow> 2 * (51 - n) | Inr (_, _, _, _, n) \<Rightarrow> 2 * (51 - n) - 1)")
    auto

end
