(* ===== verification/Geometry.thy ===== *)
theory Geometry
  imports Config_Types
begin

text \<open>
  The geometry behind a workspace: the set of pixels a box covers, the predicate that a list of
  boxes tiles a region (every pixel of the region lies in exactly one of the boxes), and the two
  operations that change a tiling, cutting a box in two (\<^verbatim>\<open>keybinding_split_output\<close>) and
  gluing two boxes that share a full edge (\<^verbatim>\<open>merge_tile\<close>). The client's lemmas are proved once
  in the locale \<open>cell_cover\<close>, over any cells with a law for cutting and one for gluing, and
  interpreted on the boxes of the program.
\<close>

section \<open>Tilings over abstract cells\<close>

locale cell_cover =
  fixes cells :: "'c \<Rightarrow> 'p set"
    and cut_ok :: "'k \<Rightarrow> 'c \<Rightarrow> bool"
    and cut :: "'k \<Rightarrow> 'c \<Rightarrow> 'c \<times> 'c"
    and glue_ok :: "'k \<Rightarrow> 'c \<Rightarrow> 'c \<Rightarrow> bool"
    and glue :: "'k \<Rightarrow> 'c \<Rightarrow> 'c \<Rightarrow> 'c"
  assumes cut_cells: "cut_ok k c \<Longrightarrow> cut k c = (a, b) \<Longrightarrow> cells a \<union> cells b = cells c"
    and cut_disjoint: "cut_ok k c \<Longrightarrow> cut k c = (a, b) \<Longrightarrow> cells a \<inter> cells b = {}"
    and cut_nonempty: "cut_ok k c \<Longrightarrow> cut k c = (a, b) \<Longrightarrow> cells a \<noteq> {} \<and> cells b \<noteq> {}"
    and glue_cells: "glue_ok k a b \<Longrightarrow> cells a \<noteq> {} \<Longrightarrow> cells b \<noteq> {} \<Longrightarrow> cells a \<inter> cells b = {}
          \<Longrightarrow> cells (glue k a b) = cells a \<union> cells b"
begin

definition cover_count :: "'c list \<Rightarrow> 'p \<Rightarrow> nat" where
  "cover_count cs p = (\<Sum>c\<leftarrow>cs. of_bool (p \<in> cells c))"

definition tiling :: "'p set \<Rightarrow> 'c list \<Rightarrow> bool" where
  "tiling R cs \<longleftrightarrow> (\<forall>p. cover_count cs p = of_bool (p \<in> R)) \<and> (\<forall>c \<in> set cs. cells c \<noteq> {})"

lemma cover_count_simps [simp]:
  "cover_count [] p = 0"
  "cover_count (c # cs) p = of_bool (p \<in> cells c) + cover_count cs p"
  "cover_count (cs @ ds) p = cover_count cs p + cover_count ds p"
  by (simp_all add: cover_count_def)

lemma cover_count_mset: "mset cs = mset ds \<Longrightarrow> cover_count cs p = cover_count ds p"
  by (metis cover_count_def mset_map sum_mset_sum_list)

lemma tiling_mset: "mset cs = mset ds \<Longrightarrow> tiling R cs = tiling R ds"
  by (metis cover_count_mset set_mset_mset tiling_def)

lemma cover_count_pos: "c \<in> set cs \<Longrightarrow> p \<in> cells c \<Longrightarrow> 0 < cover_count cs p"
  by (induction cs) auto

lemma cover_count_zero: "cover_count cs p = 0 \<longleftrightarrow> (\<forall>c \<in> set cs. p \<notin> cells c)"
  by (induction cs) auto

lemma tiling_subset: "tiling R cs \<Longrightarrow> c \<in> set cs \<Longrightarrow> cells c \<subseteq> R"
  using cover_count_pos by (fastforce simp: tiling_def of_bool_def split: if_splits)

lemma tiling_covers: "tiling R cs \<Longrightarrow> p \<in> R \<Longrightarrow> \<exists>c \<in> set cs. p \<in> cells c"
  using cover_count_zero [of cs p] by (auto simp: tiling_def)

lemma tiling_disjoint:
  assumes "tiling R (cs @ c # ds @ d # es)"
  shows "cells c \<inter> cells d = {}"
proof (rule ccontr)
  assume "cells c \<inter> cells d \<noteq> {}"
  then obtain p where "p \<in> cells c" and "p \<in> cells d" by blast
  then have "2 \<le> cover_count (cs @ c # ds @ d # es) p" by simp
  with assms show False by (auto simp: tiling_def of_bool_def dest!: spec [of _ p] split: if_splits)
qed

lemma tiling_single: "tiling (cells c) [c] \<longleftrightarrow> cells c \<noteq> {}"
  by (simp add: tiling_def)

lemma tiling_cut:
  assumes t: "tiling R (cs @ c # ds)" and ok: "cut_ok k c" and ab: "cut k c = (a, b)"
  shows "tiling R (cs @ a # b # ds)"
proof -
  have "of_bool (p \<in> cells a) + of_bool (p \<in> cells b) = (of_bool (p \<in> cells c) :: nat)" for p
    using cut_cells [OF ok ab] cut_disjoint [OF ok ab] by (auto simp: of_bool_def)
  then have cnt: "cover_count (cs @ a # b # ds) p = cover_count (cs @ c # ds) p" for p
    by (simp add: add.assoc [symmetric])
  have ne: "cells a \<noteq> {}" "cells b \<noteq> {}" using cut_nonempty [OF ok ab] by auto
  have ne': "\<forall>c \<in> set cs \<union> set ds. cells c \<noteq> {}" using t by (auto simp: tiling_def)
  from t have "cover_count (cs @ a # b # ds) p = of_bool (p \<in> R)" for p
    unfolding cnt by (simp only: tiling_def)
  with ne ne' show ?thesis unfolding tiling_def by auto
qed

lemma tiling_glue:
  assumes t: "tiling R (a # b # cs)" and ok: "glue_ok k a b"
  shows "tiling R (glue k a b # cs)"
proof -
  have dis: "cells a \<inter> cells b = {}"
    using tiling_disjoint [of R "[]" a "[]" b cs] t by simp
  have ne: "cells a \<noteq> {}" "cells b \<noteq> {}" using t by (auto simp: tiling_def)
  have u: "cells (glue k a b) = cells a \<union> cells b" using glue_cells [OF ok ne dis] .
  have "of_bool (p \<in> cells (glue k a b)) = (of_bool (p \<in> cells a) + of_bool (p \<in> cells b) :: nat)" for p
    unfolding u using dis by (auto simp: of_bool_def)
  then have cnt: "cover_count (glue k a b # cs) p = cover_count (a # b # cs) p" for p
    by (simp add: add.assoc)
  have ne': "\<forall>c \<in> set cs. cells c \<noteq> {}" using t by (auto simp: tiling_def)
  from t have "cover_count (glue k a b # cs) p = of_bool (p \<in> R)" for p
    unfolding cnt by (simp only: tiling_def)
  with ne ne' u show ?thesis unfolding tiling_def by auto
qed

end

section \<open>Boxes\<close>

definition pix :: "wlr_box \<Rightarrow> (int \<times> int) set" where
  "pix b = {(x, y). box_x b \<le> x \<and> x < box_x b + box_width b \<and>
                    box_y b \<le> y \<and> y < box_y b + box_height b}"

lemma mem_pix [simp]:
  "(x, y) \<in> pix b \<longleftrightarrow> box_x b \<le> x \<and> x < box_x b + box_width b \<and>
                     box_y b \<le> y \<and> y < box_y b + box_height b"
  by (simp add: pix_def)

lemma pix_empty_iff: "pix b = {} \<longleftrightarrow> wlr_box_empty b"
proof
  assume "pix b = {}"
  then have "(box_x b, box_y b) \<notin> pix b" by blast
  then show "wlr_box_empty b" by (auto simp: wlr_box_empty_def)
qed (auto simp: wlr_box_empty_def pix_def)

text \<open>
  A cut is given by a flag (vertical or not) and the size that the first part keeps: \<open>cut_box\<close> is
  the pair of boxes that \<^verbatim>\<open>keybinding_split_output\<close> computes from \<^verbatim>\<open>new_width\<close> and
  \<^verbatim>\<open>new_height\<close>.
\<close>

fun cut_box_ok :: "bool \<times> int \<Rightarrow> wlr_box \<Rightarrow> bool" where
  "cut_box_ok (vertical, n) b \<longleftrightarrow>
     0 < n \<and> (if vertical then n < box_width b \<and> 0 < box_height b
              else n < box_height b \<and> 0 < box_width b)"

fun cut_box :: "bool \<times> int \<Rightarrow> wlr_box \<Rightarrow> wlr_box \<times> wlr_box" where
  "cut_box (vertical, n) b =
     (if vertical
      then (b\<lparr>box_width := n\<rparr>, b\<lparr>box_x := box_x b + n, box_width := box_width b - n\<rparr>)
      else (b\<lparr>box_height := n\<rparr>, b\<lparr>box_y := box_y b + n, box_height := box_height b - n\<rparr>))"

text \<open>
  Two boxes can be glued along an edge when they have the same extent across it and touch:
  \<open>horizontal\<close> glues left and right neighbours, otherwise top and bottom ones.
\<close>

fun glue_box_ok :: "bool \<times> int \<Rightarrow> wlr_box \<Rightarrow> wlr_box \<Rightarrow> bool" where
  "glue_box_ok (horizontal, _) a b \<longleftrightarrow>
     (if horizontal
      then box_y a = box_y b \<and> box_height a = box_height b \<and>
           (box_x b = box_x a + box_width a \<or> box_x a = box_x b + box_width b)
      else box_x a = box_x b \<and> box_width a = box_width b \<and>
           (box_y b = box_y a + box_height a \<or> box_y a = box_y b + box_height b))"

fun glue_box :: "bool \<times> int \<Rightarrow> wlr_box \<Rightarrow> wlr_box \<Rightarrow> wlr_box" where
  "glue_box (horizontal, _) a b =
     (if horizontal
      then a\<lparr>box_width := box_width b + box_width a, box_x := min (box_x b) (box_x a)\<rparr>
      else a\<lparr>box_height := box_height b + box_height a, box_y := min (box_y b) (box_y a)\<rparr>)"

interpretation box_cover: cell_cover pix cut_box_ok cut_box glue_box_ok glue_box
proof unfold_locales
  fix k c a b
  assume ok: "cut_box_ok k c" and ab: "cut_box k c = (a, b)"
  obtain v n where k: "k = (v, n)" by (cases k)
  show "pix a \<union> pix b = pix c" and "pix a \<inter> pix b = {}"
    using ok ab by (auto simp: k split: if_splits)
  show "pix a \<noteq> {} \<and> pix b \<noteq> {}"
    using ok ab by (auto simp: k pix_empty_iff wlr_box_empty_def split: if_splits)
next
  fix k a b
  assume ok: "glue_box_ok k a b" and ne: "pix a \<noteq> {}" "pix b \<noteq> {}"
  obtain h n where k: "k = (h, n)" by (cases k)
  have pos: "0 < box_width a" "0 < box_height a" "0 < box_width b" "0 < box_height b"
    using ne by (auto simp: pix_empty_iff wlr_box_empty_def)
  show "pix (glue_box k a b) = pix a \<union> pix b"
    using ok pos by (auto simp: k min_def split: if_splits)
qed

abbreviation tiles_box :: "wlr_box \<Rightarrow> wlr_box list \<Rightarrow> bool" where
  "tiles_box R bs \<equiv> box_cover.tiling (pix R) bs"

text \<open>In a tiling every box lies within the region, so no coordinate leaves the range of the region.\<close>

lemma tiles_box_inside:
  assumes "tiles_box R bs" and "b \<in> set bs"
  shows "0 < box_width b" "0 < box_height b"
    "box_x R \<le> box_x b" "box_x b + box_width b \<le> box_x R + box_width R"
    "box_y R \<le> box_y b" "box_y b + box_height b \<le> box_y R + box_height R"
proof -
  have ne: "pix b \<noteq> {}" using assms by (auto simp: box_cover.tiling_def)
  then show w: "0 < box_width b" and h: "0 < box_height b"
    by (auto simp: pix_empty_iff wlr_box_empty_def)
  have "(box_x b, box_y b) \<in> pix R"
    and "(box_x b + box_width b - 1, box_y b + box_height b - 1) \<in> pix R"
    using subsetD [OF box_cover.tiling_subset [OF assms],
        of "(box_x b + box_width b - 1, box_y b + box_height b - 1)"]
      subsetD [OF box_cover.tiling_subset [OF assms], of "(box_x b, box_y b)"] w h
    by simp_all
  then show "box_x R \<le> box_x b" "box_x b + box_width b \<le> box_x R + box_width R"
    "box_y R \<le> box_y b" "box_y b + box_height b \<le> box_y R + box_height R" by auto
qed

end
