(* ===== verification/Server_State.thy ===== *)
theory Server_State
  imports Complex_Main Geometry
begin

text \<open>
  The state of the compositor: the structs of \<^verbatim>\<open>workspace.h\<close>, \<^verbatim>\<open>view.h\<close>,
  \<^verbatim>\<open>output.h\<close>, \<^verbatim>\<open>seat.h\<close> and \<^verbatim>\<open>server.h\<close> as records, the objects in one heap per struct.
  A pointer is an address of its heap, NULL is \<open>None\<close>; an address that was freed, or never
  allocated, is not in the domain of its heap, and reading or writing there is the memory
  fault \<open>None\<close> of the option monad. Addresses are handed out by counters and never reused, so
  a dangling pointer stays visible as such.

  State of wlroots that the code reads is part of the record (the layout boxes, where the cursor
  is, what it hovers over); calls into wlroots and the client protocols that the code only makes
  are recorded, in order, in \<open>s_calls\<close>.
\<close>

type_synonym tile_ptr = nat
type_synonym view_ptr = nat
type_synonym ws_ptr = nat
type_synonym out_ptr = nat
type_synonym surface = nat

section \<open>Structs\<close>

record cg_tile =
  t_workspace :: "ws_ptr option"
  t_box :: wlr_box
  t_view :: "view_ptr option"
  t_next :: "tile_ptr option"
  t_prev :: "tile_ptr option"
  t_id :: u32

datatype cg_view_type = CG_XDG_SHELL_VIEW | CG_XWAYLAND_VIEW

text \<open>
  The last five fields stand for the client's side of a view: the process id and, for XWayland
  surfaces, the override-redirect flag, whether it wants the focus, its size hints and position.
\<close>

record cg_view =
  v_workspace :: "ws_ptr option"
  v_surface :: "surface option"
  v_tile :: "tile_ptr option"
  v_ox :: int
  v_oy :: int
  v_type :: cg_view_type
  v_id :: u32
  v_pid :: int
  v_override_redirect :: bool
  v_wants_focus :: bool
  v_max_size :: "(int \<times> int) option"
  v_xsurface_pos :: "int \<times> int"

record cg_workspace =
  w_views :: "view_ptr list"
  w_unmanaged_views :: "view_ptr list"
  w_output :: out_ptr
  w_focused_tile :: "tile_ptr option"
  w_num :: u32

record cg_output =
  o_name :: string
  o_wlr_output :: nat
  o_workspaces :: "ws_ptr list option"
  o_layout_box :: wlr_box
  o_curr_workspace :: int
  o_priority :: int
  o_role :: output_role
  o_destroyed :: bool
  o_bg :: bool
  o_scene_output :: "nat option"

text \<open>What \<^verbatim>\<open>wlr_scene_node_at\<close> finds under the cursor.\<close>

datatype node_hit = Hit_none | Hit_buffer "surface option"

datatype drag_grab = DRAG_GRAB_KEYBOARD | DRAG_GRAB_KEYBOARD_POINTER | DRAG_GRAB_KEYBOARD_TOUCH

record cg_drag_icon =
  di_grab :: drag_grab
  di_touch_point :: bool
  di_lx :: rat
  di_ly :: rat

record cg_seat =
  se_mode :: u16
  se_default_mode :: u16
  se_enable_cursor :: bool
  se_cursor_tile :: "tile_ptr option"
  se_focused_view :: "view_ptr option"
  se_num_keyboards :: u16
  se_num_pointers :: u16
  se_num_touch :: u16
  se_touch_lx :: rat
  se_touch_ly :: rat
  se_drag_icons :: "cg_drag_icon list"
  se_keyboard_focus :: "surface option"
  se_pointer_focus :: "surface option"
  se_dragging :: bool
  se_cursor_x :: rat
  se_cursor_y :: rat

datatype ipc_val = IInt int | IStr string | IFloats "f32 list"

text \<open>What a pending output state asks of the output.\<close>

datatype output_op =
    Op_transform int
  | Op_scale f32
  | Op_mode nat
  | Op_custom_mode int int int
  | Op_enabled bool

datatype seat_call =
    Set_capabilities bool bool bool
  | Cursor_set_xcursor string
  | Cursor_unset_image
  | Cursor_attach nat
  | Cursor_detach nat
  | Cursor_map_to_output nat nat
  | Cursor_warp
  | Seat_set_keyboard "nat option"
  | Keyboard_notify_key u32 bool
  | Keyboard_notify_modifiers nat
  | Timer_update nat int

text \<open>Requests of the shells: xdg-shell, XWayland, layer-shell, idle inhibition.\<close>

datatype shell_call =
    Xdg_ping nat
  | Xdg_set_fullscreen view_ptr bool
  | Xdg_schedule_configure nat
  | Xdg_wm_capabilities view_ptr
  | Xdg_scene_create view_ptr
  | Decoration_server_side nat
  | Popup_unconstrain nat int int int int
  | Popup_scene_destroy nat
  | Xwayland_set_fullscreen view_ptr bool
  | Xwayland_scene_create view_ptr
  | Set_inhibited bool
  | Layer_scene_create nat nat
  | Layer_configure nat int int
  | Layer_surface_destroy nat

text \<open>Touch, pointer and drag events that the seat passes on.\<close>

datatype pointer_call =
    Set_primary_selection nat
  | Set_selection nat
  | Cursor_set_surface "surface option" int int
  | Touch_notify_down surface int
  | Touch_notify_up int
  | Touch_point_focus surface int
  | Touch_notify_motion int
  | Touch_clear_focus int
  | Pointer_notify_frame
  | Pointer_notify_axis
  | Pointer_notify_button u32 bool
  | Relative_motion rat rat
  | Cursor_move rat rat
  | Cursor_warp_absolute rat rat
  | Cursor_warp_to rat rat
  | Pointer_warp rat rat
  | Constraint_activated nat
  | Constraint_deactivated nat
  | Start_pointer_drag nat
  | Start_touch_drag nat
  | Data_source_destroy nat
  | Drag_scene_destroy nat

datatype output_call =
    Bg_color out_ptr "f32 list"
  | Bg_create out_ptr
  | Bg_destroy out_ptr
  | Bg_lower out_ptr
  | Output_commit nat "output_op list"
  | Output_destroy_wlr nat
  | Layout_add nat int int
  | Layout_add_auto nat
  | Layout_remove nat
  | Scene_output_add nat
  | Scene_output_position nat int int
  | Scene_output_create nat
  | Scene_output_destroy nat
  | Layer_above out_ptr string string

datatype lib_call =
    Scene_set_enabled view_ptr bool
  | Scene_set_position view_ptr int int
  | Scene_raise view_ptr
  | Scene_reparent view_ptr ws_ptr
  | Scene_create_ws ws_ptr
  | Scene_destroy_ws ws_ptr
  | Scene_lower_ws ws_ptr
  | Scene_raise_ws ws_ptr
  | Scene_raise_layers out_ptr
  | Scene_bg_position out_ptr int int
  | Scene_destroy_view view_ptr
  | Xdg_set_size view_ptr int int
  | Xdg_set_tiled view_ptr
  | Xwayland_configure view_ptr int int int int
  | Xwayland_set_maximized view_ptr
  | Xwayland_set_seat
  | Xwayland_restack view_ptr
  | Activate view_ptr bool
  | Send_close view_ptr
  | Keyboard_enter "surface option"
  | Keyboard_clear_focus
  | Set_constraint "surface option"
  | Pointer_enter surface
  | Pointer_motion
  | Pointer_clear_focus
  | Drag_icon_position nat int int
  | Idle_activity
  | Message_printf out_ptr string
  | Message_printf_pos out_ptr int int string
  | Message_clear out_ptr
  | Ipc_send_event string "(string \<times> ipc_val) list"
  | Display_terminate
  | Seat_call seat_call
  | Output_call output_call
  | Shell_call shell_call
  | Pointer_call pointer_call
  | Switch_vt u32
  | Fork_command string
  | Alarm int

record cg_server =
  s_tiles :: "tile_ptr \<rightharpoonup> cg_tile"
  s_views :: "view_ptr \<rightharpoonup> cg_view"
  s_workspaces :: "ws_ptr \<rightharpoonup> cg_workspace"
  s_outs :: "out_ptr \<rightharpoonup> cg_output"
  s_tile_brk :: nat
  s_view_brk :: nat
  s_ws_brk :: nat
  s_outputs :: "out_ptr list"
  s_disabled_outputs :: "out_ptr list"
  s_curr_output :: "out_ptr option"
  s_nws :: u16
  s_views_curr_id :: u32
  s_tiles_curr_id :: u32
  s_running :: bool
  s_seat :: cg_seat
  s_layout :: "nat \<Rightarrow> wlr_box"
  s_scene_outputs :: "nat \<rightharpoonup> nat"
  s_scene_brk :: nat
  s_cursor_at :: "(nat \<times> rat \<times> rat) option"
  s_node_at :: node_hit
  s_calls :: "lib_call list"

section \<open>Heap access\<close>

definition emit :: "lib_call \<Rightarrow> cg_server \<Rightarrow> cg_server" where
  "emit c s = s\<lparr>s_calls := s_calls s @ [c]\<rparr>"

definition upd_tile :: "tile_ptr \<Rightarrow> (cg_tile \<Rightarrow> cg_tile) \<Rightarrow> cg_server \<Rightarrow> cg_server option" where
  "upd_tile p f s = map_option (\<lambda>t. s\<lparr>s_tiles := (s_tiles s)(p \<mapsto> f t)\<rparr>) (s_tiles s p)"

definition upd_view :: "view_ptr \<Rightarrow> (cg_view \<Rightarrow> cg_view) \<Rightarrow> cg_server \<Rightarrow> cg_server option" where
  "upd_view p f s = map_option (\<lambda>v. s\<lparr>s_views := (s_views s)(p \<mapsto> f v)\<rparr>) (s_views s p)"

definition upd_ws :: "ws_ptr \<Rightarrow> (cg_workspace \<Rightarrow> cg_workspace) \<Rightarrow> cg_server \<Rightarrow> cg_server option" where
  "upd_ws p f s = map_option (\<lambda>w. s\<lparr>s_workspaces := (s_workspaces s)(p \<mapsto> f w)\<rparr>) (s_workspaces s p)"

definition upd_out :: "out_ptr \<Rightarrow> (cg_output \<Rightarrow> cg_output) \<Rightarrow> cg_server \<Rightarrow> cg_server option" where
  "upd_out p f s = map_option (\<lambda>out. s\<lparr>s_outs := (s_outs s)(p \<mapsto> f out)\<rparr>) (s_outs s p)"

definition upd_seat :: "(cg_seat \<Rightarrow> cg_seat) \<Rightarrow> cg_server \<Rightarrow> cg_server" where
  "upd_seat f s = s\<lparr>s_seat := f (s_seat s)\<rparr>"

text \<open>Indexing the array \<^verbatim>\<open>output->workspaces\<close>; out of its bounds is a fault.\<close>

definition ws_at :: "cg_output \<Rightarrow> int \<Rightarrow> ws_ptr option" where
  "ws_at out i =
     (case o_workspaces out of
        None \<Rightarrow> None
      | Some wss \<Rightarrow> if 0 \<le> i \<and> nat i < length wss then Some (wss ! nat i) else None)"

definition curr_ws_of :: "out_ptr \<Rightarrow> cg_server \<Rightarrow> ws_ptr option" where
  "curr_ws_of p s = do { out \<leftarrow> s_outs s p; ws_at out (o_curr_workspace out) }"

definition focused_tile_of :: "ws_ptr \<Rightarrow> cg_server \<Rightarrow> tile_ptr option" where
  "focused_tile_of w s = do { ws \<leftarrow> s_workspaces s w; w_focused_tile ws }"

text \<open>
  \<^verbatim>\<open>server->curr_output->workspaces[server->curr_output->curr_workspace]\<close>, and its
  \<^verbatim>\<open>focused_tile\<close>.
\<close>

definition curr_ws :: "cg_server \<Rightarrow> ws_ptr option" where
  "curr_ws s = do { p \<leftarrow> s_curr_output s; curr_ws_of p s }"

definition curr_tile :: "cg_server \<Rightarrow> tile_ptr option" where
  "curr_tile s = do { w \<leftarrow> curr_ws s; focused_tile_of w s }"

section \<open>Outputs\<close>

definition output_get_layout_box :: "out_ptr \<Rightarrow> cg_server \<Rightarrow> (wlr_box \<times> cg_server) option" where
  "output_get_layout_box p s = do {
     out \<leftarrow> s_outs s p;
     let b = s_layout s (o_wlr_output out);
     let lb = (if \<not> o_destroyed out \<and> \<not> wlr_box_empty b then b else o_layout_box out);
     s' \<leftarrow> upd_out p (\<lambda>out. out\<lparr>o_layout_box := lb\<rparr>) s;
     Some (lb, s')
   }"

fun find_num :: "(cg_output \<Rightarrow> bool) \<Rightarrow> out_ptr list \<Rightarrow> int \<Rightarrow> cg_server \<Rightarrow> int option" where
  "find_num P [] n s = Some (- 1)"
| "find_num P (p # ps) n s = do {
     out \<leftarrow> s_outs s p;
     if P out then Some n else find_num P ps (n + 1) s
   }"

definition output_get_num :: "out_ptr \<Rightarrow> cg_server \<Rightarrow> int option" where
  "output_get_num p s = do {
     out \<leftarrow> s_outs s p;
     find_num (\<lambda>it. o_name it = o_name out) (s_outputs s) 1 s
   }"

text \<open>\<open>output_from_num\<close> counts from 1; \<open>Some None\<close> is the NULL it returns past the end.\<close>

definition output_from_num :: "int \<Rightarrow> cg_server \<Rightarrow> out_ptr option" where
  "output_from_num num s =
     (if 1 \<le> num \<and> nat num \<le> length (s_outputs s) then Some (s_outputs s ! (nat num - 1)) else None)"

text \<open>
  The scene outputs of wlroots: \<open>s_scene_outputs\<close> maps the address of each live one to its
  \<^verbatim>\<open>wlr_output\<close>. Destroying NULL does nothing, destroying a dangling pointer is a fault.
\<close>

definition scene_output_create :: "nat \<Rightarrow> cg_server \<Rightarrow> nat \<times> cg_server" where
  "scene_output_create w s =
     (s_scene_brk s,
      emit (Output_call (Scene_output_create w))
        (s\<lparr>s_scene_outputs := (s_scene_outputs s)(s_scene_brk s \<mapsto> w), s_scene_brk := Suc (s_scene_brk s)\<rparr>))"

definition scene_output_destroy :: "nat option \<Rightarrow> cg_server \<Rightarrow> cg_server option" where
  "scene_output_destroy so s =
     (case so of
        None \<Rightarrow> Some s
      | Some a \<Rightarrow> do {
          w \<leftarrow> s_scene_outputs s a;
          Some (emit (Output_call (Scene_output_destroy w)) (s\<lparr>s_scene_outputs := (s_scene_outputs s)(a := None)\<rparr>))
        })"

section \<open>Views\<close>

definition xwayland_view_should_manage :: "cg_view \<Rightarrow> bool" where
  "xwayland_view_should_manage v \<longleftrightarrow> \<not> v_override_redirect v"

definition view_get_tile :: "view_ptr \<Rightarrow> cg_server \<Rightarrow> tile_ptr option option" where
  "view_get_tile p s = do {
     v \<leftarrow> s_views s p;
     case v_tile v of
       None \<Rightarrow> Some None
     | Some tp \<Rightarrow> do {
         t \<leftarrow> s_tiles s tp;
         Some (if t_view t = Some p then Some tp else None)
       }
   }"

definition view_is_visible :: "view_ptr \<Rightarrow> cg_server \<Rightarrow> bool option" where
  "view_is_visible p s = do {
     v \<leftarrow> s_views s p;
     if v_type v = CG_XWAYLAND_VIEW \<and> \<not> xwayland_view_should_manage v then Some True
     else do {
       t \<leftarrow> view_get_tile p s;
       Some (t \<noteq> None)
     }
   }"

definition xdg_activate :: "view_ptr \<Rightarrow> bool \<Rightarrow> cg_server \<Rightarrow> cg_server" where
  "xdg_activate p act s = emit (Activate p act) s"

definition xwayland_activate :: "view_ptr \<Rightarrow> cg_view \<Rightarrow> bool \<Rightarrow> cg_server \<Rightarrow> cg_server" where
  "xwayland_activate p v act s =
     (let s = emit (Activate p act) s
      in if act \<and> \<not> v_override_redirect v then emit (Xwayland_restack p) s else s)"

definition view_activate :: "view_ptr option \<Rightarrow> bool \<Rightarrow> cg_server \<Rightarrow> cg_server option" where
  "view_activate po act s =
     (case po of
        None \<Rightarrow> Some s
      | Some p \<Rightarrow> do {
          v \<leftarrow> s_views s p;
          Some (case v_type v of
                  CG_XDG_SHELL_VIEW \<Rightarrow> xdg_activate p act s
                | CG_XWAYLAND_VIEW \<Rightarrow> xwayland_activate p v act s)
        })"

text \<open>The two implementations of \<^verbatim>\<open>view->impl->maximize\<close>.\<close>

definition xdg_maximize :: "view_ptr \<Rightarrow> int \<Rightarrow> int \<Rightarrow> cg_server \<Rightarrow> cg_server" where
  "xdg_maximize p width height s = emit (Xdg_set_tiled p) (emit (Xdg_set_size p width height) s)"

definition xwayland_maximize ::
    "view_ptr \<Rightarrow> cg_view \<Rightarrow> int \<Rightarrow> int \<Rightarrow> cg_server \<Rightarrow> cg_server option" where
  "xwayland_maximize p v width height s =
     (let (width, height) =
            (case v_max_size v of
               None \<Rightarrow> (width, height)
             | Some (mw, mh) \<Rightarrow> (if width > mw then mw else width, if height > mh then mh else height))
      in do {
        c \<leftarrow> s_curr_output s;
        (b, s) \<leftarrow> output_get_layout_box c s;
        Some (emit (Xwayland_set_maximized p)
               (emit (Xwayland_configure p (v_ox v + box_x b) (v_oy v + box_y b) width height) s))
      })"

definition view_impl_maximize ::
    "view_ptr \<Rightarrow> int \<Rightarrow> int \<Rightarrow> cg_server \<Rightarrow> cg_server option" where
  "view_impl_maximize p width height s = do {
     v \<leftarrow> s_views s p;
     case v_type v of
       CG_XDG_SHELL_VIEW \<Rightarrow> Some (xdg_maximize p width height s)
     | CG_XWAYLAND_VIEW \<Rightarrow> xwayland_maximize p v width height s
   }"

definition view_maximize :: "view_ptr \<Rightarrow> tile_ptr \<Rightarrow> cg_server \<Rightarrow> cg_server option" where
  "view_maximize p tp s = do {
     t \<leftarrow> s_tiles s tp;
     s \<leftarrow> upd_view p (\<lambda>v. v\<lparr>v_ox := box_x (t_box t), v_oy := box_y (t_box t)\<rparr>) s;
     v \<leftarrow> s_views s p;
     w \<leftarrow> v_workspace v;
     ws \<leftarrow> s_workspaces s w;
     (b, s) \<leftarrow> output_get_layout_box (w_output ws) s;
     let s = emit (Scene_set_position p (v_ox v + box_x b) (v_oy v + box_y b)) s;
     s \<leftarrow> view_impl_maximize p (box_width (t_box t)) (box_height (t_box t)) s;
     s \<leftarrow> upd_view p (\<lambda>v. v\<lparr>v_tile := Some tp\<rparr>) s;
     Some (emit (Scene_raise p) s)
   }"

section \<open>Tiles\<close>

definition workspace_tile_update_view ::
    "tile_ptr \<Rightarrow> view_ptr option \<Rightarrow> cg_server \<Rightarrow> cg_server option" where
  "workspace_tile_update_view tp vo s = do {
     t \<leftarrow> s_tiles s tp;
     s \<leftarrow> (case t_view t of
             None \<Rightarrow> Some s
           | Some old \<Rightarrow> upd_view old (\<lambda>v. v\<lparr>v_tile := None\<rparr>) (emit (Scene_set_enabled old False) s));
     s \<leftarrow> upd_tile tp (\<lambda>t. t\<lparr>t_view := vo\<rparr>) s;
     case vo of
       None \<Rightarrow> Some s
     | Some p \<Rightarrow> do {
         s \<leftarrow> view_maximize p tp s;
         Some (emit (Scene_set_enabled p True) s)
       }
   }"

text \<open>
  A search along the ring of tiles, \<^verbatim>\<open>for(it = ...; it != start; it = it->next)\<close> with an
  early exit at the first tile that satisfies \<open>P\<close>; \<open>Some None\<close> when the walk comes back to
  \<open>start\<close>. The fuel is the number of tile addresses ever handed out.
\<close>

fun ring_find ::
    "(tile_ptr \<Rightarrow> cg_tile \<Rightarrow> bool) \<Rightarrow> nat \<Rightarrow> tile_ptr \<Rightarrow> tile_ptr \<Rightarrow> cg_server \<Rightarrow> tile_ptr option option" where
  "ring_find P 0 start it s = None"
| "ring_find P (Suc fuel) start it s = do {
     t \<leftarrow> s_tiles s it;
     if P it t then Some (Some it)
     else do {
       nx \<leftarrow> t_next t;
       if nx = start then Some None else ring_find P fuel start nx s
     }
   }"

text \<open>
  A traversal of the ring of tiles, \<^verbatim>\<open>for(tile = start; first || tile != start; tile = tile->next)\<close>,
  as the list of the tiles it visits. The fuel is the number of tile addresses ever handed out.
\<close>

fun ring_from :: "nat \<Rightarrow> tile_ptr \<Rightarrow> tile_ptr \<Rightarrow> cg_server \<Rightarrow> tile_ptr list option" where
  "ring_from 0 start it s = None"
| "ring_from (Suc fuel) start it s = do {
     t \<leftarrow> s_tiles s it;
     nx \<leftarrow> t_next t;
     if nx = start then Some [it]
     else do { rest \<leftarrow> ring_from fuel start nx s; Some (it # rest) }
   }"

definition ring_of :: "tile_ptr \<Rightarrow> cg_server \<Rightarrow> tile_ptr list option" where
  "ring_of start s = ring_from (s_tile_brk s) start start s"

end
