(* ===== verification/Ring.thy ===== *)
theory Ring
  imports Server_State
begin

text \<open>
  The tiles of a workspace form a circular doubly linked list through \<^verbatim>\<open>next\<close> and
  \<^verbatim>\<open>prev\<close>. \<open>is_ring h ts\<close> relates the pointers of the heap \<open>h\<close> to the abstract list
  \<open>ts\<close>: following \<^verbatim>\<open>next\<close> from the head visits \<open>ts\<close> in order and returns to the head, and
  \<^verbatim>\<open>prev\<close> is its inverse. The lemmas say what linking in a tile behind another one and
  unlinking a tile do to the list, and that the fuelled traversal returns it.
\<close>

definition nxt :: "(tile_ptr \<rightharpoonup> cg_tile) \<Rightarrow> tile_ptr \<Rightarrow> tile_ptr option" where
  "nxt h p = Option.bind (h p) t_next"

definition prv :: "(tile_ptr \<rightharpoonup> cg_tile) \<Rightarrow> tile_ptr \<Rightarrow> tile_ptr option" where
  "prv h p = Option.bind (h p) t_prev"

definition link :: "(tile_ptr \<rightharpoonup> cg_tile) \<Rightarrow> tile_ptr \<Rightarrow> tile_ptr \<Rightarrow> bool" where
  "link h a b \<longleftrightarrow> nxt h a = Some b \<and> prv h b = Some a"

fun seg :: "(tile_ptr \<rightharpoonup> cg_tile) \<Rightarrow> tile_ptr list \<Rightarrow> bool" where
  "seg h [] = True"
| "seg h [x] = True"
| "seg h (x # y # zs) = (link h x y \<and> seg h (y # zs))"

definition is_ring :: "(tile_ptr \<rightharpoonup> cg_tile) \<Rightarrow> tile_ptr list \<Rightarrow> bool" where
  "is_ring h ts \<longleftrightarrow> ts \<noteq> [] \<and> distinct ts \<and> seg h (ts @ [hd ts])"

lemma seg_append: "seg h (xs @ y # ys) \<longleftrightarrow> seg h (xs @ [y]) \<and> seg h (y # ys)"
  by (induction h xs rule: seg.induct) auto

lemma seg_cong:
  assumes "\<And>p. p \<in> set xs \<Longrightarrow> nxt h' p = nxt h p \<and> prv h' p = prv h p"
  shows "seg h' xs = seg h xs"
  using assms by (induction h xs rule: seg.induct) (auto simp: link_def)

lemma seg_cong_inner:
  assumes "\<And>p. p \<in> set (butlast xs) \<Longrightarrow> nxt h' p = nxt h p"
    and "\<And>p. p \<in> set (tl xs) \<Longrightarrow> prv h' p = prv h p"
  shows "seg h' xs = seg h xs"
  using assms by (induction h xs rule: seg.induct) (auto simp: link_def)

lemma is_ring_cong:
  assumes "\<And>p. p \<in> set ts \<Longrightarrow> nxt h' p = nxt h p \<and> prv h' p = prv h p"
  shows "is_ring h' ts = is_ring h ts"
proof (cases ts)
  case (Cons x xs)
  then have "seg h' (ts @ [hd ts]) = seg h (ts @ [hd ts])"
    by (intro seg_cong) (auto simp: assms)
  then show ?thesis by (simp add: is_ring_def)
qed (simp add: is_ring_def)

lemma is_ring_rotate: "is_ring h (xs @ ys) = is_ring h (ys @ xs)"
proof (cases xs)
  case (Cons x xs')
  show ?thesis
  proof (cases ys)
    case (Cons y ys')
    have "seg h (x # xs' @ y # ys' @ [x]) \<longleftrightarrow> seg h ((x # xs') @ [y]) \<and> seg h (y # ys' @ [x])"
      using seg_append [of h "x # xs'" y "ys' @ [x]"] by simp
    moreover have "seg h (y # ys' @ x # xs' @ [y]) \<longleftrightarrow> seg h ((y # ys') @ [x]) \<and> seg h (x # xs' @ [y])"
      using seg_append [of h "y # ys'" x "xs' @ [y]"] by simp
    ultimately show ?thesis
      using \<open>xs = x # xs'\<close> Cons by (auto simp: is_ring_def)
  qed simp
qed simp

lemma is_ring_link_hd:
  "is_ring h (x # y # zs) \<Longrightarrow> nxt h x = Some y \<and> prv h y = Some x"
  by (simp add: is_ring_def link_def)

lemma is_ring_single: "is_ring h [x] \<longleftrightarrow> nxt h x = Some x \<and> prv h x = Some x"
  by (simp add: is_ring_def link_def)

lemma is_ring_in_dom:
  assumes "is_ring h ts" and "p \<in> set ts"
  shows "\<exists>t a b. h p = Some t \<and> t_next t = Some a \<and> t_prev t = Some b \<and> a \<in> set ts \<and> b \<in> set ts"
proof -
  obtain us vs where "ts = us @ p # vs" using assms(2) by (auto simp: in_set_conv_decomp)
  then have r: "is_ring h (p # vs @ us)" and set_eq: "set ts = set (p # vs @ us)"
    using assms(1) is_ring_rotate [of h us "p # vs"] by auto
  have "\<exists>a. nxt h p = Some a \<and> a \<in> set (p # vs @ us)"
    using r by (cases "vs @ us") (auto simp: is_ring_single dest: is_ring_link_hd)
  moreover have "\<exists>b. prv h p = Some b \<and> b \<in> set (p # vs @ us)"
  proof (cases "vs @ us" rule: rev_cases)
    case Nil
    with r show ?thesis by (auto simp: is_ring_single)
  next
    case (snoc ws b)
    with r is_ring_rotate [of h "p # ws" "[b]"] have "is_ring h (b # p # ws)" by simp
    then have "prv h p = Some b" by (simp add: is_ring_link_hd)
    with snoc show ?thesis by auto
  qed
  ultimately show ?thesis
    unfolding set_eq by (auto simp: nxt_def prv_def bind_eq_Some)
qed

section \<open>The traversal\<close>

lemma ring_from_seg:
  assumes "seg (s_tiles s) (y # ys @ [x])" and "x \<notin> set ys" and "length ys < fuel"
  shows "ring_from fuel x y s = Some (y # ys)"
  using assms
proof (induction ys arbitrary: y fuel)
  case Nil
  then obtain n where "fuel = Suc n" by (cases fuel) auto
  with Nil show ?case by (auto simp: link_def nxt_def bind_eq_Some)
next
  case (Cons z ys)
  then obtain n where n: "fuel = Suc n" by (cases fuel) auto
  from Cons.prems(1) have "nxt (s_tiles s) y = Some z" by (simp add: link_def)
  then obtain t where "s_tiles s y = Some t" and "t_next t = Some z"
    by (auto simp: nxt_def bind_eq_Some)
  moreover have "ring_from n x z s = Some (z # ys)"
    using Cons.prems n by (intro Cons.IH) auto
  ultimately show ?case using n Cons.prems(2) by auto
qed

definition tiles_below_brk :: "cg_server \<Rightarrow> bool" where
  "tiles_below_brk s \<longleftrightarrow> (\<forall>p \<in> dom (s_tiles s). p < s_tile_brk s)"

lemma ring_length_le_brk:
  assumes "is_ring (s_tiles s) ts" and "tiles_below_brk s"
  shows "length ts \<le> s_tile_brk s"
proof -
  have "set ts \<subseteq> {..<s_tile_brk s}"
    using assms is_ring_in_dom [OF assms(1)] by (fastforce simp: tiles_below_brk_def dom_def)
  then have "card (set ts) \<le> card {..<s_tile_brk s}" by (rule card_mono [rotated]) simp
  with assms(1) show ?thesis by (simp add: is_ring_def distinct_card)
qed

text \<open>The fuel is enough: on a ring the traversal returns exactly the list of its tiles.\<close>

lemma ring_of_ring:
  assumes "is_ring (s_tiles s) (x # xs)" and "tiles_below_brk s"
  shows "ring_of x s = Some (x # xs)"
proof -
  have "length xs < s_tile_brk s" using ring_length_le_brk [OF assms] by simp
  then show ?thesis
    using assms(1) by (auto simp: ring_of_def is_ring_def intro!: ring_from_seg)
qed

section \<open>Linking and unlinking\<close>

definition set_next :: "tile_ptr option \<Rightarrow> cg_tile \<Rightarrow> cg_tile" where
  "set_next p t = t\<lparr>t_next := p\<rparr>"

definition set_prev :: "tile_ptr option \<Rightarrow> cg_tile \<Rightarrow> cg_tile" where
  "set_prev p t = t\<lparr>t_prev := p\<rparr>"

definition upd_heap :: "'p \<Rightarrow> ('o \<Rightarrow> 'o) \<Rightarrow> ('p \<rightharpoonup> 'o) \<Rightarrow> ('p \<rightharpoonup> 'o)" where
  "upd_heap p f h = h(p := map_option f (h p))"

lemma nxt_upd_heap:
  "nxt (upd_heap p (set_next q) h) x = (if x = p \<and> h p \<noteq> None then q else nxt h x)"
  "nxt (upd_heap p (set_prev q) h) x = nxt h x"
  "prv (upd_heap p (set_prev q) h) x = (if x = p \<and> h p \<noteq> None then q else prv h x)"
  "prv (upd_heap p (set_next q) h) x = prv h x"
  by (cases "h p"; auto simp: nxt_def prv_def upd_heap_def set_next_def set_prev_def)+

lemma upd_heap_None: "(upd_heap p f h x = None) = (h x = None)"
  by (simp add: upd_heap_def)

text \<open>
  Linking a new tile behind \<open>a\<close>, in the order of \<^verbatim>\<open>keybinding_split_output\<close>: the new tile
  already points to both neighbours, then the successor's \<^verbatim>\<open>prev\<close> and \<open>a\<close>'s \<^verbatim>\<open>next\<close>
  are set.
\<close>

lemma is_ring_insert:
  assumes r: "is_ring h (a # rest)" and new: "n \<notin> set (a # rest)"
    and b: "nxt h a = Some b" and hn: "nxt h n = Some b" "prv h n = Some a"
  shows "is_ring (upd_heap a (set_next (Some n)) (upd_heap b (set_prev (Some n)) h)) (a # n # rest)"
    (is "is_ring ?h _")
proof -
  have ab: "h a \<noteq> None" "h b \<noteq> None"
    using is_ring_in_dom [OF r] b r
    by (auto simp: nxt_def bind_eq_Some) (metis is_ring_in_dom list.set_intros(1) option.distinct(1) option.sel)+
  have na: "a \<noteq> n" using new by auto
  have nx: "nxt ?h x = (if x = a then Some n else nxt h x)" for x
    using ab by (simp add: nxt_upd_heap upd_heap_None)
  have pv: "prv ?h x = (if x = b then Some n else prv h x)" for x
    using ab by (simp add: nxt_upd_heap)
  show ?thesis
  proof (cases rest)
    case Nil
    with r b have "b = a" by (simp add: is_ring_single)
    have "nxt ?h a = Some n" "nxt ?h n = nxt h n" "prv ?h b = Some n" "prv ?h n = (if n = b then Some n else prv h n)"
      using na by (simp_all add: nx pv)
    with \<open>b = a\<close> na hn have "nxt ?h a = Some n" "nxt ?h n = Some a" "prv ?h a = Some n" "prv ?h n = Some a"
      by simp_all
    with Nil na show ?thesis by (simp add: is_ring_def link_def)
  next
    case (Cons c rest')
    with r b have bc: "b = c" by (auto dest: is_ring_link_hd)
    have d: "distinct (a # c # rest')" and sg: "seg h (c # rest' @ [a])"
      using r Cons by (auto simp: is_ring_def)
    have "seg ?h (c # rest' @ [a]) = seg h (c # rest' @ [a])"
    proof (rule seg_cong_inner)
      fix p assume "p \<in> set (butlast (c # rest' @ [a]))"
      then have "p \<noteq> a" using d by (auto simp: butlast_append)
      then show "nxt ?h p = nxt h p" by (simp only: nx if_False)
    next
      fix p assume "p \<in> set (tl (c # rest' @ [a]))"
      then have "p \<noteq> b" using d bc by auto
      then show "prv ?h p = prv h p" by (simp only: pv if_False)
    qed
    moreover have "n \<noteq> b" using new Cons bc by auto
    then have "link ?h a n" using hn by (simp add: link_def nx pv)
    moreover have "link ?h n c"
      unfolding bc [symmetric] using na hn by (simp add: link_def nx pv)
    ultimately show ?thesis
      using d sg new Cons by (auto simp: is_ring_def)
  qed
qed

text \<open>
  Unlinking \<open>m\<close>: \<^verbatim>\<open>m->prev->next = m->next\<close>, \<^verbatim>\<open>m->next->prev = m->prev\<close>, then the tile
  is freed.
\<close>

lemma is_ring_delete:
  assumes r: "is_ring h (m # rest)" and ne: "rest \<noteq> []"
    and a: "prv h m = Some a" and b: "nxt h m = Some b"
  shows "is_ring ((upd_heap b (set_prev (Some a)) (upd_heap a (set_next (Some b)) h))(m := None)) rest"
    (is "is_ring ?h _")
proof -
  obtain c cs where rest: "rest = c # cs" using ne by (cases rest) auto
  have bc: "b = c" using r rest b by (auto dest: is_ring_link_hd)
  obtain es e where es: "rest = es @ [e]" using ne by (cases rest rule: rev_cases) auto
  have "is_ring h (e # m # es)" using r es is_ring_rotate [of h "m # es" "[e]"] by simp
  then have ae: "a = e" using a by (auto dest: is_ring_link_hd)
  have d: "distinct rest" "m \<notin> set rest" using r by (auto simp: is_ring_def)
  have ins: "a \<in> set rest" by (simp add: es ae)
  have inb: "b \<in> set rest" by (simp add: rest bc)
  have ab: "h a \<noteq> None" "h b \<noteq> None"
    using is_ring_in_dom [OF r, of a] is_ring_in_dom [OF r, of b] ins inb by auto
  have nx: "nxt ?h x = (if x = a then Some b else nxt h x)" if "x \<noteq> m" for x
    using ab that by (simp add: nxt_upd_heap upd_heap_None nxt_def [of "_(m := None)"])
      (simp add: nxt_def [symmetric] nxt_upd_heap upd_heap_None)
  have pv: "prv ?h x = (if x = b then Some a else prv h x)" if "x \<noteq> m" for x
    using ab that by (simp add: nxt_upd_heap upd_heap_None prv_def [of "_(m := None)"])
      (simp add: prv_def [symmetric] nxt_upd_heap upd_heap_None)
  have "seg h (m # es @ e # [m])" using r by (simp add: is_ring_def es)
  then have "seg h (m # es @ [e])" using seg_append [of h "m # es" e "[m]"] by simp
  then have sg: "seg h rest" using seg_append [of h "[m]" c cs] rest es by simp
  have bl: "butlast rest = es" "a \<notin> set es" "m \<notin> set es" using es d ae by auto
  have tlr: "tl rest = cs" "b \<notin> set cs" "m \<notin> set cs" using rest d bc by auto
  have "seg ?h rest = seg h rest"
  proof (rule seg_cong_inner)
    fix p assume "p \<in> set (butlast rest)"
    then have "p \<noteq> a" "p \<noteq> m" using bl by auto
    then show "nxt ?h p = nxt h p" by (simp add: nx)
  next
    fix p assume "p \<in> set (tl rest)"
    then have "p \<noteq> b" "p \<noteq> m" using tlr by auto
    then show "prv ?h p = prv h p" by (simp add: pv)
  qed
  moreover have "a \<noteq> m" "b \<noteq> m" using d ins inb by auto
  then have "link ?h e c" unfolding ae [symmetric] bc [symmetric] by (simp add: link_def nx pv)
  ultimately have "seg ?h (es @ e # [c])"
    using sg es seg_append [of ?h es e "[c]"] by simp
  then have "seg ?h (rest @ [hd rest])" by (simp add: es [symmetric] rest) (metis append.assoc append_Cons append_Nil es rest)
  with d ne show ?thesis by (simp add: is_ring_def)
qed

end
