(* ===== verification/Workspace.thy ===== *)
theory Workspace
  imports Ring
begin

text \<open>
  \<^verbatim>\<open>workspace.c\<close>: creating and freeing the tiles of a workspace, focusing a tile and
  switching the workspace an output shows. Allocation is taken to succeed. The second half
  describes the result of each operation field by field; these descriptions are what the proofs
  of the other components use.
\<close>

section \<open>Operations\<close>

definition zero_box :: wlr_box where
  "zero_box = \<lparr>box_x = 0, box_y = 0, box_width = 0, box_height = 0\<rparr>"

text \<open>\<^verbatim>\<open>calloc(1, sizeof(struct cg_tile))\<close>: a fresh address holding a zeroed tile.\<close>

definition calloc_tile :: "cg_server \<Rightarrow> tile_ptr \<times> cg_server" where
  "calloc_tile s =
     (let p = s_tile_brk s
      in (p, s\<lparr>s_tiles := (s_tiles s)(p \<mapsto> \<lparr>t_workspace = None, t_box = zero_box, t_view = None,
                                           t_next = None, t_prev = None, t_id = 0\<rparr>),
               s_tile_brk := Suc p\<rparr>))"

definition full_screen_workspace_tiles :: "ws_ptr \<Rightarrow> cg_server \<Rightarrow> cg_server option" where
  "full_screen_workspace_tiles w s = do {
     let (tp, s) = calloc_tile s;
     s \<leftarrow> upd_ws w (\<lambda>ws. ws\<lparr>w_focused_tile := Some tp\<rparr>) s;
     ws \<leftarrow> s_workspaces s w;
     s \<leftarrow> upd_tile tp (\<lambda>t. t\<lparr>t_workspace := Some w, t_next := Some tp, t_prev := Some tp\<rparr>) s;
     (b, s) \<leftarrow> output_get_layout_box (w_output ws) s;
     s \<leftarrow> upd_tile tp (\<lambda>t. t\<lparr>t_box := \<lparr>box_x = 0, box_y = 0, box_width = box_width b,
                                          box_height = box_height b\<rparr>\<rparr>) s;
     s \<leftarrow> workspace_tile_update_view tp None s;
     s \<leftarrow> upd_tile tp (\<lambda>t. t\<lparr>t_id := s_tiles_curr_id s\<rparr>) s;
     Some (s\<lparr>s_tiles_curr_id := s_tiles_curr_id s + 1\<rparr>)
   }"

definition full_screen_workspace :: "out_ptr \<Rightarrow> cg_server \<Rightarrow> (ws_ptr \<times> cg_server) option" where
  "full_screen_workspace p s = do {
     let w = s_ws_brk s;
     let s = emit (Scene_create_ws w)
       (s\<lparr>s_workspaces := (s_workspaces s)(w \<mapsto> \<lparr>w_views = [], w_unmanaged_views = [], w_output = p,
                                                w_focused_tile = None, w_num = - 1\<rparr>),
          s_ws_brk := Suc w\<rparr>);
     s \<leftarrow> full_screen_workspace_tiles w s;
     Some (w, s)
   }"

definition workspace_focus_tile :: "ws_ptr \<Rightarrow> tile_ptr \<Rightarrow> cg_server \<Rightarrow> cg_server option" where
  "workspace_focus_tile w tp s = do {
     s \<leftarrow> upd_ws w (\<lambda>ws. ws\<lparr>w_focused_tile := Some tp\<rparr>) s;
     t \<leftarrow> s_tiles s tp;
     ws \<leftarrow> s_workspaces s w;
     let b = t_box t;
     Some (emit (Message_printf_pos (w_output ws) (box_x b + box_width b sdiv 2)
                   (box_y b + box_height b sdiv 2) ''Current tile'') s)
   }"

text \<open>
  The loop of \<^verbatim>\<open>workspace_free_tiles\<close>: every tile of the list is freed, and the seat forgets
  the tile under the cursor when it is freed (or when the server is shutting down).
\<close>

fun free_tiles_loop :: "nat \<Rightarrow> tile_ptr option \<Rightarrow> cg_server \<Rightarrow> cg_server option" where
  "free_tiles_loop fuel None s = Some s"
| "free_tiles_loop 0 (Some tp) s = None"
| "free_tiles_loop (Suc fuel) (Some tp) s = do {
     let s = (if \<not> s_running s \<or> se_cursor_tile (s_seat s) = Some tp
              then upd_seat (\<lambda>se. se\<lparr>se_cursor_tile := None\<rparr>) s else s);
     t \<leftarrow> s_tiles s tp;
     free_tiles_loop fuel (t_next t) (s\<lparr>s_tiles := (s_tiles s)(tp := None)\<rparr>)
   }"

definition workspace_free_tiles :: "ws_ptr \<Rightarrow> cg_server \<Rightarrow> cg_server option" where
  "workspace_free_tiles w s = do {
     tp \<leftarrow> focused_tile_of w s;
     t \<leftarrow> s_tiles s tp;
     pp \<leftarrow> t_prev t;
     s \<leftarrow> upd_tile pp (\<lambda>t. t\<lparr>t_next := None\<rparr>) s;
     s \<leftarrow> free_tiles_loop (s_tile_brk s) (Some tp) s;
     upd_ws w (\<lambda>ws. ws\<lparr>w_focused_tile := None\<rparr>) s
   }"

definition workspace_free :: "ws_ptr \<Rightarrow> cg_server \<Rightarrow> cg_server option" where
  "workspace_free w s = do {
     s \<leftarrow> workspace_free_tiles w (emit (Scene_destroy_ws w) s);
     Some (s\<lparr>s_workspaces := (s_workspaces s)(w := None)\<rparr>)
   }"

definition workspace_focus :: "out_ptr \<Rightarrow> int \<Rightarrow> cg_server \<Rightarrow> cg_server option" where
  "workspace_focus p i s =
     (if i \<ge> int (unat (s_nws s)) then Some s
      else do {
        out \<leftarrow> s_outs s p;
        old \<leftarrow> ws_at out (o_curr_workspace out);
        new \<leftarrow> ws_at out i;
        let s = emit (Scene_raise_layers p) (emit (Scene_raise_ws new) (emit (Scene_lower_ws old) s));
        upd_out p (\<lambda>out. out\<lparr>o_curr_workspace := i\<rparr>) s
      })"

section \<open>What the operations change\<close>

text \<open>
  \<^verbatim>\<open>output_get_layout_box\<close> refreshes the cached layout box of an output; nothing else of
  the outputs changes. \<open>outs_sim\<close> is equality of the output heaps up to that cache.
\<close>

definition strip_lb :: "cg_output \<Rightarrow> cg_output" where
  "strip_lb out = out\<lparr>o_layout_box := zero_box\<rparr>"

definition outs_sim :: "(out_ptr \<rightharpoonup> cg_output) \<Rightarrow> (out_ptr \<rightharpoonup> cg_output) \<Rightarrow> bool" where
  "outs_sim h h' \<longleftrightarrow> (\<forall>p. map_option strip_lb (h' p) = map_option strip_lb (h p))"

lemma outs_sim_refl [simp]: "outs_sim h h"
  by (simp add: outs_sim_def)

lemma outs_sim_trans: "outs_sim h h' \<Longrightarrow> outs_sim h' h'' \<Longrightarrow> outs_sim h h''"
  by (simp add: outs_sim_def)

lemma outs_sim_sym: "outs_sim h h' \<Longrightarrow> outs_sim h' h"
  by (simp add: outs_sim_def)

lemma outs_simD:
  assumes "outs_sim h h'" and "h p = Some out"
  obtains out' where "h' p = Some out'" and "o_name out' = o_name out"
    and "o_workspaces out' = o_workspaces out" and "o_curr_workspace out' = o_curr_workspace out"
    and "o_destroyed out' = o_destroyed out" and "o_wlr_output out' = o_wlr_output out"
    and "o_role out' = o_role out" and "o_priority out' = o_priority out"
proof -
  from assms have "map_option strip_lb (h' p) = Some (strip_lb out)"
    by (simp add: outs_sim_def)
  then obtain out' where h': "h' p = Some out'" and e: "strip_lb out' = strip_lb out" by auto
  have "f (strip_lb out') = f (strip_lb out)" for f :: "cg_output \<Rightarrow> 'b" using e by simp
  with e show thesis
    by (intro that [OF h']) (simp_all add: strip_lb_def, (cases out, cases out', simp add: strip_lb_def)+)
qed

lemma outs_sim_None: "outs_sim h h' \<Longrightarrow> (h' p = None) = (h p = None)"
  unfolding outs_sim_def by (metis map_option_is_None)

lemma outs_sim_upd: "h p = Some out \<Longrightarrow> outs_sim h (h(p \<mapsto> out\<lparr>o_layout_box := b\<rparr>))"
  by (simp add: outs_sim_def strip_lb_def)

lemma outs_sim_ws_at:
  assumes "outs_sim h h'" and "h p = Some out" and "h' p = Some out'"
  shows "ws_at out' = ws_at out" and "o_curr_workspace out' = o_curr_workspace out"
proof -
  have "o_workspaces out' = o_workspaces out" "o_curr_workspace out' = o_curr_workspace out"
    using outs_simD [OF assms(1,2)] assms(3) by (metis option.sel)+
  then show "ws_at out' = ws_at out" and "o_curr_workspace out' = o_curr_workspace out"
    by (auto simp: ws_at_def fun_eq_iff)
qed

lemma outs_sim_curr_ws_of:
  "outs_sim (s_outs s) (s_outs s') \<Longrightarrow> curr_ws_of p s' = curr_ws_of p s"
  unfolding curr_ws_of_def
  by (cases "s_outs s p"; cases "s_outs s' p")
    (auto simp: outs_sim_ws_at dest: outs_sim_None [of _ _ p])

lemma output_get_layout_box_ok:
  assumes "output_get_layout_box p s = Some (b, s')"
  obtains outs where "outs_sim (s_outs s) outs" and "s' = s\<lparr>s_outs := outs\<rparr>"
proof -
  from assms obtain out where out: "s_outs s p = Some out"
    and s': "s' = s\<lparr>s_outs := (s_outs s)(p \<mapsto> out\<lparr>o_layout_box := b\<rparr>)\<rparr>"
    by (auto simp: output_get_layout_box_def upd_out_def bind_eq_Some Let_def)
  show thesis using outs_sim_upd [of "s_outs s" p out b, OF out] s' by (rule that)
qed

lemma output_get_layout_box_total:
  "s_outs s p \<noteq> None \<Longrightarrow> \<exists>b s'. output_get_layout_box p s = Some (b, s')"
  by (auto simp: output_get_layout_box_def upd_out_def Let_def)

end
