(* ===== verification/Focus.thy ===== *)
theory Focus
  imports Workspace
begin

text \<open>
  The focus of the seat (\<^verbatim>\<open>seat.c\<close>): \<^verbatim>\<open>seat_set_focus\<close> with the visible view of the focused
  tile, the order of the workspace's views, activation and keyboard focus, and
  \<^verbatim>\<open>process_cursor_motion\<close>, which follows the tile under the cursor. What the scene holds
  under the cursor is an input of the state; pointer constraints are only recorded.
\<close>

section \<open>Events\<close>

text \<open>A 32-bit value printed with \<^verbatim>\<open>%d\<close>.\<close>

definition d32 :: "u32 \<Rightarrow> ipc_val" where
  "d32 w = IInt (sint w)"

definition ipc_send_event :: "string \<Rightarrow> (string \<times> ipc_val) list \<Rightarrow> cg_server \<Rightarrow> cg_server" where
  "ipc_send_event name args s = emit (Ipc_send_event name args) s"

section \<open>The cursor\<close>

definition rat_to_int :: "rat \<Rightarrow> int" where
  "rat_to_int x = (if x < 0 then \<lceil>x\<rceil> else \<lfloor>x\<rfloor>)"

definition drag_icon_update_position ::
    "nat \<Rightarrow> cg_seat \<Rightarrow> cg_drag_icon \<Rightarrow> cg_drag_icon \<times> lib_call list" where
  "drag_icon_update_position i se di =
     (case di_grab di of
        DRAG_GRAB_KEYBOARD \<Rightarrow> (di, [])
      | DRAG_GRAB_KEYBOARD_POINTER \<Rightarrow>
          (di\<lparr>di_lx := se_cursor_x se, di_ly := se_cursor_y se\<rparr>,
           [Drag_icon_position i (rat_to_int (se_cursor_x se)) (rat_to_int (se_cursor_y se))])
      | DRAG_GRAB_KEYBOARD_TOUCH \<Rightarrow>
          if \<not> di_touch_point di then (di, [])
          else (di\<lparr>di_lx := se_touch_lx se, di_ly := se_touch_ly se\<rparr>,
                [Drag_icon_position i (rat_to_int (se_touch_lx se)) (rat_to_int (se_touch_ly se))]))"

fun drag_icons_update :: "nat \<Rightarrow> cg_seat \<Rightarrow> cg_drag_icon list \<Rightarrow> cg_drag_icon list \<times> lib_call list" where
  "drag_icons_update i se [] = ([], [])"
| "drag_icons_update i se (di # dis) =
     (let (di', cs) = drag_icon_update_position i se di;
          (dis', cs') = drag_icons_update (Suc i) se dis
      in (di' # dis', cs @ cs'))"

definition pointer_notify :: "u32 \<Rightarrow> cg_server \<Rightarrow> cg_server" where
  "pointer_notify time s =
     (case s_node_at s of
        Hit_none \<Rightarrow> emit Pointer_clear_focus (upd_seat (\<lambda>se. se\<lparr>se_pointer_focus := None\<rparr>) s)
      | Hit_buffer surface \<Rightarrow>
          (let s = (case surface of
                      None \<Rightarrow> s
                    | Some sf \<Rightarrow> emit (Pointer_enter sf)
                                  (upd_seat (\<lambda>se. se\<lparr>se_pointer_focus := Some sf\<rparr>) s));
               focus_changed = (se_pointer_focus (s_seat s) \<noteq> surface)
           in if time > 0 \<and> (\<not> focus_changed \<or> se_dragging (s_seat s)) then emit Pointer_motion s
              else s))"

definition tile_contains :: "rat \<Rightarrow> rat \<Rightarrow> cg_tile \<Rightarrow> bool" where
  "tile_contains ox oy t \<longleftrightarrow>
     of_int (box_x (t_box t)) \<le> ox \<and> of_int (box_y (t_box t)) \<le> oy \<and>
     of_int (box_x (t_box t) + box_width (t_box t)) \<ge> ox \<and>
     of_int (box_y (t_box t) + box_height (t_box t)) \<ge> oy"

text \<open>The loop over the outputs; past the end of the list, \<^verbatim>\<open>cg_outp\<close> is no output.\<close>

fun output_of_wlr :: "nat \<Rightarrow> out_ptr list \<Rightarrow> cg_server \<Rightarrow> out_ptr option" where
  "output_of_wlr c [] s = None"
| "output_of_wlr c (p # ps) s = do {
     out \<leftarrow> s_outs s p;
     if o_wlr_output out = c then Some p else output_of_wlr c ps s
   }"

definition cursor_switch_event :: "tile_ptr \<Rightarrow> out_ptr \<Rightarrow> tile_ptr \<Rightarrow> cg_server \<Rightarrow> cg_server option" where
  "cursor_switch_event old p new s = do {
     ot \<leftarrow> s_tiles s old;
     ow \<leftarrow> t_workspace ot;
     ows \<leftarrow> s_workspaces s ow;
     oout \<leftarrow> s_outs s (w_output ows);
     old_id \<leftarrow> output_get_num (w_output ows) s;
     nout \<leftarrow> s_outs s p;
     new_id \<leftarrow> output_get_num p s;
     nt \<leftarrow> s_tiles s new;
     Some (ipc_send_event ''cursor_switch_tile''
             [(''old_output'', IStr (o_name oout)), (''old_output_id'', IInt old_id),
              (''old_tile'', d32 (t_id ot)), (''new_output'', IStr (o_name nout)),
              (''new_output_id'', IInt new_id), (''new_tile'', d32 (t_id nt))] s)
   }"

definition cursor_switch_tile :: "nat \<Rightarrow> rat \<Rightarrow> rat \<Rightarrow> cg_server \<Rightarrow> cg_server option" where
  "cursor_switch_tile c ox oy s = do {
     p \<leftarrow> output_of_wlr c (s_outputs s) s;
     w \<leftarrow> curr_ws_of p s;
     start \<leftarrow> focused_tile_of w s;
     r \<leftarrow> ring_find (\<lambda>_. tile_contains ox oy) (s_tile_brk s) start start s;
     let c_tile = (case r of Some tp \<Rightarrow> tp | None \<Rightarrow> start);
     s \<leftarrow> (case se_cursor_tile (s_seat s) of
             None \<Rightarrow> Some s
           | Some old \<Rightarrow>
               if old \<noteq> c_tile \<and> s_running s then cursor_switch_event old p c_tile s else Some s);
     Some (upd_seat (\<lambda>se. se\<lparr>se_cursor_tile := Some c_tile\<rparr>) s)
   }"

definition process_cursor_motion :: "u32 \<Rightarrow> cg_server \<Rightarrow> cg_server option" where
  "process_cursor_motion time s =
     (let s = pointer_notify time s;
          (dis, cs) = drag_icons_update 0 (s_seat s) (se_drag_icons (s_seat s));
          s = upd_seat (\<lambda>se. se\<lparr>se_drag_icons := dis\<rparr>) s;
          s = emit Idle_activity (s\<lparr>s_calls := s_calls s @ cs\<rparr>)
      in case s_cursor_at s of
           None \<Rightarrow> Some s
         | Some (c, ox, oy) \<Rightarrow> cursor_switch_tile c ox oy s)"

section \<open>The focus\<close>

definition seat_get_focus :: "cg_server \<Rightarrow> view_ptr option" where
  "seat_get_focus s = se_focused_view (s_seat s)"

definition seat_focus_background :: "cg_server \<Rightarrow> cg_server option" where
  "seat_focus_background s = do {
     let prev = seat_get_focus s;
     tp \<leftarrow> curr_tile s;
     s \<leftarrow> workspace_tile_update_view tp None s;
     let s = upd_seat (\<lambda>se. se\<lparr>se_focused_view := None\<rparr>) s;
     s \<leftarrow> view_activate prev False s;
     let s = emit Keyboard_clear_focus (upd_seat (\<lambda>se. se\<lparr>se_keyboard_focus := None\<rparr>) s);
     process_cursor_motion (- 1) (emit (Set_constraint None) s)
   }"

text \<open>The view becomes the visible one of the focused tile and the last of the workspace's list.\<close>

definition focus_show_view :: "view_ptr \<Rightarrow> cg_server \<Rightarrow> cg_server option" where
  "focus_show_view p s = do {
     w \<leftarrow> curr_ws s;
     tp \<leftarrow> focused_tile_of w s;
     s \<leftarrow> workspace_tile_update_view tp (Some p) s;
     ws \<leftarrow> s_workspaces s w;
     vs \<leftarrow> move_head_after p (w_views ws);
     upd_ws w (\<lambda>ws. ws\<lparr>w_views := vs\<rparr>) s
   }"

text \<open>The part of \<^verbatim>\<open>seat_set_focus\<close> after the early return for unmanaged views.\<close>

definition seat_focus_enter :: "view_ptr \<Rightarrow> cg_server \<Rightarrow> cg_server option" where
  "seat_focus_enter p s = do {
     s \<leftarrow> view_activate (Some p) True s;
     v \<leftarrow> s_views s p;
     let s = emit (Keyboard_enter (v_surface v))
               (upd_seat (\<lambda>se. se\<lparr>se_keyboard_focus := v_surface v\<rparr>) s);
     let s = emit (Scene_raise p) (emit (Set_constraint (v_surface v)) s);
     s \<leftarrow> process_cursor_motion (- 1) s;
     w \<leftarrow> v_workspace v;
     ws \<leftarrow> s_workspaces s w;
     (b, s) \<leftarrow> output_get_layout_box (w_output ws) s;
     Some (emit (Scene_bg_position (w_output ws) (box_x b) (box_y b)) s)
   }"

definition seat_set_focus :: "view_ptr option \<Rightarrow> cg_server \<Rightarrow> cg_server option" where
  "seat_set_focus po s =
     (case po of
        None \<Rightarrow> seat_focus_background s
      | Some p \<Rightarrow> do {
          let prev = seat_get_focus s;
          v \<leftarrow> s_views s p;
          let managed = (v_type v \<noteq> CG_XWAYLAND_VIEW \<or> xwayland_view_should_manage v);
          s \<leftarrow> (if managed then focus_show_view p s else Some s);
          let s = (if v_type v = CG_XWAYLAND_VIEW then emit Xwayland_set_seat s else s);
          if \<not> managed \<and> \<not> v_wants_focus v then Some s
          else do {
            s \<leftarrow> (if managed then do {
                     s \<leftarrow> view_activate prev False s;
                     Some (upd_seat (\<lambda>se. se\<lparr>se_focused_view := Some p\<rparr>) s)
                   } else Some s);
            seat_focus_enter p s
          }
        })"

end
