(* ===== verification/Switching.thy ===== *)
theory Switching
  imports Focus CString
begin

text \<open>
  Looking up tiles and views by their ids, and the actions that move the focus
  (\<^verbatim>\<open>keybinding.c\<close>): to another output, another workspace or another tile.
\<close>

section \<open>Looking up by id\<close>

text \<open>
  The nested loops of \<^verbatim>\<open>tile_from_id\<close> and \<^verbatim>\<open>view_from_id\<close>: over the outputs, over the first
  \<^verbatim>\<open>nws\<close> workspaces of each, with a search \<open>f\<close> inside a workspace, up to the first hit.
\<close>

fun search_ws ::
    "(ws_ptr \<Rightarrow> cg_server \<Rightarrow> 'a option option) \<Rightarrow> cg_output \<Rightarrow> nat list \<Rightarrow> cg_server \<Rightarrow> 'a option option" where
  "search_ws f out [] s = Some None"
| "search_ws f out (i # is) s = do {
     w \<leftarrow> ws_at out (int i);
     r \<leftarrow> f w s;
     case r of Some x \<Rightarrow> Some (Some x) | None \<Rightarrow> search_ws f out is s
   }"

fun search_outputs ::
    "(ws_ptr \<Rightarrow> cg_server \<Rightarrow> 'a option option) \<Rightarrow> out_ptr list \<Rightarrow> cg_server \<Rightarrow> 'a option option" where
  "search_outputs f [] s = Some None"
| "search_outputs f (p # ps) s = do {
     out \<leftarrow> s_outs s p;
     r \<leftarrow> search_ws f out [0..<unat (s_nws s)] s;
     case r of Some x \<Rightarrow> Some (Some x) | None \<Rightarrow> search_outputs f ps s
   }"

definition tile_in_ws :: "u32 \<Rightarrow> ws_ptr \<Rightarrow> cg_server \<Rightarrow> tile_ptr option option" where
  "tile_in_ws tid w s = do {
     start \<leftarrow> focused_tile_of w s;
     ring_find (\<lambda>_ t. t_id t = tid) (s_tile_brk s) start start s
   }"

definition tile_from_id :: "u32 \<Rightarrow> cg_server \<Rightarrow> tile_ptr option option" where
  "tile_from_id tid s = search_outputs (tile_in_ws tid) (s_outputs s) s"

fun find_view :: "(cg_view \<Rightarrow> bool) \<Rightarrow> view_ptr list \<Rightarrow> cg_server \<Rightarrow> view_ptr option option" where
  "find_view P [] s = Some None"
| "find_view P (p # ps) s = do {
     v \<leftarrow> s_views s p;
     if P v then Some (Some p) else find_view P ps s
   }"

definition view_in_ws :: "u32 \<Rightarrow> ws_ptr \<Rightarrow> cg_server \<Rightarrow> view_ptr option option" where
  "view_in_ws tid w s = do {
     ws \<leftarrow> s_workspaces s w;
     find_view (\<lambda>v. v_id v = tid) (w_views ws) s
   }"

definition view_from_id :: "u32 \<Rightarrow> cg_server \<Rightarrow> view_ptr option option" where
  "view_from_id tid s = search_outputs (view_in_ws tid) (s_outputs s) s"

section \<open>Outputs\<close>

definition message_printf :: "out_ptr \<Rightarrow> string \<Rightarrow> cg_server \<Rightarrow> cg_server" where
  "message_printf p msg s = emit (Message_printf p msg) s"

definition set_output :: "out_ptr \<Rightarrow> cg_server \<Rightarrow> cg_server option" where
  "set_output p s = do {
     let s = s\<lparr>s_curr_output := Some p\<rparr>;
     tp \<leftarrow> curr_tile s;
     t \<leftarrow> s_tiles s tp;
     s \<leftarrow> seat_set_focus (t_view t) s;
     p \<leftarrow> s_curr_output s;
     Some (message_printf p ''Current Output'' s)
   }"

text \<open>
  The neighbour of an output in the list of outputs, which is a ring through its head: from the
  last output on to the first one, and back.
\<close>

fun succ_in :: "'a list \<Rightarrow> 'a \<Rightarrow> 'a option" where
  "succ_in xs x = (case dropWhile (\<lambda>y. y \<noteq> x) xs of
                     [] \<Rightarrow> None
                   | _ # [] \<Rightarrow> (case xs of [] \<Rightarrow> None | y # _ \<Rightarrow> Some y)
                   | _ # y # _ \<Rightarrow> Some y)"

definition output_event_args :: "string \<Rightarrow> string \<Rightarrow> out_ptr \<Rightarrow> cg_server \<Rightarrow> (string \<times> ipc_val) list option" where
  "output_event_args kname kid p s = do {
     out \<leftarrow> s_outs s p;
     n \<leftarrow> output_get_num p s;
     Some [(kname, IStr (o_name out)), (kid, IInt n)]
   }"

definition keybinding_cycle_outputs :: "bool \<Rightarrow> bool \<Rightarrow> cg_server \<Rightarrow> cg_server option" where
  "keybinding_cycle_outputs rev_order trigger_event s = do {
     old \<leftarrow> s_curr_output s;
     p \<leftarrow> succ_in (if rev_order then rev (s_outputs s) else s_outputs s) old;
     s \<leftarrow> set_output p s;
     if trigger_event then do {
       a \<leftarrow> output_event_args ''old_output'' ''old_output_id'' old s;
       b \<leftarrow> output_event_args ''new_output'' ''new_output_id'' p s;
       Some (ipc_send_event ''cycle_outputs'' (a @ b @ [(''reverse'', IInt (of_bool rev_order))]) s)
     } else Some s
   }"

definition keybinding_switch_output :: "int \<Rightarrow> cg_server \<Rightarrow> cg_server option" where
  "keybinding_switch_output n s = do {
     old \<leftarrow> s_curr_output s;
     case output_from_num n s of
       Some p \<Rightarrow> do {
         s \<leftarrow> set_output p s;
         a \<leftarrow> output_event_args ''old_output'' ''old_output_id'' old s;
         b \<leftarrow> output_event_args ''new_output'' ''new_output_id'' p s;
         Some (ipc_send_event ''switch_output'' (a @ b) s)
       }
     | None \<Rightarrow> Some (message_printf old (''Output '' @ fmt_d n @ '' does not exist'') s)
   }"

section \<open>Workspaces\<close>

definition keybinding_switch_ws :: "u32 \<Rightarrow> cg_server \<Rightarrow> (int \<times> cg_server) option" where
  "keybinding_switch_ws ws s =
     (if ws \<ge> ucast (s_nws s) then Some (- 1, s)
      else do {
        p \<leftarrow> s_curr_output s;
        out \<leftarrow> s_outs s p;
        let old_ws = (word_of_int (o_curr_workspace out) :: u32);
        s \<leftarrow> workspace_focus p (uint ws) s;
        out \<leftarrow> s_outs s p;
        w \<leftarrow> ws_at out (uint ws);
        tp \<leftarrow> focused_tile_of w s;
        t \<leftarrow> s_tiles s tp;
        s \<leftarrow> seat_set_focus (t_view t) s;
        let s = message_printf p (''Workspace '' @ fmt_d (sint (ws + 1))) s;
        a \<leftarrow> output_event_args ''output'' ''output_id'' p s;
        Some (0, ipc_send_event ''switch_ws''
                   ([(''old_workspace'', d32 (old_ws + 1)), (''new_workspace'', d32 (ws + 1))] @ a) s)
      })"

section \<open>Tiles\<close>

definition focus_tile_event :: "out_ptr \<Rightarrow> ws_ptr \<Rightarrow> tile_ptr \<Rightarrow> tile_ptr \<Rightarrow> cg_server \<Rightarrow> cg_server option" where
  "focus_tile_event p w old tp s = do {
     ot \<leftarrow> s_tiles s old;
     t \<leftarrow> s_tiles s tp;
     tw \<leftarrow> t_workspace t;
     ft \<leftarrow> focused_tile_of tw s;
     ftile \<leftarrow> s_tiles s ft;
     ws \<leftarrow> s_workspaces s w;
     tws \<leftarrow> s_workspaces s tw;
     a \<leftarrow> output_event_args ''old_output'' ''old_output_id'' p s;
     b \<leftarrow> output_event_args ''output'' ''output_id'' (w_output tws) s;
     Some (ipc_send_event ''focus_tile''
             ([(''old_tile_id'', d32 (t_id ot)), (''new_tile_id'', d32 (t_id ftile)),
               (''old_workspace'', d32 (w_num ws + 1)), (''new_workspace'', d32 (w_num tws + 1))]
              @ a @ b) s)
   }"

definition keybinding_focus_tile :: "u32 \<Rightarrow> cg_server \<Rightarrow> cg_server option" where
  "keybinding_focus_tile tile_id s = do {
     p \<leftarrow> s_curr_output s;
     w \<leftarrow> curr_ws_of p s;
     old \<leftarrow> focused_tile_of w s;
     r \<leftarrow> tile_from_id tile_id s;
     case r of
       None \<Rightarrow> Some s
     | Some tp \<Rightarrow> do {
         t \<leftarrow> s_tiles s tp;
         tw \<leftarrow> t_workspace t;
         tws \<leftarrow> s_workspaces s tw;
         s \<leftarrow> (if p \<noteq> w_output tws then set_output (w_output tws) s else Some s);
         cp \<leftarrow> s_curr_output s;
         cout \<leftarrow> s_outs s cp;
         s \<leftarrow> (if o_curr_workspace cout \<noteq> sint (w_num tws)
               then map_option snd (keybinding_switch_ws (w_num tws) s) else Some s);
         s \<leftarrow> workspace_focus_tile tw tp s;
         t \<leftarrow> s_tiles s tp;
         s \<leftarrow> seat_set_focus (t_view t) s;
         focus_tile_event p w old tp s
       }
   }"

definition keybinding_cycle_tiles :: "bool \<Rightarrow> cg_server \<Rightarrow> cg_server option" where
  "keybinding_cycle_tiles rev_order s = do {
     tp \<leftarrow> curr_tile s;
     t \<leftarrow> s_tiles s tp;
     np \<leftarrow> (if rev_order then t_prev t else t_next t);
     n \<leftarrow> s_tiles s np;
     keybinding_focus_tile (t_id n) s
   }"

end
