(* ===== verification/Tiles.thy ===== *)
theory Tiles
  imports Switching CFloat
begin

text \<open>
  The actions on the tiling of a workspace (\<^verbatim>\<open>keybinding.c\<close>, \<^verbatim>\<open>output.c\<close>): finding the
  neighbour of a tile, splitting, merging, swapping and resizing tiles, and making a workspace
  fullscreen.
\<close>

section \<open>Neighbours\<close>

definition is_between_strict :: "int \<Rightarrow> int \<Rightarrow> int \<Rightarrow> bool" where
  "is_between_strict a b x \<longleftrightarrow> a < x \<and> x < b"

text \<open>
  The condition of each of the four searches, for the boxes of the tile and of the candidate;
  \<open>sdiv\<close> is the division of C, which rounds towards zero.
\<close>

definition is_right_of :: "wlr_box \<Rightarrow> wlr_box \<Rightarrow> bool" where
  "is_right_of b it =
     (let center = box_y b + box_height b sdiv 2
      in box_x it = box_x b + box_width b \<and>
         (is_between_strict (box_y it) (box_y it + box_height it) center \<or>
          box_y it + box_height it = center))"

definition is_left_of :: "wlr_box \<Rightarrow> wlr_box \<Rightarrow> bool" where
  "is_left_of b it =
     (let center = box_y b + box_height b sdiv 2
      in box_x it + box_width it = box_x b \<and>
         (is_between_strict (box_y it) (box_y it + box_height it) center \<or>
          box_y it + box_height it = center))"

definition is_top_of :: "wlr_box \<Rightarrow> wlr_box \<Rightarrow> bool" where
  "is_top_of b it =
     (let center = box_x b + box_width b sdiv 2
      in box_y it + box_height it = box_y b \<and>
         (is_between_strict (box_x it) (box_x it + box_width it) center \<or>
          box_x it + box_width it = center))"

definition is_bottom_of :: "wlr_box \<Rightarrow> wlr_box \<Rightarrow> bool" where
  "is_bottom_of b it =
     (let center = box_x b + box_width b sdiv 2
      in box_y it = box_y b + box_height b \<and>
         (is_between_strict (box_x it) (box_x it + box_width it) center \<or>
          box_x it + box_width it = center))"

text \<open>The loop the four functions share: from \<^verbatim>\<open>tile->next\<close> on, until back at the tile.\<close>

definition find_tile_by ::
    "(wlr_box \<Rightarrow> wlr_box \<Rightarrow> bool) \<Rightarrow> tile_ptr \<Rightarrow> cg_server \<Rightarrow> tile_ptr option option" where
  "find_tile_by P tp s = do {
     t \<leftarrow> s_tiles s tp;
     it \<leftarrow> t_next t;
     if it = tp then Some None
     else ring_find (\<lambda>_ u. P (t_box t) (t_box u)) (s_tile_brk s) tp it s
   }"

type_synonym tile_finder = "tile_ptr \<Rightarrow> cg_server \<Rightarrow> tile_ptr option option"

definition find_right_tile :: tile_finder where
  "find_right_tile = find_tile_by is_right_of"

definition find_left_tile :: tile_finder where
  "find_left_tile = find_tile_by is_left_of"

definition find_top_tile :: tile_finder where
  "find_top_tile = find_tile_by is_top_of"

definition find_bottom_tile :: tile_finder where
  "find_bottom_tile = find_tile_by is_bottom_of"

text \<open>
  The functions take accessors \<^verbatim>\<open>get_x\<close>, \<^verbatim>\<open>get_y\<close>, \<^verbatim>\<open>get_width\<close> and \<^verbatim>\<open>get_height\<close>,
  which return the address of a field; \<open>box_field\<close> names the field.
\<close>

datatype box_field = Get_x | Get_y | Get_width | Get_height

fun get_field :: "box_field \<Rightarrow> wlr_box \<Rightarrow> int" where
  "get_field Get_x b = box_x b"
| "get_field Get_y b = box_y b"
| "get_field Get_width b = box_width b"
| "get_field Get_height b = box_height b"

fun set_field :: "box_field \<Rightarrow> int \<Rightarrow> wlr_box \<Rightarrow> wlr_box" where
  "set_field Get_x i b = b\<lparr>box_x := i\<rparr>"
| "set_field Get_y i b = b\<lparr>box_y := i\<rparr>"
| "set_field Get_width i b = b\<lparr>box_width := i\<rparr>"
| "set_field Get_height i b = b\<lparr>box_height := i\<rparr>"

definition get_compl_coord :: "box_field \<Rightarrow> box_field" where
  "get_compl_coord f = (if f = Get_x then Get_y else Get_x)"

definition get_compl_dim :: "box_field \<Rightarrow> box_field" where
  "get_compl_dim f = (if f = Get_height then Get_width else Get_height)"

section \<open>Merging\<close>

text \<open>The box of the surviving tile: the extent across the shared edge is the sum.\<close>

definition merge_boxes :: "box_field \<Rightarrow> box_field \<Rightarrow> wlr_box \<Rightarrow> wlr_box \<Rightarrow> wlr_box" where
  "merge_boxes df cf b m =
     (let cd = get_compl_dim df; cc = get_compl_coord cf;
          b' = set_field cd (get_field cd m + get_field cd b) b
      in set_field cc (min (get_field cc m) (get_field cc b')) b')"

text \<open>The part of \<^verbatim>\<open>merge_tile\<close> that takes the tile \<open>m\<close> out of the ring and frees it.\<close>

definition merge_unlink :: "tile_ptr \<Rightarrow> tile_ptr \<Rightarrow> box_field \<Rightarrow> box_field \<Rightarrow> cg_server \<Rightarrow> cg_server option" where
  "merge_unlink tp m df cf s = do {
     s \<leftarrow> workspace_tile_update_view m None s;
     mt \<leftarrow> s_tiles s m;
     mprev \<leftarrow> t_prev mt;
     s \<leftarrow> upd_tile mprev (\<lambda>t. t\<lparr>t_next := t_next mt\<rparr>) s;
     mt \<leftarrow> s_tiles s m;
     mnext \<leftarrow> t_next mt;
     s \<leftarrow> upd_tile mnext (\<lambda>t. t\<lparr>t_prev := t_prev mt\<rparr>) s;
     mt \<leftarrow> s_tiles s m;
     w \<leftarrow> t_workspace mt;
     ws \<leftarrow> s_workspaces s w;
     s \<leftarrow> (if w_focused_tile ws = Some m then upd_ws w (\<lambda>ws. ws\<lparr>w_focused_tile := Some tp\<rparr>) s
           else Some s);
     s \<leftarrow> upd_tile tp (\<lambda>t. t\<lparr>t_box := merge_boxes df cf (t_box t) (t_box mt)\<rparr>) s;
     let s = (if se_cursor_tile (s_seat s) = Some m
              then upd_seat (\<lambda>se. se\<lparr>se_cursor_tile := Some tp\<rparr>) s else s);
     Some (s\<lparr>s_tiles := (s_tiles s)(m := None)\<rparr>)
   }"

text \<open>The workspace and output fields that the events about a tile carry.\<close>

definition ws_event_args :: "ws_ptr \<Rightarrow> cg_server \<Rightarrow> (string \<times> ipc_val) list option" where
  "ws_event_args w s = do {
     ws \<leftarrow> s_workspaces s w;
     a \<leftarrow> output_event_args ''output'' ''output_id'' (w_output ws) s;
     Some ((''workspace'', d32 (w_num ws + 1)) # a)
   }"

definition merge_tile ::
    "tile_finder \<Rightarrow> box_field \<Rightarrow> box_field \<Rightarrow> tile_ptr \<Rightarrow> cg_server \<Rightarrow> cg_server option" where
  "merge_tile find_tile df cf tp s = do {
     r \<leftarrow> find_tile tp s;
     case r of
       None \<Rightarrow> Some s
     | Some m \<Rightarrow> do {
         t \<leftarrow> s_tiles s tp;
         mt \<leftarrow> s_tiles s m;
         if m = tp \<or> get_field df (t_box t) \<noteq> get_field df (t_box mt)
            \<or> get_field cf (t_box t) \<noteq> get_field cf (t_box mt)
         then Some s
         else do {
           s \<leftarrow> merge_unlink tp m df cf s;
           t \<leftarrow> s_tiles s tp;
           s \<leftarrow> (case t_view t of None \<Rightarrow> Some s | Some p \<Rightarrow> view_maximize p tp s);
           t \<leftarrow> s_tiles s tp;
           w \<leftarrow> t_workspace t;
           a \<leftarrow> ws_event_args w s;
           Some (ipc_send_event ''merge_tile''
                   ([(''tile_id'', d32 (t_id t)), (''merge_tile_id'', d32 (t_id mt))] @ a) s)
         }
       }
   }"

definition merge_tile_left :: "tile_ptr \<Rightarrow> cg_server \<Rightarrow> cg_server option" where
  "merge_tile_left = merge_tile find_left_tile Get_height Get_y"

definition merge_tile_right :: "tile_ptr \<Rightarrow> cg_server \<Rightarrow> cg_server option" where
  "merge_tile_right = merge_tile find_right_tile Get_height Get_y"

definition merge_tile_top :: "tile_ptr \<Rightarrow> cg_server \<Rightarrow> cg_server option" where
  "merge_tile_top = merge_tile find_top_tile Get_width Get_x"

definition merge_tile_bottom :: "tile_ptr \<Rightarrow> cg_server \<Rightarrow> cg_server option" where
  "merge_tile_bottom = merge_tile find_bottom_tile Get_width Get_x"

section \<open>Swapping\<close>

definition swap_event :: "tile_ptr \<Rightarrow> tile_ptr \<Rightarrow> cg_server \<Rightarrow> cg_server option" where
  "swap_event tp sp s = do {
     t \<leftarrow> s_tiles s tp;
     st \<leftarrow> s_tiles s sp;
     w \<leftarrow> t_workspace t;
     a \<leftarrow> ws_event_args w s;
     Some (ipc_send_event ''swap_tile''
             ([(''tile_id'', d32 (t_id t)), (''swap_tile_id'', d32 (t_id st))] @ a) s)
   }"

definition exchange_views :: "tile_ptr \<Rightarrow> tile_ptr \<Rightarrow> cg_server \<Rightarrow> cg_server option" where
  "exchange_views tp sp s = do {
     t \<leftarrow> s_tiles s tp;
     st \<leftarrow> s_tiles s sp;
     s \<leftarrow> workspace_tile_update_view tp None s;
     s \<leftarrow> workspace_tile_update_view sp (t_view t) s;
     workspace_tile_update_view tp (t_view st) s
   }"

definition swap_tiles :: "tile_ptr option \<Rightarrow> tile_ptr option \<Rightarrow> bool \<Rightarrow> cg_server \<Rightarrow> cg_server option" where
  "swap_tiles to so follow s =
     (case (to, so) of
        (Some tp, Some sp) \<Rightarrow>
          if sp = tp then Some s
          else do {
            s \<leftarrow> exchange_views tp sp s;
            s \<leftarrow> (if follow then do {
                     st \<leftarrow> s_tiles s sp;
                     keybinding_focus_tile (t_id st) s
                   } else do {
                     cp \<leftarrow> curr_tile s;
                     ct \<leftarrow> s_tiles s cp;
                     seat_set_focus (t_view ct) s
                   });
            swap_event tp sp s
          }
      | _ \<Rightarrow> Some s)"

definition swap_tile :: "u32 \<Rightarrow> tile_finder \<Rightarrow> bool \<Rightarrow> cg_server \<Rightarrow> cg_server option" where
  "swap_tile tile_id find_tile follow s = do {
     r \<leftarrow> (if tile_id = 0 then map_option Some (curr_tile s) else tile_from_id tile_id s);
     case r of
       None \<Rightarrow> Some s
     | Some tp \<Rightarrow> do {
         sp \<leftarrow> find_tile tp s;
         swap_tiles (Some tp) sp follow s
       }
   }"

definition swap_tile_left :: "u32 \<Rightarrow> bool \<Rightarrow> cg_server \<Rightarrow> cg_server option" where
  "swap_tile_left tile_id = swap_tile tile_id find_left_tile"

definition swap_tile_right :: "u32 \<Rightarrow> bool \<Rightarrow> cg_server \<Rightarrow> cg_server option" where
  "swap_tile_right tile_id = swap_tile tile_id find_right_tile"

definition swap_tile_top :: "u32 \<Rightarrow> bool \<Rightarrow> cg_server \<Rightarrow> cg_server option" where
  "swap_tile_top tile_id = swap_tile tile_id find_top_tile"

definition swap_tile_bottom :: "u32 \<Rightarrow> bool \<Rightarrow> cg_server \<Rightarrow> cg_server option" where
  "swap_tile_bottom tile_id = swap_tile tile_id find_bottom_tile"

section \<open>Focusing a neighbour\<close>

definition focus_tile :: "tile_finder \<Rightarrow> tile_ptr \<Rightarrow> cg_server \<Rightarrow> cg_server option" where
  "focus_tile find_tile tp s = do {
     r \<leftarrow> find_tile tp s;
     case r of
       None \<Rightarrow> Some s
     | Some new \<Rightarrow> do {
         t \<leftarrow> s_tiles s tp;
         w \<leftarrow> t_workspace t;
         s \<leftarrow> workspace_focus_tile w new s;
         nt \<leftarrow> s_tiles s new;
         seat_set_focus (t_view nt) s
       }
   }"

definition focus_tile_left :: "tile_ptr \<Rightarrow> cg_server \<Rightarrow> cg_server option" where
  "focus_tile_left = focus_tile find_left_tile"

definition focus_tile_right :: "tile_ptr \<Rightarrow> cg_server \<Rightarrow> cg_server option" where
  "focus_tile_right = focus_tile find_right_tile"

definition focus_tile_top :: "tile_ptr \<Rightarrow> cg_server \<Rightarrow> cg_server option" where
  "focus_tile_top = focus_tile find_top_tile"

definition focus_tile_bottom :: "tile_ptr \<Rightarrow> cg_server \<Rightarrow> cg_server option" where
  "focus_tile_bottom = focus_tile find_bottom_tile"

section \<open>Splitting\<close>

text \<open>
  \<^verbatim>\<open>(int)(((float)width) * percentage)\<close>; the conversion of a value out of the range of
  \<^verbatim>\<open>int\<close> is undefined in C and the fault \<open>None\<close> here.
\<close>

definition split_size :: "int \<Rightarrow> f32 \<Rightarrow> int option" where
  "split_size n percentage = f32_to_int (f32_mult (f32_of_int n) percentage)"

text \<open>The first view of the workspace that is neither visible nor the focused one.\<close>

fun split_next_view :: "view_ptr option \<Rightarrow> view_ptr list \<Rightarrow> cg_server \<Rightarrow> view_ptr option option" where
  "split_next_view orig [] s = Some None"
| "split_next_view orig (p # ps) s = do {
     vis \<leftarrow> view_is_visible p s;
     if \<not> vis \<and> orig \<noteq> Some p then Some (Some p) else split_next_view orig ps s
   }"

text \<open>
  The new tile is allocated, filled in, linked behind the focused tile \<open>f\<close>, and the focused
  tile is cut down to \<open>(nw, nh)\<close>.
\<close>

definition split_insert ::
    "ws_ptr \<Rightarrow> tile_ptr \<Rightarrow> wlr_box \<Rightarrow> int \<Rightarrow> int \<Rightarrow> view_ptr option \<Rightarrow> cg_server \<Rightarrow> (tile_ptr \<times> cg_server) option" where
  "split_insert w f box nw nh next_view s = do {
     let (n, s) = calloc_tile s;
     let tid = s_tiles_curr_id s;
     let s = s\<lparr>s_tiles_curr_id := tid + 1\<rparr>;
     ft \<leftarrow> s_tiles s f;
     s \<leftarrow> upd_tile n (\<lambda>t. t\<lparr>t_id := tid, t_box := box, t_prev := Some f, t_next := t_next ft\<rparr>) s;
     s \<leftarrow> workspace_tile_update_view n next_view s;
     s \<leftarrow> upd_tile n (\<lambda>t. t\<lparr>t_workspace := Some w\<rparr>) s;
     ft \<leftarrow> s_tiles s f;
     fnext \<leftarrow> t_next ft;
     s \<leftarrow> upd_tile fnext (\<lambda>t. t\<lparr>t_prev := Some n\<rparr>) s;
     s \<leftarrow> upd_tile f (\<lambda>t. t\<lparr>t_next := Some n\<rparr>) s;
     s \<leftarrow> upd_tile f (\<lambda>t. t\<lparr>t_box := (t_box t)\<lparr>box_width := nw, box_height := nh\<rparr>\<rparr>) s;
     Some (n, s)
   }"

definition split_event :: "ws_ptr \<Rightarrow> tile_ptr \<Rightarrow> tile_ptr \<Rightarrow> bool \<Rightarrow> cg_server \<Rightarrow> cg_server option" where
  "split_event w f n vertical s = do {
     ft \<leftarrow> s_tiles s f;
     nt \<leftarrow> s_tiles s n;
     a \<leftarrow> ws_event_args w s;
     Some (ipc_send_event ''split''
             ([(''tile_id'', d32 (t_id ft)), (''new_tile_id'', d32 (t_id nt))] @ a
              @ [(''vertical'', IInt (of_bool vertical))]) s)
   }"

definition keybinding_split_output :: "out_ptr \<Rightarrow> bool \<Rightarrow> f32 \<Rightarrow> cg_server \<Rightarrow> cg_server option" where
  "keybinding_split_output p vertical percentage s = do {
     let original_view = seat_get_focus s;
     w \<leftarrow> curr_ws_of p s;
     f \<leftarrow> focused_tile_of w s;
     ft \<leftarrow> s_tiles s f;
     let b = t_box ft;
     nw \<leftarrow> (if vertical then split_size (box_width b) percentage else Some (box_width b));
     nh \<leftarrow> (if vertical then Some (box_height b) else split_size (box_height b) percentage);
     if nw < 1 \<or> nh < 1 then Some s
     else do {
       ws \<leftarrow> s_workspaces s w;
       next_view \<leftarrow> split_next_view original_view (w_views ws) s;
       let nx = (if vertical then box_x b + nw else box_x b);
       let ny = (if vertical then box_y b else box_y b + nh);
       let nbox = \<lparr>box_x = nx, box_y = ny, box_width = box_x b + box_width b - nx,
                   box_height = box_y b + box_height b - ny\<rparr>;
       (n, s) \<leftarrow> split_insert w f nbox nw nh next_view s;
       s \<leftarrow> workspace_focus_tile w f s;
       s \<leftarrow> (case next_view of None \<Rightarrow> Some s | Some v \<Rightarrow> view_maximize v n s);
       s \<leftarrow> (case original_view of None \<Rightarrow> Some s | Some v \<Rightarrow> view_maximize v f s);
       split_event w f n vertical s
     }
   }"

definition keybinding_split_vertical :: "f32 \<Rightarrow> cg_server \<Rightarrow> cg_server option" where
  "keybinding_split_vertical percentage s = do {
     p \<leftarrow> s_curr_output s;
     keybinding_split_output p True percentage s
   }"

definition keybinding_split_horizontal :: "f32 \<Rightarrow> cg_server \<Rightarrow> cg_server option" where
  "keybinding_split_horizontal percentage s = do {
     p \<leftarrow> s_curr_output s;
     keybinding_split_output p False percentage s
   }"

section \<open>Fullscreen\<close>

fun first_visible_view :: "view_ptr list \<Rightarrow> cg_server \<Rightarrow> view_ptr option option" where
  "first_visible_view [] s = Some None"
| "first_visible_view (p # ps) s = do {
     vis \<leftarrow> view_is_visible p s;
     if vis then Some (Some p) else first_visible_view ps s
   }"

definition output_make_workspace_fullscreen :: "out_ptr \<Rightarrow> u32 \<Rightarrow> cg_server \<Rightarrow> cg_server option" where
  "output_make_workspace_fullscreen p i s =
     (if i \<ge> ucast (s_nws s) then Some s
      else do {
        out \<leftarrow> s_outs s p;
        w \<leftarrow> ws_at out (uint i);
        ft \<leftarrow> focused_tile_of w s;
        t \<leftarrow> s_tiles s ft;
        ws \<leftarrow> s_workspaces s w;
        current_view \<leftarrow> (case t_view t of
                            Some v \<Rightarrow> Some (Some v)
                          | None \<Rightarrow> first_visible_view (w_views ws) s);
        s \<leftarrow> workspace_free_tiles w s;
        s \<leftarrow> full_screen_workspace_tiles w s;
        ft \<leftarrow> focused_tile_of w s;
        s \<leftarrow> ofold (\<lambda>v. upd_view v (\<lambda>v. v\<lparr>v_tile := Some ft\<rparr>)) (w_views ws) s;
        s \<leftarrow> workspace_tile_update_view ft current_view s;
        if i = word_of_int (o_curr_workspace out) \<and> s_curr_output s = Some p
        then seat_set_focus current_view s else Some s
      })"

definition keybinding_workspace_fullscreen :: "u32 \<Rightarrow> u32 \<Rightarrow> cg_server \<Rightarrow> cg_server option" where
  "keybinding_workspace_fullscreen screen workspace s = do {
     cp \<leftarrow> s_curr_output s;
     cout \<leftarrow> s_outs s cp;
     let po = (if screen \<noteq> 0 then output_from_num (sint screen) s else Some cp);
     let i = (if screen \<noteq> 0 then workspace else word_of_int (o_curr_workspace cout));
     case po of
       None \<Rightarrow> Some s
     | Some p \<Rightarrow>
         if i \<ge> ucast (s_nws s) then Some s
         else do {
           s \<leftarrow> output_make_workspace_fullscreen p i s;
           out \<leftarrow> s_outs s p;
           w \<leftarrow> ws_at out (uint i);
           ft \<leftarrow> focused_tile_of w s;
           t \<leftarrow> s_tiles s ft;
           ws \<leftarrow> s_workspaces s w;
           a \<leftarrow> output_event_args ''output'' ''output_id'' p s;
           Some (ipc_send_event ''fullscreen''
                   ([(''tile_id'', d32 (t_id t)), (''workspace'', d32 (w_num ws + 1))] @ a) s)
         }
   }"

end
