(* ===== verification/Float_Bounds.thy ===== *)
theory Float_Bounds
  imports Complex_Main CFloat
begin

text \<open>
  Bounds of the binary32 arithmetic of a split, \<^verbatim>\<open>(int)(((float)w) * p)\<close>: for a screen of less
  than \<open>2^24\<close> pixels and a percentage below one the cast is defined and the result is less than \<open>w\<close>,
  although the product is rounded to the nearest representable value.
\<close>

section \<open>The exponent of the rounded value\<close>

lemma bitlen_bounds: "0 < n \<Longrightarrow> 2 ^ (bitlen n - 1) \<le> n \<and> n < 2 ^ bitlen n \<and> 0 < bitlen n"
proof (induction n rule: bitlen.induct)
  case (1 n)
  show ?case
  proof (cases "n div 2 = 0")
    case True
    with 1(2) have "n = 1" by simp
    then show ?thesis by simp
  next
    case False
    then have pos: "0 < n div 2" by simp
    have ih: "2 ^ (bitlen (n div 2) - 1) \<le> n div 2" "n div 2 < 2 ^ bitlen (n div 2)" "0 < bitlen (n div 2)"
      using 1(1) 1(2) pos by auto
    have b: "bitlen n = Suc (bitlen (n div 2))" using 1(2) bitlen.simps [of n] by simp
    obtain k where k: "bitlen (n div 2) = Suc k" using ih(3) by (cases "bitlen (n div 2)") auto
    have "2 * 2 ^ k \<le> n" "n < 2 * 2 ^ Suc k" using ih(1,2) k by simp_all
    then show ?thesis using b k by simp
  qed
qed

text \<open>The value of a quotient scaled by a power of two, as a rational number.\<close>

lemma scaled_value:
  assumes "0 < q" and "scaled p q e = (a, b)"
  shows "0 < b" and "(of_nat a :: rat) / of_nat b = of_nat p / of_nat q / 2 powi e"
  using assms by (auto simp: scaled_def power_int_def power_one_over field_simps split: if_splits)

lemma powi_ratio: "(2 :: rat) powi (int i - int j) = 2 ^ i / 2 ^ j"
  by (simp add: power_int_diff)

text \<open>Before the lower limit of the exponent is applied, the scaled value has 24 bits.\<close>

lemma scaled_range:
  assumes p: "0 < p" and q: "0 < q" and s: "scaled p q (int (bitlen p) - int (bitlen q) - 24) = (a, b)"
  shows "2 ^ 23 * of_nat b < (of_nat a :: rat)" and "(of_nat a :: rat) < 2 ^ 25 * of_nat b"
proof -
  let ?x = "(of_nat p :: rat) / of_nat q"
  let ?bp = "bitlen p" and ?bq = "bitlen q"
  let ?e = "int ?bp - int ?bq - 24"
  obtain j where j: "?bp = Suc j" "2 ^ j \<le> p" "p < 2 ^ Suc j" using bitlen_bounds [OF p] by (cases ?bp) auto
  obtain k where k: "?bq = Suc k" "2 ^ k \<le> q" "q < 2 ^ Suc k" using bitlen_bounds [OF q] by (cases ?bq) auto
  have P: "(2 :: rat) ^ j \<le> of_nat p" "(of_nat p :: rat) < 2 ^ Suc j"
    using j(2,3) by (simp_all only: of_nat_le_iff [symmetric, where 'a = rat] of_nat_less_iff [symmetric, where 'a = rat] of_nat_power of_nat_numeral)
  have Q: "(2 :: rat) ^ k \<le> of_nat q" "(of_nat q :: rat) < 2 ^ Suc k"
    using k(2,3) by (simp_all only: of_nat_le_iff [symmetric, where 'a = rat] of_nat_less_iff [symmetric, where 'a = rat] of_nat_power of_nat_numeral)
  have Qpos: "(0 :: rat) < of_nat q" using q by simp
  have e: "(2 :: rat) powi ?e = 2 ^ j / 2 ^ k / 2 ^ 24"
    using powi_ratio [of "Suc j" "Suc k + 24"] j(1) k(1) by (simp add: power_add algebra_simps)
  note v = scaled_value [OF q s]
  have ab: "(of_nat a :: rat) = of_nat b * (?x / (2 ^ j / 2 ^ k / 2 ^ 24))" 
    using v(1) unfolding v(2) [unfolded e, symmetric] by simp
  have b: "(0 :: rat) < of_nat b" using v(1) by simp
  have lo: "2 ^ 23 < ?x / (2 ^ j / 2 ^ k / 2 ^ 24)"
  proof -
    have "2 ^ j * of_nat q < of_nat p * (2 ^ Suc k :: rat)"
      using mult_le_less_imp_less [OF P(1) Q(2)] Qpos by simp
    then show ?thesis using Qpos by (simp add: field_simps)
  qed
  have hi: "?x / (2 ^ j / 2 ^ k / 2 ^ 24) < 2 ^ 25"
  proof -
    have "of_nat p * 2 ^ k < (2 ^ Suc j :: rat) * of_nat q"
      using mult_less_le_imp_less [OF P(2) Q(1)] by simp
    then show ?thesis using Qpos by (simp add: field_simps)
  qed
  show "2 ^ 23 * of_nat b < (of_nat a :: rat)" unfolding ab using mult_strict_left_mono [OF lo b] by (simp add: mult.commute)
  show "(of_nat a :: rat) < 2 ^ 25 * of_nat b" unfolding ab using mult_strict_left_mono [OF hi b] by (simp add: mult.commute)
qed

lemma f32_exponent_normal:
  assumes p: "0 < p" and q: "0 < q"
  shows "- 149 \<le> f32_exponent p q"
    and "f32_exponent p q = - 149 \<or> 2 ^ 23 * 2 powi (f32_exponent p q) \<le> (of_nat p :: rat) / of_nat q"
proof -
  let ?x = "(of_nat p :: rat) / of_nat q"
  let ?e = "int (bitlen p) - int (bitlen q) - 24"
  obtain a b where s: "scaled p q ?e = (a, b)" by (cases "scaled p q ?e")
  have E: "f32_exponent p q = max (if 2 ^ 24 * b \<le> a then ?e + 1 else ?e) (- 149)"
    using s by (simp add: f32_exponent_def Let_def)
  then show "- 149 \<le> f32_exponent p q" by simp
  note v = scaled_value [OF q s]
  have b: "(0 :: rat) < of_nat b" using v(1) by simp
  have x: "?x = of_nat a / of_nat b * 2 powi ?e" using v(2) by (simp add: power_int_not_zero)
  have "2 ^ 23 * 2 powi (if 2 ^ 24 * b \<le> a then ?e + 1 else ?e) \<le> ?x"
  proof (cases "2 ^ 24 * b \<le> a")
    case True
    then have "(2 :: rat) ^ 24 * of_nat b \<le> of_nat a"
      by (simp only: of_nat_le_iff [symmetric, where 'a = rat] of_nat_mult of_nat_power of_nat_numeral)
    then have "(2 :: rat) ^ 24 \<le> of_nat a / of_nat b" using b by (simp add: field_simps)
    moreover have "(2 :: rat) powi (?e + 1) = 2 * 2 powi ?e" by (subst power_int_add) simp_all
    ultimately show ?thesis
      using mult_right_mono [of "2 ^ 24" "(of_nat a :: rat) / of_nat b" "2 powi ?e"] True unfolding x by simp
  next
    case False
    have "(2 :: rat) ^ 23 \<le> of_nat a / of_nat b" using scaled_range(1) [OF p q s] b by (simp add: field_simps)
    from mult_right_mono [OF this, of "2 powi ?e"] False show ?thesis unfolding x by simp
  qed
  with E show "f32_exponent p q = - 149 \<or> 2 ^ 23 * 2 powi (f32_exponent p q) \<le> ?x"
    by (simp only: max_def) presburger
qed

text \<open>A value below \<open>2^24\<close> has an exponent that is not positive, so no bit before the point is lost.\<close>

lemma f32_exponent_small:
  assumes p: "0 < p" and q: "0 < q" and x: "p < 2 ^ 24 * q"
  obtains s where "f32_exponent p q = - int s" and "scaled p q (- int s) = (p * 2 ^ s, q)"
    and "s = 149 \<or> 2 ^ 23 * q \<le> p * 2 ^ s"
proof -
  let ?E = "f32_exponent p q"
  let ?x = "(of_nat p :: rat) / of_nat q"
  have Q: "(0 :: rat) < of_nat q" using q by simp
  have "(of_nat p :: rat) < 2 ^ 24 * of_nat q"
    using x by (simp only: of_nat_less_iff [symmetric, where 'a = rat] of_nat_mult of_nat_power of_nat_numeral)
  then have X: "?x < 2 ^ 24" using Q by (simp add: field_simps)
  have "?E \<le> 0"
  proof (rule ccontr)
    assume "\<not> ?E \<le> 0"
    then have "1 \<le> ?E" by simp
    then have "(2 :: rat) powi 1 \<le> 2 powi ?E" by (intro power_int_increasing) simp_all
    then have "(2 :: rat) ^ 24 \<le> 2 ^ 23 * 2 powi ?E" by simp
    with f32_exponent_normal(2) [OF p q] X \<open>1 \<le> ?E\<close> show False by auto
  qed
  define s where "s = nat (- ?E)"
  have E: "?E = - int s" using \<open>?E \<le> 0\<close> by (simp add: s_def)
  have "s = 149 \<or> 2 ^ 23 * q \<le> p * 2 ^ s"
  proof (cases "s = 149")
    case False
    then have "2 ^ 23 * 2 powi (- int s) \<le> ?x" using f32_exponent_normal(2) [OF p q] E by auto
    then have "(2 :: rat) ^ 23 / 2 ^ s \<le> ?x" by (simp add: power_int_minus field_simps)
    then have "(2 :: rat) ^ 23 * of_nat q \<le> of_nat p * 2 ^ s" using Q by (simp add: field_simps)
    then have "2 ^ 23 * q \<le> p * 2 ^ s"
      by (simp only: of_nat_le_iff [symmetric, where 'a = rat] of_nat_mult of_nat_power of_nat_numeral)
    then show ?thesis by simp
  qed simp
  with E show thesis by (intro that [of s]) (auto simp: scaled_def)
qed

lemma div_even_half:
  assumes "0 < b" and "0 < n" and "2 * a < (2 * n - 1) * b"
  shows "div_even a b \<le> n - 1"
proof -
  have dm: "a div b * b + a mod b = a" by simp
  show ?thesis
  proof (cases "a div b + 2 \<le> n")
    case True
    with div_even_bounds(2) [OF assms(1), of a] show ?thesis by linarith
  next
    case False
    obtain k where k: "n = Suc k" using assms(2) by (cases n) auto
    have le: "a div b \<le> k"
    proof (rule ccontr)
      assume "\<not> a div b \<le> k"
      then have "Suc k * b \<le> a div b * b" by (intro mult_le_mono1) simp
      moreover have "a div b * b \<le> a" by simp
      moreover have "(2 * n - 1) * b = b + 2 * (k * b)" using k by (simp add: algebra_simps)
      ultimately show False using assms(3) by simp
    qed
    with False k have d: "a div b = k" by simp
    have "2 * a < (2 * k + 1) * b" using assms(3) k by simp
    with dm d have "2 * (a mod b) < b" by (simp add: algebra_simps)
    with d k show ?thesis by (simp add: div_even_def Let_def)
  qed
qed

lemma round_f32_less:
  assumes p: "0 < p" and q: "0 < q" and w: "0 < w" "w < 2 ^ 24" and le: "p * 2 ^ 24 \<le> q * w * (2 ^ 24 - 1)"
  obtains m s where "round_f32 False p q = Fin (int m) (- int s)" and "m < w * 2 ^ s"
proof -
  have "p * 2 ^ 24 < 2 ^ 24 * q * 2 ^ 24"
  proof -
    have "q * w * (2 ^ 24 - 1) \<le> q * w * 2 ^ 24" by simp
    also have "\<dots> < q * 2 ^ 24 * 2 ^ 24" using q w(2) by simp
    finally have "q * w * (2 ^ 24 - 1) < 2 ^ 24 * q * 2 ^ 24" by (simp only: mult.commute)
    with le show ?thesis by (rule le_less_trans)
  qed
  then have x: "p < 2 ^ 24 * q" by simp
  obtain s where s: "f32_exponent p q = - int s" "scaled p q (- int s) = (p * 2 ^ s, q)" "s = 149 \<or> 2 ^ 23 * q \<le> p * 2 ^ s"
    using f32_exponent_small [OF p q x] .
  let ?n = "w * 2 ^ s"
  have le': "p * 2 ^ s * 2 ^ 24 \<le> q * ?n * (2 ^ 24 - 1)" using mult_right_mono [OF le, of "2 ^ s"] by (simp add: algebra_simps)
  have npos: "0 < ?n" using w(1) by simp
  have big: "2 ^ 24 < 2 * ?n"
    using s(3)
  proof
    assume "s = 149"
    have "(2 :: nat) ^ 24 < 2 ^ 149" by (rule power_strict_increasing) simp_all
    also have "\<dots> \<le> w * 2 ^ 149" using w(1) by simp
    finally have "2 ^ 24 < w * 2 ^ s" unfolding \<open>s = 149\<close> .
    also have "\<dots> \<le> 2 * ?n" by simp
    finally show ?thesis .
  next
    assume "2 ^ 23 * q \<le> p * 2 ^ s"
    then have "2 ^ 23 * q * 2 ^ 24 \<le> q * ?n * (2 ^ 24 - 1)" using le' by (meson le_trans mult_le_mono1)
    moreover have "q * ?n * (2 ^ 24 - 1) < q * ?n * 2 ^ 24" using q npos by simp
    ultimately have "q * (2 ^ 23 * 2 ^ 24) < q * (?n * 2 ^ 24)" by (simp add: algebra_simps)
    then have "2 ^ 23 * 2 ^ 24 < ?n * (2 :: nat) ^ 24" using q by simp
    then show ?thesis by simp
  qed
  have m: "div_even (p * 2 ^ s) q \<le> ?n - 1"
  proof (rule div_even_half [OF q npos])
    have "2 * (p * 2 ^ s) * 2 ^ 24 \<le> 2 * (q * ?n * (2 ^ 24 - 1))" using le' by linarith
    also have "\<dots> = 2 * q * ?n * 2 ^ 24 - 2 * q * ?n" by (simp add: algebra_simps)
    also have "\<dots> < 2 * q * ?n * 2 ^ 24 - q * 2 ^ 24"
    proof (rule diff_less_mono2)
      show "q * 2 ^ 24 < 2 * q * ?n" using mult_strict_left_mono [OF big q] by (simp add: algebra_simps)
      have "1 < 2 * ?n" using big by simp
      with q show "q * 2 ^ 24 < 2 * q * ?n * 2 ^ 24" by simp
    qed
    also have "\<dots> = (2 * ?n - 1) * q * 2 ^ 24" by (simp add: algebra_simps diff_mult_distrib)
    finally show "2 * (p * 2 ^ s) < (2 * ?n - 1) * q" by (simp add: mult.commute)
  qed
  let ?m = "div_even (p * 2 ^ s) q"
  have lt: "?m < ?n" using m npos by linarith
  have r: "round_f32 False p q = (let (m', e') = (if ?m = 2 ^ 24 then (2 ^ 23, 1 - int s) else (?m, - int s))
      in if 104 < e' then Inf False else if m' = 0 then Fin 0 0 else Fin (int m') e')"
    using p s(1,2) by (simp add: round_f32_def Let_def)
  show thesis
  proof (cases "?m = 2 ^ 24")
    case False
    show thesis
    proof (cases "?m = 0")
      case True
      with r show thesis using w(1) by (intro that [of 0 0]) simp_all
    next
      case False
      with r \<open>?m \<noteq> 2 ^ 24\<close> lt show thesis by (intro that [of ?m s]) simp_all
    qed
  next
    case True
    have "s \<noteq> 0" using lt True w(2) by (cases s) auto
    then obtain s' where s': "s = Suc s'" by (cases s) auto
    have "2 * 2 ^ 23 < 2 * (w * 2 ^ s')" using lt True s' by (simp add: algebra_simps)
    then have "2 ^ 23 < w * 2 ^ s'" by linarith
    with r True s' show thesis by (intro that [of "2 ^ 23" s']) simp_all
  qed
qed

section \<open>Integers and products\<close>

lemma f32_of_int_exact:
  assumes "0 < w" and "w < 2 ^ 24"
  obtains m s where "f32_of_int (int w) = Fin (int m) (- int s)" and "m = w * 2 ^ s"
proof -
  have x: "w < 2 ^ 24 * 1" using assms(2) by simp
  obtain s where s: "f32_exponent w 1 = - int s" "scaled w 1 (- int s) = (w * 2 ^ s, 1)"
    using f32_exponent_small [OF assms(1) _ x] by auto
  have d: "div_even (w * 2 ^ s) 1 = w * 2 ^ s" by (simp add: div_even_def)
  have r: "f32_of_int (int w) = (let (m', e') = (if w * 2 ^ s = 2 ^ 24 then (2 ^ 23, 1 - int s) else (w * 2 ^ s, - int s))
      in if 104 < e' then Inf False else if m' = 0 then Fin 0 0 else Fin (int m') e')"
    using assms s d by (simp add: f32_of_int_def f32_of_dyadic_def round_f32_def Let_def)
  show thesis
  proof (cases "w * 2 ^ s = 2 ^ 24")
    case False
    with r assms(1) show thesis by (intro that [of "w * 2 ^ s" s]) simp_all
  next
    case True
    then obtain s' where s': "s = Suc s'" using assms(2) by (cases s) auto
    have "2 * (w * 2 ^ s') = 2 * 2 ^ 23" using True s' by (simp add: algebra_simps)
    then have "w * 2 ^ s' = 2 ^ 23" by simp
    with r True s' show thesis by (intro that [of "2 ^ 23" s']) simp_all
  qed
qed

text \<open>A representable number below one is at most \<open>1 - 2^(-24)\<close>.\<close>

lemma below_one:
  assumes n: "n < 2 ^ 24" and g: "n < (2 :: nat) ^ g"
  shows "n * 2 ^ 24 \<le> 2 ^ g * (2 ^ 24 - 1)"
proof (cases "g \<le> 24")
  case True
  then have "(2 :: nat) ^ g \<le> 2 ^ 24" by (intro power_increasing) simp_all
  moreover have "n * 2 ^ 24 \<le> (2 ^ g - 1) * 2 ^ 24" using g by (intro mult_le_mono1) simp
  moreover have "(2 ^ g - 1) * 2 ^ 24 = 2 ^ g * 2 ^ 24 - (2 :: nat) ^ 24" by (simp add: diff_mult_distrib)
  moreover have "2 ^ g * (2 ^ 24 - 1) = 2 ^ g * 2 ^ 24 - (2 :: nat) ^ g" by (simp add: diff_mult_distrib2)
  ultimately show ?thesis by linarith
next
  case False
  then have "(2 :: nat) ^ 24 \<le> 2 ^ g" by (intro power_increasing) simp_all
  then have "(2 ^ 24 - 1) * 2 ^ 24 \<le> (2 ^ 24 - 1) * (2 :: nat) ^ g" by (intro mult_le_mono2)
  moreover have "n * 2 ^ 24 \<le> (2 ^ 24 - 1) * 2 ^ 24" using n by (intro mult_le_mono1) simp
  ultimately show ?thesis by (simp add: mult.commute)
qed

text \<open>\<open>p\<close> is a number \<open>n * 2^f\<close> with at most 24 bits, strictly between zero and one.\<close>

definition proper_fraction :: "f32 \<Rightarrow> bool" where
  "proper_fraction p \<longleftrightarrow> (case p of Fin n f \<Rightarrow> 0 < n \<and> n < 2 ^ 24 \<and> f < 0 \<and> n < 2 ^ nat (- f) | _ \<Rightarrow> False)"

lemma product_floor:
  assumes w: "0 < w" "w < 2 ^ 24" and p: "proper_fraction p"
  shows "\<exists>k. f32_to_int (f32_mult (f32_of_int (int w)) p) = Some k \<and> 0 \<le> k \<and> k < int w"
proof -
  obtain n f where n: "p = Fin n f" "0 < n" "n < 2 ^ 24" "f < 0" "n < 2 ^ nat (- f)"
    using p by (auto simp: proper_fraction_def split: f32.splits)
  define N where "N = nat n"
  define g where "g = nat (- f)"
  have N: "n = int N" "0 < N" "N < 2 ^ 24" "N < 2 ^ g" using n(2-5) by (simp_all add: N_def g_def zless_nat_eq_int_zless nat_less_iff)
  have f: "f = - int g" "0 < g" using n(4) by (simp_all add: g_def)
  obtain m s where m: "f32_of_int (int w) = Fin (int m) (- int s)" "m = w * 2 ^ s" using f32_of_int_exact [OF w] .
  have mpos: "0 < m * N" using m(2) w(1) N(2) by simp
  have "m * N * 2 ^ 24 \<le> 2 ^ (s + g) * w * (2 ^ 24 - 1)"
    using mult_left_mono [OF below_one [OF N(3,4)], of "w * 2 ^ s"] m(2) by (simp add: power_add algebra_simps)
  from round_f32_less [OF mpos _ w this] obtain r t where r: "round_f32 False (m * N) (2 ^ (s + g)) = Fin (int r) (- int t)" "r < w * 2 ^ t"
    by auto
  have "f32_mult (f32_of_int (int w)) p = round_f32 False (m * N) (2 ^ (s + g))"
  proof -
    have "- int s + - int g < 0" "nat (- (- int s + - int g)) = s + g" using f(2) by linarith+
    moreover have "nat \<bar>int m * int N\<bar> = m * N" by (simp add: nat_mult_distrib abs_mult)
    moreover have "\<not> int m * int N < 0" by (simp add: not_less)
    ultimately show ?thesis using m(1) n(1) N(1) f(1) by (simp add: f32_of_dyadic_def)
  qed
  with r(1) have prod: "f32_mult (f32_of_int (int w)) p = Fin (int r) (- int t)" by simp
  have trunc: "(if 0 \<le> - int t then int r * 2 ^ nat (- int t) else sgn (int r) * (\<bar>int r\<bar> div 2 ^ nat (- (- int t)))) = int (r div 2 ^ t)"
    by (cases "t = 0"; cases "r = 0") (simp_all add: zdiv_int)
  have lt: "r div 2 ^ t < w" using r(2) by (simp add: div_less_iff_less_mult mult.commute)
  have "int (r div 2 ^ t) < 2 ^ 24" using lt w(2) by simp
  then have "f32_to_int (Fin (int r) (- int t)) = Some (int (r div 2 ^ t))"
    unfolding f32_to_int.simps trunc by (simp add: Let_def)
  with prod lt show ?thesis by simp
qed

section \<open>Parsed numbers\<close>

lemma f32_exponent_above:
  assumes p: "0 < p" and q: "0 < q" and s: "scaled p q (f32_exponent p q) = (a, b)"
  shows "a \<le> 2 ^ 24 * b"
proof -
  let ?x = "(of_nat p :: rat) / of_nat q"
  let ?e = "int (bitlen p) - int (bitlen q) - 24"
  obtain a0 b0 where s0: "scaled p q ?e = (a0, b0)" by (cases "scaled p q ?e")
  let ?e1 = "if 2 ^ 24 * b0 \<le> a0 then ?e + 1 else ?e"
  have E: "f32_exponent p q = max ?e1 (- 149)" using s0 by (simp add: f32_exponent_def Let_def)
  note v0 = scaled_value [OF q s0] and v = scaled_value [OF q s]
  have b0: "(0 :: rat) < of_nat b0" and b: "(0 :: rat) < of_nat b" using v0(1) v(1) by simp_all
  have x0: "?x / 2 powi ?e < 2 ^ 25" using scaled_range(2) [OF p q s0] b0 unfolding v0(2) [symmetric] by (simp add: field_simps)
  have "?x / 2 powi ?e1 < 2 ^ 24"
  proof (cases "2 ^ 24 * b0 \<le> a0")
    case True
    have "(2 :: rat) powi (?e + 1) = 2 * 2 powi ?e" by (subst power_int_add) simp_all
    then have "?x / 2 powi (?e + 1) = ?x / 2 powi ?e / 2" by (simp only: divide_divide_eq_left mult.commute)
    also have "\<dots> < 2 ^ 24" using divide_strict_right_mono [OF x0, of 2] by simp
    finally show ?thesis using True by simp
  next
    case False
    then have "(of_nat a0 :: rat) < 2 ^ 24 * of_nat b0"
      by (simp only: not_le of_nat_less_iff [symmetric, where 'a = rat] of_nat_mult of_nat_power of_nat_numeral)
    then have "?x / 2 powi ?e < 2 ^ 24" using b0 unfolding v0(2) [symmetric] by (simp add: field_simps)
    with False show ?thesis by simp
  qed
  moreover have "?x / 2 powi (f32_exponent p q) \<le> ?x / 2 powi ?e1"
  proof (rule divide_left_mono)
    show "(2 :: rat) powi ?e1 \<le> 2 powi (f32_exponent p q)" unfolding E by (intro power_int_increasing) simp_all
  qed (use p q in simp_all)
  ultimately have "(of_nat a :: rat) / of_nat b < 2 ^ 24" unfolding v(2) by linarith
  then have "(of_nat a :: rat) < 2 ^ 24 * of_nat b" using b by (simp add: field_simps)
  then have "a < 2 ^ 24 * b"
    by (simp only: of_nat_less_iff [symmetric, where 'a = rat] of_nat_mult of_nat_power of_nat_numeral)
  then show ?thesis by simp
qed

lemma round_f32_bits:
  assumes q: "0 < q" and r: "round_f32 neg p q = Fin m e"
  shows "\<bar>m\<bar> < 2 ^ 24"
proof (cases "p = 0")
  case True
  with r show ?thesis by (simp add: round_f32_def)
next
  case False
  obtain a b where s: "scaled p q (f32_exponent p q) = (a, b)" by (cases "scaled p q (f32_exponent p q)")
  have "div_even a b \<le> 2 ^ 24"
    using div_even_le [OF scaled_value(1) [OF q s] f32_exponent_above [OF _ q s]] False by simp
  then show ?thesis using r False s
    by (auto simp: round_f32_def Let_def split: if_splits)
qed

lemma strtof_bits:
  assumes "strtof t = (Fin m e, er, r)"
  shows "\<bar>m\<bar> < 2 ^ 24"
proof -
  have num: "\<bar>m\<bar> < 2 ^ 24" if "fst (strtof_number neg (fst (ratio b k x)) (snd (ratio b k x))) = Fin m e" "0 < b" for neg b k x
    using that round_f32_bits [of "snd (ratio b k x)" neg "fst (ratio b k x)" m e]
    by (auto simp: strtof_number_def Let_def ratio_def split: if_splits)
  have hex: "\<bar>m\<bar> < 2 ^ 24" if h: "strtof_hex neg s = Some (Fin m e, er', r')" for neg s er' r'
  proof -
    obtain t' where "strip_prefix_ci ''0x'' s = Some t'" using h by (auto simp: strtof_hex_def split: option.splits)
    with h have "\<exists>k x. fst (strtof_number neg (fst (ratio 2 k x)) (snd (ratio 2 k x))) = Fin m e"
      by (auto simp: strtof_hex_def Let_def case_prod_beta split: if_splits)
    with num show ?thesis by (metis pos2)
  qed
  have dec: "\<bar>m\<bar> < 2 ^ 24" if h: "strtof_dec neg s = Some (Fin m e, er', r')" for neg s er' r'
  proof -
    from h have "\<exists>k x. fst (strtof_number neg (fst (ratio 10 k x)) (snd (ratio 10 k x))) = Fin m e"
      by (auto simp: strtof_dec_def Let_def case_prod_beta split: if_splits)
    then obtain k x where "fst (strtof_number neg (fst (ratio 10 k x)) (snd (ratio 10 k x))) = Fin m e" by blast
    from num [OF this] show ?thesis by simp
  qed
  have special: "strtof_special neg s \<noteq> Some (Fin m e, er', r')" for neg s er' r'
    by (auto simp: strtof_special_def split: option.splits)
  obtain neg s where ns: "split_sign (dropWhile isspace t) = (neg, s)" by (cases "split_sign (dropWhile isspace t)")
  show ?thesis
    using assms ns hex dec special by (auto simp: strtof_def split: option.splits)
qed

end
