(* ===== verification/Parse_Props.thy ===== *)
theory Parse_Props
  imports Parse_Command Tiles Float_Bounds
begin

text \<open>
  What the parser guarantees to the code that runs a command: the percentage of a split leaves both
  parts of the tile a size below the whole.
\<close>

section \<open>The percentage of a split\<close>

lemma f32_proper:
  assumes "\<bar>m\<bar> < 2 ^ 24" and "\<not> f32_le (Fin 1 0) (Fin m e)" and "\<not> f32_le_hundredth (Fin m e)"
  shows "proper_fraction (Fin m e)"
proof -
  have pos: "0 < m"
  proof (rule ccontr)
    assume "\<not> 0 < m"
    then have "100 * m * 2 ^ nat e \<le> 0" "100 * m \<le> 0" by (simp_all add: mult_nonpos_nonneg)
    moreover have "(0 :: int) \<le> 2 ^ nat (- e)" by simp
    ultimately have "100 * m * 2 ^ nat e \<le> 0" "100 * m \<le> 2 ^ nat (- e)" by linarith+
    then show False using assms(3) by (auto split: if_splits)
  qed
  have e: "e < 0"
  proof (rule ccontr)
    assume "\<not> e < 0"
    then have "1 \<le> m * 2 ^ nat e" using pos by (simp add: int_one_le_iff_zero_less)
    then show False using assms(2) \<open>\<not> e < 0\<close> by (auto simp: f32_le_def dyadic_less_def min_def split: if_splits)
  qed
  have "m < 2 ^ nat (- e)" using assms(2) e by (auto simp: f32_le_def dyadic_less_def min_def)
  with pos e assms(1) show ?thesis by (simp add: proper_fraction_def)
qed

lemma parse_percentage_proper:
  assumes "parse_percentage s en = (Inr f, en')" and "f \<noteq> NaN"
  shows "proper_fraction f"
proof -
  obtain t r where t: "strtok_r '' '' s = (t, r)" by (cases "strtok_r '' '' s")
  show ?thesis
  proof (cases t)
    case None
    with assms t have "f = f32_half" by (simp add: parse_percentage_def pok_def)
    then show ?thesis by (simp add: f32_half_def proper_fraction_def)
  next
    case (Some tok)
    obtain v er r' where v: "strtof tok = (v, er, r')" by (cases "strtof tok")
    with assms t Some have f: "f = v" "\<not> f32_eq v (Inf False)" "\<not> f32_le (Fin 1 0) v" "\<not> f32_le_hundredth v"
      by (auto simp: parse_percentage_def pok_def Let_def split: if_splits)
    obtain m e where "v = Fin m e" using f assms(2) by (cases v) auto
    with v f strtof_bits f32_proper show ?thesis by metis
  qed
qed



end
