(* ===== verification/Config_Merge.thy ===== *)
theory Config_Merge
  imports Parse_Config
begin

text \<open>
  Merging of configurations: \<^verbatim>\<open>merge_output_configs\<close> and \<^verbatim>\<open>output_configure\<close> (\<^verbatim>\<open>output.c\<close>),
  \<^verbatim>\<open>merge_config\<close> (\<^verbatim>\<open>keybinding.c\<close>) and \<^verbatim>\<open>input_manager_merge_input_configs\<close>
  (\<^verbatim>\<open>input_manager.c\<close>). Both merges are left-biased: a field of the first argument wins unless
  it has the value of the empty configuration. The locale \<open>field_merge\<close> states this contract and
  proves the laws of merging from it.
\<close>

section \<open>Left-biased merging, field by field\<close>

locale field_merge =
  fixes merge :: "'c \<Rightarrow> 'c \<Rightarrow> 'c"
    and empty :: 'c
    and get :: "'k \<Rightarrow> 'c \<Rightarrow> 'v"
    and unset :: "'k \<Rightarrow> 'v \<Rightarrow> bool"
    and valid :: "'c \<Rightarrow> bool"
  assumes get_merge: "get k (merge a b) = (if unset k (get k a) then get k b else get k a)"
    and unset_empty: "unset k (get k empty)"
    and valid_merge: "valid (merge a b)"
    and get_ext: "valid a \<Longrightarrow> valid b \<Longrightarrow> (\<And>k. get k a = get k b) \<Longrightarrow> a = b"
begin

lemma merge_assoc: "merge (merge a b) c = merge a (merge b c)"
  by (rule get_ext) (simp_all add: get_merge valid_merge)

lemma merge_idem: "valid a \<Longrightarrow> merge a a = a"
  by (rule get_ext) (simp_all add: get_merge valid_merge)

lemma merge_empty_left: "valid a \<Longrightarrow> merge empty a = a"
  by (rule get_ext) (simp_all add: get_merge unset_empty valid_merge)

text \<open>The merge of a list of configurations, the last one having the highest precedence.\<close>

definition merge_seq :: "'c list \<Rightarrow> 'c \<Rightarrow> 'c" where
  "merge_seq cs acc = foldl (\<lambda>acc c. merge c acc) acc cs"

lemma merge_seq_simps [simp]:
  "merge_seq [] acc = acc" "merge_seq (c # cs) acc = merge_seq cs (merge c acc)"
  "merge_seq (cs @ ds) acc = merge_seq ds (merge_seq cs acc)"
  by (simp_all add: merge_seq_def)

lemma merge_seq_unset:
  "\<forall>c \<in> set cs. unset k (get k c) \<Longrightarrow> get k (merge_seq cs acc) = get k acc"
  by (induction cs arbitrary: acc) (simp_all add: get_merge)

text \<open>A field of the result is that of the last configuration that sets it.\<close>

lemma get_merge_seq:
  assumes "\<forall>c \<in> set ds. unset k (get k c)" and "\<not> unset k (get k d)"
  shows "get k (merge_seq (cs @ d # ds) acc) = get k d"
  using assms by (simp add: merge_seq_unset get_merge)

end

section \<open>Outputs\<close>

definition empty_output_config :: cg_output_config where
  "empty_output_config =
     \<lparr>oc_status = OUTPUT_DEFAULT, oc_role = OUTPUT_ROLE_DEFAULT,
      oc_pos = \<lparr>box_x = - 1, box_y = - 1, box_width = - 1, box_height = - 1\<rparr>,
      oc_output_name = None, oc_refresh_rate = Fin 0 0, oc_scale = Fin (- 1) 0,
      oc_priority = - 1, oc_angle = - 1\<rparr>"

definition merge_output_configs :: "cg_output_config \<Rightarrow> cg_output_config \<Rightarrow> cg_output_config" where
  "merge_output_configs cfg1 cfg2 =
     (let out = empty_output_config in
      \<lparr>oc_status = (if oc_status cfg1 = oc_status out then oc_status cfg2 else oc_status cfg1),
       oc_role = (if oc_role cfg1 = oc_role out then oc_role cfg2 else oc_role cfg1),
       oc_pos = (if box_x (oc_pos cfg1) = box_x (oc_pos out) then oc_pos cfg2 else oc_pos cfg1),
       oc_output_name = (if oc_output_name cfg1 = None then oc_output_name cfg2 else oc_output_name cfg1),
       oc_refresh_rate = (if f32_eq (oc_refresh_rate cfg1) (oc_refresh_rate out)
                          then oc_refresh_rate cfg2 else oc_refresh_rate cfg1),
       oc_scale = (if f32_eq (oc_scale cfg1) (oc_scale out) then oc_scale cfg2 else oc_scale cfg1),
       oc_priority = (if oc_priority cfg1 = oc_priority out then oc_priority cfg2 else oc_priority cfg1),
       oc_angle = (if oc_angle cfg1 = oc_angle out then oc_angle cfg2 else oc_angle cfg1)\<rparr>)"

text \<open>The configuration that \<^verbatim>\<open>output_configure\<close> applies to the output of the given name.\<close>

definition output_total_config :: "cg_output_config list \<Rightarrow> string \<Rightarrow> cg_output_config" where
  "output_total_config cfgs name =
     foldl (\<lambda>tot c. if oc_output_name c = Some name then merge_output_configs c tot else tot)
       empty_output_config cfgs"

text \<open>
  \<^verbatim>\<open>merge_config\<close> of \<^verbatim>\<open>keybinding.c\<close>: what a new configuration takes over from the stored
  one, and the update of the list of configurations in \<^verbatim>\<open>keybinding_configure_output\<close>.
\<close>

definition merge_config :: "cg_output_config \<Rightarrow> cg_output_config \<Rightarrow> cg_output_config" where
  "merge_config new old =
     (let new = (if oc_status new = OUTPUT_DEFAULT then new\<lparr>oc_status := oc_status old\<rparr> else new);
          new = (if box_x (oc_pos new) = - 1 then new\<lparr>oc_pos := oc_pos old\<rparr> else new);
          new = (if f32_eq (oc_refresh_rate new) (Fin 0 0)
                 then new\<lparr>oc_refresh_rate := oc_refresh_rate old\<rparr> else new)
      in if oc_priority new = - 1 then new\<lparr>oc_priority := oc_priority old\<rparr> else new)"

fun store_output_config :: "cg_output_config \<Rightarrow> cg_output_config list \<Rightarrow> cg_output_config \<times> cg_output_config list" where
  "store_output_config config [] = (config, [])"
| "store_output_config config (it # its) =
     (if oc_output_name config = oc_output_name it
      then store_output_config (merge_config config it) its
      else (let (config', rest) = store_output_config config its in (config', it # rest)))"

definition keybinding_configure_output_list :: "cg_output_config \<Rightarrow> cg_output_config list \<Rightarrow> cg_output_config list" where
  "keybinding_configure_output_list cfg cfgs =
     (let (config, rest) = store_output_config cfg cfgs in config # rest)"

datatype oc_field =
  F_status | F_role | F_pos | F_output_name | F_refresh_rate | F_scale | F_priority | F_angle

datatype oc_value =
    V_status output_status | V_role output_role | V_box wlr_box | V_name "string option"
  | V_float f32 | V_int int

fun oc_get :: "oc_field \<Rightarrow> cg_output_config \<Rightarrow> oc_value" where
  "oc_get F_status c = V_status (oc_status c)"
| "oc_get F_role c = V_role (oc_role c)"
| "oc_get F_pos c = V_box (oc_pos c)"
| "oc_get F_output_name c = V_name (oc_output_name c)"
| "oc_get F_refresh_rate c = V_float (oc_refresh_rate c)"
| "oc_get F_scale c = V_float (oc_scale c)"
| "oc_get F_priority c = V_int (oc_priority c)"
| "oc_get F_angle c = V_int (oc_angle c)"

text \<open>When a field counts as not configured.\<close>

fun oc_unset :: "oc_field \<Rightarrow> oc_value \<Rightarrow> bool" where
  "oc_unset F_pos (V_box b) = (box_x b = - 1)"
| "oc_unset F_refresh_rate (V_float f) = f32_eq f (Fin 0 0)"
| "oc_unset F_scale (V_float f) = f32_eq f (Fin (- 1) 0)"
| "oc_unset k v = (v = oc_get k empty_output_config)"

lemma dyadic_less_irrefl [simp]: "\<not> dyadic_less m e m e"
  by (simp add: dyadic_less_def)

interpretation output_merge: field_merge merge_output_configs empty_output_config oc_get oc_unset "\<lambda>_. True"
proof unfold_locales
  fix k a b
  show "oc_get k (merge_output_configs a b) = (if oc_unset k (oc_get k a) then oc_get k b else oc_get k a)"
    by (cases k) (simp_all add: merge_output_configs_def empty_output_config_def Let_def)
  show "oc_unset k (oc_get k empty_output_config)"
    by (cases k) (simp_all add: empty_output_config_def)
next
  fix a b
  assume "\<And>k. oc_get k a = oc_get k b"
  note e = this [of F_status] this [of F_role] this [of F_pos] this [of F_output_name]
    this [of F_refresh_rate] this [of F_scale] this [of F_priority] this [of F_angle]
  then show "a = b" by (cases a; cases b) simp
qed simp

lemma output_total_config_seq:
  "output_total_config cfgs name =
     output_merge.merge_seq (filter (\<lambda>c. oc_output_name c = Some name) cfgs) empty_output_config"
proof -
  have "foldl (\<lambda>tot c. if oc_output_name c = Some name then merge_output_configs c tot else tot) acc cfgs
      = output_merge.merge_seq (filter (\<lambda>c. oc_output_name c = Some name) cfgs) acc" for acc
    by (induction cfgs arbitrary: acc) simp_all
  then show ?thesis by (simp add: output_total_config_def)
qed

section \<open>The list of output configurations\<close>

lemma merge_config_name [simp]: "oc_output_name (merge_config new old) = oc_output_name new"
  by (simp add: merge_config_def Let_def)

lemma store_output_config_name:
  "oc_output_name (fst (store_output_config c cs)) = oc_output_name c"
  by (induction c cs rule: store_output_config.induct) (auto simp: case_prod_beta)

lemma store_output_config_rest:
  "snd (store_output_config c cs) = filter (\<lambda>it. oc_output_name it \<noteq> oc_output_name c) cs"
  by (induction c cs rule: store_output_config.induct) (auto simp: case_prod_beta)

text \<open>The list holds at most one configuration for each output, whatever is configured.\<close>

lemma configure_output_list_unique:
  assumes "distinct (map oc_output_name cfgs)"
  shows "distinct (map oc_output_name (keybinding_configure_output_list cfg cfgs))"
proof -
  have "distinct (map oc_output_name (filter P cfgs))" for P
    using assms by (induction cfgs) auto
  then show ?thesis
    using store_output_config_name [of cfg cfgs] store_output_config_rest [of cfg cfgs]
    by (auto simp: keybinding_configure_output_list_def case_prod_beta)
qed

section \<open>Input devices\<close>

definition input_manager_merge_input_configs :: "cg_input_config \<Rightarrow> cg_input_config \<Rightarrow> cg_input_config" where
  "input_manager_merge_input_configs cfg1 cfg2 =
     \<lparr>ic_identifier = (if ic_identifier cfg1 = None then ic_identifier cfg2 else ic_identifier cfg1),
      ic_accel_profile = (if ic_accel_profile cfg1 = INT_MIN then ic_accel_profile cfg2 else ic_accel_profile cfg1),
      ic_calibration_matrix = (if \<not> cm_configured (ic_calibration_matrix cfg1)
                               then ic_calibration_matrix cfg2 else ic_calibration_matrix cfg1),
      ic_click_method = (if ic_click_method cfg1 = INT_MIN then ic_click_method cfg2 else ic_click_method cfg1),
      ic_drag = (if ic_drag cfg1 = INT_MIN then ic_drag cfg2 else ic_drag cfg1),
      ic_drag_lock = (if ic_drag_lock cfg1 = INT_MIN then ic_drag_lock cfg2 else ic_drag_lock cfg1),
      ic_dwt = (if ic_dwt cfg1 = INT_MIN then ic_dwt cfg2 else ic_dwt cfg1),
      ic_left_handed = (if ic_left_handed cfg1 = INT_MIN then ic_left_handed cfg2 else ic_left_handed cfg1),
      ic_middle_emulation = (if ic_middle_emulation cfg1 = INT_MIN then ic_middle_emulation cfg2
                             else ic_middle_emulation cfg1),
      ic_natural_scroll = (if ic_natural_scroll cfg1 = INT_MIN then ic_natural_scroll cfg2
                           else ic_natural_scroll cfg1),
      ic_pointer_accel = (if f32_eq (ic_pointer_accel cfg1) FLT_MIN then ic_pointer_accel cfg2
                          else ic_pointer_accel cfg1),
      ic_scroll_factor = (if f32_eq (ic_scroll_factor cfg1) FLT_MIN then ic_scroll_factor cfg2
                          else ic_scroll_factor cfg1),
      ic_scroll_button = (if ic_scroll_button cfg1 = INT_MIN then ic_scroll_button cfg2 else ic_scroll_button cfg1),
      ic_scroll_method = (if ic_scroll_method cfg1 = INT_MIN then ic_scroll_method cfg2 else ic_scroll_method cfg1),
      ic_send_events = (if ic_send_events cfg1 = INT_MIN then ic_send_events cfg2 else ic_send_events cfg1),
      ic_tap = (if ic_tap cfg1 = INT_MIN then ic_tap cfg2 else ic_tap cfg1),
      ic_tap_button_map = (if ic_tap_button_map cfg1 = INT_MIN then ic_tap_button_map cfg2
                           else ic_tap_button_map cfg1),
      ic_mapped_to_output = None,
      ic_enable_keybindings = (if ic_enable_keybindings cfg1 = - 1 then ic_enable_keybindings cfg2
                               else ic_enable_keybindings cfg1),
      ic_repeat_delay = (if ic_repeat_delay cfg1 = - 1 then ic_repeat_delay cfg2 else ic_repeat_delay cfg1),
      ic_repeat_rate = (if ic_repeat_rate cfg1 = - 1 then ic_repeat_rate cfg2 else ic_repeat_rate cfg1)\<rparr>"

datatype ic_field =
    G_identifier | G_accel_profile | G_calibration | G_click_method | G_drag | G_drag_lock | G_dwt
  | G_left_handed | G_middle_emulation | G_natural_scroll | G_pointer_accel | G_scroll_factor
  | G_scroll_button | G_scroll_method | G_send_events | G_tap | G_tap_button_map
  | G_enable_keybindings | G_repeat_delay | G_repeat_rate

datatype ic_value = W_name "string option" | W_int int | W_float f32 | W_matrix calibration_matrix

fun ic_get :: "ic_field \<Rightarrow> cg_input_config \<Rightarrow> ic_value" where
  "ic_get G_identifier c = W_name (ic_identifier c)"
| "ic_get G_accel_profile c = W_int (ic_accel_profile c)"
| "ic_get G_calibration c = W_matrix (ic_calibration_matrix c)"
| "ic_get G_click_method c = W_int (ic_click_method c)"
| "ic_get G_drag c = W_int (ic_drag c)"
| "ic_get G_drag_lock c = W_int (ic_drag_lock c)"
| "ic_get G_dwt c = W_int (ic_dwt c)"
| "ic_get G_left_handed c = W_int (ic_left_handed c)"
| "ic_get G_middle_emulation c = W_int (ic_middle_emulation c)"
| "ic_get G_natural_scroll c = W_int (ic_natural_scroll c)"
| "ic_get G_pointer_accel c = W_float (ic_pointer_accel c)"
| "ic_get G_scroll_factor c = W_float (ic_scroll_factor c)"
| "ic_get G_scroll_button c = W_int (ic_scroll_button c)"
| "ic_get G_scroll_method c = W_int (ic_scroll_method c)"
| "ic_get G_send_events c = W_int (ic_send_events c)"
| "ic_get G_tap c = W_int (ic_tap c)"
| "ic_get G_tap_button_map c = W_int (ic_tap_button_map c)"
| "ic_get G_enable_keybindings c = W_int (ic_enable_keybindings c)"
| "ic_get G_repeat_delay c = W_int (ic_repeat_delay c)"
| "ic_get G_repeat_rate c = W_int (ic_repeat_rate c)"

fun ic_unset :: "ic_field \<Rightarrow> ic_value \<Rightarrow> bool" where
  "ic_unset k (W_name n) = (n = None)"
| "ic_unset k (W_matrix m) = (\<not> cm_configured m)"
| "ic_unset k (W_float f) = f32_eq f FLT_MIN"
| "ic_unset k (W_int i) =
     (if k \<in> {G_enable_keybindings, G_repeat_delay, G_repeat_rate} then i = - 1 else i = INT_MIN)"

text \<open>The merge drops \<^verbatim>\<open>mapped_to_output\<close>, which no command sets.\<close>

definition ic_valid :: "cg_input_config \<Rightarrow> bool" where
  "ic_valid c \<longleftrightarrow> ic_mapped_to_output c = None"

interpretation input_merge:
  field_merge input_manager_merge_input_configs empty_input_config ic_get ic_unset ic_valid
proof unfold_locales
  fix k a b
  show "ic_get k (input_manager_merge_input_configs a b) =
          (if ic_unset k (ic_get k a) then ic_get k b else ic_get k a)"
    by (cases k) (simp_all add: input_manager_merge_input_configs_def)
  show "ic_unset k (ic_get k empty_input_config)"
    by (cases k) (simp_all add: empty_input_config_def)
  show "ic_valid (input_manager_merge_input_configs a b)"
    by (simp add: ic_valid_def input_manager_merge_input_configs_def)
next
  fix a b
  assume v: "ic_valid a" "ic_valid b" and "\<And>k. ic_get k a = ic_get k b"
  note e = this(3) [of G_identifier] this(3) [of G_accel_profile] this(3) [of G_calibration]
    this(3) [of G_click_method] this(3) [of G_drag] this(3) [of G_drag_lock] this(3) [of G_dwt]
    this(3) [of G_left_handed] this(3) [of G_middle_emulation] this(3) [of G_natural_scroll]
    this(3) [of G_pointer_accel] this(3) [of G_scroll_factor] this(3) [of G_scroll_button]
    this(3) [of G_scroll_method] this(3) [of G_send_events] this(3) [of G_tap]
    this(3) [of G_tap_button_map] this(3) [of G_enable_keybindings] this(3) [of G_repeat_delay]
    this(3) [of G_repeat_rate]
  with v show "a = b" by (cases a; cases b) (simp add: ic_valid_def)
qed

section \<open>A sequence of output commands\<close>

text \<open>The list of configurations after the \<^verbatim>\<open>output\<close> commands \<open>cmds\<close>, in the order given.\<close>

definition configure_outputs :: "cg_output_config list \<Rightarrow> cg_output_config list" where
  "configure_outputs cmds = foldl (\<lambda>cfgs c. keybinding_configure_output_list c cfgs) [] cmds"

lemma configure_outputs_snoc:
  "configure_outputs (cs @ [c]) = keybinding_configure_output_list c (configure_outputs cs)"
  by (simp add: configure_outputs_def)

lemma configure_outputs_distinct: "distinct (map oc_output_name (configure_outputs cmds))"
  by (induction cmds rule: rev_induct)
    (simp_all add: configure_outputs_def configure_output_list_unique)

lemma store_output_config_fst:
  "fst (store_output_config c cs) =
     foldl merge_config c (filter (\<lambda>it. oc_output_name it = oc_output_name c) cs)"
  by (induction c cs rule: store_output_config.induct) (auto simp: case_prod_beta)

lemma filter_unique:
  assumes "distinct (map f xs)"
  obtains "filter (\<lambda>x. f x = a) xs = []" | x where "filter (\<lambda>x. f x = a) xs = [x]" and "f x = a"
proof (cases "filter (\<lambda>x. f x = a) xs")
  case (Cons x ys)
  have d: "distinct (map f (filter (\<lambda>x. f x = a) xs))" using assms by (rule distinct_map_filter)
  have eq: "f y = a" if "y \<in> set (x # ys)" for y
    using that unfolding Cons [symmetric] by simp
  have "ys = []"
  proof (cases ys)
    case (Cons y zs)
    with d \<open>filter _ xs = x # ys\<close> eq [of x] eq [of y] show ?thesis by simp
  qed simp
  with Cons that(2) eq [of x] show thesis by simp
qed (rule that(1))

lemma merge_config_get:
  "oc_get k (merge_config new old) =
     (if oc_unset k (oc_get k new) \<and> k \<notin> {F_role, F_scale, F_angle, F_output_name} then oc_get k old
      else oc_get k new)"
  by (cases k) (auto simp: merge_config_def empty_output_config_def Let_def)

lemma configure_output_list_total:
  assumes "distinct (map oc_output_name cfgs)" and "oc_output_name c = Some name"
  shows "oc_get k (output_total_config (keybinding_configure_output_list c cfgs) name) =
     (if \<not> oc_unset k (oc_get k c) then oc_get k c
      else if k \<in> {F_role, F_scale, F_angle} then oc_get k empty_output_config
      else oc_get k (output_total_config cfgs name))"
proof -
  let ?same = "filter (\<lambda>it. oc_output_name it = Some name) cfgs"
  let ?new = "foldl merge_config c ?same"
  have nn: "oc_output_name (foldl merge_config c l) = Some name" for l
    using assms(2) by (induction l arbitrary: c) simp_all
  have "filter (\<lambda>it. oc_output_name it = Some name) (keybinding_configure_output_list c cfgs) = [?new]"
    using assms(2) nn by (simp add: keybinding_configure_output_list_def case_prod_beta
        store_output_config_fst store_output_config_rest)
  then have t: "output_total_config (keybinding_configure_output_list c cfgs) name =
      merge_output_configs ?new empty_output_config"
    by (simp add: output_total_config_seq)
  have n: "\<not> oc_unset F_output_name (oc_get F_output_name c)"
    using assms(2) by (simp add: empty_output_config_def)
  show ?thesis
  proof (cases rule: filter_unique [OF assms(1), of "Some name"])
    case 1
    then show ?thesis
      unfolding t
      by (auto simp: output_merge.get_merge output_merge.unset_empty output_total_config_seq
          simp del: oc_get.simps oc_unset.simps)
  next
    case (2 it)
    show ?thesis
      unfolding t unfolding output_total_config_seq 2(1) using n
      by (cases "k = F_output_name")
        (auto simp: output_merge.get_merge output_merge.unset_empty merge_config_get
          simp del: oc_get.simps oc_unset.simps)
  qed
qed
text \<open>
  C24: The effect of one more \<^verbatim>\<open>output\<close> command for an output: a field it sets takes its value;
  of the fields it does not set, position and mode, priority and status keep what earlier
  commands configured, while role, scale and rotation fall back to their defaults.
\<close>

theorem configure_output_sequence:
  assumes "oc_output_name c = Some name"
  shows "oc_get k (output_total_config (configure_outputs (cs @ [c])) name) =
     (if \<not> oc_unset k (oc_get k c) then oc_get k c
      else if k \<in> {F_role, F_scale, F_angle} then oc_get k empty_output_config
      else oc_get k (output_total_config (configure_outputs cs) name))"
  unfolding configure_outputs_snoc
  using configure_output_list_total [OF configure_outputs_distinct assms] .

theorem configure_output_sequence_witness:
  "let old = empty_output_config\<lparr>oc_output_name := Some ''DP-1'', oc_role := OUTPUT_ROLE_PERMANENT\<rparr>;
       new = empty_output_config\<lparr>oc_output_name := Some ''DP-1'', oc_priority := 3\<rparr>
   in oc_get F_role (output_total_config (configure_outputs ([old] @ [new])) ''DP-1'') = V_role OUTPUT_ROLE_DEFAULT"
  unfolding Let_def
  by (subst configure_output_sequence) (simp_all add: empty_output_config_def)

end
