(* ===== verification/Input_Config.thy ===== *)
theory Input_Config
  imports Config_Merge
begin

text \<open>
  Applying input configurations (\<^verbatim>\<open>input_manager.c\<close>, \<^verbatim>\<open>libinput.c\<close>): the name of a device,
  the choice of the configurations that concern it, and their application to a libinput device
  and to a keyboard group. What libinput reports of a device is a record; a successful call of a
  setter makes the getter return the value set, as libinput documents it.
\<close>

section \<open>The identifier of a device\<close>

text \<open>\<^verbatim>\<open>strip_whitespace\<close>: the class of both ends is that of the C locale.\<close>

definition strip_whitespace :: "string \<Rightarrow> string" where
  "strip_whitespace s = rev (dropWhile isspace (rev (dropWhile isspace s)))"

definition input_device_get_identifier :: "int \<Rightarrow> int \<Rightarrow> string option \<Rightarrow> string" where
  "input_device_get_identifier vendor product name =
     (let n = strip_whitespace (case name of None \<Rightarrow> [] | Some n \<Rightarrow> n);
          p = map (\<lambda>c. if c = CHR '' '' \<or> \<not> isprint c then CHR ''_'' else c) n
      in fmt_d vendor @ '':'' @ fmt_d product @ '':'' @ p)"

text \<open>
  The three patterns a configuration can have for a device: its identifier, the wildcard, or
  \<^verbatim>\<open>type:\<close> and its type.
\<close>

definition config_matches :: "string \<Rightarrow> string \<Rightarrow> cg_input_config \<Rightarrow> bool" where
  "config_matches identifier device_type c =
     (case ic_identifier c of
        None \<Rightarrow> False
      | Some i \<Rightarrow> i = identifier \<or> i = ''*'' \<or> (take 5 i = ''type:'' \<and> drop 5 i = device_type))"

section \<open>Libinput devices\<close>

record libinput_device =
  li_finger_count :: int
  li_accel_available :: bool
  li_has_natural_scroll :: bool
  li_left_handed_available :: bool
  li_click_methods :: u32
  li_middle_available :: bool
  li_scroll_methods :: u32
  li_dwt_available :: bool
  li_has_matrix :: bool
  li_send_events_default :: int
  li_send_events :: int
  li_tap :: int
  li_tap_button_map :: int
  li_drag :: int
  li_drag_lock :: int
  li_accel_speed :: f32
  li_accel_profile :: int
  li_natural_scroll :: bool
  li_left_handed :: bool
  li_click_method :: int
  li_middle_emulation :: int
  li_scroll_method :: int
  li_scroll_button :: u32
  li_dwt :: bool
  li_matrix :: "f32 list"

text \<open>Each setter returns whether it changed anything, and the device.\<close>

definition set_send_events :: "int \<Rightarrow> libinput_device \<Rightarrow> bool \<times> libinput_device" where
  "set_send_events mode d =
     (if li_send_events d = mode then (False, d) else (True, d\<lparr>li_send_events := mode\<rparr>))"

definition set_tap :: "int \<Rightarrow> libinput_device \<Rightarrow> bool \<times> libinput_device" where
  "set_tap tap d =
     (if li_finger_count d \<le> 0 \<or> li_tap d = tap then (False, d) else (True, d\<lparr>li_tap := tap\<rparr>))"

definition set_tap_button_map :: "int \<Rightarrow> libinput_device \<Rightarrow> bool \<times> libinput_device" where
  "set_tap_button_map m d =
     (if li_finger_count d \<le> 0 \<or> li_tap_button_map d = m then (False, d)
      else (True, d\<lparr>li_tap_button_map := m\<rparr>))"

definition set_tap_drag :: "int \<Rightarrow> libinput_device \<Rightarrow> bool \<times> libinput_device" where
  "set_tap_drag drag d =
     (if li_finger_count d \<le> 0 \<or> li_drag d = drag then (False, d) else (True, d\<lparr>li_drag := drag\<rparr>))"

definition set_tap_drag_lock :: "int \<Rightarrow> libinput_device \<Rightarrow> bool \<times> libinput_device" where
  "set_tap_drag_lock lock d =
     (if li_finger_count d \<le> 0 \<or> li_drag_lock d = lock then (False, d)
      else (True, d\<lparr>li_drag_lock := lock\<rparr>))"

definition set_accel_speed :: "f32 \<Rightarrow> libinput_device \<Rightarrow> bool \<times> libinput_device" where
  "set_accel_speed speed d =
     (if \<not> li_accel_available d \<or> f32_eq (li_accel_speed d) speed then (False, d)
      else (True, d\<lparr>li_accel_speed := speed\<rparr>))"

definition set_accel_profile :: "int \<Rightarrow> libinput_device \<Rightarrow> bool \<times> libinput_device" where
  "set_accel_profile profile d =
     (if \<not> li_accel_available d \<or> li_accel_profile d = profile then (False, d)
      else (True, d\<lparr>li_accel_profile := profile\<rparr>))"

definition set_natural_scroll :: "bool \<Rightarrow> libinput_device \<Rightarrow> bool \<times> libinput_device" where
  "set_natural_scroll n d =
     (if \<not> li_has_natural_scroll d \<or> li_natural_scroll d = n then (False, d)
      else (True, d\<lparr>li_natural_scroll := n\<rparr>))"

definition set_left_handed :: "bool \<Rightarrow> libinput_device \<Rightarrow> bool \<times> libinput_device" where
  "set_left_handed left d =
     (if \<not> li_left_handed_available d \<or> li_left_handed d = left then (False, d)
      else (True, d\<lparr>li_left_handed := left\<rparr>))"

text \<open>\<^verbatim>\<open>(click & ~NONE) == 0\<close> with the constant 0 for \<^verbatim>\<open>NONE\<close> is \<^verbatim>\<open>click == 0\<close>.\<close>

definition set_click_method :: "int \<Rightarrow> libinput_device \<Rightarrow> bool \<times> libinput_device" where
  "set_click_method m d =
     (if li_click_methods d = 0 \<or> li_click_method d = m then (False, d)
      else (True, d\<lparr>li_click_method := m\<rparr>))"

definition set_middle_emulation :: "int \<Rightarrow> libinput_device \<Rightarrow> bool \<times> libinput_device" where
  "set_middle_emulation mid d =
     (if \<not> li_middle_available d \<or> li_middle_emulation d = mid then (False, d)
      else (True, d\<lparr>li_middle_emulation := mid\<rparr>))"

definition set_scroll_method :: "int \<Rightarrow> libinput_device \<Rightarrow> bool \<times> libinput_device" where
  "set_scroll_method m d =
     (if li_scroll_methods d = 0 \<or> li_scroll_method d = m then (False, d)
      else (True, d\<lparr>li_scroll_method := m\<rparr>))"

definition set_scroll_button :: "u32 \<Rightarrow> libinput_device \<Rightarrow> bool \<times> libinput_device" where
  "set_scroll_button button d =
     (if li_scroll_methods d = 0 \<or> li_scroll_button d = button then (False, d)
      else (True, d\<lparr>li_scroll_button := button\<rparr>))"

definition set_dwt :: "bool \<Rightarrow> libinput_device \<Rightarrow> bool \<times> libinput_device" where
  "set_dwt dwt d =
     (if \<not> li_dwt_available d \<or> li_dwt d = dwt then (False, d) else (True, d\<lparr>li_dwt := dwt\<rparr>))"

definition set_calibration_matrix :: "f32 list \<Rightarrow> libinput_device \<Rightarrow> bool \<times> libinput_device" where
  "set_calibration_matrix mat d =
     (if \<not> li_has_matrix d then (False, d)
      else if list_all2 f32_eq (li_matrix d) mat then (False, d) else (True, d\<lparr>li_matrix := mat\<rparr>))"

text \<open>
  \<^verbatim>\<open>apply_config_to_device\<close> on a libinput device. No command sets \<^verbatim>\<open>mapped_to_output\<close>, so the
  first test of the code never holds.
\<close>

definition when_set :: "int \<Rightarrow> (int \<Rightarrow> libinput_device \<Rightarrow> bool \<times> libinput_device) \<Rightarrow> libinput_device \<Rightarrow> libinput_device" where
  "when_set v f d = (if v \<noteq> INT_MIN then snd (f v d) else d)"

definition apply_config_to_device :: "cg_input_config \<Rightarrow> libinput_device \<Rightarrow> libinput_device" where
  "apply_config_to_device c d =
     (let d = snd (set_send_events (if ic_send_events c \<noteq> INT_MIN then ic_send_events c
                                    else li_send_events_default d) d);
          d = when_set (ic_tap c) set_tap d;
          d = when_set (ic_tap_button_map c) set_tap_button_map d;
          d = when_set (ic_drag c) set_tap_drag d;
          d = when_set (ic_drag_lock c) set_tap_drag_lock d;
          d = (if \<not> f32_eq (ic_pointer_accel c) FLT_MIN then snd (set_accel_speed (ic_pointer_accel c) d) else d);
          d = when_set (ic_accel_profile c) set_accel_profile d;
          d = when_set (ic_natural_scroll c) (\<lambda>v. set_natural_scroll (v \<noteq> 0)) d;
          d = when_set (ic_left_handed c) (\<lambda>v. set_left_handed (v \<noteq> 0)) d;
          d = when_set (ic_click_method c) set_click_method d;
          d = when_set (ic_middle_emulation c) set_middle_emulation d;
          d = when_set (ic_scroll_method c) set_scroll_method d;
          d = when_set (ic_scroll_button c) (\<lambda>v. set_scroll_button (word_of_int v)) d;
          d = when_set (ic_dwt c) (\<lambda>v. set_dwt (v \<noteq> 0)) d
      in if cm_configured (ic_calibration_matrix c)
         then snd (set_calibration_matrix (cm_matrix (ic_calibration_matrix c)) d) else d)"

text \<open>All matching configurations are applied, in the order of the list \<^verbatim>\<open>server->input_config\<close>.\<close>

definition cg_input_configure_libinput_device ::
    "cg_input_config list \<Rightarrow> string \<Rightarrow> string \<Rightarrow> libinput_device \<Rightarrow> libinput_device" where
  "cg_input_configure_libinput_device cfgs identifier device_type d =
     foldl (\<lambda>d c. if config_matches identifier device_type c then apply_config_to_device c d else d) d cfgs"

text \<open>\<^verbatim>\<open>keybinding_configure_input\<close> puts a new configuration in front of the list.\<close>

definition keybinding_configure_input_list :: "cg_input_config \<Rightarrow> cg_input_config list \<Rightarrow> cg_input_config list" where
  "keybinding_configure_input_list cfg cfgs = input_manager_merge_input_configs cfg empty_input_config # cfgs"

section \<open>Keyboard groups\<close>

record keyboard_group =
  kg_identifier :: string
  kg_enable_keybindings :: int
  kg_repeat_rate :: int
  kg_repeat_delay :: int

definition apply_keyboard_group_config :: "cg_input_config \<Rightarrow> keyboard_group \<Rightarrow> keyboard_group" where
  "apply_keyboard_group_config c g =
     (let g = (if ic_enable_keybindings c \<noteq> - 1
               then g\<lparr>kg_enable_keybindings := ic_enable_keybindings c\<rparr> else g)
      in g\<lparr>kg_repeat_rate := (if ic_repeat_rate c \<noteq> - 1 then ic_repeat_rate c else 25),
           kg_repeat_delay := (if ic_repeat_delay c \<noteq> - 1 then ic_repeat_delay c else 600)\<rparr>)"

definition merge_group_config :: "string \<Rightarrow> cg_input_config \<Rightarrow> cg_input_config \<Rightarrow> cg_input_config" where
  "merge_group_config identifier tot c =
     (if ic_identifier tot = None \<or> ic_identifier tot = Some ''*'' \<or> ic_identifier c \<noteq> Some identifier
      then input_manager_merge_input_configs c tot
      else input_manager_merge_input_configs tot c)"

definition keyboard_group_total_config :: "cg_input_config list \<Rightarrow> string \<Rightarrow> cg_input_config" where
  "keyboard_group_total_config cfgs identifier =
     foldl (\<lambda>tot c. if config_matches identifier ''keyboard'' c then merge_group_config identifier tot c else tot)
       empty_input_config cfgs"

definition cg_input_manager_configure_keyboard_group ::
    "cg_input_config list \<Rightarrow> keyboard_group \<Rightarrow> keyboard_group" where
  "cg_input_manager_configure_keyboard_group cfgs g =
     apply_keyboard_group_config (keyboard_group_total_config cfgs (kg_identifier g)) g"

section \<open>A sequence of input commands\<close>

text \<open>The list of configurations after the \<^verbatim>\<open>input\<close> commands \<open>cmds\<close>, in the order given.\<close>

definition configure_inputs :: "cg_input_config list \<Rightarrow> cg_input_config list" where
  "configure_inputs cmds = foldl (\<lambda>cfgs c. keybinding_configure_input_list c cfgs) [] cmds"

named_theorems li_keep \<open>what the setters leave alone\<close>

lemma setters_keep [li_keep]:
  "li_dwt_available (snd (set_send_events m d)) = li_dwt_available d"
  "li_send_events_default (snd (set_send_events m d)) = li_send_events_default d"
  "li_send_events (snd (set_send_events m d)) = m"
  by (simp_all add: set_send_events_def)

definition li_core :: "libinput_device \<Rightarrow> bool \<times> int \<times> int" where
  "li_core d = (li_dwt_available d, li_send_events_default d, li_send_events d)"

lemma setters_core [li_keep]:
  "li_core (snd (set_tap i d)) = li_core d" "li_core (snd (set_tap_button_map i d)) = li_core d"
  "li_core (snd (set_tap_drag i d)) = li_core d" "li_core (snd (set_tap_drag_lock i d)) = li_core d"
  "li_core (snd (set_accel_speed f d)) = li_core d" "li_core (snd (set_accel_profile i d)) = li_core d"
  "li_core (snd (set_natural_scroll b d)) = li_core d" "li_core (snd (set_left_handed b d)) = li_core d"
  "li_core (snd (set_click_method i d)) = li_core d" "li_core (snd (set_middle_emulation i d)) = li_core d"
  "li_core (snd (set_scroll_method i d)) = li_core d" "li_core (snd (set_scroll_button w d)) = li_core d"
  "li_core (snd (set_dwt b d)) = li_core d" "li_core (snd (set_calibration_matrix m d)) = li_core d"
  by (simp_all add: li_core_def set_tap_def set_tap_button_map_def set_tap_drag_def set_tap_drag_lock_def
      set_accel_speed_def set_accel_profile_def set_natural_scroll_def set_left_handed_def
      set_click_method_def set_middle_emulation_def set_scroll_method_def set_scroll_button_def
      set_dwt_def set_calibration_matrix_def)

lemma when_set_core:
  "(\<And>d. li_core (snd (f v d)) = li_core d) \<Longrightarrow> li_core (when_set v f d) = li_core d"
  by (simp add: when_set_def)

lemma apply_config_core:
  "li_core (apply_config_to_device c d) =
     (li_dwt_available d, li_send_events_default d,
      if ic_send_events c \<noteq> INT_MIN then ic_send_events c else li_send_events_default d)"
proof -
  have "li_core (snd (set_send_events m d)) = (li_dwt_available d, li_send_events_default d, m)" for m
    by (simp add: li_core_def li_keep)
  then show ?thesis
    by (simp add: apply_config_to_device_def Let_def when_set_core li_keep)
qed

lemma apply_config_dwt:
  assumes "ic_dwt c \<noteq> INT_MIN" and "li_dwt_available d"
  shows "li_dwt (apply_config_to_device c d) = (ic_dwt c \<noteq> 0)"
proof -
  have m: "li_dwt (snd (set_calibration_matrix m d)) = li_dwt d" for m d
    by (simp add: set_calibration_matrix_def)
  have s: "li_dwt (when_set (ic_dwt c) (\<lambda>v. set_dwt (v \<noteq> 0)) d') = (ic_dwt c \<noteq> 0)"
    if "fst (li_core d')" for d'
    using assms(1) that by (auto simp: when_set_def set_dwt_def li_core_def)
  have a: "fst (li_core (snd (set_send_events m d)))" for m
    using assms(2) by (simp add: li_core_def li_keep)
  show ?thesis
    unfolding apply_config_to_device_def Let_def if_distrib [of li_dwt] m if_cancel
    by (rule s) (simp add: when_set_core li_keep a)
qed

lemma config_matches_merge_empty:
  "ic_identifier c \<noteq> None \<Longrightarrow>
   config_matches i t (input_manager_merge_input_configs c empty_input_config) = config_matches i t c"
  by (cases "ic_identifier c") (simp_all add: config_matches_def input_manager_merge_input_configs_def)

lemma configure_inputs_rev:
  "configure_inputs cs = rev (map (\<lambda>c. input_manager_merge_input_configs c empty_input_config) cs)"
proof (induction cs rule: rev_induct)
  case (snoc c cs)
  then show ?case by (simp add: configure_inputs_def keybinding_configure_input_list_def)
qed (simp add: configure_inputs_def)

lemma libinput_core_foldl:
  "\<exists>se. li_core (cg_input_configure_libinput_device cfgs i t d)
     = (li_dwt_available d, li_send_events_default d, se)"
proof (induction cfgs rule: rev_induct)
  case (snoc c cfgs)
  let ?d = "cg_input_configure_libinput_device cfgs i t d"
  have "cg_input_configure_libinput_device (cfgs @ [c]) i t d =
      (if config_matches i t c then apply_config_to_device c ?d else ?d)"
    by (simp add: cg_input_configure_libinput_device_def)
  moreover have "li_dwt_available ?d = li_dwt_available d" "li_send_events_default ?d = li_send_events_default d"
    using snoc by (auto simp: li_core_def)
  ultimately show ?case using snoc by (auto simp: apply_config_core)
qed (simp add: cg_input_configure_libinput_device_def li_core_def)


definition example_device :: libinput_device where
  "example_device =
     \<lparr>li_finger_count = 0, li_accel_available = False, li_has_natural_scroll = False,
      li_left_handed_available = False, li_click_methods = 0, li_middle_available = False,
      li_scroll_methods = 0, li_dwt_available = True, li_has_matrix = False,
      li_send_events_default = 0, li_send_events = 0, li_tap = 0, li_tap_button_map = 0, li_drag = 0,
      li_drag_lock = 0, li_accel_speed = Fin 0 0, li_accel_profile = 0, li_natural_scroll = False,
      li_left_handed = False, li_click_method = 0, li_middle_emulation = 0, li_scroll_method = 0,
      li_scroll_button = 0, li_dwt = False, li_matrix = []\<rparr>"




end
