(* ===== verification/Resize.thy ===== *)
theory Resize
  imports Tiles
begin

text \<open>
  Resizing a tile (\<^verbatim>\<open>keybinding.c\<close>): \<^verbatim>\<open>resize_allowed\<close> walks the tiles that share the moved
  edges and refuses when one of them would vanish, \<^verbatim>\<open>resize\<close> walks them in the same way and
  moves the edges. The recursion of both is given fuel, the number of tile addresses ever handed
  out; running out of it is the value \<open>None\<close>.
\<close>

definition intervalls_intersect :: "int \<Rightarrow> int \<Rightarrow> int \<Rightarrow> int \<Rightarrow> bool" where
  "intervalls_intersect x1 x2 y1 y2 \<longleftrightarrow> y2 > x1 \<and> y1 < x2"

text \<open>
  The tiles of the loop \<^verbatim>\<open>for(it = tile->next; it != tile && it != NULL; it = it->next)\<close>. The
  loop bodies never change the links, so the tiles can be listed beforehand.
\<close>

fun ring_rest :: "nat \<Rightarrow> tile_ptr \<Rightarrow> tile_ptr option \<Rightarrow> cg_server \<Rightarrow> tile_ptr list option" where
  "ring_rest fuel start None s = Some []"
| "ring_rest 0 start (Some it) s = (if it = start then Some [] else None)"
| "ring_rest (Suc fuel) start (Some it) s =
     (if it = start then Some []
      else do {
        t \<leftarrow> s_tiles s it;
        rest \<leftarrow> ring_rest fuel start (t_next t) s;
        Some (it # rest)
      })"

definition other_tiles :: "tile_ptr \<Rightarrow> cg_server \<Rightarrow> tile_ptr list option" where
  "other_tiles tp s = do {
     t \<leftarrow> s_tiles s tp;
     ring_rest (s_tile_brk s) tp (t_next t) s
   }"

text \<open>How a neighbour is affected when the edges of \<open>b\<close> move by the two offsets.\<close>

definition neighbour_offsets ::
    "box_field \<Rightarrow> box_field \<Rightarrow> wlr_box \<Rightarrow> wlr_box \<Rightarrow> int \<Rightarrow> int \<Rightarrow> (int \<times> int) option" where
  "neighbour_offsets cf df b it coord_offset dim_offset =
     (let cc = get_compl_coord cf; cd = get_compl_dim df
      in if intervalls_intersect (get_field cc b) (get_field cc b + get_field cd b)
              (get_field cc it) (get_field cc it + get_field cd it)
         then if get_field cf it = get_field cf b + get_field df b
              then Some (dim_offset + coord_offset, - dim_offset - coord_offset)
              else if get_field cf it + get_field df it = get_field cf b
              then Some (0, coord_offset)
              else None
         else None)"

text \<open>A loop that returns false at the first element for which the body does.\<close>

fun all_ok :: "('a \<Rightarrow> bool option) \<Rightarrow> 'a list \<Rightarrow> bool option" where
  "all_ok f [] = Some True"
| "all_ok f (x # xs) = do { r \<leftarrow> f x; if r then all_ok f xs else Some False }"

fun resize_allowed ::
    "nat \<Rightarrow> tile_ptr \<Rightarrow> tile_ptr option \<Rightarrow> int \<Rightarrow> int \<Rightarrow> box_field \<Rightarrow> box_field \<Rightarrow> tile_ptr \<Rightarrow> cg_server \<Rightarrow> bool option" where
  "resize_allowed 0 tp parent co d cf df orig s = None"
| "resize_allowed (Suc fuel) tp parent co d cf df orig s =
     (if co = 0 \<and> d = 0 then Some True
      else do {
        t \<leftarrow> s_tiles s tp;
        if get_field df (t_box t) + d \<le> 0 then Some False
        else do {
          its \<leftarrow> other_tiles tp s;
          all_ok (\<lambda>it.
            if Some it = parent \<or> it = orig then Some True
            else do {
              u \<leftarrow> s_tiles s it;
              case neighbour_offsets cf df (t_box t) (t_box u) co d of
                None \<Rightarrow> Some True
              | Some (co', d') \<Rightarrow> resize_allowed fuel it (Some tp) co' d' cf df orig s
            }) its
        }
      })"

definition dims_string :: "wlr_box \<Rightarrow> string" where
  "dims_string b = ''['' @ fmt_d (box_x b) @ '','' @ fmt_d (box_y b) @ '','' @
     fmt_d (box_height b) @ '','' @ fmt_d (box_width b) @ '']''"

definition resize_event :: "tile_ptr \<Rightarrow> wlr_box \<Rightarrow> cg_server \<Rightarrow> cg_server option" where
  "resize_event tp old s = do {
     t \<leftarrow> s_tiles s tp;
     w \<leftarrow> t_workspace t;
     a \<leftarrow> ws_event_args w s;
     Some (ipc_send_event ''resize_tile''
             ([(''tile_id'', d32 (t_id t)), (''old_dims'', IStr (dims_string old)),
               (''new_dims'', IStr (dims_string (t_box t)))] @ a) s)
   }"

text \<open>The last part of \<^verbatim>\<open>resize\<close>: the tile itself is moved.\<close>

definition resize_apply :: "tile_ptr \<Rightarrow> int \<Rightarrow> int \<Rightarrow> box_field \<Rightarrow> box_field \<Rightarrow> cg_server \<Rightarrow> cg_server option" where
  "resize_apply tp co d cf df s = do {
     t \<leftarrow> s_tiles s tp;
     let b = t_box t;
     let b' = set_field cf (get_field cf b + co) b;
     let b' = set_field df (get_field df b' + d) b';
     s \<leftarrow> upd_tile tp (\<lambda>t. t\<lparr>t_box := b'\<rparr>) s;
     s \<leftarrow> (case t_view t of None \<Rightarrow> Some s | Some v \<Rightarrow> view_maximize v tp s);
     resize_event tp b s
   }"

fun resize ::
    "nat \<Rightarrow> tile_ptr \<Rightarrow> tile_ptr option \<Rightarrow> int \<Rightarrow> int \<Rightarrow> box_field \<Rightarrow> box_field \<Rightarrow> tile_ptr \<Rightarrow> cg_server \<Rightarrow> cg_server option" where
  "resize 0 tp parent co d cf df orig s = None"
| "resize (Suc fuel) tp parent co d cf df orig s =
     (if co = 0 \<and> d = 0 then Some s
      else do {
        its \<leftarrow> other_tiles tp s;
        s \<leftarrow> ofold (\<lambda>it s.
          if Some it = parent \<or> it = orig then Some s
          else do {
            t \<leftarrow> s_tiles s tp;
            u \<leftarrow> s_tiles s it;
            case neighbour_offsets cf df (t_box t) (t_box u) co d of
              None \<Rightarrow> Some s
            | Some (co', d') \<Rightarrow> resize fuel it (Some tp) co' d' cf df orig s
          }) its s;
        resize_apply tp co d cf df s
      })"

definition resize_allowed_horizontal :: "tile_ptr \<Rightarrow> int \<Rightarrow> int \<Rightarrow> cg_server \<Rightarrow> bool option" where
  "resize_allowed_horizontal tp x_offset width_offset s =
     resize_allowed (s_tile_brk s) tp None x_offset width_offset Get_x Get_width tp s"

definition resize_allowed_vertical :: "tile_ptr \<Rightarrow> int \<Rightarrow> int \<Rightarrow> cg_server \<Rightarrow> bool option" where
  "resize_allowed_vertical tp y_offset height_offset s =
     resize_allowed (s_tile_brk s) tp None y_offset height_offset Get_y Get_height tp s"

definition resize_horizontal :: "tile_ptr \<Rightarrow> int \<Rightarrow> int \<Rightarrow> cg_server \<Rightarrow> cg_server option" where
  "resize_horizontal tp x_offset width_offset s =
     resize (s_tile_brk s) tp None x_offset width_offset Get_x Get_width tp s"

definition resize_vertical :: "tile_ptr \<Rightarrow> int \<Rightarrow> int \<Rightarrow> cg_server \<Rightarrow> cg_server option" where
  "resize_vertical tp y_offset height_offset s =
     resize (s_tile_brk s) tp None y_offset height_offset Get_y Get_height tp s"

definition resize_step_horizontal :: "out_ptr \<Rightarrow> tile_ptr \<Rightarrow> int \<Rightarrow> cg_server \<Rightarrow> cg_server option" where
  "resize_step_horizontal p tp hpixs s =
     (if hpixs = 0 then Some s
      else do {
        (lb, s) \<leftarrow> output_get_layout_box p s;
        t \<leftarrow> s_tiles s tp;
        let b = t_box t;
        if box_width b < box_width lb \<and> is_between_strict 0 (box_width lb) (box_width b + hpixs)
        then do {
          let x_offset = (if box_x b + box_width b = box_width lb then - hpixs else 0);
          ok \<leftarrow> resize_allowed_horizontal tp x_offset hpixs s;
          if ok then resize_horizontal tp x_offset hpixs s else Some s
        } else Some s
      })"

definition resize_step_vertical :: "out_ptr \<Rightarrow> tile_ptr \<Rightarrow> int \<Rightarrow> cg_server \<Rightarrow> cg_server option" where
  "resize_step_vertical p tp vpixs s =
     (if vpixs = 0 then Some s
      else do {
        (lb, s) \<leftarrow> output_get_layout_box p s;
        t \<leftarrow> s_tiles s tp;
        let b = t_box t;
        if box_height b < box_height lb \<and> is_between_strict 0 (box_height lb) (box_height b + vpixs)
        then do {
          let y_offset = (if box_y b + box_height b = box_height lb then - vpixs else 0);
          ok \<leftarrow> resize_allowed_vertical tp y_offset vpixs s;
          if ok then resize_vertical tp y_offset vpixs s else Some s
        } else Some s
      })"

definition resize_tile :: "int \<Rightarrow> int \<Rightarrow> int \<Rightarrow> cg_server \<Rightarrow> cg_server option" where
  "resize_tile hpixs vpixs tile_id s = do {
     p \<leftarrow> s_curr_output s;
     cp \<leftarrow> curr_tile s;
     r \<leftarrow> (if tile_id \<noteq> 0 then tile_from_id (word_of_int tile_id) s else Some (Some cp));
     case r of
       None \<Rightarrow> Some s
     | Some tp \<Rightarrow> do {
         s \<leftarrow> resize_step_horizontal p tp hpixs s;
         resize_step_vertical p tp vpixs s
       }
   }"

end
