(* ===== verification/Views.thy ===== *)
theory Views
  imports Tiles
begin

text \<open>
  The life of a view (\<^verbatim>\<open>view.c\<close>) and the actions that change which view a tile shows or which
  workspace a view belongs to (\<^verbatim>\<open>keybinding.c\<close>).
\<close>

section \<open>Links\<close>

text \<open>
  \<^verbatim>\<open>wl_list_remove(&view->link)\<close>: the view leaves the list it is linked in, one of the two
  lists of a workspace; removing a view that is in no list is a fault.
\<close>

definition view_linked :: "view_ptr \<Rightarrow> cg_server \<Rightarrow> bool" where
  "view_linked p s \<longleftrightarrow>
     list_ex (\<lambda>w. case s_workspaces s w of
                    None \<Rightarrow> False
                  | Some ws \<Rightarrow> p \<in> set (w_views ws) \<or> p \<in> set (w_unmanaged_views ws))
       [0..<s_ws_brk s]"

definition ws_remove_view :: "view_ptr \<Rightarrow> cg_workspace \<Rightarrow> cg_workspace" where
  "ws_remove_view p ws =
     ws\<lparr>w_views := wl_remove p (w_views ws), w_unmanaged_views := wl_remove p (w_unmanaged_views ws)\<rparr>"

definition view_unlink :: "view_ptr \<Rightarrow> cg_server \<Rightarrow> cg_server option" where
  "view_unlink p s =
     (if view_linked p s
      then Some (s\<lparr>s_workspaces := (\<lambda>w. map_option (ws_remove_view p) (s_workspaces s w))\<rparr>)
      else None)"

definition view_link :: "ws_ptr \<Rightarrow> view_ptr \<Rightarrow> cg_server \<Rightarrow> cg_server option" where
  "view_link w p = upd_ws w (\<lambda>ws. ws\<lparr>w_views := wl_insert p (w_views ws)\<rparr>)"

definition view_link_unmanaged :: "ws_ptr \<Rightarrow> view_ptr \<Rightarrow> cg_server \<Rightarrow> cg_server option" where
  "view_link_unmanaged w p =
     upd_ws w (\<lambda>ws. ws\<lparr>w_unmanaged_views := wl_insert p (w_unmanaged_views ws)\<rparr>)"

section \<open>Life of a view\<close>

text \<open>
  \<^verbatim>\<open>view_get_prev_view\<close>: the views before this one in the ring of its workspace, going
  backwards and around, up to the first invisible one. The head of the list is skipped.
\<close>

definition views_before :: "view_ptr \<Rightarrow> view_ptr list \<Rightarrow> view_ptr list" where
  "views_before p vs =
     rev (takeWhile (\<lambda>x. x \<noteq> p) vs) @ rev (tl (dropWhile (\<lambda>x. x \<noteq> p) vs))"

fun first_invisible :: "view_ptr list \<Rightarrow> cg_server \<Rightarrow> view_ptr option option" where
  "first_invisible [] s = Some None"
| "first_invisible (p # ps) s = do {
     vis \<leftarrow> view_is_visible p s;
     if \<not> vis then Some (Some p) else first_invisible ps s
   }"

definition view_get_prev_view :: "view_ptr \<Rightarrow> cg_server \<Rightarrow> view_ptr option option" where
  "view_get_prev_view p s = do {
     v \<leftarrow> s_views s p;
     w \<leftarrow> v_workspace v;
     ws \<leftarrow> s_workspaces s w;
     if p \<in> set (w_views ws) then first_invisible (views_before p (w_views ws)) s else None
   }"

definition tile_id_of :: "view_ptr \<Rightarrow> cg_server \<Rightarrow> u32 option" where
  "tile_id_of p s = do {
     v \<leftarrow> s_views s p;
     case v_tile v of
       None \<Rightarrow> Some (- 1)
     | Some tp \<Rightarrow> do { t \<leftarrow> s_tiles s tp; Some (t_id t) }
   }"

text \<open>
  \<^verbatim>\<open>view->impl->get_pid\<close>: the implementation for XDG shell views reads the surface of the view.
\<close>

definition view_get_pid :: "cg_view \<Rightarrow> int option" where
  "view_get_pid v =
     (if v_type v = CG_XDG_SHELL_VIEW \<and> v_surface v = None then None else Some (v_pid v))"

definition unmap_managed :: "view_ptr \<Rightarrow> cg_server \<Rightarrow> cg_server option" where
  "unmap_managed p s = do {
     v \<leftarrow> s_views s p;
     prev \<leftarrow> view_get_prev_view p s;
     s \<leftarrow> (if se_focused_view (s_seat s) = Some p then seat_set_focus prev s
           else if se_keyboard_focus (s_seat s) = v_surface v
           then seat_set_focus (se_focused_view (s_seat s))
                  (emit Keyboard_clear_focus (upd_seat (\<lambda>se. se\<lparr>se_keyboard_focus := None\<rparr>) s))
           else Some s);
     vt \<leftarrow> view_get_tile p s;
     case vt of None \<Rightarrow> Some s | Some tp \<Rightarrow> workspace_tile_update_view tp prev s
   }"

definition unmap_unmanaged :: "view_ptr \<Rightarrow> cg_server \<Rightarrow> cg_server option" where
  "unmap_unmanaged p s = do {
     v \<leftarrow> s_views s p;
     if se_keyboard_focus (s_seat s) = None \<or> se_keyboard_focus (s_seat s) = v_surface v
     then seat_set_focus (se_focused_view (s_seat s)) s
     else Some s
   }"

definition view_unmap :: "view_ptr \<Rightarrow> cg_server \<Rightarrow> cg_server option" where
  "view_unmap p s = do {
     v \<leftarrow> s_views s p;
     w \<leftarrow> v_workspace v;
     ws \<leftarrow> s_workspaces s w;
     a \<leftarrow> output_event_args ''output'' ''output_id'' (w_output ws) s;
     pid \<leftarrow> view_get_pid v;
     if v_surface v = None then Some s
     else do {
       tile_id \<leftarrow> tile_id_of p s;
       s \<leftarrow> (if v_type v \<noteq> CG_XWAYLAND_VIEW \<or> xwayland_view_should_manage v
             then unmap_managed p s else unmap_unmanaged p s);
       s \<leftarrow> view_unlink p s;
       s \<leftarrow> upd_view p (\<lambda>v. v\<lparr>v_surface := None\<rparr>) s;
       Some (ipc_send_event ''view_unmap''
               ([(''view_id'', d32 (v_id v)), (''tile_id'', d32 tile_id),
                 (''workspace'', d32 (w_num ws + 1))] @ a @ [(''view_pid'', IInt pid)]) s)
     }
   }"

definition view_map :: "view_ptr \<Rightarrow> surface \<Rightarrow> ws_ptr \<Rightarrow> cg_server \<Rightarrow> cg_server option" where
  "view_map p surf w s = do {
     s \<leftarrow> upd_view p (\<lambda>v. v\<lparr>v_surface := Some surf, v_workspace := Some w\<rparr>) s;
     let s = emit (Scene_reparent p w) s;
     v \<leftarrow> s_views s p;
     ws \<leftarrow> s_workspaces s w;
     s \<leftarrow> (if v_type v = CG_XWAYLAND_VIEW \<and> \<not> xwayland_view_should_manage v
           then do {
             s \<leftarrow> view_link_unmanaged w p s;
             (b, s) \<leftarrow> output_get_layout_box (w_output ws) s;
             Some (emit (Scene_set_position p (v_ox v + box_x b) (v_oy v + box_y b)) s)
           }
           else view_link w p s);
     s \<leftarrow> seat_set_focus (Some p) s;
     tile_id \<leftarrow> tile_id_of p s;
     v \<leftarrow> s_views s p;
     vw \<leftarrow> v_workspace v;
     vws \<leftarrow> s_workspaces s vw;
     a \<leftarrow> output_event_args ''output'' ''output_id'' (w_output vws) s;
     pid \<leftarrow> view_get_pid v;
     Some (ipc_send_event ''view_map''
             ([(''view_id'', d32 (v_id v)), (''tile_id'', d32 tile_id),
               (''workspace'', d32 (w_num vws + 1))] @ a @ [(''view_pid'', IInt pid)]) s)
   }"

text \<open>\<^verbatim>\<open>view->impl->destroy\<close> frees the view in both implementations.\<close>

definition view_impl_destroy :: "view_ptr \<Rightarrow> cg_server \<Rightarrow> cg_server option" where
  "view_impl_destroy p s = do {
     v \<leftarrow> s_views s p;
     Some (s\<lparr>s_views := (s_views s)(p := None)\<rparr>)
   }"

definition view_destroy :: "view_ptr \<Rightarrow> cg_server \<Rightarrow> cg_server option" where
  "view_destroy p s = do {
     co \<leftarrow> s_curr_output s;
     v \<leftarrow> s_views s p;
     s \<leftarrow> (if v_surface v \<noteq> None then view_unmap p s else Some s);
     s \<leftarrow> view_impl_destroy p (emit (Scene_destroy_view p) s);
     w \<leftarrow> curr_ws_of co s;
     tp \<leftarrow> focused_tile_of w s;
     t \<leftarrow> s_tiles s tp;
     view_activate (t_view t) True s
   }"

text \<open>
  \<^verbatim>\<open>view_init\<close>, together with the allocation of the view by its caller; the last argument
  carries the client's fields.
\<close>

definition view_init :: "cg_view_type \<Rightarrow> cg_view \<Rightarrow> cg_server \<Rightarrow> (view_ptr \<times> cg_server) option" where
  "view_init ty client s = do {
     let p = s_view_brk s;
     let v = client\<lparr>v_workspace := None, v_tile := None, v_surface := None, v_ox := 0, v_oy := 0,
                    v_type := ty, v_id := s_views_curr_id s\<rparr>;
     let s = s\<lparr>s_views := (s_views s)(p \<mapsto> v), s_view_brk := Suc p,
               s_views_curr_id := s_views_curr_id s + 1\<rparr>;
     w \<leftarrow> curr_ws s;
     Some (p, s)
   }"

section \<open>Cycling through the views of a workspace\<close>

text \<open>Whether \<^verbatim>\<open>view->link.next\<close> is the first link of the list.\<close>

definition next_is_first :: "view_ptr \<Rightarrow> view_ptr list \<Rightarrow> bool" where
  "next_is_first p vs =
     (case dropWhile (\<lambda>x. x \<noteq> p) vs of _ # q # _ \<Rightarrow> q = hd vs | _ \<Rightarrow> False)"

definition cycle_views_event ::
    "tile_ptr \<Rightarrow> ws_ptr \<Rightarrow> view_ptr option \<Rightarrow> view_ptr \<Rightarrow> cg_server \<Rightarrow> cg_server option" where
  "cycle_views_event tp w current_view next_view s = do {
     ws \<leftarrow> s_workspaces s w;
     (curr_id, curr_pid) \<leftarrow>
       (case current_view of
          None \<Rightarrow> Some (- 1, - 1)
        | Some cv \<Rightarrow>
            do {
              v \<leftarrow> s_views s cv;
              pid \<leftarrow> view_get_pid v;
              Some (if next_is_first cv (w_views ws) then (- 1, - 1) else (sint (v_id v), pid))
            });
     nv \<leftarrow> s_views s next_view;
     np \<leftarrow> v_tile nv;
     nt \<leftarrow> s_tiles s np;
     npid \<leftarrow> view_get_pid nv;
     a \<leftarrow> ws_event_args w s;
     Some (ipc_send_event ''cycle_views''
             ([(''old_view_id'', IInt curr_id), (''old_view_pid'', IInt curr_pid),
               (''new_view_id'', d32 (v_id nv)), (''new_view_pid'', IInt npid),
               (''tile_id'', d32 (t_id nt))] @ a) s)
   }"

definition cycle_pick :: "ws_ptr \<Rightarrow> u32 \<Rightarrow> bool \<Rightarrow> cg_server \<Rightarrow> view_ptr option option" where
  "cycle_pick w view_id rev_order s =
     (if view_id = 0
      then do {
        ws \<leftarrow> s_workspaces s w;
        first_invisible (if rev_order then w_views ws else rev (w_views ws)) s
      }
      else do {
        r \<leftarrow> view_from_id view_id s;
        case r of
          None \<Rightarrow> Some None
        | Some v \<Rightarrow> do { vis \<leftarrow> view_is_visible v s; Some (if vis then None else Some v) }
      })"

definition keybinding_cycle_views ::
    "tile_ptr option \<Rightarrow> u32 \<Rightarrow> bool \<Rightarrow> bool \<Rightarrow> cg_server \<Rightarrow> cg_server option" where
  "keybinding_cycle_views to view_id rev_order ipc s = do {
     tp \<leftarrow> (case to of None \<Rightarrow> curr_tile s | Some tp \<Rightarrow> Some tp);
     t \<leftarrow> s_tiles s tp;
     w \<leftarrow> t_workspace t;
     r \<leftarrow> cycle_pick w view_id rev_order s;
     case r of
       None \<Rightarrow> Some s
     | Some next_view \<Rightarrow> do {
         s \<leftarrow> workspace_tile_update_view tp (Some next_view) s;
         cp \<leftarrow> curr_tile s;
         s \<leftarrow> (if tp = cp then seat_set_focus (Some next_view) s else Some s);
         if ipc then cycle_views_event tp w (t_view t) next_view s else Some s
       }
   }"

definition keybinding_close_view :: "view_ptr option \<Rightarrow> cg_server \<Rightarrow> cg_server option" where
  "keybinding_close_view po s =
     (case po of
        None \<Rightarrow> Some s
      | Some p \<Rightarrow> do {
          v \<leftarrow> s_views s p;
          w \<leftarrow> v_workspace v;
          ws \<leftarrow> s_workspaces s w;
          pid \<leftarrow> view_get_pid v;
          let s = emit (Send_close p) s;
          a \<leftarrow> output_event_args ''output'' ''output_id'' (w_output ws) s;
          Some (ipc_send_event ''close''
                  ([(''view_id'', d32 (v_id v)), (''view_pid'', IInt pid),
                    (''tile_id'', d32 (v_id v)), (''workspace'', d32 (w_num ws + 1))] @ a) s)
        })"

section \<open>Moving a view\<close>

text \<open>The first part of \<^verbatim>\<open>keybinding_move_view_to_tile\<close>: the view leaves its tile and its list.\<close>

definition move_view_out :: "view_ptr \<Rightarrow> cg_server \<Rightarrow> cg_server option" where
  "move_view_out p s = do {
     v \<leftarrow> s_views s p;
     case v_tile v of
       None \<Rightarrow> view_unlink p s
     | Some old \<Rightarrow> do {
         s \<leftarrow> workspace_tile_update_view old None s;
         s \<leftarrow> view_unlink p s;
         s \<leftarrow> keybinding_cycle_views (Some old) 0 False False s;
         ot \<leftarrow> s_tiles s old;
         cp \<leftarrow> curr_tile s;
         if t_view ot = None \<and> old = cp then seat_set_focus None s else Some s
       }
   }"

text \<open>The second part: it is linked into the workspace of the tile and shown there.\<close>

definition move_view_in :: "view_ptr \<Rightarrow> tile_ptr \<Rightarrow> cg_server \<Rightarrow> cg_server option" where
  "move_view_in p tp s = do {
     t \<leftarrow> s_tiles s tp;
     w \<leftarrow> t_workspace t;
     s \<leftarrow> upd_view p (\<lambda>v. v\<lparr>v_workspace := Some w\<rparr>) s;
     s \<leftarrow> view_link w p s;
     let s = emit (Scene_reparent p w) s;
     s \<leftarrow> upd_view p (\<lambda>v. v\<lparr>v_tile := Some tp\<rparr>) s;
     s \<leftarrow> upd_tile tp (\<lambda>t. t\<lparr>t_view := Some p\<rparr>) s;
     cp \<leftarrow> curr_tile s;
     if tp = cp then seat_set_focus (Some p) s else Some s
   }"

definition tile_clear_view :: "tile_ptr \<Rightarrow> cg_server \<Rightarrow> cg_server option" where
  "tile_clear_view tp s = do {
     t \<leftarrow> s_tiles s tp;
     case t_view t of
       None \<Rightarrow> Some s
     | Some p \<Rightarrow> do {
         s \<leftarrow> upd_view p (\<lambda>v. v\<lparr>v_tile := None\<rparr>) s;
         upd_tile tp (\<lambda>t. t\<lparr>t_view := None\<rparr>) s
       }
   }"

definition quoted_d :: "int \<Rightarrow> ipc_val" where
  "quoted_d i = IStr (fmt_d i)"

text \<open>What the event needs of the view's old place, read before anything is changed.\<close>

definition move_view_old ::
    "view_ptr option \<Rightarrow> cg_server \<Rightarrow> (out_ptr option \<times> int \<times> tile_ptr option) option" where
  "move_view_old vo s =
     (case vo of
        None \<Rightarrow> Some (None, - 1, None)
      | Some p \<Rightarrow> do {
          v \<leftarrow> s_views s p;
          w \<leftarrow> v_workspace v;
          ws \<leftarrow> s_workspaces s w;
          Some (Some (w_output ws), sint (w_num ws), v_tile v)
        })"

definition move_view_event ::
    "u32 \<Rightarrow> out_ptr option \<Rightarrow> int \<Rightarrow> tile_ptr option \<Rightarrow> tile_ptr \<Rightarrow> cg_server \<Rightarrow> cg_server option" where
  "move_view_event view_id old_outp old_workspace old_tile tp s = do {
     oname \<leftarrow> (case old_outp of None \<Rightarrow> Some '''' | Some p \<Rightarrow> map_option o_name (s_outs s p));
     otid \<leftarrow> (case old_tile of None \<Rightarrow> Some (- 1) | Some q \<Rightarrow> map_option (\<lambda>t. sint (t_id t)) (s_tiles s q));
     cp \<leftarrow> s_curr_output s;
     cout \<leftarrow> s_outs s cp;
     t \<leftarrow> s_tiles s tp;
     w \<leftarrow> t_workspace t;
     ws \<leftarrow> s_workspaces s w;
     Some (ipc_send_event ''move_view''
             [(''view_id'', d32 view_id), (''old_output'', IStr oname),
              (''old_workspace'', quoted_d old_workspace), (''old_tile'', quoted_d otid),
              (''new_output'', IStr (o_name cout)), (''new_workspace'', quoted_d (sint (w_num ws))),
              (''new_tile'', quoted_d (sint (t_id t)))] s)
   }"

definition keybinding_move_view_to_tile :: "u32 \<Rightarrow> u32 \<Rightarrow> bool \<Rightarrow> cg_server \<Rightarrow> cg_server option" where
  "keybinding_move_view_to_tile view_id tile_id follow s = do {
     vo \<leftarrow> view_from_id view_id s;
     r \<leftarrow> tile_from_id tile_id s;
     (old_outp, old_workspace, old_tile) \<leftarrow> move_view_old vo s;
     case r of
       None \<Rightarrow> Some s
     | Some tp \<Rightarrow> do {
         s \<leftarrow> (case vo of
                 None \<Rightarrow> tile_clear_view tp s
               | Some p \<Rightarrow> do { s \<leftarrow> move_view_out p s; move_view_in p tp s });
         t \<leftarrow> s_tiles s tp;
         s \<leftarrow> (if follow then keybinding_focus_tile (t_id t) s
               else if t_view t \<noteq> None then workspace_tile_update_view tp (t_view t) s
               else Some s);
         move_view_event view_id old_outp old_workspace old_tile tp s
       }
   }"

definition keybinding_move_view_to_output :: "int \<Rightarrow> int \<Rightarrow> bool \<Rightarrow> cg_server \<Rightarrow> cg_server option" where
  "keybinding_move_view_to_output view_id output_num follow s =
     (case output_from_num output_num s of
        Some p \<Rightarrow> do {
          w \<leftarrow> curr_ws_of p s;
          tp \<leftarrow> focused_tile_of w s;
          t \<leftarrow> s_tiles s tp;
          keybinding_move_view_to_tile (word_of_int view_id) (t_id t) follow s
        }
      | None \<Rightarrow> do {
          cp \<leftarrow> s_curr_output s;
          Some (message_printf cp (''Output number '' @ fmt_d output_num @ '' not found.'') s)
        })"

definition keybinding_move_view_to_workspace :: "int \<Rightarrow> u32 \<Rightarrow> bool \<Rightarrow> cg_server \<Rightarrow> cg_server option" where
  "keybinding_move_view_to_workspace view_id i follow s =
     (if i \<ge> ucast (s_nws s)
      then do {
        cp \<leftarrow> s_curr_output s;
        Some (message_printf cp (''Attempting to move view to workspace '' @ fmt_d (sint (i + 1)) @
                '', but there are only '' @ fmt_d (uint (s_nws s)) @ '' workspaces.'') s)
      }
      else do {
        cp \<leftarrow> s_curr_output s;
        cout \<leftarrow> s_outs s cp;
        w \<leftarrow> ws_at cout (uint i);
        tp \<leftarrow> focused_tile_of w s;
        t \<leftarrow> s_tiles s tp;
        keybinding_move_view_to_tile (word_of_int view_id) (t_id t) follow s
      })"

definition cycle_output_take :: "view_ptr \<Rightarrow> tile_ptr \<Rightarrow> cg_server \<Rightarrow> cg_server option" where
  "cycle_output_take p tp s = do {
     s \<leftarrow> view_unlink p s;
     s \<leftarrow> upd_tile tp (\<lambda>t. t\<lparr>t_view := None\<rparr>) s;
     s \<leftarrow> keybinding_cycle_views None 0 False False s;
     cp \<leftarrow> curr_tile s;
     ct \<leftarrow> s_tiles s cp;
     if t_view ct = None then seat_set_focus None s else Some s
   }"

definition cycle_output_put :: "view_ptr \<Rightarrow> cg_server \<Rightarrow> cg_server option" where
  "cycle_output_put p s = do {
     w \<leftarrow> curr_ws s;
     s \<leftarrow> view_link w p s;
     let s = emit (Scene_reparent p w) s;
     tp \<leftarrow> focused_tile_of w s;
     s \<leftarrow> workspace_tile_update_view tp (Some p) s;
     s \<leftarrow> upd_view p (\<lambda>v. v\<lparr>v_workspace := Some w\<rparr>) s;
     seat_set_focus (Some p) s
   }"

definition focused_tile_id :: "out_ptr \<Rightarrow> cg_server \<Rightarrow> u32 option" where
  "focused_tile_id p s = do {
     w \<leftarrow> curr_ws_of p s;
     tp \<leftarrow> focused_tile_of w s;
     t \<leftarrow> s_tiles s tp;
     Some (t_id t)
   }"

definition keybinding_move_view_to_cycle_output :: "bool \<Rightarrow> cg_server \<Rightarrow> cg_server option" where
  "keybinding_move_view_to_cycle_output rev_order s =
     (if length (s_outputs s) \<le> 1 then Some s
      else do {
        old \<leftarrow> s_curr_output s;
        tp \<leftarrow> curr_tile s;
        t \<leftarrow> s_tiles s tp;
        s \<leftarrow> (case t_view t of None \<Rightarrow> Some s | Some p \<Rightarrow> cycle_output_take p tp s);
        s \<leftarrow> keybinding_cycle_outputs rev_order False s;
        s \<leftarrow> (case t_view t of None \<Rightarrow> Some s | Some p \<Rightarrow> cycle_output_put p s);
        (vid, pid) \<leftarrow> (case t_view t of
                         None \<Rightarrow> Some (- 1, - 1)
                       | Some p \<Rightarrow> do {
                           v \<leftarrow> s_views s p;
                           pid \<leftarrow> view_get_pid v;
                           Some (sint (v_id v), pid)
                         });
        new \<leftarrow> s_curr_output s;
        a \<leftarrow> output_event_args ''old_output'' ''old_output_id'' old s;
        b \<leftarrow> output_event_args ''new_output'' ''new_output_id'' new s;
        otid \<leftarrow> focused_tile_id old s;
        ntid \<leftarrow> focused_tile_id new s;
        Some (ipc_send_event ''move_view_to_cycle_output''
                ([(''view_id'', IInt vid), (''view_pid'', IInt pid)] @ a @ b
                 @ [(''old_tile_id'', d32 otid), (''new_tile_id'', d32 ntid)]) s)
      })"

end
