(* ===== verification/Outputs.thy ===== *)
theory Outputs
  imports Views
begin

text \<open>
  The outputs (\<^verbatim>\<open>output.c\<close>): their order by priority, taking an output away with everything
  it shows, and changing the number of workspaces (\<^verbatim>\<open>keybinding_set_nws\<close>).
\<close>

section \<open>The environment\<close>

text \<open>
  What wlroots decides: the modes of an output, whether it accepts a pending state, the layout of the
  outputs after a call, the next headless output, and whether the session is active.
\<close>

record wlr_env =
  we_modes :: "nat \<Rightarrow> (nat \<times> int \<times> int \<times> int) list"
  we_preferred :: "nat \<Rightarrow> nat option"
  we_test :: "nat \<Rightarrow> output_op list \<Rightarrow> bool"
  we_commit :: "nat \<Rightarrow> output_op list \<Rightarrow> bool"
  we_enabled :: "nat \<Rightarrow> bool"
  we_committed :: "nat \<Rightarrow> output_op list \<Rightarrow> (nat \<Rightarrow> wlr_box) \<Rightarrow> nat \<Rightarrow> wlr_box"
  we_add :: "nat \<Rightarrow> int \<Rightarrow> int \<Rightarrow> (nat \<Rightarrow> wlr_box) \<Rightarrow> nat \<Rightarrow> wlr_box"
  we_add_auto :: "nat \<Rightarrow> (nat \<Rightarrow> wlr_box) \<Rightarrow> nat \<Rightarrow> wlr_box"
  we_headless :: nat
  we_session_active :: bool
  we_init_render :: "nat \<Rightarrow> bool"

section \<open>The order of the outputs\<close>

text \<open>
  \<^verbatim>\<open>output_insert\<close>: in front of the first output of lower priority, else at the end.
\<close>

fun insert_by_priority :: "int \<Rightarrow> out_ptr \<Rightarrow> out_ptr list \<Rightarrow> cg_server \<Rightarrow> out_ptr list option" where
  "insert_by_priority prio p [] s = Some [p]"
| "insert_by_priority prio p (q # qs) s = do {
     out \<leftarrow> s_outs s q;
     if o_priority out < prio then Some (p # q # qs)
     else do { rest \<leftarrow> insert_by_priority prio p qs s; Some (q # rest) }
   }"

definition output_insert :: "out_ptr \<Rightarrow> cg_server \<Rightarrow> cg_server option" where
  "output_insert p s = do {
     out \<leftarrow> s_outs s p;
     ps \<leftarrow> insert_by_priority (o_priority out) p (s_outputs s) s;
     Some (s\<lparr>s_outputs := ps\<rparr>)
   }"

text \<open>\<^verbatim>\<open>wl_list_remove(&output->link)\<close>, from the list of the outputs or of the disabled ones.\<close>

definition output_unlink :: "out_ptr \<Rightarrow> cg_server \<Rightarrow> cg_server" where
  "output_unlink p s =
     s\<lparr>s_outputs := wl_remove p (s_outputs s), s_disabled_outputs := wl_remove p (s_disabled_outputs s)\<rparr>"

section \<open>Taking an output away\<close>

definition clear_tiles :: "ws_ptr \<Rightarrow> cg_server \<Rightarrow> cg_server option" where
  "clear_tiles w s = do {
     start \<leftarrow> focused_tile_of w s;
     ts \<leftarrow> ring_of start s;
     ofold (\<lambda>tp. workspace_tile_update_view tp None) ts s
   }"

definition evacuate_view :: "ws_ptr \<Rightarrow> view_ptr \<Rightarrow> cg_server \<Rightarrow> cg_server option" where
  "evacuate_view w p s = do {
     s \<leftarrow> view_unlink p s;
     if s_outputs s = [] then view_impl_destroy p s
     else do {
       s \<leftarrow> view_link w p s;
       let s = emit (Scene_reparent p w) s;
       ft \<leftarrow> map_option w_focused_tile (s_workspaces s w);
       s \<leftarrow> upd_view p (\<lambda>v. v\<lparr>v_workspace := Some w, v_tile := ft\<rparr>) s;
       if se_focused_view (s_seat s) = None then seat_set_focus (Some p) s else Some s
     }
   }"

definition evacuate_unmanaged_view :: "ws_ptr \<Rightarrow> view_ptr \<Rightarrow> cg_server \<Rightarrow> cg_server option" where
  "evacuate_unmanaged_view w p s = do {
     s \<leftarrow> view_unlink p s;
     if s_outputs s = [] then view_impl_destroy p s
     else do {
       s \<leftarrow> view_link_unmanaged w p s;
       let s = emit (Scene_reparent p w) s;
       ft \<leftarrow> map_option w_focused_tile (s_workspaces s w);
       upd_view p (\<lambda>v. v\<lparr>v_workspace := Some w, v_tile := ft\<rparr>) s
     }
   }"

definition clear_workspace :: "out_ptr \<Rightarrow> nat \<Rightarrow> cg_server \<Rightarrow> cg_server option" where
  "clear_workspace p i s = do {
     out \<leftarrow> s_outs s p;
     w \<leftarrow> ws_at out (int i);
     s \<leftarrow> clear_tiles w s;
     cw \<leftarrow> curr_ws s;
     ws \<leftarrow> s_workspaces s w;
     s \<leftarrow> ofold (evacuate_view cw) (w_views ws) s;
     ws \<leftarrow> s_workspaces s w;
     ofold (evacuate_unmanaged_view cw) (w_unmanaged_views ws) s
   }"

definition output_clear :: "out_ptr \<Rightarrow> cg_server \<Rightarrow> cg_server option" where
  "output_clear p s = do {
     out \<leftarrow> s_outs s p;
     s \<leftarrow> scene_output_destroy (o_scene_output out) s;
     s \<leftarrow> (if s_running s \<and> s_curr_output s = Some p \<and> length (s_outputs s) > 1
           then keybinding_cycle_outputs False True s else Some s);
     let s = emit (Message_clear p) (output_unlink p s);
     if s_running s then ofold (clear_workspace p) [0..<unat (s_nws s)] s else Some s
   }"

text \<open>The branch of \<^verbatim>\<open>output_destroy\<close> for an output that does not stay as a headless one.\<close>

definition output_free :: "out_ptr \<Rightarrow> cg_server \<Rightarrow> cg_server option" where
  "output_free p s = do {
     s \<leftarrow> output_clear p s;
     out \<leftarrow> s_outs s p;
     s \<leftarrow> ofold (\<lambda>i s. do { w \<leftarrow> ws_at out (int i); workspace_free w s }) [0..<unat (s_nws s)] s;
     Some (s\<lparr>s_outs := (s_outs s)(p := None)\<rparr>)
   }"

text \<open>
  The branch for a permanent output: it goes on with a headless output of wlroots, and its workspaces
  stay as they are.
\<close>

definition output_keep :: "wlr_env \<Rightarrow> out_ptr \<Rightarrow> cg_server \<Rightarrow> cg_server option" where
  "output_keep env p s = do {
     let w = we_headless env;
     let (so, s) = scene_output_create w s;
     s \<leftarrow> upd_out p (\<lambda>out. out\<lparr>o_wlr_output := w, o_scene_output := Some so\<rparr>) s;
     out \<leftarrow> s_outs s p;
     let b = o_layout_box out;
     Some (if we_session_active env
           then emit (Output_call (Scene_output_add w)) (emit (Output_call (Layout_add w (box_x b) (box_y b)))
                  (s\<lparr>s_layout := we_add env w (box_x b) (box_y b) (s_layout s)\<rparr>))
           else s)
   }"

definition output_destroy :: "wlr_env \<Rightarrow> out_ptr \<Rightarrow> cg_server \<Rightarrow> cg_server option" where
  "output_destroy env p s = do {
     out \<leftarrow> s_outs s p;
     num \<leftarrow> output_get_num p s;
     s \<leftarrow> (if \<not> o_destroyed out
           then do {
             s \<leftarrow> scene_output_destroy (o_scene_output out) s;
             upd_out p (\<lambda>out. out\<lparr>o_scene_output := None\<rparr>) s
           }
           else Some s);
     s \<leftarrow> upd_out p (\<lambda>out. out\<lparr>o_destroyed := True\<rparr>) s;
     s \<leftarrow> (if o_role out = OUTPUT_ROLE_PERMANENT \<and> s_running s then output_keep env p s
           else output_free p s);
     let s = ipc_send_event ''destroy_output''
       [(''output'', IStr (o_name out)), (''output_id'', IInt num),
        (''permanent'', IInt (of_bool (o_role out = OUTPUT_ROLE_PERMANENT)))] s;
     Some (if s_outputs s = [] \<and> s_running s then emit Display_terminate s else s)
   }"

text \<open>
  \<^verbatim>\<open>handle_output_commit\<close> after a change of mode, scale or transform: the visible views of the
  current workspace take the size of their tiles again.
\<close>

definition handle_output_commit :: "bool \<Rightarrow> bool \<Rightarrow> out_ptr \<Rightarrow> cg_server \<Rightarrow> cg_server option" where
  "handle_output_commit enabled size_changed p s = do {
     out \<leftarrow> s_outs s p;
     if \<not> enabled \<or> o_workspaces out = None \<or> \<not> size_changed then Some s
     else do {
       w \<leftarrow> curr_ws_of p s;
       ws \<leftarrow> s_workspaces s w;
       ofold (\<lambda>v s. do {
         vis \<leftarrow> view_is_visible v s;
         if vis then do {
           view \<leftarrow> s_views s v;
           tp \<leftarrow> v_tile view;
           view_maximize v tp s
         } else Some s
       }) (w_views ws) s
     }
   }"

section \<open>The number of workspaces\<close>

definition renest_view :: "ws_ptr \<Rightarrow> view_ptr \<Rightarrow> cg_server \<Rightarrow> cg_server option" where
  "renest_view w p s = do {
     s \<leftarrow> view_unlink p s;
     s \<leftarrow> view_link w p s;
     upd_view p (\<lambda>v. v\<lparr>v_workspace := Some w\<rparr>) s
   }"

definition renest_unmanaged_view :: "ws_ptr \<Rightarrow> view_ptr \<Rightarrow> cg_server \<Rightarrow> cg_server option" where
  "renest_unmanaged_view w p s = do {
     s \<leftarrow> view_unlink p s;
     s \<leftarrow> view_link_unmanaged w p s;
     upd_view p (\<lambda>v. v\<lparr>v_workspace := Some w\<rparr>) s
   }"

text \<open>A workspace that is dropped gives its views to the last one that stays.\<close>

definition drop_workspace :: "out_ptr \<Rightarrow> int \<Rightarrow> nat \<Rightarrow> cg_server \<Rightarrow> cg_server option" where
  "drop_workspace p nws i s = do {
     out \<leftarrow> s_outs s p;
     w \<leftarrow> ws_at out (int i);
     ws \<leftarrow> s_workspaces s w;
     s \<leftarrow> ofold (\<lambda>v s. do { target \<leftarrow> ws_at out (nws - 1); renest_view target v s }) (w_views ws) s;
     ws \<leftarrow> s_workspaces s w;
     s \<leftarrow> ofold (\<lambda>v s. do { target \<leftarrow> ws_at out (nws - 1); renest_unmanaged_view target v s })
            (w_unmanaged_views ws) s;
     workspace_free w s
   }"

definition add_workspace :: "out_ptr \<Rightarrow> nat \<Rightarrow> cg_server \<Rightarrow> cg_server option" where
  "add_workspace p i s = do {
     (w, s) \<leftarrow> full_screen_workspace p s;
     s \<leftarrow> upd_ws w (\<lambda>ws. ws\<lparr>w_num := of_nat i, w_views := [], w_unmanaged_views := []\<rparr>) s;
     upd_out p (\<lambda>out. out\<lparr>o_workspaces := map_option (\<lambda>wss. wss @ [w]) (o_workspaces out)\<rparr>) s
   }"

definition set_nws_output :: "int \<Rightarrow> nat \<Rightarrow> out_ptr \<Rightarrow> cg_server \<Rightarrow> cg_server option" where
  "set_nws_output nws old_nws p s = do {
     s \<leftarrow> ofold (drop_workspace p nws) [nat nws..<old_nws] s;
     s \<leftarrow> upd_out p (\<lambda>out. out\<lparr>o_workspaces := map_option (take (nat nws)) (o_workspaces out)\<rparr>) s;
     s \<leftarrow> ofold (add_workspace p) [old_nws..<nat nws] s;
     out \<leftarrow> s_outs s p;
     if o_curr_workspace out \<ge> nws
     then do {
       s \<leftarrow> upd_out p (\<lambda>out. out\<lparr>o_curr_workspace := 0\<rparr>) s;
       workspace_focus p (nws - 1) s
     } else Some s
   }"

text \<open>
  The parser only makes this action with \<open>1 \<le> nws\<close>; a negative number, which C would convert to a
  huge unsigned loop bound, is a fault.
\<close>

definition keybinding_set_nws :: "int \<Rightarrow> cg_server \<Rightarrow> cg_server option" where
  "keybinding_set_nws nws s =
     (if nws < 0 then None
      else do {
        let old_nws = s_nws s;
        let s = s\<lparr>s_nws := word_of_int nws\<rparr>;
        s \<leftarrow> ofold (set_nws_output nws (unat old_nws)) (s_outputs s) s;
        tp \<leftarrow> curr_tile s;
        t \<leftarrow> s_tiles s tp;
        s \<leftarrow> seat_set_focus (t_view t) s;
        Some (ipc_send_event ''set_nws''
                [(''old_nws'', IInt (uint old_nws)), (''new_nws'', IInt (uint (s_nws s)))] s)
      })"

end
