(* ===== verification/Server_Inv.thy ===== *)
theory Server_Inv
  imports Tiles
begin

text \<open>
  The invariant of the server's state, and what the basic operations do to it. \<open>server_ok\<close> says
  that the pointers of the outputs, workspaces, tiles and views fit together: each output has its
  workspaces, the tiles of a workspace form a ring that starts at the focused tile, a tile shows a
  view of its own workspace, and no pointer dangles. The lemmas describe each operation by the
  fields it changes.
\<close>

section \<open>The invariant\<close>

definition out_wss :: "(out_ptr \<rightharpoonup> cg_output) \<Rightarrow> out_ptr \<Rightarrow> ws_ptr list option" where
  "out_wss h p = Option.bind (h p) o_workspaces"

definition out_curr :: "(out_ptr \<rightharpoonup> cg_output) \<Rightarrow> out_ptr \<Rightarrow> int option" where
  "out_curr h p = map_option o_curr_workspace (h p)"

definition out_wlr :: "(out_ptr \<rightharpoonup> cg_output) \<Rightarrow> out_ptr \<Rightarrow> nat option" where
  "out_wlr h p = map_option o_wlr_output (h p)"

definition managed_view :: "cg_view \<Rightarrow> bool" where
  "managed_view v \<longleftrightarrow> v_type v \<noteq> CG_XWAYLAND_VIEW \<or> xwayland_view_should_manage v"

text \<open>A tile of the workspace \<open>w\<close>; the view it shows is one of the workspace's views \<open>vs\<close>.\<close>

definition tile_ok :: "ws_ptr \<Rightarrow> view_ptr list \<Rightarrow> cg_tile \<Rightarrow> bool" where
  "tile_ok w vs t \<longleftrightarrow> t_workspace t = Some w \<and> (\<forall>v. t_view t = Some v \<longrightarrow> v \<in> set vs)"

definition view_ok :: "ws_ptr \<Rightarrow> bool \<Rightarrow> cg_view \<Rightarrow> bool" where
  "view_ok w managed v \<longleftrightarrow>
     v_workspace v = Some w \<and> managed_view v = managed \<and> v_surface v \<noteq> None"

definition ws_ok ::
    "(tile_ptr \<rightharpoonup> cg_tile) \<Rightarrow> (view_ptr \<rightharpoonup> cg_view) \<Rightarrow> out_ptr \<Rightarrow> nat \<Rightarrow> ws_ptr \<Rightarrow> cg_workspace \<Rightarrow> bool" where
  "ws_ok T V p j w ws \<longleftrightarrow>
     w_output ws = p \<and> w_num ws = of_nat j \<and>
     (\<exists>ts. w_focused_tile ws = Some (hd ts) \<and> is_ring T ts \<and>
           (\<forall>t \<in> set ts. \<exists>tl. T t = Some tl \<and> tile_ok w (w_views ws) tl)) \<and>
     distinct (w_views ws) \<and>
     (\<forall>v \<in> set (w_views ws). \<exists>vw. V v = Some vw \<and> view_ok w True vw) \<and>
     (\<forall>v \<in> set (w_unmanaged_views ws). \<exists>vw. V v = Some vw \<and> view_ok w False vw)"

definition out_ok :: "cg_server \<Rightarrow> out_ptr \<Rightarrow> bool" where
  "out_ok s p \<longleftrightarrow>
     (\<exists>wss i. out_wss (s_outs s) p = Some wss \<and> out_curr (s_outs s) p = Some i \<and>
        length wss = unat (s_nws s) \<and> distinct wss \<and> 0 \<le> i \<and> i < int (length wss) \<and>
        (\<forall>j < length wss. \<exists>ws. s_workspaces s (wss ! j) = Some ws \<and>
            ws_ok (s_tiles s) (s_views s) p j (wss ! j) ws))"

definition live_ws :: "cg_server \<Rightarrow> ws_ptr set" where
  "live_ws s = {w. \<exists>p \<in> set (s_outputs s). \<exists>wss. out_wss (s_outs s) p = Some wss \<and> w \<in> set wss}"

text \<open>A tile shows a view exactly when the view points back to the tile.\<close>

definition links_ok :: "(tile_ptr \<rightharpoonup> cg_tile) \<Rightarrow> (view_ptr \<rightharpoonup> cg_view) \<Rightarrow> bool" where
  "links_ok T V \<longleftrightarrow>
     (\<forall>t tl v. T t = Some tl \<and> t_view tl = Some v \<longrightarrow> (\<exists>vw. V v = Some vw \<and> v_tile vw = Some t)) \<and>
     (\<forall>v vw t. V v = Some vw \<and> v_tile vw = Some t \<longrightarrow> (\<exists>tl. T t = Some tl \<and> t_view tl = Some v))"

definition seat_ok :: "cg_server \<Rightarrow> bool" where
  "seat_ok s \<longleftrightarrow>
     (\<forall>v. se_focused_view (s_seat s) = Some v \<longrightarrow> s_views s v \<noteq> None) \<and>
     (\<forall>t. se_cursor_tile (s_seat s) = Some t \<longrightarrow>
          (\<exists>tl w. s_tiles s t = Some tl \<and> t_workspace tl = Some w \<and> w \<in> live_ws s))"

text \<open>
  The last clause is about wlroots: the output it finds under the cursor is one of the outputs
  of the server.
\<close>

definition server_ok :: "cg_server \<Rightarrow> bool" where
  "server_ok s \<longleftrightarrow>
     distinct (s_outputs s) \<and> (\<forall>p \<in> set (s_outputs s). out_ok s p) \<and>
     (\<exists>p \<in> set (s_outputs s). s_curr_output s = Some p) \<and>
     links_ok (s_tiles s) (s_views s) \<and> seat_ok s \<and> tiles_below_brk s \<and>
     (\<forall>c x y. s_cursor_at s = Some (c, x, y) \<longrightarrow>
        (\<exists>p \<in> set (s_outputs s). out_wlr (s_outs s) p = Some c))"

lemma emit_fields [simp]:
  "s_tiles (emit c s) = s_tiles s"
  "s_views (emit c s) = s_views s"
  "s_workspaces (emit c s) = s_workspaces s"
  "s_outs (emit c s) = s_outs s"
  "s_tile_brk (emit c s) = s_tile_brk s"
  "s_view_brk (emit c s) = s_view_brk s"
  "s_ws_brk (emit c s) = s_ws_brk s"
  "s_outputs (emit c s) = s_outputs s"
  "s_disabled_outputs (emit c s) = s_disabled_outputs s"
  "s_curr_output (emit c s) = s_curr_output s"
  "s_nws (emit c s) = s_nws s"
  "s_views_curr_id (emit c s) = s_views_curr_id s"
  "s_tiles_curr_id (emit c s) = s_tiles_curr_id s"
  "s_running (emit c s) = s_running s"
  "s_layout (emit c s) = s_layout s"
  "s_scene_outputs (emit c s) = s_scene_outputs s"
  "s_scene_brk (emit c s) = s_scene_brk s"
  "s_cursor_at (emit c s) = s_cursor_at s"
  "s_node_at (emit c s) = s_node_at s"
  "s_seat (emit c s) = s_seat s"
  by (simp_all add: emit_def)

lemma upd_seat_fields [simp]:
  "s_tiles (upd_seat f s) = s_tiles s"
  "s_views (upd_seat f s) = s_views s"
  "s_workspaces (upd_seat f s) = s_workspaces s"
  "s_outs (upd_seat f s) = s_outs s"
  "s_tile_brk (upd_seat f s) = s_tile_brk s"
  "s_view_brk (upd_seat f s) = s_view_brk s"
  "s_ws_brk (upd_seat f s) = s_ws_brk s"
  "s_outputs (upd_seat f s) = s_outputs s"
  "s_disabled_outputs (upd_seat f s) = s_disabled_outputs s"
  "s_curr_output (upd_seat f s) = s_curr_output s"
  "s_nws (upd_seat f s) = s_nws s"
  "s_views_curr_id (upd_seat f s) = s_views_curr_id s"
  "s_tiles_curr_id (upd_seat f s) = s_tiles_curr_id s"
  "s_running (upd_seat f s) = s_running s"
  "s_layout (upd_seat f s) = s_layout s"
  "s_scene_outputs (upd_seat f s) = s_scene_outputs s"
  "s_scene_brk (upd_seat f s) = s_scene_brk s"
  "s_cursor_at (upd_seat f s) = s_cursor_at s"
  "s_node_at (upd_seat f s) = s_node_at s"
  "s_calls (upd_seat f s) = s_calls s"
  "s_seat (upd_seat f s) = f (s_seat s)"
  by (simp_all add: upd_seat_def)

section \<open>States that differ in tiles, views and the seat only\<close>

definition same_rest :: "cg_server \<Rightarrow> cg_server \<Rightarrow> bool" where
  "same_rest s s' \<longleftrightarrow>
     s_workspaces s' = s_workspaces s \<and> outs_sim (s_outs s) (s_outs s') \<and>
     s_tile_brk s' = s_tile_brk s \<and> s_view_brk s' = s_view_brk s \<and> s_ws_brk s' = s_ws_brk s \<and>
     s_outputs s' = s_outputs s \<and> s_disabled_outputs s' = s_disabled_outputs s \<and>
     s_curr_output s' = s_curr_output s \<and> s_nws s' = s_nws s \<and>
     s_views_curr_id s' = s_views_curr_id s \<and> s_tiles_curr_id s' = s_tiles_curr_id s \<and>
     s_running s' = s_running s \<and> s_layout s' = s_layout s \<and> s_cursor_at s' = s_cursor_at s \<and>
     s_node_at s' = s_node_at s"

lemma same_rest_refl [simp]: "same_rest s s"
  by (simp add: same_rest_def)

lemma same_rest_trans: "same_rest s s' \<Longrightarrow> same_rest s' s'' \<Longrightarrow> same_rest s s''"
  by (auto simp: same_rest_def elim: outs_sim_trans)

lemma same_rest_updates [simp]:
  "same_rest s (emit c s') = same_rest s s'"
  "same_rest s (upd_seat f s') = same_rest s s'"
  "same_rest s (s'\<lparr>s_tiles := T\<rparr>) = same_rest s s'"
  "same_rest s (s'\<lparr>s_views := V\<rparr>) = same_rest s s'"
  "same_rest s (s'\<lparr>s_seat := se\<rparr>) = same_rest s s'"
  "same_rest s (s'\<lparr>s_calls := cs\<rparr>) = same_rest s s'"
  by (simp_all add: same_rest_def emit_def upd_seat_def)

lemma outs_sim_parts:
  assumes "outs_sim h h'"
  shows "out_wss h' = out_wss h" and "out_curr h' = out_curr h" and "out_wlr h' = out_wlr h"
proof -
  have "out_wss h' p = out_wss h p \<and> out_curr h' p = out_curr h p \<and> out_wlr h' p = out_wlr h p" for p
  proof (cases "h p")
    case None
    then have "h' p = None" using outs_sim_None [OF assms] by simp
    with None show ?thesis by (simp add: out_wss_def out_curr_def out_wlr_def)
  next
    case (Some out)
    from outs_simD [OF assms Some] show ?thesis
      using Some by (metis bind.bind_lunit option.map(2) out_wss_def out_curr_def out_wlr_def)
  qed
  then show "out_wss h' = out_wss h" and "out_curr h' = out_curr h" and "out_wlr h' = out_wlr h"
    by (simp_all add: fun_eq_iff)
qed

lemma server_ok_same_rest:
  assumes "same_rest s s'"
  shows "server_ok s' = server_ok (s\<lparr>s_tiles := s_tiles s', s_views := s_views s', s_seat := s_seat s'\<rparr>)"
  using assms outs_sim_parts [of "s_outs s" "s_outs s'"]
  by (simp add: same_rest_def server_ok_def out_ok_def live_ws_def seat_ok_def tiles_below_brk_def)

section \<open>Reading the invariant\<close>

lemma layout_box_ok:
  assumes "s_outs s p \<noteq> None"
  obtains b outs where "output_get_layout_box p s = Some (b, s\<lparr>s_outs := outs\<rparr>)" and "outs_sim (s_outs s) outs"
proof -
  obtain b s' where "output_get_layout_box p s = Some (b, s')"
    using output_get_layout_box_total [OF assms] by blast
  with that show thesis by (metis output_get_layout_box_ok)
qed

lemma ws_at_parts: "s_outs s p = Some out \<Longrightarrow> ws_at out i =
     (case out_wss (s_outs s) p of
        None \<Rightarrow> None | Some wss \<Rightarrow> if 0 \<le> i \<and> nat i < length wss then Some (wss ! nat i) else None)"
  by (simp add: ws_at_def out_wss_def)

lemma out_ok_workspace:
  assumes "out_ok s p" and "out_wss (s_outs s) p = Some wss" and "j < length wss"
  obtains ws where "s_workspaces s (wss ! j) = Some ws" and "ws_ok (s_tiles s) (s_views s) p j (wss ! j) ws"
  using assms by (auto simp: out_ok_def)

lemma out_ok_out:
  assumes "out_ok s p"
  obtains out wss where "s_outs s p = Some out" and "o_workspaces out = Some wss"
    and "out_wss (s_outs s) p = Some wss" and "length wss = unat (s_nws s)" and "distinct wss"
    and "0 \<le> o_curr_workspace out" and "o_curr_workspace out < int (length wss)"
  using assms by (auto simp: out_ok_def out_wss_def out_curr_def bind_eq_Some)

lemma out_ok_curr_ws:
  assumes "out_ok s p"
  obtains w ws j wss where "curr_ws_of p s = Some w" and "s_workspaces s w = Some ws"
    and "ws_ok (s_tiles s) (s_views s) p j w ws" and "out_wss (s_outs s) p = Some wss" and "w \<in> set wss"
    and "out_curr (s_outs s) p = Some (int j)" and "j < length wss" and "w = wss ! j"
proof -
  obtain out wss where out: "s_outs s p = Some out" "o_workspaces out = Some wss"
    "out_wss (s_outs s) p = Some wss" and i: "0 \<le> o_curr_workspace out" "o_curr_workspace out < int (length wss)"
    using out_ok_out [OF assms] .
  let ?j = "nat (o_curr_workspace out)"
  have j: "?j < length wss" using i by simp
  obtain ws where ws: "s_workspaces s (wss ! ?j) = Some ws" "ws_ok (s_tiles s) (s_views s) p ?j (wss ! ?j) ws"
    using out_ok_workspace [OF assms out(3) j] .
  show thesis
    by (rule that [of "wss ! ?j" ws ?j wss]) (use out i j ws in \<open>auto simp: curr_ws_of_def ws_at_def out_curr_def\<close>)
qed

lemma ws_okD:
  assumes "ws_ok T V p j w ws"
  obtains ts where "w_output ws = p" and "w_num ws = of_nat j" and "w_focused_tile ws = Some (hd ts)"
    and "is_ring T ts" and "hd ts \<in> set ts" and "\<forall>t \<in> set ts. \<exists>tl. T t = Some tl \<and> tile_ok w (w_views ws) tl"
    and "distinct (w_views ws)"
    and "\<forall>v \<in> set (w_views ws). \<exists>vw. V v = Some vw \<and> view_ok w True vw"
    and "\<forall>v \<in> set (w_unmanaged_views ws). \<exists>vw. V v = Some vw \<and> view_ok w False vw"
  using assms by (auto simp: ws_ok_def is_ring_def)

lemma live_ws_ok:
  assumes "server_ok s" and "w \<in> live_ws s"
  obtains p wss j ws where "p \<in> set (s_outputs s)" and "out_wss (s_outs s) p = Some wss" and "j < length wss"
    and "w = wss ! j" and "s_workspaces s w = Some ws" and "ws_ok (s_tiles s) (s_views s) p j w ws"
    and "w_output ws = p" and "s_outs s p \<noteq> None"
proof -
  obtain p wss where p: "p \<in> set (s_outputs s)" "out_wss (s_outs s) p = Some wss" "w \<in> set wss"
    using assms(2) by (auto simp: live_ws_def)
  then obtain j where j: "j < length wss" "w = wss ! j" by (auto simp: in_set_conv_nth)
  have "out_ok s p" using assms(1) p by (simp add: server_ok_def)
  from out_ok_workspace [OF this p(2) j(1)] obtain ws where
    ws: "s_workspaces s w = Some ws" "ws_ok (s_tiles s) (s_views s) p j w ws" using j by metis
  moreover have "w_output ws = p" using ws by (simp add: ws_ok_def)
  moreover have "s_outs s p \<noteq> None" using p(2) by (auto simp: out_wss_def bind_eq_Some)
  ultimately show thesis using that p j by blast
qed

lemma server_ok_curr:
  assumes "server_ok s"
  obtains p w ws ts j where "s_curr_output s = Some p" and "p \<in> set (s_outputs s)" and "s_outs s p \<noteq> None"
    and "curr_ws_of p s = Some w" and "curr_ws s = Some w" and "s_workspaces s w = Some ws"
    and "ws_ok (s_tiles s) (s_views s) p j w ws" and "w \<in> live_ws s" and "w_output ws = p"
    and "focused_tile_of w s = Some (hd ts)" and "curr_tile s = Some (hd ts)"
    and "is_ring (s_tiles s) ts" and "hd ts \<in> set ts"
    and "\<forall>t \<in> set ts. \<exists>tl. s_tiles s t = Some tl \<and> tile_ok w (w_views ws) tl"
proof -
  obtain p where p: "p \<in> set (s_outputs s)" "s_curr_output s = Some p" "out_ok s p"
    using assms by (auto simp: server_ok_def)
  from out_ok_curr_ws [OF p(3)] obtain w ws j wss where w: "curr_ws_of p s = Some w"
    "s_workspaces s w = Some ws" "ws_ok (s_tiles s) (s_views s) p j w ws"
    "out_wss (s_outs s) p = Some wss" "w \<in> set wss" by metis
  from ws_okD [OF w(3)] obtain ts where ts: "w_output ws = p" "w_focused_tile ws = Some (hd ts)"
    "is_ring (s_tiles s) ts" "hd ts \<in> set ts" "\<forall>t \<in> set ts. \<exists>tl. s_tiles s t = Some tl \<and> tile_ok w (w_views ws) tl"
    by metis
  have o: "s_outs s p \<noteq> None" using w(4) by (auto simp: out_wss_def bind_eq_Some)
  show thesis
    by (rule that [OF p(2,1) o w(1) _ w(2,3)]) (use p w ts in \<open>auto simp: curr_ws_def curr_tile_def focused_tile_of_def live_ws_def\<close>)
qed

section \<open>Maximising and showing a view\<close>

definition maximized :: "tile_ptr \<Rightarrow> cg_tile \<Rightarrow> cg_view \<Rightarrow> cg_view" where
  "maximized tp t v = v\<lparr>v_ox := box_x (t_box t), v_oy := box_y (t_box t), v_tile := Some tp\<rparr>"

lemma maximized_simps [simp]:
  "v_tile (maximized tp t v) = Some tp" "v_workspace (maximized tp t v) = v_workspace v"
  "v_surface (maximized tp t v) = v_surface v" "v_id (maximized tp t v) = v_id v"
  "v_pid (maximized tp t v) = v_pid v" "v_type (maximized tp t v) = v_type v"
  "managed_view (maximized tp t v) = managed_view v" "view_ok w m (maximized tp t v) = view_ok w m v"
  "v_wants_focus (maximized tp t v) = v_wants_focus v"
  "xwayland_view_should_manage (maximized tp t v) = xwayland_view_should_manage v"
  by (simp_all add: maximized_def managed_view_def xwayland_view_should_manage_def view_ok_def)

lemma view_impl_maximize_ok:
  assumes "s_views s p \<noteq> None" and "s_curr_output s = Some c" and "s_outs s c \<noteq> None"
  obtains s' where "view_impl_maximize p w h s = Some s'" and "same_rest s s'"
    and "s_tiles s' = s_tiles s" and "s_views s' = s_views s" and "s_seat s' = s_seat s"
proof -
  obtain v where v: "s_views s p = Some v" using assms(1) by auto
  obtain b outs where g: "output_get_layout_box c s = Some (b, s\<lparr>s_outs := outs\<rparr>)" and sim: "outs_sim (s_outs s) outs"
    using layout_box_ok [OF assms(3)] .
  show thesis
  proof (cases "v_type v")
    case CG_XDG_SHELL_VIEW
    then show thesis
      by (intro that [of "xdg_maximize p w h s"]) (simp_all add: view_impl_maximize_def v xdg_maximize_def)
  next
    case CG_XWAYLAND_VIEW
    define wh where "wh = (case v_max_size v of None \<Rightarrow> (w, h)
      | Some (mw, mh) \<Rightarrow> (if w > mw then mw else w, if h > mh then mh else h))"
    let ?s' = "emit (Xwayland_set_maximized p)
      (emit (Xwayland_configure p (v_ox v + box_x b) (v_oy v + box_y b) (fst wh) (snd wh)) (s\<lparr>s_outs := outs\<rparr>))"
    have e: "view_impl_maximize p w h s = Some ?s'"
      using v g assms(2) CG_XWAYLAND_VIEW
      by (simp add: view_impl_maximize_def xwayland_maximize_def wh_def [symmetric] case_prod_beta)
    from sim show thesis by (intro that [OF e]) (simp_all add: same_rest_def)
  qed
qed

lemma view_maximize_ok:
  assumes t: "s_tiles s tp = Some t" and v: "s_views s p = Some v" and w: "v_workspace v = Some w"
    and ws: "s_workspaces s w = Some ws" and o: "s_outs s (w_output ws) \<noteq> None"
    and c: "s_curr_output s = Some c" "s_outs s c \<noteq> None"
  obtains s' where "view_maximize p tp s = Some s'" and "same_rest s s'" and "s_tiles s' = s_tiles s"
    and "s_views s' = (s_views s)(p \<mapsto> maximized tp t v)" and "s_seat s' = s_seat s"
proof -
  let ?v = "v\<lparr>v_ox := box_x (t_box t), v_oy := box_y (t_box t)\<rparr>"
  let ?s = "s\<lparr>s_views := (s_views s)(p \<mapsto> ?v)\<rparr>"
  obtain b outs where g: "output_get_layout_box (w_output ws) ?s = Some (b, ?s\<lparr>s_outs := outs\<rparr>)"
    and sim: "outs_sim (s_outs s) outs"
    using layout_box_ok [of ?s "w_output ws"] o by auto
  let ?e = "emit (Scene_set_position p (v_ox ?v + box_x b) (v_oy ?v + box_y b)) (?s\<lparr>s_outs := outs\<rparr>)"
  have "s_views ?e p \<noteq> None" "s_curr_output ?e = Some c" "s_outs ?e c \<noteq> None"
    using c outs_sim_None [OF sim, of c] by simp_all
  then obtain s' where m: "view_impl_maximize p (box_width (t_box t)) (box_height (t_box t)) ?e = Some s'"
    and r: "same_rest ?e s'" "s_tiles s' = s_tiles ?e" "s_views s' = s_views ?e" "s_seat s' = s_seat ?e"
    by (rule view_impl_maximize_ok)
  have vv: "s_views s' p = Some ?v" using r(3) by (simp add: emit_def)
  let ?r = "emit (Scene_raise p) (s'\<lparr>s_views := (s_views s')(p \<mapsto> ?v\<lparr>v_tile := Some tp\<rparr>)\<rparr>)"
  have step: "view_maximize p tp s = Some ?r"
    using t v w ws g m vv by (simp add: view_maximize_def upd_view_def Let_def)
  have "same_rest s ?e" using sim by (simp add: same_rest_def emit_def)
  then have "same_rest s s'" using r(1) by (rule same_rest_trans)
  then show thesis
    using r by (intro that [OF step]) (simp_all add: emit_def maximized_def same_rest_def)
qed

lemma tile_update_none_ok:
  assumes t: "s_tiles s tp = Some t" and l: "\<And>v. t_view t = Some v \<Longrightarrow> s_views s v \<noteq> None"
  obtains s' where "workspace_tile_update_view tp None s = Some s'" and "same_rest s s'"
    and "s_tiles s' = (s_tiles s)(tp \<mapsto> t\<lparr>t_view := None\<rparr>)"
    and "s_views s' = (case t_view t of None \<Rightarrow> s_views s
           | Some v \<Rightarrow> (s_views s)(v \<mapsto> (the (s_views s v))\<lparr>v_tile := None\<rparr>))"
    and "s_seat s' = s_seat s"
proof (cases "t_view t")
  case None
  then show thesis
    using t by (intro that [of "s\<lparr>s_tiles := (s_tiles s)(tp \<mapsto> t\<lparr>t_view := None\<rparr>)\<rparr>"])
      (simp_all add: workspace_tile_update_view_def upd_tile_def same_rest_def)
next
  case (Some v)
  with l obtain vw where "s_views s v = Some vw" by auto
  with Some t show thesis
    by (intro that [of "(emit (Scene_set_enabled v False) s)\<lparr>s_views := (s_views s)(v \<mapsto> vw\<lparr>v_tile := None\<rparr>),
          s_tiles := (s_tiles s)(tp \<mapsto> t\<lparr>t_view := None\<rparr>)\<rparr>"])
      (simp_all add: workspace_tile_update_view_def upd_tile_def upd_view_def emit_def same_rest_def)
qed

text \<open>The views after the tile's old view was hidden.\<close>

definition hide_view :: "view_ptr option \<Rightarrow> (view_ptr \<rightharpoonup> cg_view) \<Rightarrow> (view_ptr \<rightharpoonup> cg_view)" where
  "hide_view vo V = (case vo of None \<Rightarrow> V | Some v \<Rightarrow> V(v := map_option (\<lambda>vw. vw\<lparr>v_tile := None\<rparr>) (V v)))"

lemma hide_view_apply:
  "hide_view vo V x = map_option (\<lambda>vw. if vo = Some x then vw\<lparr>v_tile := None\<rparr> else vw) (V x)"
  by (cases "V x") (auto simp: hide_view_def split: option.splits)

lemma hide_view_tile:
  assumes "hide_view vo V v = Some vw" and "v_tile vw = Some t"
  shows "V v = Some vw" and "vo \<noteq> Some v"
proof -
  obtain z where z: "V v = Some z" "vw = (if vo = Some v then z\<lparr>v_tile := None\<rparr> else z)"
    using assms(1) by (auto simp: hide_view_apply)
  show "vo \<noteq> Some v" using z(2) assms(2) by auto
  with z show "V v = Some vw" by simp
qed

lemma tile_update_some_ok:
  assumes t: "s_tiles s tp = Some t" and l: "\<And>q. t_view t = Some q \<Longrightarrow> s_views s q \<noteq> None"
    and v: "s_views s p = Some v" and w: "v_workspace v = Some w"
    and ws: "s_workspaces s w = Some ws" and o: "s_outs s (w_output ws) \<noteq> None"
    and c: "s_curr_output s = Some c" "s_outs s c \<noteq> None"
  obtains s' where "workspace_tile_update_view tp (Some p) s = Some s'" and "same_rest s s'"
    and "s_tiles s' = (s_tiles s)(tp \<mapsto> t\<lparr>t_view := Some p\<rparr>)"
    and "s_views s' = (hide_view (t_view t) (s_views s))(p \<mapsto> maximized tp t v)"
    and "s_seat s' = s_seat s"
proof -
  let ?s1 = "case t_view t of None \<Rightarrow> s | Some old \<Rightarrow>
     (emit (Scene_set_enabled old False) s)\<lparr>s_views := hide_view (t_view t) (s_views s)\<rparr>"
  have V1: "s_views ?s1 = hide_view (t_view t) (s_views s)"
    by (simp add: hide_view_def split: option.split)
  have r1: "same_rest s ?s1" "s_tiles ?s1 = s_tiles s" "s_seat ?s1 = s_seat s"
    by (simp_all split: option.split)
  let ?s2 = "?s1\<lparr>s_tiles := (s_tiles s)(tp \<mapsto> t\<lparr>t_view := Some p\<rparr>)\<rparr>"
  have r2: "same_rest s ?s2" using r1(1) by simp
  let ?t = "t\<lparr>t_view := Some p\<rparr>"
  obtain vw where vw: "s_views ?s2 p = Some vw" and mx: "maximized tp ?t vw = maximized tp t v"
    and wv: "v_workspace vw = Some w"
    using v w by (simp add: V1 hide_view_apply) (simp add: maximized_def)
  have e: "s_tiles ?s2 tp = Some ?t" "s_workspaces ?s2 w = Some ws" "s_outs ?s2 (w_output ws) \<noteq> None"
    "s_curr_output ?s2 = Some c" "s_outs ?s2 c \<noteq> None"
    using ws o c by (simp_all split: option.split)
  obtain s3 where m: "view_maximize p tp ?s2 = Some s3" and r3: "same_rest ?s2 s3" "s_tiles s3 = s_tiles ?s2"
    "s_views s3 = (s_views ?s2)(p \<mapsto> maximized tp ?t vw)" "s_seat s3 = s_seat ?s2"
    using view_maximize_ok [OF e(1) vw wv e(2-5)] .
  have "workspace_tile_update_view tp (Some p) s = Some (emit (Scene_set_enabled p True) s3)"
    using t l m by (cases "t_view t")
      (auto simp: workspace_tile_update_view_def upd_tile_def upd_view_def hide_view_def)
  moreover have "same_rest s s3" using r2 r3(1) by (rule same_rest_trans)
  ultimately show thesis
    using r1 r3 mx V1 by (intro that [of "emit (Scene_set_enabled p True) s3"]) simp_all
qed

section \<open>Keeping the invariant\<close>

definition same_shape :: "cg_tile \<Rightarrow> cg_tile \<Rightarrow> bool" where
  "same_shape t t' \<longleftrightarrow> t_next t' = t_next t \<and> t_prev t' = t_prev t \<and> t_workspace t' = t_workspace t"

text \<open>
  A change of tiles and views that leaves the rings and the workspaces of tiles and views alone
  keeps the invariant when the links stay consistent and every tile shows a view of its workspace.
\<close>

lemma server_ok_update:
  assumes ok: "server_ok s"
    and T: "\<And>t. rel_option same_shape (s_tiles s t) (T t)"
    and TV: "\<And>t tl tl' v w ws. s_tiles s t = Some tl \<Longrightarrow> T t = Some tl' \<Longrightarrow> t_view tl' = Some v \<Longrightarrow>
        t_view tl \<noteq> Some v \<Longrightarrow> t_workspace tl = Some w \<Longrightarrow> w \<in> live_ws s \<Longrightarrow> s_workspaces s w = Some ws \<Longrightarrow>
        v \<in> set (w_views ws)"
    and V: "\<And>v. rel_option (\<lambda>x x'. \<forall>w m. view_ok w m x' = view_ok w m x) (s_views s v) (V v)"
    and L: "links_ok T V"
    and F: "\<And>v. se_focused_view se = Some v \<Longrightarrow> s_views s v \<noteq> None"
    and C: "\<And>t. se_cursor_tile se = Some t \<Longrightarrow>
        (\<exists>tl w. s_tiles s t = Some tl \<and> t_workspace tl = Some w \<and> w \<in> live_ws s)"
  shows "server_ok (s\<lparr>s_tiles := T, s_views := V, s_seat := se\<rparr>)" (is "server_ok ?s")
proof -
  have Vv: "\<exists>x'. V v = Some x' \<and> view_ok w m x'" if "s_views s v = Some x" "view_ok w m x" for v x w m
    using V [of v] that by (cases "V v") auto
  have TN: "T t = None \<longleftrightarrow> s_tiles s t = None" for t
    using T [of t] by (cases "T t"; cases "s_tiles s t") auto
  have np: "nxt T t = nxt (s_tiles s) t \<and> prv T t = prv (s_tiles s) t" for t
    using T [of t] by (cases "T t"; cases "s_tiles s t") (auto simp: nxt_def prv_def same_shape_def)
  have ring: "is_ring T ts = is_ring (s_tiles s) ts" for ts
    by (rule is_ring_cong) (simp add: np)
  have live: "live_ws ?s = live_ws s" by (simp add: live_ws_def)
  have ws: "ws_ok T V p j w ws" if w: "ws_ok (s_tiles s) (s_views s) p j w ws" "w \<in> live_ws s"
    "s_workspaces s w = Some ws" for p j w ws
  proof -
    from ws_okD [OF w(1)] obtain ts where ts: "w_focused_tile ws = Some (hd ts)" "is_ring (s_tiles s) ts"
      and tok: "\<forall>t \<in> set ts. \<exists>tl. s_tiles s t = Some tl \<and> tile_ok w (w_views ws) tl" by metis
    have "\<exists>tl. T t = Some tl \<and> tile_ok w (w_views ws) tl" if "t \<in> set ts" for t
    proof -
      from tok that obtain tl where tl: "s_tiles s t = Some tl" "tile_ok w (w_views ws) tl" by auto
      with T [of t] obtain tl' where tl': "T t = Some tl'" "same_shape tl tl'" by (cases "T t") auto
      have "t_workspace tl = Some w" using tl(2) by (simp add: tile_ok_def)
      with TV [OF tl(1) tl'(1) _ _ this w(2,3)] tl tl' show ?thesis
        by (auto simp: tile_ok_def same_shape_def)
    qed
    with w(1) ts ring Vv show ?thesis by (auto simp: ws_ok_def)
  qed
  have "out_ok ?s p" if p: "p \<in> set (s_outputs s)" for p
  proof -
    have "out_ok s p" using ok p by (simp add: server_ok_def)
    then obtain wss i where o: "out_wss (s_outs s) p = Some wss" "out_curr (s_outs s) p = Some i"
      "length wss = unat (s_nws s)" "distinct wss" "0 \<le> i" "i < int (length wss)"
      and all: "\<And>j. j < length wss \<Longrightarrow> \<exists>ws. s_workspaces s (wss ! j) = Some ws \<and>
        ws_ok (s_tiles s) (s_views s) p j (wss ! j) ws"
      unfolding out_ok_def by blast
    have "\<exists>ws. s_workspaces s (wss ! j) = Some ws \<and> ws_ok T V p j (wss ! j) ws" if "j < length wss" for j
    proof -
      have "wss ! j \<in> live_ws s" using p o(1) nth_mem [OF that] by (auto simp: live_ws_def)
      with all [OF that] ws show ?thesis by blast
    qed
    with o show ?thesis by (auto simp: out_ok_def)
  qed
  moreover have "seat_ok ?s"
  proof -
    have "V v \<noteq> None" if "s_views s v \<noteq> None" for v using V [of v] that by (cases "V v") auto
    moreover have "\<exists>tl'. T t = Some tl' \<and> t_workspace tl' = t_workspace tl" if "s_tiles s t = Some tl" for t tl
      using T [of t] that by (cases "T t") (auto simp: same_shape_def)
    ultimately show ?thesis using F C unfolding seat_ok_def live by simp metis
  qed
  moreover have "tiles_below_brk ?s" using ok TN by (auto simp: server_ok_def tiles_below_brk_def dom_def)
  ultimately show ?thesis using ok L by (simp add: server_ok_def)
qed

lemma links_hide:
  assumes "links_ok T V" and "T tp = Some t"
  shows "links_ok (T(tp \<mapsto> t\<lparr>t_view := None\<rparr>)) (hide_view (t_view t) V)"
proof -
  from assms have a: "\<And>t tl v. T t = Some tl \<Longrightarrow> t_view tl = Some v \<Longrightarrow> \<exists>vw. V v = Some vw \<and> v_tile vw = Some t"
    and b: "\<And>v vw t. V v = Some vw \<Longrightarrow> v_tile vw = Some t \<Longrightarrow> \<exists>tl. T t = Some tl \<and> t_view tl = Some v"
    by (auto simp: links_ok_def)
  show ?thesis
    unfolding links_ok_def
  proof (intro conjI allI impI, goal_cases)
    case (1 t' tl v)
    then have "t' \<noteq> tp" and t': "T t' = Some tl" "t_view tl = Some v" by (auto split: if_splits)
    then obtain vw where "V v = Some vw" "v_tile vw = Some t'" using a by blast
    moreover have "t_view t \<noteq> Some v"
      using a [OF assms(2)] calculation \<open>t' \<noteq> tp\<close> by (metis option.sel)
    ultimately show ?case by (auto simp: hide_view_apply)
  next
    case (2 v vw t')
    then have v: "V v = Some vw" "t_view t \<noteq> Some v" using hide_view_tile [of "t_view t" V v vw t'] by auto
    with b [of v vw t'] 2 assms(2) show ?case by auto
  qed
qed

lemma links_show:
  assumes "links_ok T V" and "T tp = Some t" and "V p = Some v"
    and "\<And>t' tl. T t' = Some tl \<Longrightarrow> t_view tl = Some p \<Longrightarrow> t' = tp"
  shows "links_ok (T(tp \<mapsto> t\<lparr>t_view := Some p\<rparr>)) ((hide_view (t_view t) V)(p \<mapsto> maximized tp t v))"
proof -
  have h: "links_ok (T(tp \<mapsto> t\<lparr>t_view := None\<rparr>)) (hide_view (t_view t) V)"
    using links_hide [OF assms(1,2)] .
  then have a: "\<And>t' tl v. (T(tp \<mapsto> t\<lparr>t_view := None\<rparr>)) t' = Some tl \<Longrightarrow> t_view tl = Some v \<Longrightarrow>
      \<exists>vw. hide_view (t_view t) V v = Some vw \<and> v_tile vw = Some t'"
    and b: "\<And>v vw t'. hide_view (t_view t) V v = Some vw \<Longrightarrow> v_tile vw = Some t' \<Longrightarrow>
      \<exists>tl. (T(tp \<mapsto> t\<lparr>t_view := None\<rparr>)) t' = Some tl \<and> t_view tl = Some v"
    by (auto simp: links_ok_def)
  show ?thesis
    unfolding links_ok_def
  proof (intro conjI allI impI, goal_cases)
    case (1 t' tl v')
    show ?case
    proof (cases "t' = tp")
      case True
      with 1 show ?thesis by auto
    next
      case False
      with 1 have "v' \<noteq> p" and "T t' = Some tl" using assms(4) [of t' tl] by auto
      with a [of t' tl v'] 1 False show ?thesis by simp
    qed
  next
    case (2 v' vw t')
    then show ?case using b [of v' vw t'] by (cases "v' = p"; cases "t' = tp") auto
  qed
qed

lemma shape_upd:
  assumes "T tp = Some t" and "same_shape t t'"
  shows "rel_option same_shape (T x) ((T(tp \<mapsto> t')) x)"
  using assms by (cases "T x") (auto simp: same_shape_def)

lemma view_ok_hide:
  "rel_option (\<lambda>x x'. \<forall>w m. view_ok w m x' = view_ok w m x) (V x) (hide_view vo V x)"
  by (cases "V x") (auto simp: hide_view_apply view_ok_def managed_view_def xwayland_view_should_manage_def)

lemma server_ok_links:
  assumes "server_ok s"
  shows "links_ok (s_tiles s) (s_views s)" and "seat_ok s"
  using assms by (simp_all add: server_ok_def)

lemma links_ok_view: "links_ok T V \<Longrightarrow> T tp = Some t \<Longrightarrow> t_view t = Some v \<Longrightarrow> \<exists>vw. V v = Some vw \<and> v_tile vw = Some tp"
  by (auto simp: links_ok_def)

lemma links_ok_tile: "links_ok T V \<Longrightarrow> V v = Some vw \<Longrightarrow> v_tile vw = Some t \<Longrightarrow> \<exists>tl. T t = Some tl \<and> t_view tl = Some v"
  by (simp add: links_ok_def)

lemma hide_ok:
  assumes ok: "server_ok s" and t: "s_tiles s tp = Some t"
  obtains s' where "workspace_tile_update_view tp None s = Some s'" and "server_ok s'" and "same_rest s s'"
    and "s_tiles s' = (s_tiles s)(tp \<mapsto> t\<lparr>t_view := None\<rparr>)"
    and "s_views s' = hide_view (t_view t) (s_views s)" and "s_seat s' = s_seat s"
proof -
  note l = server_ok_links [OF ok]
  have ex: "t_view t = Some v \<Longrightarrow> s_views s v \<noteq> None" for v using links_ok_view [OF l(1) t] by auto
  obtain s' where s': "workspace_tile_update_view tp None s = Some s'" "same_rest s s'"
    "s_tiles s' = (s_tiles s)(tp \<mapsto> t\<lparr>t_view := None\<rparr>)"
    "s_views s' = (case t_view t of None \<Rightarrow> s_views s
           | Some v \<Rightarrow> (s_views s)(v \<mapsto> (the (s_views s v))\<lparr>v_tile := None\<rparr>))" "s_seat s' = s_seat s"
    using tile_update_none_ok [OF t ex] .
  have V: "s_views s' = hide_view (t_view t) (s_views s)"
    using s'(4) ex by (auto simp: hide_view_def split: option.splits)
  have "server_ok s'"
    unfolding server_ok_same_rest [OF s'(2)] s'(3) V s'(5)
  proof (rule server_ok_update [OF ok])
    show "rel_option same_shape (s_tiles s x) (((s_tiles s)(tp \<mapsto> t\<lparr>t_view := None\<rparr>)) x)" for x
      by (rule shape_upd [where T = "s_tiles s", OF t]) (simp add: same_shape_def)
    show "links_ok ((s_tiles s)(tp \<mapsto> t\<lparr>t_view := None\<rparr>)) (hide_view (t_view t) (s_views s))"
      using links_hide [OF l(1) t] .
  qed (use l(2) view_ok_hide in \<open>auto simp: seat_ok_def split: if_splits\<close>)
  with s' V show thesis by (intro that [of s']) auto
qed

lemma server_ok_seat:
  assumes ok: "server_ok s" and "s_tiles s' = s_tiles s" and "s_views s' = s_views s"
    and "\<And>v. se_focused_view (s_seat s') = Some v \<Longrightarrow> s_views s v \<noteq> None"
    and "\<And>t. se_cursor_tile (s_seat s') = Some t \<Longrightarrow>
        (\<exists>tl w. s_tiles s t = Some tl \<and> t_workspace tl = Some w \<and> w \<in> live_ws s)"
  shows "server_ok (s\<lparr>s_tiles := s_tiles s', s_views := s_views s', s_seat := s_seat s'\<rparr>)"
  unfolding assms(2,3) using assms(4,5) server_ok_links [OF ok]
  by (intro server_ok_update [OF ok]) (auto intro!: option.rel_refl simp: same_shape_def)

text \<open>A view \<open>p\<close> is shown at most on the tile \<open>tp\<close>.\<close>

definition only_on :: "tile_ptr \<Rightarrow> view_ptr \<Rightarrow> cg_server \<Rightarrow> bool" where
  "only_on tp p s \<longleftrightarrow> (\<forall>t tl. s_tiles s t = Some tl \<and> t_view tl = Some p \<longrightarrow> t = tp)"

lemma only_on_links:
  assumes "links_ok (s_tiles s) (s_views s)" and "s_views s p = Some v"
  shows "only_on tp p s \<longleftrightarrow> (\<forall>t tl. v_tile v = Some t \<and> s_tiles s t = Some tl \<and> t_view tl = Some p \<longrightarrow> t = tp)"
  using assms unfolding only_on_def links_ok_def by (metis option.sel)

lemma show_ok:
  assumes ok: "server_ok s" and t: "s_tiles s tp = Some t" and w: "t_workspace t = Some w" "w \<in> live_ws s"
    and ws: "s_workspaces s w = Some ws" and p: "p \<in> set (w_views ws)" and only: "only_on tp p s"
  obtains s' v where "workspace_tile_update_view tp (Some p) s = Some s'" and "server_ok s'" and "same_rest s s'"
    and "s_views s p = Some v"
    and "s_tiles s' = (s_tiles s)(tp \<mapsto> t\<lparr>t_view := Some p\<rparr>)"
    and "s_views s' = (hide_view (t_view t) (s_views s))(p \<mapsto> maximized tp t v)" and "s_seat s' = s_seat s"
proof -
  note l = server_ok_links [OF ok]
  have ex: "t_view t = Some v \<Longrightarrow> s_views s v \<noteq> None" for v using links_ok_view [OF l(1) t] by auto
  obtain q j where wok: "ws_ok (s_tiles s) (s_views s) q j w ws" and o: "s_outs s (w_output ws) \<noteq> None"
    using live_ws_ok [OF ok w(2)] ws by (metis option.sel)
  from wok p obtain v where v: "s_views s p = Some v" "view_ok w True v" by (auto simp: ws_ok_def)
  then have vw: "v_workspace v = Some w" by (simp add: view_ok_def)
  obtain c where c: "s_curr_output s = Some c" "s_outs s c \<noteq> None" using server_ok_curr [OF ok] by metis
  obtain s' where s': "workspace_tile_update_view tp (Some p) s = Some s'" "same_rest s s'"
    "s_tiles s' = (s_tiles s)(tp \<mapsto> t\<lparr>t_view := Some p\<rparr>)"
    "s_views s' = (hide_view (t_view t) (s_views s))(p \<mapsto> maximized tp t v)" "s_seat s' = s_seat s"
    using tile_update_some_ok [OF t ex v(1) vw ws o c] .
  have "server_ok s'"
    unfolding server_ok_same_rest [OF s'(2)] s'(3-5)
  proof (rule server_ok_update [OF ok])
    show "rel_option same_shape (s_tiles s x) (((s_tiles s)(tp \<mapsto> t\<lparr>t_view := Some p\<rparr>)) x)" for x
      by (rule shape_upd [where T = "s_tiles s", OF t]) (simp add: same_shape_def)
    show "links_ok ((s_tiles s)(tp \<mapsto> t\<lparr>t_view := Some p\<rparr>)) ((hide_view (t_view t) (s_views s))(p \<mapsto> maximized tp t v))"
      using only by (intro links_show [OF l(1) t v(1)]) (auto simp: only_on_def)
    show "rel_option (\<lambda>x x'. \<forall>w m. view_ok w m x' = view_ok w m x) (s_views s x)
        (((hide_view (t_view t) (s_views s))(p \<mapsto> maximized tp t v)) x)" for x
      using view_ok_hide [of "s_views s" x "t_view t"] v(1) by auto
  qed (use l(2) t w ws p in \<open>auto simp: seat_ok_def split: if_splits\<close>)
  with s' v show thesis by (intro that [of s' v]) auto
qed

end
