(* ===== verification/Focus_Inv.thy ===== *)
theory Focus_Inv
  imports Server_Inv
begin

text \<open>
  The focus operations of the seat keep the invariant and never fault: following the cursor,
  activating a view, and \<^verbatim>\<open>seat_set_focus\<close> with a view of the current workspace or with NULL.
\<close>

section \<open>Loops over outputs and tiles\<close>

lemma find_num_total:
  assumes "\<forall>q \<in> set ps. s_outs s q \<noteq> None"
  shows "\<exists>n. find_num P ps i s = Some n"
  using assms by (induction ps arbitrary: i) auto

lemma outputs_alive: "server_ok s \<Longrightarrow> q \<in> set (s_outputs s) \<Longrightarrow> s_outs s q \<noteq> None"
  by (auto simp: server_ok_def out_ok_def out_wss_def bind_eq_Some)

lemma output_get_num_total:
  assumes "server_ok s" and "s_outs s p \<noteq> None"
  shows "\<exists>n. output_get_num p s = Some n"
  using assms find_num_total [of "s_outputs s" s _ 1] outputs_alive [OF assms(1)]
  by (auto simp: output_get_num_def)

lemma output_of_wlr_total:
  assumes "\<forall>q \<in> set ps. s_outs s q \<noteq> None" and "\<exists>p \<in> set ps. out_wlr (s_outs s) p = Some c"
  shows "\<exists>p \<in> set ps. output_of_wlr c ps s = Some p \<and> out_wlr (s_outs s) p = Some c"
  using assms
proof (induction ps)
  case (Cons q qs)
  then obtain out where out: "s_outs s q = Some out" by auto
  show ?case
  proof (cases "o_wlr_output out = c")
    case True
    with out show ?thesis by (simp add: out_wlr_def)
  next
    case False
    with Cons.prems(2) out have "\<exists>p \<in> set qs. out_wlr (s_outs s) p = Some c" by (auto simp: out_wlr_def)
    with Cons.IH Cons.prems(1) False out show ?thesis by simp
  qed
qed simp

lemma ring_find_seg:
  assumes "seg (s_tiles s) (y # ys @ [x])" and "x \<notin> set ys" and "length ys < fuel"
    and "s_tiles s (last (y # ys)) \<noteq> None"
  shows "ring_find P fuel x y s = Some (List.find (\<lambda>t. P t (the (s_tiles s t))) (y # ys))"
  using assms
proof (induction ys arbitrary: y fuel)
  case Nil
  then obtain n where "fuel = Suc n" by (cases fuel) auto
  with Nil show ?case by (auto simp: link_def nxt_def bind_eq_Some)
next
  case (Cons z ys)
  then obtain n where n: "fuel = Suc n" by (cases fuel) auto
  from Cons.prems(1) have "nxt (s_tiles s) y = Some z" by (simp add: link_def)
  then obtain t where t: "s_tiles s y = Some t" "t_next t = Some z"
    by (auto simp: nxt_def bind_eq_Some)
  moreover have "ring_find P n x z s = Some (List.find (\<lambda>t. P t (the (s_tiles s t))) (z # ys))"
    using Cons.prems n by (intro Cons.IH) auto
  ultimately show ?case using n Cons.prems(2) by auto
qed

lemma ring_find_ring:
  assumes r: "is_ring (s_tiles s) ts" and b: "tiles_below_brk s"
  shows "ring_find P (s_tile_brk s) (hd ts) (hd ts) s = Some (List.find (\<lambda>t. P t (the (s_tiles s t))) ts)"
proof -
  obtain x xs where ts: "ts = x # xs" using r by (cases ts) (auto simp: is_ring_def)
  have "length xs < s_tile_brk s" using ring_length_le_brk [OF r b] ts by simp
  moreover have "s_tiles s (last ts) \<noteq> None"
    using is_ring_in_dom [OF r, of "last ts"] ts by auto
  ultimately show ?thesis
    using ring_find_seg [of s x xs x "s_tile_brk s" P] r by (simp add: ts is_ring_def)
qed

lemma find_in: "List.find P xs = Some x \<Longrightarrow> x \<in> set xs \<and> P x"
  by (metis find_Some_iff nth_mem)

section \<open>The cursor\<close>

lemma cursor_switch_event_ok:
  assumes ok: "server_ok s" and old: "s_tiles s old = Some ot" "t_workspace ot = Some w" "w \<in> live_ws s"
    and p: "s_outs s p \<noteq> None" and new: "s_tiles s new \<noteq> None"
  obtains args where "cursor_switch_event old p new s = Some (ipc_send_event ''cursor_switch_tile'' args s)"
proof -
  obtain q ows where q: "s_workspaces s w = Some ows" "w_output ows = q" "s_outs s q \<noteq> None"
    using live_ws_ok [OF ok old(3)] by metis
  from output_get_num_total [OF ok q(3)] output_get_num_total [OF ok p]
  obtain n m where "output_get_num q s = Some n" "output_get_num p s = Some m" by blast
  with q old p new that show thesis by (auto simp: cursor_switch_event_def)
qed

lemma cursor_switch_tile_ok:
  assumes ok: "server_ok s" and c: "s_cursor_at s = Some (c, ox, oy)"
  obtains s' where "cursor_switch_tile c ox oy s = Some s'" and "server_ok s'" and "same_rest s s'"
    and "s_tiles s' = s_tiles s" and "s_views s' = s_views s"
    and "\<exists>t. s_seat s' = (s_seat s)\<lparr>se_cursor_tile := Some t\<rparr>"
proof -
  have "\<exists>p \<in> set (s_outputs s). out_wlr (s_outs s) p = Some c" using ok c by (auto simp: server_ok_def)
  then obtain p where p: "p \<in> set (s_outputs s)" "output_of_wlr c (s_outputs s) s = Some p"
    using output_of_wlr_total [of "s_outputs s" s c] outputs_alive [OF ok] by blast
  have pok: "out_ok s p" using ok p(1) by (simp add: server_ok_def)
  obtain w ws j wss where w: "curr_ws_of p s = Some w" "s_workspaces s w = Some ws"
    "ws_ok (s_tiles s) (s_views s) p j w ws" "out_wss (s_outs s) p = Some wss" "w \<in> set wss"
    using out_ok_curr_ws [OF pok] by metis
  have live: "w \<in> live_ws s" using p(1) w(4,5) by (auto simp: live_ws_def)
  obtain ts where ts: "w_focused_tile ws = Some (hd ts)" "is_ring (s_tiles s) ts" "hd ts \<in> set ts"
    "\<forall>t \<in> set ts. \<exists>tl. s_tiles s t = Some tl \<and> tile_ok w (w_views ws) tl" using ws_okD [OF w(3)] by metis
  have brk: "tiles_below_brk s" using ok by (simp add: server_ok_def)
  let ?r = "List.find (\<lambda>t. tile_contains ox oy (the (s_tiles s t))) ts"
  let ?ct = "case ?r of Some tp \<Rightarrow> tp | None \<Rightarrow> hd ts"
  have ct: "?ct \<in> set ts" using ts(3) find_in [of _ ts] by (auto split: option.split)
  then obtain tl where tl: "s_tiles s ?ct = Some tl" "t_workspace tl = Some w"
    using ts(4) by (auto simp: tile_ok_def)
  have "\<exists>cs. (case se_cursor_tile (s_seat s) of None \<Rightarrow> Some s
           | Some old \<Rightarrow> if old \<noteq> ?ct \<and> s_running s then cursor_switch_event old p ?ct s else Some s)
        = Some (s\<lparr>s_calls := cs\<rparr>)"
  proof (cases "se_cursor_tile (s_seat s)")
    case None
    then show ?thesis by (intro exI [of _ "s_calls s"]) simp
  next
    case (Some old)
    then obtain ot ow where "s_tiles s old = Some ot" "t_workspace ot = Some ow" "ow \<in> live_ws s"
      using server_ok_links(2) [OF ok] by (auto simp: seat_ok_def)
    from cursor_switch_event_ok [OF ok this outputs_alive [OF ok p(1)], of ?ct] tl(1)
    obtain args where "cursor_switch_event old p ?ct s = Some (ipc_send_event ''cursor_switch_tile'' args s)"
      by auto
    then have "\<exists>cs. cursor_switch_event old p ?ct s = Some (s\<lparr>s_calls := cs\<rparr>)"
      by (auto simp: ipc_send_event_def emit_def)
    then show ?thesis using Some by (auto intro: exI [of _ "s_calls s"])
  qed
  then obtain cs where cs: "(case se_cursor_tile (s_seat s) of None \<Rightarrow> Some s
           | Some old \<Rightarrow> if old \<noteq> ?ct \<and> s_running s then cursor_switch_event old p ?ct s else Some s)
        = Some (s\<lparr>s_calls := cs\<rparr>)" ..
  let ?s = "upd_seat (\<lambda>se. se\<lparr>se_cursor_tile := Some ?ct\<rparr>) (s\<lparr>s_calls := cs\<rparr>)"
  have step: "cursor_switch_tile c ox oy s = Some ?s"
    using p(2) w(1,2) ts(1) ring_find_ring [OF ts(2) brk] cs
    by (simp add: cursor_switch_tile_def focused_tile_of_def Let_def)
  have sr: "same_rest s ?s" by simp
  have "server_ok ?s"
    unfolding server_ok_same_rest [OF sr]
    using server_ok_links [OF ok] tl live by (intro server_ok_seat [OF ok]) (auto simp: seat_ok_def)
  then show thesis using sr by (intro that [OF step]) (auto simp: upd_seat_def)
qed

text \<open>
  What \<^verbatim>\<open>process_cursor_motion\<close> may change: the tile under the cursor, the pointer focus, the
  drag icons and the cached layout boxes.
\<close>

definition same_focus :: "cg_server \<Rightarrow> cg_server \<Rightarrow> bool" where
  "same_focus s s' \<longleftrightarrow>
     same_rest s s' \<and> s_tiles s' = s_tiles s \<and> s_views s' = s_views s \<and>
     se_focused_view (s_seat s') = se_focused_view (s_seat s) \<and>
     se_keyboard_focus (s_seat s') = se_keyboard_focus (s_seat s)"

lemma same_focus_refl [simp]: "same_focus s s"
  by (simp add: same_focus_def)

lemma same_focus_trans: "same_focus s s' \<Longrightarrow> same_focus s' s'' \<Longrightarrow> same_focus s s''"
  by (auto simp: same_focus_def elim: same_rest_trans)

lemma same_focus_emit [simp]:
  "same_focus s (emit c s') = same_focus s s'" "same_focus s (s'\<lparr>s_calls := cs\<rparr>) = same_focus s s'"
  by (simp_all add: same_focus_def)

lemma server_ok_emit [simp]:
  "server_ok (emit c s) = server_ok s" "server_ok (s\<lparr>s_calls := cs\<rparr>) = server_ok s"
  by (simp_all add: server_ok_def out_ok_def live_ws_def seat_ok_def tiles_below_brk_def)

lemma server_ok_upd_seat:
  assumes "server_ok s" and "se_focused_view (f (s_seat s)) = se_focused_view (s_seat s)"
    and "se_cursor_tile (f (s_seat s)) = se_cursor_tile (s_seat s)"
  shows "server_ok (upd_seat f s)"
  using assms by (simp add: server_ok_def out_ok_def live_ws_def seat_ok_def tiles_below_brk_def)

lemma pointer_notify_ok:
  assumes "server_ok s"
  shows "server_ok (pointer_notify time s) \<and> same_focus s (pointer_notify time s)"
  using assms by (auto simp: pointer_notify_def same_focus_def Let_def intro!: server_ok_upd_seat
      split: node_hit.split option.split)

lemma process_cursor_motion_ok:
  assumes ok: "server_ok s"
  obtains s' where "process_cursor_motion time s = Some s'" and "server_ok s'" and "same_focus s s'"
proof -
  obtain dis cs where d: "drag_icons_update 0 (s_seat (pointer_notify time s))
      (se_drag_icons (s_seat (pointer_notify time s))) = (dis, cs)" by fastforce
  let ?s1 = "upd_seat (\<lambda>se. se\<lparr>se_drag_icons := dis\<rparr>) (pointer_notify time s)"
  let ?s2 = "emit Idle_activity (?s1\<lparr>s_calls := s_calls ?s1 @ cs\<rparr>)"
  have ok2: "server_ok ?s2"
    using pointer_notify_ok [OF ok] by (simp add: server_ok_upd_seat)
  have sf2: "same_focus s ?s2"
    using pointer_notify_ok [OF ok, of time] by (simp add: same_focus_def)
  have step: "process_cursor_motion time s =
      (case s_cursor_at ?s2 of None \<Rightarrow> Some ?s2 | Some (c, ox, oy) \<Rightarrow> cursor_switch_tile c ox oy ?s2)"
    by (simp add: process_cursor_motion_def Let_def d)
  show thesis
  proof (cases "s_cursor_at ?s2")
    case None
    then show thesis using step ok2 sf2 by (intro that [of ?s2]) simp_all
  next
    case (Some x)
    obtain c ox oy where x: "x = (c, ox, oy)" by (cases x)
    from cursor_switch_tile_ok [OF ok2 Some [unfolded x]] obtain s' where
      s': "cursor_switch_tile c ox oy ?s2 = Some s'" "server_ok s'" "same_rest ?s2 s'"
      "s_tiles s' = s_tiles ?s2" "s_views s' = s_views ?s2" "\<exists>t. s_seat s' = (s_seat ?s2)\<lparr>se_cursor_tile := Some t\<rparr>"
      by blast
    then have "same_focus ?s2 s'" by (auto simp: same_focus_def)
    with sf2 have "same_focus s s'" by (rule same_focus_trans)
    with s'(1,2) step show thesis unfolding Some x by (intro that [of s']) simp_all
  qed
qed

lemma view_activate_ok:
  assumes "\<And>p. po = Some p \<Longrightarrow> s_views s p \<noteq> None"
  obtains cs where "view_activate po act s = Some (s\<lparr>s_calls := cs\<rparr>)"
proof (cases po)
  case None
  then show thesis by (intro that [of "s_calls s"]) (simp add: view_activate_def)
next
  case (Some p)
  with assms obtain v where "s_views s p = Some v" by auto
  with Some have "view_activate po act s = Some (s\<lparr>s_calls := s_calls s @ [Activate p act] @
      (if v_type v = CG_XWAYLAND_VIEW \<and> act \<and> \<not> v_override_redirect v then [Xwayland_restack p] else [])\<rparr>)"
    by (cases "v_type v") (simp_all add: view_activate_def xdg_activate_def xwayland_activate_def emit_def Let_def)
  then show thesis by (rule that)
qed

section \<open>Setting the focus\<close>

text \<open>Focusing the background: the focused tile shows nothing and no view has the focus.\<close>

lemma seat_focus_background_ok:
  assumes ok: "server_ok s" and ct: "curr_tile s = Some tp" and t: "s_tiles s tp = Some t"
  obtains s' where "seat_set_focus None s = Some s'" and "server_ok s'" and "same_rest s s'"
    and "s_tiles s' = (s_tiles s)(tp \<mapsto> t\<lparr>t_view := None\<rparr>)"
    and "s_views s' = hide_view (t_view t) (s_views s)"
    and "se_focused_view (s_seat s') = None" and "se_keyboard_focus (s_seat s') = None"
proof -
  obtain s1 where s1: "workspace_tile_update_view tp None s = Some s1" "server_ok s1" "same_rest s s1"
    "s_tiles s1 = (s_tiles s)(tp \<mapsto> t\<lparr>t_view := None\<rparr>)"
    "s_views s1 = hide_view (t_view t) (s_views s)" "s_seat s1 = s_seat s" using hide_ok [OF ok t] .
  let ?s2 = "upd_seat (\<lambda>se. se\<lparr>se_focused_view := None\<rparr>) s1"
  have sr2: "same_rest s1 ?s2" by simp
  have ok2: "server_ok ?s2"
    unfolding server_ok_same_rest [OF sr2] using server_ok_links [OF s1(2)]
    by (intro server_ok_seat [OF s1(2)]) (auto simp: seat_ok_def)
  have al: "s_views ?s2 p \<noteq> None" if "se_focused_view (s_seat s) = Some p" for p
    using server_ok_links(2) [OF s1(2)] s1(6) that by (simp add: seat_ok_def)
  obtain cs where a: "view_activate (se_focused_view (s_seat s)) False ?s2 = Some (?s2\<lparr>s_calls := cs\<rparr>)"
    using view_activate_ok [OF al] .
  let ?s3 = "emit (Set_constraint None) (emit Keyboard_clear_focus
      (upd_seat (\<lambda>se. se\<lparr>se_keyboard_focus := None\<rparr>) (?s2\<lparr>s_calls := cs\<rparr>)))"
  have ok3: "server_ok ?s3" using ok2 by (simp add: server_ok_upd_seat)
  obtain s' where s': "process_cursor_motion (- 1) ?s3 = Some s'" "server_ok s'" "same_focus ?s3 s'"
    using process_cursor_motion_ok [OF ok3] .
  have "seat_set_focus None s = Some s'"
    using ct s1(1) a s'(1) by (simp add: seat_set_focus_def seat_focus_background_def seat_get_focus_def Let_def)
  moreover have "same_rest s ?s3" using s1(3) by simp
  then have "same_rest s s'" using s'(3) unfolding same_focus_def by (blast intro: same_rest_trans)
  ultimately show thesis
    using s'(2,3) s1(4,5) by (intro that [of s']) (simp_all add: same_focus_def)
qed

lemma same_rest_alive: "same_rest s s' \<Longrightarrow> s_outs s p \<noteq> None \<Longrightarrow> s_outs s' p \<noteq> None"
  unfolding same_rest_def using outs_sim_None by metis

text \<open>Reordering the views of a workspace, or moving its focus to another of its tiles.\<close>

lemma server_ok_workspace:
  assumes ok: "server_ok s" and w: "s_workspaces s w = Some ws"
    and keep: "\<And>p j. ws_ok (s_tiles s) (s_views s) p j w ws \<Longrightarrow> ws_ok (s_tiles s) (s_views s) p j w ws'"
  shows "server_ok (s\<lparr>s_workspaces := (s_workspaces s)(w \<mapsto> ws')\<rparr>)" (is "server_ok ?s")
proof -
  have "out_ok ?s p" if "out_ok s p" for p
    using that w keep by (fastforce simp: out_ok_def)
  with ok show ?thesis
    by (auto simp: server_ok_def seat_ok_def live_ws_def tiles_below_brk_def)
qed

text \<open>What the invariant says of a live workspace and its focused tile.\<close>

lemma live_wsD:
  assumes ok: "server_ok s" and w: "w \<in> live_ws s" and ws: "s_workspaces s w = Some ws"
  obtains tp t where "focused_tile_of w s = Some tp" and "s_tiles s tp = Some t" and "tile_ok w (w_views ws) t"
    and "s_outs s (w_output ws) \<noteq> None" and "w_output ws \<in> set (s_outputs s)" and "distinct (w_views ws)"
    and "\<forall>v \<in> set (w_views ws). \<exists>vw. s_views s v = Some vw \<and> view_ok w True vw"
proof -
  obtain p j where wok: "ws_ok (s_tiles s) (s_views s) p j w ws" and o: "w_output ws = p" "s_outs s p \<noteq> None"
    "p \<in> set (s_outputs s)"
    using live_ws_ok [OF ok w] ws by (metis option.sel)
  obtain ts where "w_focused_tile ws = Some (hd ts)" "hd ts \<in> set ts"
    "\<forall>t \<in> set ts. \<exists>tl. s_tiles s t = Some tl \<and> tile_ok w (w_views ws) tl" using ws_okD [OF wok] by metis
  moreover have "distinct (w_views ws)" "\<forall>v \<in> set (w_views ws). \<exists>vw. s_views s v = Some vw \<and> view_ok w True vw"
    using wok by (simp_all add: ws_ok_def)
  ultimately show thesis using that [of "hd ts"] o ws by (auto simp: focused_tile_of_def)
qed

lemma curr_ws_live: "server_ok s \<Longrightarrow> curr_ws s = Some w \<Longrightarrow> w \<in> live_ws s"
  by (metis option.sel server_ok_curr)

text \<open>The effect of \<open>seat_set_focus\<close> on a view of the current workspace.\<close>

lemma seat_set_focus_ok:
  assumes ok: "server_ok s" and w: "curr_ws s = Some w" and ws: "s_workspaces s w = Some ws"
    and tp: "focused_tile_of w s = Some tp" and p: "p \<in> set (w_views ws)" and only: "only_on tp p s"
  obtains s' t v vs where "seat_set_focus (Some p) s = Some s'" and "server_ok s'"
    and "s_tiles s tp = Some t" and "s_views s p = Some v" and "move_head_after p (w_views ws) = Some vs"
    and "same_rest (s\<lparr>s_workspaces := (s_workspaces s)(w \<mapsto> ws\<lparr>w_views := vs\<rparr>)\<rparr>) s'"
    and "s_tiles s' = (s_tiles s)(tp \<mapsto> t\<lparr>t_view := Some p\<rparr>)"
    and "s_views s' = (hide_view (t_view t) (s_views s))(p \<mapsto> maximized tp t v)"
    and "se_focused_view (s_seat s') = Some p" and "se_keyboard_focus (s_seat s') = v_surface v"
proof -
  have live: "w \<in> live_ws s" using curr_ws_live [OF ok w] .
  obtain t where t: "s_tiles s tp = Some t" "t_workspace t = Some w" and o: "s_outs s (w_output ws) \<noteq> None"
    and v0: "\<exists>v. s_views s p = Some v \<and> view_ok w True v"
    using live_wsD [OF ok live ws] tp p by (metis option.sel tile_ok_def)
  obtain s1 v where s1: "workspace_tile_update_view tp (Some p) s = Some s1" "server_ok s1" "same_rest s s1"
    and v: "s_views s p = Some v"
    and T1: "s_tiles s1 = (s_tiles s)(tp \<mapsto> t\<lparr>t_view := Some p\<rparr>)"
    and V1: "s_views s1 = (hide_view (t_view t) (s_views s))(p \<mapsto> maximized tp t v)"
    and S1: "s_seat s1 = s_seat s"
    using show_ok [OF ok t live ws p only] by blast
  have vok: "view_ok w True v" using v0 v by auto
  have W1: "s_workspaces s1 w = Some ws" using s1(3) ws by (simp add: same_rest_def)
  obtain vs where vs: "move_head_after p (w_views ws) = Some vs" using move_head_after_total [OF p] by blast
  let ?ws = "ws\<lparr>w_views := vs\<rparr>"
  let ?s2 = "s1\<lparr>s_workspaces := (s_workspaces s1)(w \<mapsto> ?ws)\<rparr>"
  have ok2: "server_ok ?s2"
    by (rule server_ok_workspace [OF s1(2) W1])
      (auto simp: ws_ok_def tile_ok_def move_head_after_set [OF vs] move_head_after_distinct [OF vs])
  have sr2: "same_rest (s\<lparr>s_workspaces := (s_workspaces s)(w \<mapsto> ?ws)\<rparr>) ?s2"
    using s1(3) by (simp add: same_rest_def)
  have f: "focus_show_view p s = Some ?s2"
    using w tp s1(1) W1 vs by (simp add: focus_show_view_def upd_ws_def)
  have m: "v_type v \<noteq> CG_XWAYLAND_VIEW \<or> xwayland_view_should_manage v"
    using vok by (simp add: view_ok_def managed_view_def)
  let ?s3 = "?s2\<lparr>s_calls := s_calls ?s2 @ (if v_type v = CG_XWAYLAND_VIEW then [Xwayland_set_seat] else [])\<rparr>"
  have s3: "(if v_type v = CG_XWAYLAND_VIEW then emit Xwayland_set_seat ?s2 else ?s2) = ?s3"
    by (simp add: emit_def)
  have al: "s_views ?s3 q \<noteq> None" if "se_focused_view (s_seat s) = Some q" for q
    using server_ok_links(2) [OF s1(2)] that by (simp add: seat_ok_def S1)
  obtain cs where a: "view_activate (se_focused_view (s_seat s)) False ?s3 = Some (?s3\<lparr>s_calls := cs\<rparr>)"
    using view_activate_ok [OF al] .
  let ?s4 = "upd_seat (\<lambda>se. se\<lparr>se_focused_view := Some p\<rparr>) (?s3\<lparr>s_calls := cs\<rparr>)"
  have base4: "same_rest ?s2 ?s4" "s_tiles ?s4 = s_tiles ?s2" "s_views ?s4 = s_views ?s2"
    "s_seat ?s4 = (s_seat s)\<lparr>se_focused_view := Some p\<rparr>"
    by (simp_all add: S1 upd_seat_def emit_def)
  have ok4: "server_ok ?s4"
    unfolding server_ok_same_rest [OF base4(1)]
    using server_ok_links(2) [OF ok2] by (intro server_ok_seat [OF ok2 base4(2,3)]) (auto simp: seat_ok_def base4(4) S1 V1)
  have v4: "s_views ?s4 p = Some (maximized tp t v)" by (simp add: V1)
  obtain cs' where a': "view_activate (Some p) True ?s4 = Some (?s4\<lparr>s_calls := cs'\<rparr>)"
    using view_activate_ok [of "Some p" ?s4] v4 by auto
  let ?s5 = "emit (Scene_raise p) (emit (Set_constraint (v_surface v)) (emit (Keyboard_enter (v_surface v))
      (upd_seat (\<lambda>se. se\<lparr>se_keyboard_focus := v_surface v\<rparr>) (?s4\<lparr>s_calls := cs'\<rparr>))))"
  have ok5: "server_ok ?s5" using ok4 by (simp add: server_ok_upd_seat)
  obtain s6 where s6: "process_cursor_motion (- 1) ?s5 = Some s6" "server_ok s6" "same_focus ?s5 s6"
    using process_cursor_motion_ok [OF ok5] .
  have sr5: "same_rest ?s2 ?s5" by simp
  have sr6: "same_rest (s\<lparr>s_workspaces := (s_workspaces s)(w \<mapsto> ?ws)\<rparr>) s6"
    using same_rest_trans [OF same_rest_trans [OF sr2 sr5]] s6(3) by (simp only: same_focus_def)
  have W6: "s_workspaces s6 w = Some ?ws" using sr6 by (simp add: same_rest_def)
  have "s_outs s6 (w_output ws) \<noteq> None" using same_rest_alive [OF sr6] o by simp
  then obtain b outs where g: "output_get_layout_box (w_output ws) s6 = Some (b, s6\<lparr>s_outs := outs\<rparr>)"
    and sim: "outs_sim (s_outs s6) outs" using layout_box_ok by blast
  let ?s' = "emit (Scene_bg_position (w_output ws) (box_x b) (box_y b)) (s6\<lparr>s_outs := outs\<rparr>)"
  have vw: "v_workspace v = Some w" using vok by (simp add: view_ok_def)
  have e: "seat_focus_enter p ?s4 = Some ?s'"
    using a' v4 s6(1) vw W6 g by (simp add: seat_focus_enter_def Let_def)
  have step: "seat_set_focus (Some p) s = Some ?s'"
    using v f a e s3
    by (simp only: seat_set_focus_def seat_get_focus_def Let_def option.case bind.bind_lunit eqTrueI [OF m]
        if_True if_False simp_thms)
  have sr': "same_rest s6 ?s'" using sim by (simp add: same_rest_def)
  have ok': "server_ok ?s'"
    unfolding server_ok_same_rest [OF sr'] using s6(2) by simp
  show thesis
    using s6(3) same_rest_trans [OF sr6 sr']
    by (intro that [OF step ok' t(1) v vs]) (simp_all add: same_focus_def T1 V1)
qed

end
