(* ===== verification/Switching_Inv.thy ===== *)
theory Switching_Inv
  imports Focus_Inv
begin

text \<open>
  The actions that move the focus keep the invariant and never fault, and afterwards the focus is
  on what the focused tile of the current workspace shows.
\<close>

section \<open>Refocusing\<close>

text \<open>
  Equality of states up to the focus, the order of the views of a workspace, positions of views
  and caches.
\<close>

definition ws_place :: "cg_workspace \<Rightarrow> out_ptr \<times> tile_ptr option \<times> u32 \<times> view_ptr set" where
  "ws_place ws = (w_output ws, w_focused_tile ws, w_num ws, set (w_views ws))"

definition same_place :: "cg_server \<Rightarrow> cg_server \<Rightarrow> bool" where
  "same_place s s' \<longleftrightarrow>
     s_tiles s' = s_tiles s \<and> outs_sim (s_outs s) (s_outs s') \<and> s_outputs s' = s_outputs s \<and>
     s_curr_output s' = s_curr_output s \<and> s_nws s' = s_nws s \<and>
     (\<forall>w. map_option ws_place (s_workspaces s' w) = map_option ws_place (s_workspaces s w))"

lemma same_place_refl [simp]: "same_place s s"
  by (simp add: same_place_def)

lemma same_place_emit [simp]: "same_place s (emit c s') = same_place s s'"
  by (simp add: same_place_def)

lemma same_place_trans: "same_place s s' \<Longrightarrow> same_place s' s'' \<Longrightarrow> same_place s s''"
  by (auto simp: same_place_def elim: outs_sim_trans)

lemma same_place_focused: "same_place s s' \<Longrightarrow> focused_tile_of w s' = focused_tile_of w s"
  by (cases "s_workspaces s w"; cases "s_workspaces s' w")
    (auto simp: same_place_def focused_tile_of_def ws_place_def dest!: spec [of _ w])

lemma same_place_curr_ws: "same_place s s' \<Longrightarrow> curr_ws_of p s' = curr_ws_of p s \<and> curr_ws s' = curr_ws s"
proof -
  assume sp: "same_place s s'"
  have e: "curr_ws_of q s' = curr_ws_of q s" for q
    using sp by (intro outs_sim_curr_ws_of) (simp add: same_place_def)
  moreover have "s_curr_output s' = s_curr_output s" using sp by (simp add: same_place_def)
  ultimately show ?thesis by (simp add: curr_ws_def)
qed

lemma same_place_curr_tile: "same_place s s' \<Longrightarrow> curr_tile s' = curr_tile s"
  by (simp add: curr_tile_def same_place_curr_ws same_place_focused)

lemma same_place_live: "same_place s s' \<Longrightarrow> live_ws s' = live_ws s"
  using outs_sim_parts(1) [of "s_outs s" "s_outs s'"] by (simp add: same_place_def live_ws_def)

text \<open>The focus is on what the focused tile of the current workspace shows.\<close>

definition focus_ok :: "cg_server \<Rightarrow> bool" where
  "focus_ok s \<longleftrightarrow> (\<exists>tp t. curr_tile s = Some tp \<and> s_tiles s tp = Some t \<and> se_focused_view (s_seat s) = t_view t)"

lemma shown_only_on: "links_ok (s_tiles s) (s_views s) \<Longrightarrow> s_tiles s tp = Some t \<Longrightarrow> t_view t = Some p \<Longrightarrow> only_on tp p s"
  unfolding links_ok_def only_on_def by (metis option.sel)

lemma tile_view_same [simp]: "t\<lparr>t_view := t_view t\<rparr> = t"
  by (cases t) simp

lemma tile_view_none: "t_view t = None \<Longrightarrow> t\<lparr>t_view := None\<rparr> = t"
  by (cases t) simp

lemma tile_view_some: "t_view t = Some p \<Longrightarrow> t\<lparr>t_view := Some p\<rparr> = t"
  by (cases t) simp

lemma refocus_ok:
  assumes ok: "server_ok s" and ct: "curr_tile s = Some tp" and t: "s_tiles s tp = Some t"
  obtains s' where "seat_set_focus (t_view t) s = Some s'" and "server_ok s'" and "same_place s s'"
    and "se_focused_view (s_seat s') = t_view t"
proof (cases "t_view t")
  case None
  obtain s' where s': "seat_set_focus None s = Some s'" "server_ok s'" "same_rest s s'"
    "s_tiles s' = (s_tiles s)(tp \<mapsto> t\<lparr>t_view := None\<rparr>)" "se_focused_view (s_seat s') = None"
    using seat_focus_background_ok [OF ok ct t] by metis
  then have "same_place s s'" using None t
    by (auto simp: same_place_def same_rest_def tile_view_none fun_upd_idem)
  with s' None show thesis by (intro that [of s']) simp_all
next
  case (Some p)
  obtain w where w: "curr_ws s = Some w" "focused_tile_of w s = Some tp"
    using ct by (auto simp: curr_tile_def bind_eq_Some)
  have live: "w \<in> live_ws s" using curr_ws_live [OF ok w(1)] .
  obtain ws where ws: "s_workspaces s w = Some ws" using w(2) by (auto simp: focused_tile_of_def bind_eq_Some)
  have p: "p \<in> set (w_views ws)" using live_wsD [OF ok live ws] w(2) t Some by (metis option.sel tile_ok_def)
  have only: "only_on tp p s" using shown_only_on [OF server_ok_links(1) [OF ok] t Some] .
  from seat_set_focus_ok [OF ok w(1) ws w(2) p only] obtain s' t' vs where
    s': "seat_set_focus (Some p) s = Some s'" "server_ok s'" "s_tiles s tp = Some t'"
    "move_head_after p (w_views ws) = Some vs"
    "same_rest (s\<lparr>s_workspaces := (s_workspaces s)(w \<mapsto> ws\<lparr>w_views := vs\<rparr>)\<rparr>) s'"
    "s_tiles s' = (s_tiles s)(tp \<mapsto> t'\<lparr>t_view := Some p\<rparr>)"
    "se_focused_view (s_seat s') = Some p" by metis
  have "t' = t" using s'(3) t by simp
  then have "s_tiles s' = s_tiles s" using s'(6) t by (simp add: tile_view_some [OF Some] fun_upd_idem)
  then have "same_place s s'"
    using s'(5) ws move_head_after_set [OF s'(4)] by (simp add: same_place_def same_rest_def ws_place_def)
  with s' Some show thesis by (intro that [of s']) simp_all
qed

lemma refocus_focus_ok:
  assumes "curr_tile s = Some tp" and "s_tiles s tp = Some t" and "same_place s s'"
    and "se_focused_view (s_seat s') = t_view t"
  shows "focus_ok s'"
  using assms same_place_curr_tile [OF assms(3)] by (simp add: focus_ok_def same_place_def)

section \<open>Outputs\<close>

lemma server_ok_set_curr:
  "server_ok s \<Longrightarrow> p \<in> set (s_outputs s) \<Longrightarrow> server_ok (s\<lparr>s_curr_output := Some p\<rparr>)"
  by (simp add: server_ok_def out_ok_def live_ws_def seat_ok_def tiles_below_brk_def)

lemma server_ok_curr_tile:
  assumes "server_ok s"
  obtains tp t where "curr_tile s = Some tp" and "s_tiles s tp = Some t"
  using server_ok_curr [OF assms] by metis

lemma set_output_ok:
  assumes ok: "server_ok s" and p: "p \<in> set (s_outputs s)"
  obtains s' where "set_output p s = Some s'" and "server_ok s'" and "focus_ok s'"
    and "same_place (s\<lparr>s_curr_output := Some p\<rparr>) s'"
proof -
  let ?s = "s\<lparr>s_curr_output := Some p\<rparr>"
  have ok1: "server_ok ?s" using server_ok_set_curr [OF ok p] .
  obtain tp t where tp: "curr_tile ?s = Some tp" "s_tiles ?s tp = Some t" using server_ok_curr_tile [OF ok1] .
  obtain s' where s': "seat_set_focus (t_view t) ?s = Some s'" "server_ok s'" "same_place ?s s'"
    "se_focused_view (s_seat s') = t_view t" using refocus_ok [OF ok1 tp] .
  have f: "focus_ok s'" using refocus_focus_ok [OF tp s'(3,4)] .
  have "s_curr_output s' = Some p" using s'(3) by (simp add: same_place_def)
  then have "set_output p s = Some (message_printf p ''Current Output'' s')"
    using tp s'(1) by (simp add: set_output_def Let_def)
  then show thesis
    using s' f by (intro that [of "message_printf p ''Current Output'' s'"]) (simp_all add: message_printf_def focus_ok_def curr_tile_def curr_ws_def curr_ws_of_def focused_tile_of_def)
qed

lemma succ_in_total:
  assumes "x \<in> set xs"
  shows "\<exists>y. succ_in xs x = Some y \<and> y \<in> set xs"
proof -
  obtain zs where z: "dropWhile (\<lambda>y. y \<noteq> x) xs = x # zs" using dropWhile_neq_in [OF assms] by metis
  have sub: "set (x # zs) \<subseteq> set xs" unfolding z [symmetric] by (auto dest: set_dropWhileD)
  obtain a as where xs: "xs = a # as" using assms by (cases xs) auto
  show ?thesis
  proof (cases zs)
    case Nil
    then have "succ_in xs x = Some a" using z xs by (simp split: list.split)
    with xs show ?thesis by simp
  next
    case (Cons b bs)
    then have "succ_in xs x = Some b" using z by simp
    with sub Cons show ?thesis by simp
  qed
qed

lemma output_event_args_total:
  assumes "server_ok s" and "s_outs s p \<noteq> None"
  shows "\<exists>a. output_event_args k i p s = Some a"
  using output_get_num_total [OF assms] assms(2) by (auto simp: output_event_args_def)

lemma same_place_alive: "same_place s s' \<Longrightarrow> s_outs s p \<noteq> None \<Longrightarrow> s_outs s' p \<noteq> None"
  unfolding same_place_def using outs_sim_None by metis

lemma focus_ok_emit [simp]: "focus_ok (emit c s) = focus_ok s"
  by (simp add: focus_ok_def curr_tile_def curr_ws_def curr_ws_of_def focused_tile_of_def)

lemma ipc_send_event_ok [simp]:
  "server_ok (ipc_send_event n a s) = server_ok s" "focus_ok (ipc_send_event n a s) = focus_ok s"
  "same_place s (ipc_send_event n a s') = same_place s s'"
  "server_ok (message_printf p m s) = server_ok s" "focus_ok (message_printf p m s) = focus_ok s"
  "same_place s (message_printf p m s') = same_place s s'"
  by (simp_all add: ipc_send_event_def message_printf_def)

lemma cycle_outputs_ok:
  assumes ok: "server_ok s"
  obtains s' p q where "keybinding_cycle_outputs r ev s = Some s'" and "server_ok s'" and "focus_ok s'"
    and "s_curr_output s = Some p" and "succ_in (if r then rev (s_outputs s) else s_outputs s) p = Some q"
    and "q \<in> set (s_outputs s)" and "same_place (s\<lparr>s_curr_output := Some q\<rparr>) s'"
proof -
  obtain p where p: "s_curr_output s = Some p" "p \<in> set (s_outputs s)" "s_outs s p \<noteq> None"
    using server_ok_curr [OF ok] by metis
  then obtain q where q: "succ_in (if r then rev (s_outputs s) else s_outputs s) p = Some q" "q \<in> set (s_outputs s)"
    using succ_in_total [of p "if r then rev (s_outputs s) else s_outputs s"] by (cases r) auto
  obtain s1 where s1: "set_output q s = Some s1" "server_ok s1" "focus_ok s1"
    "same_place (s\<lparr>s_curr_output := Some q\<rparr>) s1" using set_output_ok [OF ok q(2)] .
  have "s_outs s1 p \<noteq> None" "s_outs s1 q \<noteq> None"
    using same_place_alive [OF s1(4)] p(3) outputs_alive [OF ok q(2)] by simp_all
  then obtain a b where ab: "output_event_args ''old_output'' ''old_output_id'' p s1 = Some a"
    "output_event_args ''new_output'' ''new_output_id'' q s1 = Some b"
    using output_event_args_total [OF s1(2)] by metis
  show thesis
  proof (cases ev)
    case True
    let ?s' = "ipc_send_event ''cycle_outputs'' (a @ b @ [(''reverse'', IInt (of_bool r))]) s1"
    have "keybinding_cycle_outputs r ev s = Some ?s'"
      using p(1) q(1) s1(1) ab True by (simp add: keybinding_cycle_outputs_def del: succ_in.simps)
    then show thesis using s1 p(1) q by (intro that [of ?s' p q]) simp_all
  next
    case False
    then have "keybinding_cycle_outputs r ev s = Some s1"
      using p(1) q(1) s1(1) by (simp add: keybinding_cycle_outputs_def del: succ_in.simps)
    then show thesis using s1 p(1) q by (intro that [of s1 p q]) simp_all
  qed
qed

lemma output_from_num_in: "output_from_num n s = Some p \<Longrightarrow> p \<in> set (s_outputs s)"
  by (auto simp: output_from_num_def split: if_splits)

lemma switch_output_ok:
  assumes ok: "server_ok s"
  obtains s' where "keybinding_switch_output n s = Some s'" and "server_ok s'"
    and "case output_from_num n s of None \<Rightarrow> same_place s s' \<and> s_seat s' = s_seat s
         | Some q \<Rightarrow> focus_ok s' \<and> same_place (s\<lparr>s_curr_output := Some q\<rparr>) s'"
proof -
  obtain p where p: "s_curr_output s = Some p" "p \<in> set (s_outputs s)" "s_outs s p \<noteq> None"
    using server_ok_curr [OF ok] by metis
  show thesis
  proof (cases "output_from_num n s")
    case None
    with p ok show thesis
      by (intro that [of "message_printf p (''Output '' @ fmt_d n @ '' does not exist'') s"])
        (simp_all add: keybinding_switch_output_def, simp add: message_printf_def)
  next
    case (Some q)
    have q: "q \<in> set (s_outputs s)" using output_from_num_in [OF Some] .
    obtain s1 where s1: "set_output q s = Some s1" "server_ok s1" "focus_ok s1"
      "same_place (s\<lparr>s_curr_output := Some q\<rparr>) s1" using set_output_ok [OF ok q] .
    have "s_outs s1 p \<noteq> None" "s_outs s1 q \<noteq> None"
      using same_place_alive [OF s1(4)] p(3) outputs_alive [OF ok q] by simp_all
    then obtain a b where ab: "output_event_args ''old_output'' ''old_output_id'' p s1 = Some a"
      "output_event_args ''new_output'' ''new_output_id'' q s1 = Some b"
      using output_event_args_total [OF s1(2)] by metis
    then have "keybinding_switch_output n s = Some (ipc_send_event ''switch_output'' (a @ b) s1)"
      using p(1) Some s1(1) by (simp add: keybinding_switch_output_def)
    then show thesis using s1 Some by (intro that [of "ipc_send_event ''switch_output'' (a @ b) s1"]) simp_all
  qed
qed

section \<open>Workspaces\<close>

definition set_curr_ws :: "out_ptr \<Rightarrow> int \<Rightarrow> cg_server \<Rightarrow> cg_server" where
  "set_curr_ws p i s = s\<lparr>s_outs := (s_outs s)(p := map_option (\<lambda>out. out\<lparr>o_curr_workspace := i\<rparr>) (s_outs s p))\<rparr>"

lemma set_curr_ws_parts:
  "out_wss (s_outs (set_curr_ws p i s)) = out_wss (s_outs s)"
  "out_wlr (s_outs (set_curr_ws p i s)) = out_wlr (s_outs s)"
  "out_curr (s_outs (set_curr_ws p i s)) q = (if q = p \<and> s_outs s p \<noteq> None then Some i else out_curr (s_outs s) q)"
  by (cases "s_outs s p"; auto simp: set_curr_ws_def out_wss_def out_wlr_def out_curr_def fun_eq_iff)+

lemma server_ok_set_curr_ws:
  assumes ok: "server_ok s" and i: "0 \<le> i" "i < int (unat (s_nws s))"
  shows "server_ok (set_curr_ws p i s)" (is "server_ok ?s")
proof -
  have f: "s_tiles ?s = s_tiles s" "s_views ?s = s_views s" "s_workspaces ?s = s_workspaces s"
    "s_nws ?s = s_nws s" "s_outputs ?s = s_outputs s" "s_curr_output ?s = s_curr_output s"
    "s_seat ?s = s_seat s" "s_cursor_at ?s = s_cursor_at s" "s_tile_brk ?s = s_tile_brk s"
    by (simp_all add: set_curr_ws_def)
  have "out_ok ?s q" if q: "out_ok s q" for q
  proof -
    from q obtain wss k where o: "out_wss (s_outs s) q = Some wss" "out_curr (s_outs s) q = Some k"
      "length wss = unat (s_nws s)" "distinct wss" "0 \<le> k" "k < int (length wss)"
      and all: "\<forall>j < length wss. \<exists>ws. s_workspaces s (wss ! j) = Some ws \<and>
        ws_ok (s_tiles s) (s_views s) q j (wss ! j) ws"
      unfolding out_ok_def by blast
    let ?k = "if q = p \<and> s_outs s p \<noteq> None then i else k"
    have "out_curr (s_outs ?s) q = Some ?k" using o(2) set_curr_ws_parts(3) [of p i s q] by (auto split: if_splits)
    moreover have "0 \<le> ?k" "?k < int (length wss)" using o i by auto
    ultimately show ?thesis unfolding out_ok_def f set_curr_ws_parts(1) using o all by blast
  qed
  with ok show ?thesis
    by (auto simp: server_ok_def f set_curr_ws_parts(1,2) seat_ok_def live_ws_def tiles_below_brk_def)
qed

lemma workspace_focus_ok:
  assumes ok: "server_ok s" and p: "p \<in> set (s_outputs s)" and i: "0 \<le> i" "i < int (unat (s_nws s))"
  obtains cs where "workspace_focus p i s = Some (set_curr_ws p i (s\<lparr>s_calls := cs\<rparr>))"
proof -
  have pok: "out_ok s p" using ok p by (simp add: server_ok_def)
  obtain out wss where out: "s_outs s p = Some out" "o_workspaces out = Some wss" "length wss = unat (s_nws s)"
    and c: "0 \<le> o_curr_workspace out" "o_curr_workspace out < int (length wss)"
    using out_ok_out [OF pok] by metis
  have "nat (o_curr_workspace out) < length wss" "nat i < length wss"
    using c i out(3) by linarith+
  then have "ws_at out (o_curr_workspace out) = Some (wss ! nat (o_curr_workspace out))"
    "ws_at out i = Some (wss ! nat i)" using out c i by (auto simp: ws_at_def)
  with out(1) i show thesis
    by (intro that [of "s_calls s @ [Scene_lower_ws (wss ! nat (o_curr_workspace out)),
        Scene_raise_ws (wss ! nat i), Scene_raise_layers p]"])
      (simp add: workspace_focus_def upd_out_def set_curr_ws_def emit_def Let_def)
qed

lemma set_curr_ws_calls: "set_curr_ws p i (s\<lparr>s_calls := cs\<rparr>) = (set_curr_ws p i s)\<lparr>s_calls := cs\<rparr>"
  by (simp add: set_curr_ws_def)

lemma same_place_calls [simp]: "same_place (s\<lparr>s_calls := cs\<rparr>) s' = same_place s s'"
  by (simp add: same_place_def)

lemma ucast_less_16: "(a :: u32) < ucast (b :: u16) \<longleftrightarrow> uint a < uint b"
  by (simp add: word_less_def uint_up_ucast is_up)

lemma switch_ws_ok:
  assumes ok: "server_ok s" and p: "s_curr_output s = Some p"
  obtains r s' where "keybinding_switch_ws i s = Some (r, s')" and "server_ok s'"
    and "if uint i < uint (s_nws s)
         then r = 0 \<and> focus_ok s' \<and> same_place (set_curr_ws p (uint i) s) s'
         else r = - 1 \<and> s' = s"
proof (cases "uint i < uint (s_nws s)")
  case False
  then have "keybinding_switch_ws i s = Some (- 1, s)"
    using ucast_less_16 [of i "s_nws s"] by (simp add: keybinding_switch_ws_def not_less)
  with ok False that show thesis by simp
next
  case True
  have pin: "p \<in> set (s_outputs s)" using ok p by (auto simp: server_ok_def)
  have i: "0 \<le> uint i" "uint i < int (unat (s_nws s))" using True by simp_all
  obtain cs where wf: "workspace_focus p (uint i) s = Some (set_curr_ws p (uint i) (s\<lparr>s_calls := cs\<rparr>))"
    using workspace_focus_ok [OF ok pin i] .
  let ?s1 = "set_curr_ws p (uint i) (s\<lparr>s_calls := cs\<rparr>)"
  have ok1: "server_ok ?s1" using ok i by (intro server_ok_set_curr_ws) simp_all
  obtain tp t where tp: "curr_tile ?s1 = Some tp" "s_tiles ?s1 tp = Some t" using server_ok_curr_tile [OF ok1] .
  obtain out where out: "s_outs s p = Some out" using outputs_alive [OF ok pin] by auto
  let ?out = "out\<lparr>o_curr_workspace := uint i\<rparr>"
  have out1: "s_outs ?s1 p = Some ?out" using out by (simp add: set_curr_ws_def)
  have "s_curr_output ?s1 = Some p" using p by (simp add: set_curr_ws_def)
  then obtain w where w: "ws_at ?out (uint i) = Some w" "focused_tile_of w ?s1 = Some tp"
    using tp(1) out1 by (auto simp: curr_tile_def curr_ws_def curr_ws_of_def bind_eq_Some)
  obtain s2 where s2: "seat_set_focus (t_view t) ?s1 = Some s2" "server_ok s2" "same_place ?s1 s2"
    "se_focused_view (s_seat s2) = t_view t" using refocus_ok [OF ok1 tp] .
  let ?s3 = "message_printf p (''Workspace '' @ fmt_d (sint (i + 1))) s2"
  have "server_ok ?s3" "s_outs ?s3 p \<noteq> None"
    using same_place_alive [OF s2(3)] out1 s2(2) by (simp_all add: message_printf_def)
  then obtain a where a: "output_event_args ''output'' ''output_id'' p ?s3 = Some a"
    using output_event_args_total by metis
  have lt: "\<not> ucast (s_nws s) \<le> i" using True ucast_less_16 by (simp add: not_le)
  let ?ev = "[(''old_workspace'', d32 (word_of_int (o_curr_workspace out) + 1)), (''new_workspace'', d32 (i + 1))] @ a"
  have step: "keybinding_switch_ws i s = Some (0, ipc_send_event ''switch_ws'' ?ev ?s3)"
    using wf out out1 w tp(2) s2(1) a lt p by (simp add: keybinding_switch_ws_def Let_def)
  show thesis
    using s2 True refocus_focus_ok [OF tp s2(3,4)] by (intro that [OF step]) (simp_all add: set_curr_ws_calls)
qed

section \<open>Looking up by id\<close>

definition ws_ring :: "ws_ptr \<Rightarrow> cg_server \<Rightarrow> tile_ptr list option" where
  "ws_ring w s = Option.bind (focused_tile_of w s) (\<lambda>tp. ring_of tp s)"

text \<open>The tiles and the views of all workspaces in the order in which the lookups meet them.\<close>

definition all_ws :: "cg_server \<Rightarrow> ws_ptr list" where
  "all_ws s = concat (map (\<lambda>p. the (out_wss (s_outs s) p)) (s_outputs s))"

definition all_tiles :: "cg_server \<Rightarrow> tile_ptr list" where
  "all_tiles s = concat (map (\<lambda>w. the (ws_ring w s)) (all_ws s))"

definition all_views :: "cg_server \<Rightarrow> view_ptr list" where
  "all_views s = concat (map (\<lambda>w. w_views (the (s_workspaces s w))) (all_ws s))"

lemma set_all_ws:
  assumes "server_ok s"
  shows "set (all_ws s) = live_ws s"
proof -
  have "\<exists>wss. out_wss (s_outs s) p = Some wss" if "p \<in> set (s_outputs s)" for p
    using assms that by (auto simp: server_ok_def out_ok_def)
  then have "(w \<in> set (the (out_wss (s_outs s) p))) = (\<exists>wss. out_wss (s_outs s) p = Some wss \<and> w \<in> set wss)"
    if "p \<in> set (s_outputs s)" for w p using that by force
  then show ?thesis by (simp add: all_ws_def live_ws_def set_eq_iff)
qed

lemma find_append: "List.find P (xs @ ys) = (case List.find P xs of None \<Rightarrow> List.find P ys | Some x \<Rightarrow> Some x)"
  by (induction xs) simp_all

lemma search_ws_find:
  assumes "\<And>i. i \<in> set is \<Longrightarrow> \<exists>w. ws_at out (int i) = Some w \<and> f w s = Some (List.find P (g w))"
  shows "search_ws f out is s = Some (List.find P (concat (map (\<lambda>i. g (the (ws_at out (int i)))) is)))"
  using assms
proof (induction "is")
  case (Cons i "is")
  then obtain w where w: "ws_at out (int i) = Some w" "f w s = Some (List.find P (g w))" by auto
  then have "search_ws f out (i # is) s =
      (case List.find P (g w) of Some x \<Rightarrow> Some (Some x) | None \<Rightarrow> search_ws f out is s)" by simp
  also have "search_ws f out is s = Some (List.find P (concat (map (\<lambda>i. g (the (ws_at out (int i)))) is)))"
    using Cons by simp
  finally show ?case using w(1) by (simp add: find_append split: option.split)
qed simp

lemma search_outputs_find:
  assumes ok: "server_ok s" and sub: "set ps \<subseteq> set (s_outputs s)"
    and f: "\<And>w. w \<in> live_ws s \<Longrightarrow> f w s = Some (List.find P (g w))"
  shows "search_outputs f ps s = Some (List.find P (concat (map g (concat (map (\<lambda>p. the (out_wss (s_outs s) p)) ps)))))"
  using sub
proof (induction ps)
  case (Cons p ps)
  then have p: "p \<in> set (s_outputs s)" "out_ok s p" using ok by (auto simp: server_ok_def)
  obtain out wss where out: "s_outs s p = Some out" "o_workspaces out = Some wss"
    "out_wss (s_outs s) p = Some wss" "length wss = unat (s_nws s)" using out_ok_out [OF p(2)] by metis
  have at: "ws_at out (int i) = Some (wss ! i)" if "i < length wss" for i using out that by (simp add: ws_at_def)
  have "search_ws f out [0..<unat (s_nws s)] s =
      Some (List.find P (concat (map (\<lambda>i. g (the (ws_at out (int i)))) [0..<unat (s_nws s)])))"
  proof (rule search_ws_find)
    fix i assume "i \<in> set [0..<unat (s_nws s)]"
    then have i: "i < length wss" using out(4) by simp
    have "wss ! i \<in> live_ws s" using p(1) out(3) nth_mem [OF i] by (auto simp: live_ws_def)
    with at [OF i] f show "\<exists>w. ws_at out (int i) = Some w \<and> f w s = Some (List.find P (g w))" by blast
  qed
  also have "map (\<lambda>i. g (the (ws_at out (int i)))) [0..<unat (s_nws s)] = map g wss"
    unfolding out(4) [symmetric] using at by (intro nth_equalityI) simp_all
  finally have ws: "search_ws f out [0..<unat (s_nws s)] s = Some (List.find P (concat (map g wss)))" .
  have "search_outputs f ps s = Some (List.find P (concat (map g (concat (map (\<lambda>p. the (out_wss (s_outs s) p)) ps)))))"
    using Cons by simp
  with out ws show ?case by (simp add: find_append split: option.split)
qed simp

lemma live_ws_ring:
  assumes ok: "server_ok s" and w: "w \<in> live_ws s" and ws: "s_workspaces s w = Some ws"
  obtains ts where "ws_ring w s = Some ts" and "is_ring (s_tiles s) ts" and "focused_tile_of w s = Some (hd ts)"
    and "hd ts \<in> set ts" and "\<forall>t \<in> set ts. \<exists>tl. s_tiles s t = Some tl \<and> tile_ok w (w_views ws) tl"
    and "\<exists>p j. ws_ok (s_tiles s) (s_views s) p j w ws \<and> w_output ws = p \<and> p \<in> set (s_outputs s)"
proof -
  obtain p j where wok: "ws_ok (s_tiles s) (s_views s) p j w ws" "w_output ws = p" "p \<in> set (s_outputs s)"
    using live_ws_ok [OF ok w] ws by (metis option.sel)
  obtain ts where ts: "w_focused_tile ws = Some (hd ts)" "is_ring (s_tiles s) ts" "hd ts \<in> set ts"
    "\<forall>t \<in> set ts. \<exists>tl. s_tiles s t = Some tl \<and> tile_ok w (w_views ws) tl" using ws_okD [OF wok(1)] by metis
  have "ring_of (hd ts) s = Some ts"
    using ring_of_ring [of s "hd ts" "tl ts"] ts(2) ok by (cases ts) (auto simp: is_ring_def server_ok_def)
  with ts wok ws show thesis by (intro that [of ts]) (auto simp: ws_ring_def focused_tile_of_def)
qed

lemma tile_from_id_find:
  assumes ok: "server_ok s"
  shows "tile_from_id tid s = Some (List.find (\<lambda>t. t_id (the (s_tiles s t)) = tid) (all_tiles s))"
proof -
  have "tile_in_ws tid w s = Some (List.find (\<lambda>t. t_id (the (s_tiles s t)) = tid) (the (ws_ring w s)))"
    if w: "w \<in> live_ws s" for w
  proof -
    obtain ws where ws: "s_workspaces s w = Some ws" using live_ws_ok [OF ok w] by metis
    obtain ts where ts: "ws_ring w s = Some ts" "is_ring (s_tiles s) ts" "focused_tile_of w s = Some (hd ts)"
      using live_ws_ring [OF ok w ws] by metis
    then show ?thesis
      using ring_find_ring [OF ts(2), of "\<lambda>_ t. t_id t = tid"] ok by (simp add: tile_in_ws_def server_ok_def)
  qed
  from search_outputs_find [where f = "tile_in_ws tid" and g = "\<lambda>w. the (ws_ring w s)", OF ok subset_refl this]
  show ?thesis
    by (simp add: tile_from_id_def all_tiles_def all_ws_def)
qed

lemma find_view_find:
  assumes "\<forall>v \<in> set ps. s_views s v \<noteq> None"
  shows "find_view P ps s = Some (List.find (\<lambda>v. P (the (s_views s v))) ps)"
  using assms by (induction ps) auto

lemma view_from_id_find:
  assumes ok: "server_ok s"
  shows "view_from_id vid s = Some (List.find (\<lambda>v. v_id (the (s_views s v)) = vid) (all_views s))"
proof -
  have "view_in_ws vid w s = Some (List.find (\<lambda>v. v_id (the (s_views s v)) = vid) (w_views (the (s_workspaces s w))))"
    if w: "w \<in> live_ws s" for w
  proof -
    obtain ws where ws: "s_workspaces s w = Some ws" using live_ws_ok [OF ok w] by metis
    have "\<forall>v \<in> set (w_views ws). s_views s v \<noteq> None"
      using live_wsD [OF ok w ws] by (metis option.distinct(1))
    with ws show ?thesis by (simp add: view_in_ws_def find_view_find)
  qed
  from search_outputs_find [where f = "view_in_ws vid" and g = "\<lambda>w. w_views (the (s_workspaces s w))", OF ok subset_refl this]
  show ?thesis
    by (simp add: view_from_id_def all_views_def all_ws_def)
qed

lemma all_tiles_live:
  assumes ok: "server_ok s" and t: "tp \<in> set (all_tiles s)"
  obtains w ws ts t where "w \<in> live_ws s" and "s_workspaces s w = Some ws" and "ws_ring w s = Some ts"
    and "tp \<in> set ts" and "is_ring (s_tiles s) ts" and "s_tiles s tp = Some t" and "tile_ok w (w_views ws) t"
proof -
  from t obtain w where w: "w \<in> set (all_ws s)" "tp \<in> set (the (ws_ring w s))" by (auto simp: all_tiles_def)
  then have live: "w \<in> live_ws s" using set_all_ws [OF ok] by simp
  obtain ws where ws: "s_workspaces s w = Some ws" using live_ws_ok [OF ok live] by metis
  obtain ts where "ws_ring w s = Some ts" "is_ring (s_tiles s) ts"
    "\<forall>t \<in> set ts. \<exists>tl. s_tiles s t = Some tl \<and> tile_ok w (w_views ws) tl"
    using live_ws_ring [OF ok live ws] by metis
  with w(2) live ws that show thesis by (metis option.sel)
qed

section \<open>Tiles\<close>

lemma is_ring_rotate_to:
  assumes "is_ring h ts" and "t \<in> set ts"
  obtains us where "is_ring h us" and "hd us = t" and "set us = set ts"
proof -
  obtain xs ys where ts: "ts = xs @ t # ys" using assms(2) by (auto simp: in_set_conv_decomp)
  then have "is_ring h ((t # ys) @ xs)" using assms(1) is_ring_rotate [of h xs "t # ys"] by simp
  with ts show thesis by (intro that [of "(t # ys) @ xs"]) auto
qed

definition set_focused :: "ws_ptr \<Rightarrow> tile_ptr \<Rightarrow> cg_server \<Rightarrow> cg_server" where
  "set_focused w tp s =
     s\<lparr>s_workspaces := (s_workspaces s)(w := map_option (\<lambda>ws. ws\<lparr>w_focused_tile := Some tp\<rparr>) (s_workspaces s w))\<rparr>"

lemma server_ok_set_focused:
  assumes ok: "server_ok s" and w: "w \<in> live_ws s" and ts: "ws_ring w s = Some ts" "tp \<in> set ts"
  shows "server_ok (set_focused w tp s)"
proof -
  obtain ws where ws: "s_workspaces s w = Some ws" using live_ws_ok [OF ok w] by metis
  obtain r: "is_ring (s_tiles s) ts" and a: "\<forall>t \<in> set ts. \<exists>tl. s_tiles s t = Some tl \<and> tile_ok w (w_views ws) tl"
    using live_ws_ring [OF ok w ws] ts(1) by (metis option.sel)
  obtain us where us: "is_ring (s_tiles s) us" "hd us = tp" "set us = set ts" using is_ring_rotate_to [OF r ts(2)] .
  have "ws_ok (s_tiles s) (s_views s) p j w (ws\<lparr>w_focused_tile := Some tp\<rparr>)"
    if "ws_ok (s_tiles s) (s_views s) p j w ws" for p j
  proof -
    have "\<exists>ts. Some tp = Some (hd ts) \<and> is_ring (s_tiles s) ts \<and>
        (\<forall>t \<in> set ts. \<exists>tl. s_tiles s t = Some tl \<and> tile_ok w (w_views ws) tl)"
      using us a by (intro exI [of _ us]) simp
    with that show ?thesis by (simp add: ws_ok_def)
  qed
  from server_ok_workspace [OF ok ws this] ws show ?thesis by (simp add: set_focused_def)
qed

lemma workspace_focus_tile_ok:
  assumes "s_workspaces s w \<noteq> None" and "s_tiles s tp \<noteq> None"
  obtains c where "workspace_focus_tile w tp s = Some (emit c (set_focused w tp s))"
  using assms by (auto simp: workspace_focus_tile_def upd_ws_def set_focused_def emit_def Let_def)

lemma curr_ws_of_parts:
  "curr_ws_of p s =
     (case (out_wss (s_outs s) p, out_curr (s_outs s) p) of
        (Some wss, Some i) \<Rightarrow> if 0 \<le> i \<and> nat i < length wss then Some (wss ! nat i) else None
      | _ \<Rightarrow> None)"
  by (cases "s_outs s p") (auto simp: curr_ws_of_def ws_at_def out_wss_def out_curr_def split: option.split)

lemma small_word:
  assumes "j < unat (n :: u16)"
  shows "sint (of_nat j :: u32) = int j" and "uint (of_nat j :: u32) = int j"
proof -
  have "unat n < 2 ^ 16" using unsigned_less [of n] by simp
  then have j: "j < 65536" using assms by simp
  then show "sint (of_nat j :: u32) = int j"
    by (simp add: signed_of_nat signed_take_bit_int_eq_self)
  show "uint (of_nat j :: u32) = int j"
    using j by (simp add: unsigned_of_nat take_bit_nat_eq_self)
qed

lemma set_curr_ws_same: "out_curr (s_outs s) p = Some i \<Longrightarrow> set_curr_ws p i s = s"
  by (cases "s_outs s p") (auto simp: set_curr_ws_def out_curr_def fun_upd_idem)

lemma same_place_parts:
  assumes "same_place s s'"
  shows "out_wss (s_outs s') = out_wss (s_outs s)" and "out_curr (s_outs s') = out_curr (s_outs s)"
    and "s_curr_output s' = s_curr_output s" and "s_tiles s' = s_tiles s" and "s_outputs s' = s_outputs s"
    and "s_nws s' = s_nws s"
  using assms outs_sim_parts by (auto simp: same_place_def)

lemma same_place_set_curr_ws:
  assumes "same_place s s'"
  shows "same_place (set_curr_ws p i s) (set_curr_ws p i s')"
proof -
  have "map_option strip_lb (map_option (\<lambda>out. out\<lparr>o_curr_workspace := i\<rparr>) (s_outs s' q))
      = map_option strip_lb (map_option (\<lambda>out. out\<lparr>o_curr_workspace := i\<rparr>) (s_outs s q))" for q
  proof -
    have "map_option strip_lb (s_outs s' q) = map_option strip_lb (s_outs s q)"
      using assms by (simp add: same_place_def outs_sim_def)
    then have "map_option (\<lambda>out. out\<lparr>o_curr_workspace := i\<rparr>) (map_option strip_lb (s_outs s' q)) =
        map_option (\<lambda>out. out\<lparr>o_curr_workspace := i\<rparr>) (map_option strip_lb (s_outs s q))" by simp
    moreover have "strip_lb (out\<lparr>o_curr_workspace := i\<rparr>) = (strip_lb out)\<lparr>o_curr_workspace := i\<rparr>" for out
      by (cases out) (simp add: strip_lb_def)
    ultimately show ?thesis by (simp add: option.map_comp comp_def)
  qed
  with assms show ?thesis by (simp add: same_place_def set_curr_ws_def outs_sim_def)
qed

text \<open>Going to the workspace \<open>w\<close>, number \<open>j\<close> of the output \<open>q\<close>, as \<^verbatim>\<open>keybinding_focus_tile\<close> does.\<close>

lemma goto_ws_ok:
  assumes ok: "server_ok s" and p: "s_curr_output s = Some p" and q: "q \<in> set (s_outputs s)"
    and wss: "out_wss (s_outs s) q = Some wss" and j: "j < length wss"
  obtains s1 cout s2 where "(if p \<noteq> q then set_output q s else Some s) = Some s1"
    and "s_curr_output s1 = Some q" and "s_outs s1 q = Some cout"
    and "(if o_curr_workspace cout \<noteq> sint (of_nat j :: u32)
          then map_option snd (keybinding_switch_ws (of_nat j) s1) else Some s1) = Some s2"
    and "server_ok s2" and "same_place (set_curr_ws q (int j) (s\<lparr>s_curr_output := Some q\<rparr>)) s2"
    and "curr_ws s2 = Some (wss ! j)"
proof -
  obtain s1 where s1: "(if p \<noteq> q then set_output q s else Some s) = Some s1" "server_ok s1"
    "same_place (s\<lparr>s_curr_output := Some q\<rparr>) s1"
  proof (cases "p = q")
    case True
    with ok p show thesis by (intro that [of s]) (simp_all add: same_place_def)
  next
    case False
    obtain s1 where "set_output q s = Some s1" "server_ok s1" "same_place (s\<lparr>s_curr_output := Some q\<rparr>) s1"
      using set_output_ok [OF ok q] .
    with False show thesis by (intro that [of s1]) simp_all
  qed
  have parts1: "out_wss (s_outs s1) = out_wss (s_outs s)" "s_curr_output s1 = Some q"
    "s_outputs s1 = s_outputs s" "s_nws s1 = s_nws s"
    using same_place_parts [OF s1(3)] by simp_all
  have "out_ok s q" using ok q by (simp add: server_ok_def)
  then have jn: "j < unat (s_nws s)" using wss j by (auto simp: out_ok_def)
  note num = small_word [OF jn]
  obtain cout where cout: "s_outs s1 q = Some cout" using outputs_alive [OF s1(2), of q] q parts1(3) by auto
  obtain s2 where s2: "(if o_curr_workspace cout \<noteq> sint (of_nat j :: u32)
          then map_option snd (keybinding_switch_ws (of_nat j) s1) else Some s1) = Some s2" "server_ok s2"
    "same_place (set_curr_ws q (int j) s1) s2"
  proof (cases "o_curr_workspace cout = int j")
    case True
    then have "set_curr_ws q (int j) s1 = s1" using cout by (intro set_curr_ws_same) (simp add: out_curr_def)
    then show thesis using s1(2) True by (intro that [of s1]) (simp_all only: num simp_thms if_False same_place_refl)
  next
    case False
    obtain r s' where s': "keybinding_switch_ws (of_nat j) s1 = Some (r, s')" "server_ok s'"
      "if uint (of_nat j :: u32) < uint (s_nws s1)
         then r = 0 \<and> focus_ok s' \<and> same_place (set_curr_ws q (uint (of_nat j :: u32)) s1) s' else r = - 1 \<and> s' = s1"
      using switch_ws_ok [OF s1(2) parts1(2)] .
    have "int j < uint (s_nws s)" unfolding uint_nat using jn by (simp only: of_nat_less_iff)
    then have "uint (of_nat j :: u32) < uint (s_nws s1)" by (simp only: num parts1(4))
    then have "same_place (set_curr_ws q (int j) s1) s'" using s'(3) by (simp only: num if_True)
    with s'(1,2) False show thesis by (intro that [of s']) (simp_all only: num not_False_eq_True if_True option.map snd_conv)
  qed
  have sp: "same_place (set_curr_ws q (int j) (s\<lparr>s_curr_output := Some q\<rparr>)) s2"
    using same_place_trans [OF same_place_set_curr_ws [OF s1(3)] s2(3)] .
  have "curr_ws_of q s2 = Some (wss ! j)"
    using same_place_parts(1,2) [OF s2(3)] wss j parts1(1) cout
    by (simp add: curr_ws_of_parts set_curr_ws_parts)
  moreover have "s_curr_output s2 = Some q"
    using same_place_parts(3) [OF s2(3)] parts1(2) by (simp add: set_curr_ws_def)
  ultimately show thesis
    by (intro that [OF s1(1) parts1(2) cout s2(1,2) sp]) (simp add: curr_ws_def)
qed

lemma server_ok_old_tile:
  "server_ok s \<Longrightarrow> curr_tile s = Some tp \<Longrightarrow> s_tiles s tp \<noteq> None"
  by (metis option.distinct(1) option.sel server_ok_curr_tile)

lemma focus_tile_event_ok:
  assumes ok: "server_ok s" and w: "w \<in> live_ws s" and p: "s_outs s p \<noteq> None" and old: "s_tiles s old \<noteq> None"
    and tp: "s_tiles s tp = Some t" "t_workspace t = Some tw" "tw \<in> live_ws s"
  obtains a where "focus_tile_event p w old tp s = Some (ipc_send_event ''focus_tile'' a s)"
proof -
  obtain ws where ws: "s_workspaces s w = Some ws" using live_ws_ok [OF ok w] by metis
  obtain tws where tws: "s_workspaces s tw = Some tws" using live_ws_ok [OF ok tp(3)] by metis
  obtain ft ftile where ft: "focused_tile_of tw s = Some ft" "s_tiles s ft = Some ftile"
    and o: "s_outs s (w_output tws) \<noteq> None"
    by (rule live_wsD [OF ok tp(3) tws]) (rule that)
  obtain a where a: "output_event_args ''old_output'' ''old_output_id'' p s = Some a"
    using output_event_args_total [OF ok p] by blast
  obtain b where b: "output_event_args ''output'' ''output_id'' (w_output tws) s = Some b"
    using output_event_args_total [OF ok o] by blast
  obtain ot where ot: "s_tiles s old = Some ot" using old by auto
  let ?x = "[(''old_tile_id'', d32 (t_id ot)), (''new_tile_id'', d32 (t_id ftile)),
    (''old_workspace'', d32 (w_num ws + 1)), (''new_workspace'', d32 (w_num tws + 1))] @ a @ b"
  have "focus_tile_event p w old tp s = Some (ipc_send_event ''focus_tile'' ?x s)"
    by (simp add: focus_tile_event_def ws tws ft a b ot tp(1,2))
  then show thesis by (rule that)
qed

lemma live_ws_num:
  assumes "server_ok s" and "w \<in> live_ws s" and "s_workspaces s w = Some ws"
  obtains wss j where "w_output ws \<in> set (s_outputs s)" and "out_wss (s_outs s) (w_output ws) = Some wss"
    and "j < length wss" and "w = wss ! j" and "w_num ws = of_nat j"
proof -
  obtain p wss j ws' where "p \<in> set (s_outputs s)" "out_wss (s_outs s) p = Some wss" "j < length wss" "w = wss ! j"
    "s_workspaces s w = Some ws'" "ws_ok (s_tiles s) (s_views s) p j w ws'"
    using live_ws_ok [OF assms(1,2)] by metis
  with assms(3) show thesis by (intro that [of wss j]) (auto simp: ws_ok_def)
qed

lemma ws_ring_same:
  assumes "server_ok s" and "server_ok s'" and "w \<in> live_ws s" and "ws_ring w s = Some ts"
    and "s_tiles s' = s_tiles s" and "focused_tile_of w s' = focused_tile_of w s"
  shows "ws_ring w s' = Some ts"
proof -
  obtain ws where ws: "s_workspaces s w = Some ws" using live_ws_ok [OF assms(1,3)] by metis
  obtain "is_ring (s_tiles s) ts" "focused_tile_of w s = Some (hd ts)"
    using live_ws_ring [OF assms(1,3) ws] assms(4) by (metis option.sel)
  moreover have "ts = hd ts # tl ts" using calculation(1) by (cases ts) (simp_all add: is_ring_def)
  moreover have "tiles_below_brk s'" using assms(2) by (simp add: server_ok_def)
  ultimately show ?thesis
    using ring_of_ring [of s' "hd ts" "tl ts"] assms(5,6) by (simp add: ws_ring_def)
qed

lemma focus_tile_found_ok:
  assumes ok: "server_ok s" and r: "tile_from_id tid s = Some (Some tp)"
  obtains s' where "keybinding_focus_tile tid s = Some s'" and "server_ok s'" and "focus_ok s'"
    and "curr_tile s' = Some tp" and "s_tiles s' = s_tiles s" and "live_ws s' = live_ws s"
proof -
  have "tp \<in> set (all_tiles s)" using r tile_from_id_find [OF ok] find_in by force
  then obtain tw tws ts t where tw: "tw \<in> live_ws s" "s_workspaces s tw = Some tws" "ws_ring tw s = Some ts"
    "tp \<in> set ts" and t: "s_tiles s tp = Some t" "tile_ok tw (w_views tws) t"
    using all_tiles_live [OF ok] by metis
  have twt: "t_workspace t = Some tw" using t(2) by (simp add: tile_ok_def)
  let ?q = "w_output tws"
  obtain wss j where q: "?q \<in> set (s_outputs s)" "out_wss (s_outs s) ?q = Some wss" "j < length wss" "tw = wss ! j"
    "w_num tws = of_nat j"
    using live_ws_num [OF ok tw(1,2)] .
  obtain p w ws ts0 where p: "s_curr_output s = Some p" "s_outs s p \<noteq> None" "curr_ws_of p s = Some w" "curr_ws s = Some w"
    "w \<in> live_ws s" "focused_tile_of w s = Some (hd ts0)" "curr_tile s = Some (hd ts0)"
    using server_ok_curr [OF ok] by metis
  obtain s1 cout s2 where s1: "(if p \<noteq> ?q then set_output ?q s else Some s) = Some s1" "s_curr_output s1 = Some ?q"
      "s_outs s1 ?q = Some cout"
    and s2: "(if o_curr_workspace cout \<noteq> sint (of_nat j :: u32)
          then map_option snd (keybinding_switch_ws (of_nat j) s1) else Some s1) = Some s2"
      "server_ok s2" "same_place (set_curr_ws ?q (int j) (s\<lparr>s_curr_output := Some ?q\<rparr>)) s2" "curr_ws s2 = Some (wss ! j)"
    using goto_ws_ok [OF ok p(1) q(1-3)] .
  have T2: "s_tiles s2 = s_tiles s" using same_place_parts(4) [OF s2(3)] by (simp add: set_curr_ws_def)
  have live2: "live_ws s2 = live_ws s"
    using same_place_live [OF s2(3)] by (simp add: live_ws_def set_curr_ws_parts) (simp add: set_curr_ws_def)
  have foc2: "focused_tile_of x s2 = focused_tile_of x s" for x
    using same_place_focused [OF s2(3), of x] by (simp add: focused_tile_of_def set_curr_ws_def)
  have alive2: "s_outs s2 x \<noteq> None" if "s_outs s x \<noteq> None" for x
    using that by (intro same_place_alive [OF s2(3)]) (auto simp: set_curr_ws_def)
  have ring2: "ws_ring tw s2 = Some ts"
    using ws_ring_same [OF ok s2(2) tw(1,3)] T2 foc2 by simp
  have live_tw: "tw \<in> live_ws s2" "w \<in> live_ws s2" using live2 tw(1) p(5) by simp_all
  obtain tws2 where W2: "s_workspaces s2 tw = Some tws2" using live_ws_ok [OF s2(2) live_tw(1)] by metis
  have alive_tp: "s_tiles s2 tp \<noteq> None" using t(1) T2 by simp
  obtain c where c: "workspace_focus_tile tw tp s2 = Some (emit c (set_focused tw tp s2))"
    using workspace_focus_tile_ok [of s2 tw tp] W2 alive_tp by auto
  let ?s3 = "emit c (set_focused tw tp s2)"
  have ok3: "server_ok ?s3" using server_ok_set_focused [OF s2(2) live_tw(1) ring2 tw(4)] by simp
  have tile3: "s_tiles ?s3 tp = Some t" using t(1) T2 by (simp add: set_focused_def)
  have ct3: "curr_tile ?s3 = Some tp"
    using s2(4) q(4) W2 by (simp add: curr_tile_def curr_ws_def curr_ws_of_def focused_tile_of_def set_focused_def)
  obtain s4 where s4: "seat_set_focus (t_view t) ?s3 = Some s4" "server_ok s4" "same_place ?s3 s4"
    "se_focused_view (s_seat s4) = t_view t" using refocus_ok [OF ok3 ct3 tile3] .
  have T4: "s_tiles s4 = s_tiles s" using same_place_parts(4) [OF s4(3)] T2 by (simp add: set_focused_def)
  have live4: "live_ws s4 = live_ws s" using same_place_live [OF s4(3)] live2 by (simp add: live_ws_def set_focused_def)
  have "s_outs s4 p \<noteq> None"
    using alive2 [OF p(2)] by (intro same_place_alive [OF s4(3)]) (simp add: set_focused_def)
  moreover have "s_tiles s4 (hd ts0) \<noteq> None" using server_ok_old_tile [OF ok p(7)] T4 by simp
  moreover have "s_tiles s4 tp = Some t" "tw \<in> live_ws s4" "w \<in> live_ws s4" using t(1) T4 live4 tw(1) p(5) by simp_all
  ultimately obtain a where a: "focus_tile_event p w (hd ts0) tp s4 = Some (ipc_send_event ''focus_tile'' a s4)"
    using focus_tile_event_ok [OF s4(2)] twt by metis
  have step: "keybinding_focus_tile tid s = Some (ipc_send_event ''focus_tile'' a s4)"
    using p(1,3,6) r t(1) twt tw(2) s1 s2(1) [folded q(5)] c tile3 s4(1) a
    by (simp add: keybinding_focus_tile_def split del: if_split)
  show thesis
    using s4(2) refocus_focus_ok [OF ct3 tile3 s4(3,4)] same_place_curr_tile [OF s4(3)] ct3 T4 live4
      same_place_curr_tile [of s4 "ipc_send_event ''focus_tile'' a s4"] same_place_live [of s4 "ipc_send_event ''focus_tile'' a s4"]
    by (intro that [OF step]) (simp_all, simp add: ipc_send_event_def)
qed

lemma focus_tile_ok:
  assumes ok: "server_ok s"
  obtains s' where "keybinding_focus_tile tid s = Some s'" and "server_ok s'" and "s_tiles s' = s_tiles s"
    and "live_ws s' = live_ws s" and "case List.find (\<lambda>t. t_id (the (s_tiles s t)) = tid) (all_tiles s) of
           None \<Rightarrow> s' = s | Some tp \<Rightarrow> focus_ok s' \<and> curr_tile s' = Some tp"
proof (cases "List.find (\<lambda>t. t_id (the (s_tiles s t)) = tid) (all_tiles s)")
  case None
  obtain p w ts where "s_curr_output s = Some p" "curr_ws_of p s = Some w" "focused_tile_of w s = Some (hd ts)"
    using server_ok_curr [OF ok] by metis
  then have "keybinding_focus_tile tid s = Some s"
    using None tile_from_id_find [OF ok, of tid] by (simp add: keybinding_focus_tile_def)
  with None ok show thesis by (intro that [of s]) simp_all
next
  case (Some tp)
  then have "tile_from_id tid s = Some (Some tp)" using tile_from_id_find [OF ok, of tid] by simp
  from focus_tile_found_ok [OF ok this] obtain s' where "keybinding_focus_tile tid s = Some s'" "server_ok s'"
    "focus_ok s'" "curr_tile s' = Some tp" "s_tiles s' = s_tiles s" "live_ws s' = live_ws s" .
  with Some show thesis by (intro that [of s']) simp_all
qed

definition tile_ids_unique :: "cg_server \<Rightarrow> bool" where
  "tile_ids_unique s \<longleftrightarrow> inj_on (\<lambda>t. t_id (the (s_tiles s t))) (set (all_tiles s))"

lemma find_unique:
  assumes "inj_on f (set xs)" and "x \<in> set xs"
  shows "List.find (\<lambda>y. f y = f x) xs = Some x"
proof (cases "List.find (\<lambda>y. f y = f x) xs")
  case None
  with assms(2) show ?thesis by (auto simp: find_None_iff)
next
  case (Some y)
  with find_in [OF Some] assms show ?thesis by (auto dest: inj_onD)
qed

lemma ring_in_all_tiles:
  assumes "server_ok s" and "w \<in> live_ws s" and "ws_ring w s = Some ts"
  shows "set ts \<subseteq> set (all_tiles s)"
  using assms set_all_ws [OF assms(1)] by (force simp: all_tiles_def)

lemma curr_ring:
  assumes ok: "server_ok s"
  obtains w ts where "curr_ws s = Some w" and "w \<in> live_ws s" and "ws_ring w s = Some ts"
    and "curr_tile s = Some (hd ts)" and "is_ring (s_tiles s) ts" and "hd ts \<in> set ts"
proof -
  obtain w ws where w: "curr_ws s = Some w" "w \<in> live_ws s" "s_workspaces s w = Some ws"
    using server_ok_curr [OF ok] by metis
  obtain ts where "ws_ring w s = Some ts" "is_ring (s_tiles s) ts" "focused_tile_of w s = Some (hd ts)" "hd ts \<in> set ts"
    using live_ws_ring [OF ok w(2,3)] by metis
  with w show thesis by (intro that) (simp_all add: curr_tile_def)
qed

lemma ring_neighbour:
  assumes "is_ring h ts" and "t \<in> set ts"
  obtains tl n where "h t = Some tl" and "(if r then t_prev tl else t_next tl) = Some n" and "n \<in> set ts"
  using is_ring_in_dom [OF assms] by (cases r) auto

lemma cycle_tiles_ok:
  assumes ok: "server_ok s"
  obtains s' tp t n where "keybinding_cycle_tiles r s = Some s'" and "server_ok s'" and "focus_ok s'"
    and "s_tiles s' = s_tiles s" and "live_ws s' = live_ws s"
    and "curr_tile s = Some tp" and "s_tiles s tp = Some t" and "(if r then t_prev t else t_next t) = Some n"
    and "tile_ids_unique s \<longrightarrow> curr_tile s' = Some n"
proof -
  obtain w ts where w: "w \<in> live_ws s" "ws_ring w s = Some ts" "curr_tile s = Some (hd ts)"
    "is_ring (s_tiles s) ts" "hd ts \<in> set ts" using curr_ring [OF ok] by metis
  obtain t n where t: "s_tiles s (hd ts) = Some t" "(if r then t_prev t else t_next t) = Some n" "n \<in> set ts"
    using ring_neighbour [OF w(4,5)] .
  have n: "n \<in> set (all_tiles s)" using ring_in_all_tiles [OF ok w(1,2)] t(3) by auto
  obtain nt where nt: "s_tiles s n = Some nt" using is_ring_in_dom [OF w(4) t(3)] by auto
  let ?find = "List.find (\<lambda>x. t_id (the (s_tiles s x)) = t_id nt) (all_tiles s)"
  obtain s' where s': "keybinding_focus_tile (t_id nt) s = Some s'" "server_ok s'" "s_tiles s' = s_tiles s"
    "live_ws s' = live_ws s" "case ?find of None \<Rightarrow> s' = s | Some tp \<Rightarrow> focus_ok s' \<and> curr_tile s' = Some tp"
    using focus_tile_ok [OF ok] .
  have "?find \<noteq> None" using n nt by (auto simp: find_None_iff)
  moreover have "tile_ids_unique s \<Longrightarrow> ?find = Some n"
    using find_unique [of "\<lambda>x. t_id (the (s_tiles s x))" "all_tiles s" n] n nt by (simp add: tile_ids_unique_def)
  moreover have "keybinding_cycle_tiles r s = Some s'"
    using w(3) t nt s'(1) by (cases r) (simp_all add: keybinding_cycle_tiles_def)
  ultimately show thesis using s' w(3) t by (intro that [of s' "hd ts" t n]) auto
qed

end
