(* ===== verification/Tiling_Inv.thy ===== *)
theory Tiling_Inv
  imports Switching_Inv
begin

text \<open>
  The actions on tiles: searching a neighbour, exchanging the views of two tiles, splitting,
  merging. Each keeps the invariant of the server; splitting and merging change the ring of tiles
  and the tiling of the screen as the geometry of \<open>Geometry\<close> says.
\<close>

section \<open>Showing a view, or none\<close>

lemma update_ok:
  assumes ok: "server_ok s" and t: "s_tiles s tp = Some t" and w: "t_workspace t = Some w" "w \<in> live_ws s"
    and ws: "s_workspaces s w = Some ws"
    and p: "\<And>p. vo = Some p \<Longrightarrow> p \<in> set (w_views ws) \<and> only_on tp p s"
  obtains s' where "workspace_tile_update_view tp vo s = Some s'" and "server_ok s'" and "same_rest s s'"
    and "s_tiles s' = (s_tiles s)(tp \<mapsto> t\<lparr>t_view := vo\<rparr>)" and "s_seat s' = s_seat s"
proof (cases vo)
  case None
  with hide_ok [OF ok t] that show thesis by metis
next
  case (Some q)
  have "q \<in> set (w_views ws)" "only_on tp q s" using p [OF Some] by auto
  from show_ok [OF ok t w ws this] obtain s' where "workspace_tile_update_view tp (Some q) s = Some s'"
    "server_ok s'" "same_rest s s'" "s_tiles s' = (s_tiles s)(tp \<mapsto> t\<lparr>t_view := Some q\<rparr>)" "s_seat s' = s_seat s" .
  with Some show thesis by (intro that [of s']) simp_all
qed

lemma same_rest_live: "same_rest s s' \<Longrightarrow> live_ws s' = live_ws s"
  using outs_sim_parts(1) [of "s_outs s" "s_outs s'"] by (simp add: same_rest_def live_ws_def)

lemma same_rest_ws: "same_rest s s' \<Longrightarrow> s_workspaces s' = s_workspaces s"
  by (simp add: same_rest_def)

lemma same_rest_curr_tile: "same_rest s s' \<Longrightarrow> curr_tile s' = curr_tile s"
proof -
  assume r: "same_rest s s'"
  have "curr_ws_of p s' = curr_ws_of p s" for p
    using r by (intro outs_sim_curr_ws_of) (simp add: same_rest_def)
  moreover have "s_curr_output s' = s_curr_output s" "s_workspaces s' = s_workspaces s"
    using r by (simp_all add: same_rest_def)
  ultimately show ?thesis by (simp add: curr_tile_def curr_ws_def focused_tile_of_def)
qed

section \<open>Exchanging the views of two tiles\<close>

lemma exchange_views_ok:
  assumes ok: "server_ok s" and t: "s_tiles s tp = Some t" and st: "s_tiles s sp = Some st" and ne: "sp \<noteq> tp"
    and w: "t_workspace t = Some w" "t_workspace st = Some w" "w \<in> live_ws s" and ws: "s_workspaces s w = Some ws"
    and in1: "\<And>v. t_view t = Some v \<Longrightarrow> v \<in> set (w_views ws)"
    and in2: "\<And>v. t_view st = Some v \<Longrightarrow> v \<in> set (w_views ws)"
  obtains s' where "exchange_views tp sp s = Some s'" and "server_ok s'" and "same_rest s s'"
    and "s_tiles s' = (s_tiles s)(tp \<mapsto> t\<lparr>t_view := t_view st\<rparr>, sp \<mapsto> st\<lparr>t_view := t_view t\<rparr>)"
    and "s_seat s' = s_seat s"
proof -
  have on: "only_on x v s" if "s_tiles s x = Some xt" "t_view xt = Some v" for x xt v
    using shown_only_on [OF server_ok_links(1) [OF ok] that] .
  obtain s1 where s1: "workspace_tile_update_view tp None s = Some s1" "server_ok s1" "same_rest s s1"
    "s_tiles s1 = (s_tiles s)(tp \<mapsto> t\<lparr>t_view := None\<rparr>)" "s_seat s1 = s_seat s"
    using update_ok [OF ok t w(1,3) ws, of None] by auto
  have W1: "s_workspaces s1 w = Some ws" "w \<in> live_ws s1"
    using same_rest_ws [OF s1(3)] same_rest_live [OF s1(3)] ws w(3) by simp_all
  have st1: "s_tiles s1 sp = Some st" using s1(4) st ne by simp
  have p1: "v \<in> set (w_views ws) \<and> only_on sp v s1" if "t_view t = Some v" for v
    using in1 that on [OF t that] by (auto simp: only_on_def s1(4))
  obtain s2 where s2: "workspace_tile_update_view sp (t_view t) s1 = Some s2" "server_ok s2" "same_rest s1 s2"
    "s_tiles s2 = (s_tiles s1)(sp \<mapsto> st\<lparr>t_view := t_view t\<rparr>)" "s_seat s2 = s_seat s1"
    using update_ok [OF s1(2) st1 w(2) W1(2,1) p1] .
  have W2: "s_workspaces s2 w = Some ws" "w \<in> live_ws s2"
    using same_rest_ws [OF s2(3)] same_rest_live [OF s2(3)] W1 by simp_all
  have t2: "s_tiles s2 tp = Some (t\<lparr>t_view := None\<rparr>)" using s1(4) s2(4) ne by simp
  have dist: "t_view t \<noteq> Some v" if "t_view st = Some v" for v
  proof
    assume "t_view t = Some v"
    with on [OF st that] t ne show False by (auto simp: only_on_def)
  qed
  have p2: "v \<in> set (w_views ws) \<and> only_on tp v s2" if "t_view st = Some v" for v
    using in2 that on [OF st that] dist [OF that] by (auto simp: only_on_def s1(4) s2(4))
  have w2: "t_workspace (t\<lparr>t_view := None\<rparr>) = Some w" using w(1) by simp
  obtain s3 where s3: "workspace_tile_update_view tp (t_view st) s2 = Some s3" "server_ok s3" "same_rest s2 s3"
    "s_tiles s3 = (s_tiles s2)(tp \<mapsto> t\<lparr>t_view := None\<rparr>\<lparr>t_view := t_view st\<rparr>)" "s_seat s3 = s_seat s2"
    using update_ok [OF s2(2) t2 w2 W2(2,1) p2] .
  have "exchange_views tp sp s = Some s3"
    using t st s1(1) s2(1) s3(1) by (simp add: exchange_views_def)
  moreover have "same_rest s s3" using same_rest_trans s1(3) s2(3) s3(3) by blast
  moreover have "s_tiles s3 = (s_tiles s)(tp \<mapsto> t\<lparr>t_view := t_view st\<rparr>, sp \<mapsto> st\<lparr>t_view := t_view t\<rparr>)"
    using ne by (simp add: s1(4) s2(4) s3(4) fun_upd_twist)
  ultimately show thesis using s3(2,5) s1(5) s2(5) by (intro that [of s3]) simp_all
qed

section \<open>The neighbour of a tile\<close>

text \<open>The search along the ring is a search in the list of the other tiles.\<close>

lemma find_tile_by_ring:
  assumes r: "is_ring (s_tiles s) (tp # us)" and b: "tiles_below_brk s"
  shows "find_tile_by P tp s =
    Some (List.find (\<lambda>u. P (t_box (the (s_tiles s tp))) (t_box (the (s_tiles s u)))) us)"
proof -
  obtain t where t: "s_tiles s tp = Some t" using is_ring_in_dom [OF r, of tp] by auto
  show ?thesis
  proof (cases us)
    case Nil
    with r t have "t_next t = Some tp" by (simp add: is_ring_single nxt_def)
    with t Nil show ?thesis by (simp add: find_tile_by_def)
  next
    case (Cons y ys)
    from r Cons have n: "nxt (s_tiles s) tp = Some y" "y \<noteq> tp" "tp \<notin> set ys" and sg: "seg (s_tiles s) (y # ys @ [tp])"
      by (auto simp: is_ring_def link_def)
    have len: "length ys < s_tile_brk s" using ring_length_le_brk [OF r b] Cons by simp
    have "s_tiles s (last (y # ys)) \<noteq> None"
      using is_ring_in_dom [OF r, of "last (y # ys)"] Cons by auto
    with ring_find_seg [OF sg n(3) len] n t Cons show ?thesis by (simp add: find_tile_by_def nxt_def)
  qed
qed

lemma ring_rotate_cons:
  assumes "is_ring h ts" and "t \<in> set ts"
  obtains us where "is_ring h (t # us)" and "set ts = set (t # us)" and "t \<notin> set us" and "mset ts = mset (t # us)"
proof -
  obtain xs ys where ts: "ts = xs @ t # ys" using assms(2) by (auto simp: in_set_conv_decomp)
  then have "is_ring h (t # ys @ xs)" using assms(1) is_ring_rotate [of h xs "t # ys"] by simp
  with ts assms(1) show thesis by (intro that [of "ys @ xs"]) (auto simp: is_ring_def)
qed

text \<open>Any of the four searches: total on the tiles of a workspace, and its result is one of them.\<close>

lemma find_tile_by_total:
  assumes ok: "server_ok s" and w: "w \<in> live_ws s" and ts: "ws_ring w s = Some ts" "tp \<in> set ts"
  obtains r where "find_tile_by P tp s = Some r" and "\<And>u. r = Some u \<Longrightarrow> u \<in> set ts \<and> u \<noteq> tp"
proof -
  obtain ws where ws: "s_workspaces s w = Some ws" using live_ws_ok [OF ok w] by metis
  have "is_ring (s_tiles s) ts" using live_ws_ring [OF ok w ws] ts(1) by (metis option.sel)
  then obtain us where us: "is_ring (s_tiles s) (tp # us)" "set ts = set (tp # us)" "tp \<notin> set us"
    using ring_rotate_cons ts(2) by metis
  have "tiles_below_brk s" using ok by (simp add: server_ok_def)
  from find_tile_by_ring [OF us(1) this] show thesis
    by (rule that) (use us find_in in \<open>force\<close>)
qed

definition is_finder :: "tile_finder \<Rightarrow> bool" where
  "is_finder find_tile \<longleftrightarrow> (\<exists>P. find_tile = find_tile_by P)"

lemma finders [simp]:
  "is_finder find_left_tile" "is_finder find_right_tile" "is_finder find_top_tile" "is_finder find_bottom_tile"
  by (auto simp: is_finder_def find_left_tile_def find_right_tile_def find_top_tile_def find_bottom_tile_def)

lemma finder_total:
  assumes "is_finder f" and "server_ok s" and "w \<in> live_ws s" and "ws_ring w s = Some ts" and "tp \<in> set ts"
  obtains r where "f tp s = Some r" and "\<And>u. r = Some u \<Longrightarrow> u \<in> set ts \<and> u \<noteq> tp"
  using assms find_tile_by_total [OF assms(2-5)] unfolding is_finder_def by metis

section \<open>Focusing a neighbour\<close>

lemma ring_tile:
  assumes ok: "server_ok s" and w: "w \<in> live_ws s" and ts: "ws_ring w s = Some ts" "tp \<in> set ts"
  obtains t ws where "s_tiles s tp = Some t" and "t_workspace t = Some w" and "s_workspaces s w = Some ws"
    and "\<And>v. t_view t = Some v \<Longrightarrow> v \<in> set (w_views ws)"
proof -
  obtain ws where ws: "s_workspaces s w = Some ws" using live_ws_ok [OF ok w] by metis
  have "\<forall>t \<in> set ts. \<exists>tl. s_tiles s t = Some tl \<and> tile_ok w (w_views ws) tl"
    using live_ws_ring [OF ok w ws] ts(1) by (metis option.sel)
  with ts(2) obtain t where "s_tiles s tp = Some t" "tile_ok w (w_views ws) t" by blast
  with ws show thesis by (intro that [of t ws]) (simp_all add: tile_ok_def)
qed

lemma focus_ring_tile_ok:
  assumes ok: "server_ok s" and w: "curr_ws s = Some w" and ts: "ws_ring w s = Some ts" "tp \<in> set ts"
    and t: "s_tiles s tp = Some t"
  obtains s1 s2 where "workspace_focus_tile w tp s = Some s1" and "s_tiles s1 = s_tiles s"
    and "seat_set_focus (t_view t) s1 = Some s2" and "server_ok s2" and "focus_ok s2" and "curr_tile s2 = Some tp"
    and "same_place (set_focused w tp s) s2"
proof -
  have live: "w \<in> live_ws s" using curr_ws_live [OF ok w] .
  have W: "s_workspaces s w \<noteq> None" using live_ws_ok [OF ok live] by (metis option.distinct(1))
  obtain c where c: "workspace_focus_tile w tp s = Some (emit c (set_focused w tp s))"
    using workspace_focus_tile_ok [OF W, of tp] t by auto
  let ?s1 = "emit c (set_focused w tp s)"
  have ok1: "server_ok ?s1" using server_ok_set_focused [OF ok live ts] by simp
  have t1: "s_tiles ?s1 tp = Some t" using t by (simp add: set_focused_def)
  have ct: "curr_tile ?s1 = Some tp"
    using w W by (auto simp: curr_tile_def curr_ws_def curr_ws_of_def focused_tile_of_def set_focused_def)
  obtain s2 where s2: "seat_set_focus (t_view t) ?s1 = Some s2" "server_ok s2" "same_place ?s1 s2"
    "se_focused_view (s_seat s2) = t_view t" using refocus_ok [OF ok1 ct t1] .
  have "same_place (set_focused w tp s) s2" using s2(3) by (simp add: same_place_def)
  then show thesis
    using c s2 refocus_focus_ok [OF ct t1 s2(3,4)] same_place_curr_tile [OF s2(3)] ct
    by (intro that [of ?s1 s2]) (simp_all add: set_focused_def)
qed

lemma curr_ring_at:
  assumes ok: "server_ok s" and tp: "curr_tile s = Some tp"
  obtains w ts where "curr_ws s = Some w" and "w \<in> live_ws s" and "ws_ring w s = Some ts" and "tp \<in> set ts"
proof -
  obtain w ts where "curr_ws s = Some w" "w \<in> live_ws s" "ws_ring w s = Some ts" "curr_tile s = Some (hd ts)" "hd ts \<in> set ts"
    using curr_ring [OF ok] by metis
  with tp show thesis by (intro that [of w ts]) simp_all
qed

lemma focus_neighbour_ok:
  assumes f: "is_finder find_tile" and ok: "server_ok s" and tp: "curr_tile s = Some tp"
  obtains r s' where "find_tile tp s = Some r" and "focus_tile find_tile tp s = Some s'" and "server_ok s'"
    and "case r of None \<Rightarrow> s' = s
         | Some u \<Rightarrow> focus_ok s' \<and> curr_tile s' = Some u \<and> s_tiles s' = s_tiles s \<and> live_ws s' = live_ws s"
proof -
  obtain w ts where w: "curr_ws s = Some w" "w \<in> live_ws s" "ws_ring w s = Some ts" "tp \<in> set ts"
    using curr_ring_at [OF ok tp] .
  obtain r where r: "find_tile tp s = Some r" "\<And>u. r = Some u \<Longrightarrow> u \<in> set ts \<and> u \<noteq> tp"
    using finder_total [OF f ok w(2-4)] by blast
  show thesis
  proof (cases r)
    case None
    with r ok show thesis by (intro that [of None s]) (simp_all add: focus_tile_def)
  next
    case (Some u)
    obtain t where t: "s_tiles s tp = Some t" "t_workspace t = Some w" using ring_tile [OF ok w(2-4)] by metis
    have u: "u \<in> set ts" using r(2) Some by simp
    obtain ut where ut: "s_tiles s u = Some ut" using ring_tile [OF ok w(2,3) u] by metis
    obtain s1 s2 where s2: "workspace_focus_tile w u s = Some s1" "s_tiles s1 = s_tiles s"
      "seat_set_focus (t_view ut) s1 = Some s2" "server_ok s2" "focus_ok s2" "curr_tile s2 = Some u"
      "same_place (set_focused w u s) s2" using focus_ring_tile_ok [OF ok w(1,3) u ut] .
    have "s_tiles s2 = s_tiles s" "live_ws s2 = live_ws s"
      using same_place_parts(4) [OF s2(7)] same_place_live [OF s2(7)] by (simp_all add: set_focused_def live_ws_def)
    with s2 r Some t ut show thesis by (intro that [of r s2]) (simp_all add: focus_tile_def)
  qed
qed

section \<open>Swapping\<close>

lemma ws_event_args_total:
  assumes "server_ok s" and "w \<in> live_ws s"
  obtains a where "ws_event_args w s = Some a"
proof -
  obtain ws where "s_workspaces s w = Some ws" "s_outs s (w_output ws) \<noteq> None"
    using live_ws_ok [OF assms] by metis
  moreover from this output_event_args_total [OF assms(1)] obtain a where
    "output_event_args ''output'' ''output_id'' (w_output ws) s = Some a" by blast
  ultimately show thesis by (intro that) (simp add: ws_event_args_def)
qed

lemma swap_event_ok:
  assumes ok: "server_ok s" and "s_tiles s tp = Some t" and "t_workspace t = Some w" and w: "w \<in> live_ws s"
    and "s_tiles s sp \<noteq> None"
  obtains a where "swap_event tp sp s = Some (ipc_send_event ''swap_tile'' a s)"
proof -
  obtain a where "ws_event_args w s = Some a" using ws_event_args_total [OF ok w] .
  moreover obtain st where "s_tiles s sp = Some st" using assms(5) by auto
  ultimately show thesis using assms(2,3)
    by (intro that [of "[(''tile_id'', d32 (t_id t)), (''swap_tile_id'', d32 (t_id st))] @ a"]) (simp add: swap_event_def)
qed

text \<open>After a swap the two tiles show each other's views; nothing else of any tile changes.\<close>

definition swapped_tiles :: "tile_ptr \<Rightarrow> tile_ptr \<Rightarrow> (tile_ptr \<rightharpoonup> cg_tile) \<Rightarrow> (tile_ptr \<rightharpoonup> cg_tile)" where
  "swapped_tiles a b T =
     (\<lambda>x. if x = a then map_option (\<lambda>t. t\<lparr>t_view := Option.bind (T b) t_view\<rparr>) (T a)
          else if x = b then map_option (\<lambda>t. t\<lparr>t_view := Option.bind (T a) t_view\<rparr>) (T b) else T x)"

lemma swap_stay_ok:
  assumes ok: "server_ok s" and w: "w \<in> live_ws s" and ts: "ws_ring w s = Some ts"
    and tp: "tp \<in> set ts" and sp: "sp \<in> set ts" and ne: "sp \<noteq> tp"
  obtains s' where "swap_tiles (Some tp) (Some sp) False s = Some s'" and "server_ok s'" and "focus_ok s'"
    and "s_tiles s' = swapped_tiles tp sp (s_tiles s)" and "curr_tile s' = curr_tile s" and "live_ws s' = live_ws s"
proof -
  obtain t ws where t: "s_tiles s tp = Some t" "t_workspace t = Some w" and ws: "s_workspaces s w = Some ws"
    and in1: "\<And>v. t_view t = Some v \<Longrightarrow> v \<in> set (w_views ws)" using ring_tile [OF ok w ts tp] by metis
  obtain st where st: "s_tiles s sp = Some st" "t_workspace st = Some w"
    and in2: "\<And>v. t_view st = Some v \<Longrightarrow> v \<in> set (w_views ws)" using ring_tile [OF ok w ts sp] ws by (metis option.sel)
  obtain s1 where s1: "exchange_views tp sp s = Some s1" "server_ok s1" "same_rest s s1"
    "s_tiles s1 = (s_tiles s)(tp \<mapsto> t\<lparr>t_view := t_view st\<rparr>, sp \<mapsto> st\<lparr>t_view := t_view t\<rparr>)" "s_seat s1 = s_seat s"
    using exchange_views_ok [OF ok t(1) st(1) ne t(2) st(2) w ws in1 in2] .
  obtain cp ct where cp: "curr_tile s1 = Some cp" "s_tiles s1 cp = Some ct" using server_ok_curr_tile [OF s1(2)] .
  obtain s2 where s2: "seat_set_focus (t_view ct) s1 = Some s2" "server_ok s2" "same_place s1 s2"
    "se_focused_view (s_seat s2) = t_view ct" using refocus_ok [OF s1(2) cp] .
  have T2: "s_tiles s2 = s_tiles s1" using same_place_parts(4) [OF s2(3)] .
  have L2: "live_ws s2 = live_ws s" using same_place_live [OF s2(3)] same_rest_live [OF s1(3)] by simp
  then have live2: "w \<in> live_ws s2" using w by simp
  have tp2: "s_tiles s2 tp = Some (t\<lparr>t_view := t_view st\<rparr>)" "s_tiles s2 sp \<noteq> None" using T2 s1(4) ne by simp_all
  obtain a where a: "swap_event tp sp s2 = Some (ipc_send_event ''swap_tile'' a s2)"
    using swap_event_ok [OF s2(2) tp2(1) _ live2 tp2(2)] t(2) by auto
  have "swap_tiles (Some tp) (Some sp) False s = Some (ipc_send_event ''swap_tile'' a s2)"
    using ne s1(1) cp s2(1) a by (simp add: swap_tiles_def)
  moreover have "s_tiles s2 = swapped_tiles tp sp (s_tiles s)"
    using T2 s1(4) t(1) st(1) ne by (auto simp: swapped_tiles_def)
  moreover have "curr_tile s2 = curr_tile s"
    using same_place_curr_tile [OF s2(3)] same_rest_curr_tile [OF s1(3)] by simp
  ultimately show thesis
    using s2(2) refocus_focus_ok [OF cp s2(3,4)] L2
      same_place_curr_tile [of s2 "ipc_send_event ''swap_tile'' a s2"] same_place_live [of s2 "ipc_send_event ''swap_tile'' a s2"]
    by (intro that [of "ipc_send_event ''swap_tile'' a s2"]) (simp_all, simp add: ipc_send_event_def)
qed

text \<open>The rings, and with them the lookup by id, only depend on the links and ids of the tiles.\<close>

lemma ws_ring_links:
  assumes ok: "server_ok s" and ok': "server_ok s'" and w: "w \<in> live_ws s" and ts: "ws_ring w s = Some ts"
    and T: "\<And>t. t \<in> set ts \<Longrightarrow> nxt (s_tiles s') t = nxt (s_tiles s) t \<and> prv (s_tiles s') t = prv (s_tiles s) t"
    and f: "focused_tile_of w s' = focused_tile_of w s"
  shows "ws_ring w s' = Some ts"
proof -
  obtain ws where ws: "s_workspaces s w = Some ws" using live_ws_ok [OF ok w] by metis
  have r: "is_ring (s_tiles s) ts" "focused_tile_of w s = Some (hd ts)"
    using live_ws_ring [OF ok w ws] ts by (metis option.sel)+
  then have "is_ring (s_tiles s') ts" using is_ring_cong [of ts "s_tiles s'" "s_tiles s"] T by simp
  moreover have "ts = hd ts # tl ts" using r(1) by (cases ts) (simp_all add: is_ring_def)
  moreover have "tiles_below_brk s'" using ok' by (simp add: server_ok_def)
  ultimately show ?thesis using ring_of_ring [of s' "hd ts" "tl ts"] r f by (simp add: ws_ring_def)
qed

lemma all_tiles_links:
  assumes ok: "server_ok s" and ok': "server_ok s'" and r: "same_rest s s'"
    and T: "\<And>t. nxt (s_tiles s') t = nxt (s_tiles s) t \<and> prv (s_tiles s') t = prv (s_tiles s) t"
  shows "all_tiles s' = all_tiles s"
proof -
  have ws: "all_ws s' = all_ws s"
    using r outs_sim_parts(1) [of "s_outs s" "s_outs s'"] by (simp add: all_ws_def same_rest_def)
  have "ws_ring w s' = ws_ring w s" if w: "w \<in> live_ws s" for w
  proof -
    obtain ws where "s_workspaces s w = Some ws" using live_ws_ok [OF ok w] by metis
    then obtain ts where ts: "ws_ring w s = Some ts" using live_ws_ring [OF ok w] by metis
    have "focused_tile_of w s' = focused_tile_of w s"
      using same_rest_ws [OF r] by (simp add: focused_tile_of_def)
    from ws_ring_links [OF ok ok' w ts T this] ts show ?thesis by simp
  qed
  then have "map (\<lambda>w. the (ws_ring w s')) (all_ws s) = map (\<lambda>w. the (ws_ring w s)) (all_ws s)"
    using set_all_ws [OF ok] by simp
  then show ?thesis using ws by (simp only: all_tiles_def)
qed

lemma swap_follow_ok:
  assumes ok: "server_ok s" and w: "w \<in> live_ws s" and ts: "ws_ring w s = Some ts"
    and tp: "tp \<in> set ts" and sp: "sp \<in> set ts" and ne: "sp \<noteq> tp" and ids: "tile_ids_unique s"
  obtains s' where "swap_tiles (Some tp) (Some sp) True s = Some s'" and "server_ok s'" and "focus_ok s'"
    and "s_tiles s' = swapped_tiles tp sp (s_tiles s)" and "curr_tile s' = Some sp"
proof -
  obtain t ws where t: "s_tiles s tp = Some t" "t_workspace t = Some w" and ws: "s_workspaces s w = Some ws"
    and in1: "\<And>v. t_view t = Some v \<Longrightarrow> v \<in> set (w_views ws)" using ring_tile [OF ok w ts tp] by metis
  obtain st where st: "s_tiles s sp = Some st" "t_workspace st = Some w"
    and in2: "\<And>v. t_view st = Some v \<Longrightarrow> v \<in> set (w_views ws)" using ring_tile [OF ok w ts sp] ws by (metis option.sel)
  obtain s1 where s1: "exchange_views tp sp s = Some s1" "server_ok s1" "same_rest s s1"
    "s_tiles s1 = (s_tiles s)(tp \<mapsto> t\<lparr>t_view := t_view st\<rparr>, sp \<mapsto> st\<lparr>t_view := t_view t\<rparr>)" "s_seat s1 = s_seat s"
    using exchange_views_ok [OF ok t(1) st(1) ne t(2) st(2) w ws in1 in2] .
  have L: "nxt (s_tiles s1) x = nxt (s_tiles s) x \<and> prv (s_tiles s1) x = prv (s_tiles s) x" for x
    using t(1) st(1) by (auto simp: s1(4) nxt_def prv_def)
  have at: "all_tiles s1 = all_tiles s" using all_tiles_links [OF ok s1(2,3) L] .
  have id: "t_id (the (s_tiles s1 x)) = t_id (the (s_tiles s x))" for x using t(1) st(1) by (auto simp: s1(4))
  have "sp \<in> set (all_tiles s)" using ring_in_all_tiles [OF ok w ts] sp by auto
  then have found: "List.find (\<lambda>x. t_id (the (s_tiles s1 x)) = t_id st) (all_tiles s1) = Some sp"
    using find_unique [of "\<lambda>x. t_id (the (s_tiles s x))" "all_tiles s" sp] ids st(1) by (simp add: at id tile_ids_unique_def)
  obtain s2 where s2: "keybinding_focus_tile (t_id st) s1 = Some s2" "server_ok s2" "s_tiles s2 = s_tiles s1"
    "live_ws s2 = live_ws s1"
    "case List.find (\<lambda>t. t_id (the (s_tiles s1 t)) = t_id st) (all_tiles s1) of
           None \<Rightarrow> s2 = s1 | Some tp \<Rightarrow> focus_ok s2 \<and> curr_tile s2 = Some tp"
    using focus_tile_ok [OF s1(2)] .
  have f2: "focus_ok s2" "curr_tile s2 = Some sp" using s2(5) by (simp_all add: found)
  have st1: "s_tiles s1 sp = Some (st\<lparr>t_view := t_view t\<rparr>)" by (simp add: s1(4))
  have w2: "w \<in> live_ws s2" using s2(4) same_rest_live [OF s1(3)] w by simp
  have tp2: "s_tiles s2 tp = Some (t\<lparr>t_view := t_view st\<rparr>)" "s_tiles s2 sp \<noteq> None" using s2(3) s1(4) ne by simp_all
  obtain a where a: "swap_event tp sp s2 = Some (ipc_send_event ''swap_tile'' a s2)"
    using swap_event_ok [OF s2(2) tp2(1) _ w2 tp2(2)] t(2) by auto
  have "swap_tiles (Some tp) (Some sp) True s = Some (ipc_send_event ''swap_tile'' a s2)"
    using ne s1(1) st1 s2(1) a by (simp add: swap_tiles_def)
  moreover have "s_tiles s2 = swapped_tiles tp sp (s_tiles s)"
    using s2(3) s1(4) t(1) st(1) ne by (auto simp: swapped_tiles_def)
  ultimately show thesis
    using s2(2) f2 by (intro that [of "ipc_send_event ''swap_tile'' a s2"])
      (simp_all add: ipc_send_event_def curr_tile_def curr_ws_def curr_ws_of_def focused_tile_of_def)
qed

end
