(* ===== verification/Split_Inv.thy ===== *)
theory Split_Inv
  imports Tiling_Inv
begin

text \<open>
  Splitting and merging tiles. Both keep the invariant of the server, change the ring of the
  workspace by one tile, and turn a tiling of the screen into a tiling of the screen; the
  neighbour that the searches of \<open>Tiles\<close> find is the tile on the other side of the edge.
\<close>

section \<open>Changing the ring of one workspace\<close>

lemma server_ok_one_ws:
  assumes ok: "server_ok s" and w: "w \<in> live_ws s" and ws: "s_workspaces s w = Some ws"
    and W: "w_output ws' = w_output ws" "w_num ws' = w_num ws" "w_unmanaged_views ws' = w_unmanaged_views ws"
      "set (w_views ws') = set (w_views ws)" "distinct (w_views ws')"
    and ring: "is_ring T ts" "w_focused_tile ws' = Some (hd ts)"
      "\<And>t. t \<in> set ts \<Longrightarrow> \<exists>tl. T t = Some tl \<and> tile_ok w (w_views ws) tl"
    and others: "\<And>t tl. s_tiles s t = Some tl \<Longrightarrow> t_workspace tl \<noteq> Some w \<Longrightarrow> T t = Some tl"
    and V: "\<And>v. rel_option (\<lambda>x x'. \<forall>w m. view_ok w m x' = view_ok w m x) (s_views s v) (V v)"
    and L: "links_ok T V"
    and F: "\<And>v. se_focused_view se = Some v \<Longrightarrow> s_views s v \<noteq> None"
    and C: "\<And>t. se_cursor_tile se = Some t \<Longrightarrow> (\<exists>tl w. T t = Some tl \<and> t_workspace tl = Some w \<and> w \<in> live_ws s)"
    and brk: "\<And>t. T t \<noteq> None \<Longrightarrow> t < b"
  shows "server_ok (s\<lparr>s_tiles := T, s_views := V, s_workspaces := (s_workspaces s)(w \<mapsto> ws'), s_seat := se,
      s_tile_brk := b, s_tiles_curr_id := i\<rparr>)" (is "server_ok ?s")
proof -
  have Vv: "\<exists>x'. V v = Some x' \<and> view_ok w m x'" if "\<exists>x. s_views s v = Some x \<and> view_ok w m x" for v w m
    using V [of v] that by (cases "V v") auto
  have live: "live_ws ?s = live_ws s" by (simp add: live_ws_def)
  have other: "ws_ok T V p j x xs" if x: "x \<noteq> w" "ws_ok (s_tiles s) (s_views s) p j x xs" for p j x xs
  proof -
    from ws_okD [OF x(2)] obtain us where us: "w_focused_tile xs = Some (hd us)" "is_ring (s_tiles s) us"
      "\<forall>t \<in> set us. \<exists>tl. s_tiles s t = Some tl \<and> tile_ok x (w_views xs) tl" by metis
    have same: "T t = s_tiles s t" if "t \<in> set us" for t
    proof -
      from us(3) that obtain tl where "s_tiles s t = Some tl" "t_workspace tl = Some x" by (auto simp: tile_ok_def)
      with others [of t tl] x(1) show ?thesis by simp
    qed
    then have "is_ring T us" using us(2) is_ring_cong [of us T "s_tiles s"] by (simp add: nxt_def prv_def)
    moreover have "\<forall>t \<in> set us. \<exists>tl. T t = Some tl \<and> tile_ok x (w_views xs) tl" using us(3) same by simp
    ultimately show ?thesis using x(2) us(1) Vv by (auto simp: ws_ok_def)
  qed
  have this_ws: "ws_ok T V p j w ws'" if "ws_ok (s_tiles s) (s_views s) p j w ws" for p j
  proof -
    have "\<exists>ts. w_focused_tile ws' = Some (hd ts) \<and> is_ring T ts \<and>
        (\<forall>t \<in> set ts. \<exists>tl. T t = Some tl \<and> tile_ok w (w_views ws') tl)"
      using ring W(4) by (intro exI [of _ ts]) (auto simp: tile_ok_def)
    with that W Vv show ?thesis by (auto simp: ws_ok_def)
  qed
  have "out_ok ?s p" if p: "p \<in> set (s_outputs s)" for p
  proof -
    have "out_ok s p" using ok p by (simp add: server_ok_def)
    then obtain wss i where o: "out_wss (s_outs s) p = Some wss" "out_curr (s_outs s) p = Some i"
      "length wss = unat (s_nws s)" "distinct wss" "0 \<le> i" "i < int (length wss)"
      and all: "\<And>j. j < length wss \<Longrightarrow> \<exists>ws. s_workspaces s (wss ! j) = Some ws \<and>
        ws_ok (s_tiles s) (s_views s) p j (wss ! j) ws"
      unfolding out_ok_def by blast
    have "\<exists>xs. ((s_workspaces s)(w \<mapsto> ws')) (wss ! j) = Some xs \<and> ws_ok T V p j (wss ! j) xs" if "j < length wss" for j
      using all [OF that] other this_ws ws by (cases "wss ! j = w") auto
    with o show ?thesis by (auto simp: out_ok_def)
  qed
  moreover have "seat_ok ?s"
  proof -
    have "V v \<noteq> None" if "s_views s v \<noteq> None" for v using V [of v] that by (cases "V v") auto
    with F C show ?thesis unfolding seat_ok_def live by simp
  qed
  moreover have "tiles_below_brk ?s" using brk by (auto simp: tiles_below_brk_def)
  ultimately show ?thesis using ok L by (simp add: server_ok_def)
qed

section \<open>The effect of a split\<close>

definition shown :: "view_ptr option \<Rightarrow> tile_ptr \<Rightarrow> cg_tile \<Rightarrow> (view_ptr \<rightharpoonup> cg_view) \<Rightarrow> (view_ptr \<rightharpoonup> cg_view)" where
  "shown vo tp t V = (case vo of None \<Rightarrow> V | Some p \<Rightarrow> V(p := map_option (maximized tp t) (V p)))"

text \<open>A view of the workspace \<open>w\<close> on an output that exists: what showing a view needs.\<close>

definition showable :: "view_ptr \<Rightarrow> ws_ptr \<Rightarrow> cg_server \<Rightarrow> bool" where
  "showable p w s \<longleftrightarrow>
     (\<exists>v ws c. s_views s p = Some v \<and> v_workspace v = Some w \<and> s_workspaces s w = Some ws \<and>
        s_outs s (w_output ws) \<noteq> None \<and> s_curr_output s = Some c \<and> s_outs s c \<noteq> None)"

lemma showable_same_rest:
  assumes "same_rest s s'" and "s_views s' p = Some v" and "v_workspace v = Some w" and "showable p w s"
  shows "showable p w s'"
  using assms outs_sim_None [of "s_outs s" "s_outs s'"] by (auto simp: showable_def same_rest_def)

lemma show_new:
  assumes t: "s_tiles s tp = Some t" "t_view t = None" and v: "\<And>p. vo = Some p \<Longrightarrow> showable p w s"
  obtains s' where "workspace_tile_update_view tp vo s = Some s'" and "same_rest s s'"
    and "s_tiles s' = (s_tiles s)(tp \<mapsto> t\<lparr>t_view := vo\<rparr>)"
    and "s_views s' = shown vo tp t (s_views s)" and "s_seat s' = s_seat s"
proof -
  have l: "s_views s q \<noteq> None" if "t_view t = Some q" for q using t(2) that by simp
  show thesis
proof (cases vo)
  case None
  obtain s' where "workspace_tile_update_view tp None s = Some s'" "same_rest s s'"
    "s_tiles s' = (s_tiles s)(tp \<mapsto> t\<lparr>t_view := None\<rparr>)"
    "s_views s' = (case t_view t of None \<Rightarrow> s_views s
           | Some v \<Rightarrow> (s_views s)(v \<mapsto> (the (s_views s v))\<lparr>v_tile := None\<rparr>))" "s_seat s' = s_seat s"
    using tile_update_none_ok [OF t(1) l] .
  with None t(2) show thesis by (intro that [of s']) (simp_all add: shown_def)
next
  case (Some p)
  from v [OF this] obtain vw ws c where "s_views s p = Some vw" "v_workspace vw = Some w" "s_workspaces s w = Some ws"
    "s_outs s (w_output ws) \<noteq> None" "s_curr_output s = Some c" "s_outs s c \<noteq> None" unfolding showable_def by blast
  note e = this
  obtain s' where "workspace_tile_update_view tp (Some p) s = Some s'" "same_rest s s'"
    "s_tiles s' = (s_tiles s)(tp \<mapsto> t\<lparr>t_view := Some p\<rparr>)"
    "s_views s' = (hide_view (t_view t) (s_views s))(p \<mapsto> maximized tp t vw)" "s_seat s' = s_seat s"
    using tile_update_some_ok [OF t(1) l e] .
  with Some t(2) e(1) show thesis by (intro that [of s']) (simp_all add: shown_def hide_view_def)
qed
qed

text \<open>The heap of tiles after a split of \<open>f\<close>, whose successor is \<open>b\<close>, with the new tile \<open>n\<close>.\<close>

definition split_tiles ::
    "tile_ptr \<Rightarrow> tile_ptr \<Rightarrow> tile_ptr \<Rightarrow> cg_tile \<Rightarrow> int \<Rightarrow> int \<Rightarrow> (tile_ptr \<rightharpoonup> cg_tile) \<Rightarrow> (tile_ptr \<rightharpoonup> cg_tile)" where
  "split_tiles f b n nt nw nh T =
     upd_heap f (\<lambda>t. t\<lparr>t_box := (t_box t)\<lparr>box_width := nw, box_height := nh\<rparr>\<rparr>)
       (upd_heap f (set_next (Some n)) (upd_heap b (set_prev (Some n)) (T(n \<mapsto> nt))))"

definition new_tile :: "tile_ptr \<Rightarrow> tile_ptr \<Rightarrow> ws_ptr \<Rightarrow> wlr_box \<Rightarrow> view_ptr option \<Rightarrow> u32 \<Rightarrow> cg_tile" where
  "new_tile f b w box vo i =
     \<lparr>t_workspace = Some w, t_box = box, t_view = vo, t_next = Some b, t_prev = Some f, t_id = i\<rparr>"

lemma upd_tile_heap: "s_tiles s p \<noteq> None \<Longrightarrow> upd_tile p f s = Some (s\<lparr>s_tiles := upd_heap p f (s_tiles s)\<rparr>)"
  by (auto simp: upd_tile_def upd_heap_def)

lemma split_tiles_eq:
  "T b = Some bt \<Longrightarrow> b \<noteq> n \<Longrightarrow> split_tiles b b n nt nw nh T =
     T(n \<mapsto> nt, b \<mapsto> bt\<lparr>t_prev := Some n, t_next := Some n, t_box := (t_box bt)\<lparr>box_width := nw, box_height := nh\<rparr>\<rparr>)"
  "T f = Some ft \<Longrightarrow> T b = Some bt \<Longrightarrow> f \<noteq> b \<Longrightarrow> f \<noteq> n \<Longrightarrow> b \<noteq> n \<Longrightarrow> split_tiles f b n nt nw nh T =
     T(n \<mapsto> nt, b \<mapsto> bt\<lparr>t_prev := Some n\<rparr>,
       f \<mapsto> ft\<lparr>t_next := Some n, t_box := (t_box ft)\<lparr>box_width := nw, box_height := nh\<rparr>\<rparr>)"
  by (simp_all add: split_tiles_def upd_heap_def set_next_def set_prev_def)

lemma split_insert_ok:
  assumes f: "s_tiles s f = Some ft" "t_next ft = Some b" "s_tiles s b \<noteq> None"
    and fresh: "s_tiles s (s_tile_brk s) = None" and v: "\<And>p. vo = Some p \<Longrightarrow> showable p w s"
  obtains s' where "split_insert w f box nw nh vo s = Some (s_tile_brk s, s')"
    and "same_rest (s\<lparr>s_tile_brk := Suc (s_tile_brk s), s_tiles_curr_id := s_tiles_curr_id s + 1\<rparr>) s'"
    and "s_tiles s' = split_tiles f b (s_tile_brk s) (new_tile f b w box vo (s_tiles_curr_id s)) nw nh (s_tiles s)"
    and "\<exists>t. t_box t = box \<and> s_views s' = shown vo (s_tile_brk s) t (s_views s)" and "s_seat s' = s_seat s"
proof -
  let ?n = "s_tile_brk s"
  let ?t = "\<lparr>t_workspace = None, t_box = box, t_view = None, t_next = Some b, t_prev = Some f, t_id = s_tiles_curr_id s\<rparr>"
  let ?s0 = "s\<lparr>s_tile_brk := Suc ?n, s_tiles_curr_id := s_tiles_curr_id s + 1\<rparr>"
  let ?s1 = "?s0\<lparr>s_tiles := (s_tiles s)(?n \<mapsto> ?t)\<rparr>"
  have nf: "f \<noteq> ?n" "b \<noteq> ?n" using f fresh by auto
  have "showable p w ?s1" if "vo = Some p" for p using v [OF that] by (simp add: showable_def)
  then obtain s2 where s2: "workspace_tile_update_view ?n vo ?s1 = Some s2" "same_rest ?s1 s2"
    "s_tiles s2 = (s_tiles ?s1)(?n \<mapsto> ?t\<lparr>t_view := vo\<rparr>)" "s_views s2 = shown vo ?n ?t (s_views ?s1)" "s_seat s2 = s_seat ?s1"
    using show_new [of ?s1 ?n ?t vo w] by auto
  let ?s3 = "s2\<lparr>s_tiles := split_tiles f b ?n (new_tile f b w box vo (s_tiles_curr_id s)) nw nh (s_tiles s)\<rparr>"
  obtain bt where bt: "s_tiles s b = Some bt" using f(3) by auto
  have "split_insert w f box nw nh vo s = Some (?n, ?s3)"
  proof (cases "f = b")
    case True
    then show ?thesis
      using f bt nf s2(1,3)
      by (simp add: split_tiles_eq new_tile_def split_insert_def calloc_tile_def Let_def upd_tile_def)
  next
    case False
    then show ?thesis
      using f bt nf s2(1,3)
      by (simp add: split_tiles_eq new_tile_def split_insert_def calloc_tile_def Let_def upd_tile_def)
  qed
  moreover have "same_rest ?s0 ?s3" using s2(2) by (simp add: same_rest_def)
  ultimately show thesis using s2(4,5) by (intro that [of ?s3]) (auto intro!: exI [of _ ?t])
qed

text \<open>Which views a workspace shows.\<close>

definition is_shown :: "view_ptr \<Rightarrow> cg_server \<Rightarrow> bool" where
  "is_shown p s \<longleftrightarrow> (\<exists>t tl. s_tiles s t = Some tl \<and> t_view tl = Some p)"

lemma view_get_tile_ok:
  assumes l: "links_ok (s_tiles s) (s_views s)" and v: "s_views s p = Some v"
  obtains r where "view_get_tile p s = Some r" and "r \<noteq> None \<longleftrightarrow> is_shown p s"
    and "\<And>t. r = Some t \<longleftrightarrow> (\<exists>tl. s_tiles s t = Some tl \<and> t_view tl = Some p)"
proof -
  have own: "v_tile v = Some t" if "s_tiles s t = Some tl" "t_view tl = Some p" for t tl
    using links_ok_view [OF l that] v by auto
  show thesis
  proof (cases "v_tile v")
    case None
    have no: "\<not> (\<exists>tl. s_tiles s t = Some tl \<and> t_view tl = Some p)" for t
    proof
      assume "\<exists>tl. s_tiles s t = Some tl \<and> t_view tl = Some p"
      then obtain tl where "s_tiles s t = Some tl" "t_view tl = Some p" by blast
      from own [OF this] None show False by simp
    qed
    then have "\<not> is_shown p s" by (simp add: is_shown_def)
    with None v no show thesis by (intro that [of None]) (simp_all add: view_get_tile_def)
  next
    case (Some t)
    have "s_tiles s t \<noteq> None" using l v Some unfolding links_ok_def by blast
    then obtain tl where tl: "s_tiles s t = Some tl" by auto
    let ?r = "if t_view tl = Some p then Some t else None"
    have r: "?r = Some t' \<longleftrightarrow> (\<exists>tl. s_tiles s t' = Some tl \<and> t_view tl = Some p)" for t'
    proof
      assume "?r = Some t'"
      then show "\<exists>tl. s_tiles s t' = Some tl \<and> t_view tl = Some p" using tl by (auto split: if_splits)
    next
      assume "\<exists>tl. s_tiles s t' = Some tl \<and> t_view tl = Some p"
      then obtain tl' where tl': "s_tiles s t' = Some tl'" "t_view tl' = Some p" by blast
      from own [OF this] Some have "t' = t" by simp
      with tl tl' show "?r = Some t'" by simp
    qed
    then have "?r \<noteq> None \<longleftrightarrow> is_shown p s" unfolding is_shown_def by (metis not_None_eq)
    with r show thesis using v Some tl by (intro that [of ?r]) (simp_all add: view_get_tile_def)
  qed
qed

lemma visible_shown:
  assumes l: "links_ok (s_tiles s) (s_views s)" and v: "s_views s p = Some v" "view_ok w True v"
  shows "view_is_visible p s = Some (is_shown p s)"
proof -
  obtain r where "view_get_tile p s = Some r" "r \<noteq> None \<longleftrightarrow> is_shown p s" using view_get_tile_ok [OF l v(1)] by metis
  with v show ?thesis by (auto simp: view_is_visible_def view_ok_def managed_view_def)
qed

lemma split_next_view_find:
  assumes "\<And>p. p \<in> set ps \<Longrightarrow> view_is_visible p s = Some (is_shown p s)"
  shows "split_next_view orig ps s = Some (List.find (\<lambda>p. \<not> is_shown p s \<and> orig \<noteq> Some p) ps)"
  using assms by (induction ps) auto

lemma maximize_shown:
  assumes t: "s_tiles s tp = Some t" and v: "\<And>p. vo = Some p \<Longrightarrow> showable p w s"
  obtains s' where "(case vo of None \<Rightarrow> Some s | Some p \<Rightarrow> view_maximize p tp s) = Some s'" and "same_rest s s'"
    and "s_tiles s' = s_tiles s" and "s_views s' = shown vo tp t (s_views s)" and "s_seat s' = s_seat s"
proof (cases vo)
  case None
  then show thesis by (intro that [of s]) (simp_all add: shown_def)
next
  case (Some p)
  from v [OF this] obtain vw ws c where e: "s_views s p = Some vw" "v_workspace vw = Some w" "s_workspaces s w = Some ws"
    "s_outs s (w_output ws) \<noteq> None" "s_curr_output s = Some c" "s_outs s c \<noteq> None" unfolding showable_def by blast
  obtain s' where "view_maximize p tp s = Some s'" "same_rest s s'" "s_tiles s' = s_tiles s"
    "s_views s' = (s_views s)(p \<mapsto> maximized tp t vw)" "s_seat s' = s_seat s" using view_maximize_ok [OF t e] .
  with Some e(1) show thesis by (intro that [of s']) (simp_all add: shown_def)
qed

text \<open>The views after \<open>vo\<close> was put on the tile \<open>n\<close>: only their \<^verbatim>\<open>tile\<close> and position may differ.\<close>

definition moved_to :: "view_ptr option \<Rightarrow> tile_ptr \<Rightarrow> (view_ptr \<rightharpoonup> cg_view) \<Rightarrow> (view_ptr \<rightharpoonup> cg_view) \<Rightarrow> bool" where
  "moved_to vo n V V' \<longleftrightarrow>
     (\<forall>x. rel_option (\<lambda>v v'. (\<forall>w m. view_ok w m v' = view_ok w m v) \<and>
            v_tile v' = (if vo = Some x then Some n else v_tile v)) (V x) (V' x))"

lemma moved_to_shown: "moved_to vo n V (shown vo n t V)"
  unfolding moved_to_def
proof
  fix x
  show "rel_option (\<lambda>v v'. (\<forall>w m. view_ok w m v' = view_ok w m v) \<and>
      v_tile v' = (if vo = Some x then Some n else v_tile v)) (V x) (shown vo n t V x)"
    by (cases "V x"; cases vo) (auto simp: shown_def)
qed

lemma moved_to_again: "moved_to vo n V V' \<Longrightarrow> moved_to vo n V (shown vo n t V')"
  unfolding moved_to_def
proof
  fix x
  assume "\<forall>x. rel_option (\<lambda>v v'. (\<forall>w m. view_ok w m v' = view_ok w m v) \<and>
      v_tile v' = (if vo = Some x then Some n else v_tile v)) (V x) (V' x)"
  from spec [OF this, of x] show "rel_option (\<lambda>v v'. (\<forall>w m. view_ok w m v' = view_ok w m v) \<and>
      v_tile v' = (if vo = Some x then Some n else v_tile v)) (V x) (shown vo n t V' x)"
    by (cases "V x"; cases "V' x"; cases vo) (auto simp: shown_def)
qed

text \<open>Showing a view again where it is shown already.\<close>

lemma moved_to_refresh:
  assumes m: "moved_to vo n V V'" and ne: "vo \<noteq> Some p" and p: "\<exists>v. V p = Some v \<and> v_tile v = Some f"
  shows "moved_to vo n V (shown (Some p) f t V')"
  unfolding moved_to_def
proof
  fix x
  from m [unfolded moved_to_def, THEN spec, of x] p ne
  show "rel_option (\<lambda>v v'. (\<forall>w m. view_ok w m v' = view_ok w m v) \<and>
      v_tile v' = (if vo = Some x then Some n else v_tile v)) (V x) (shown (Some p) f t V' x)"
    by (cases "V x"; cases "V' x"; cases "x = p") (auto simp: shown_def)
qed

lemma moved_toD:
  assumes "moved_to vo n V V'" and "V x = Some v"
  obtains v' where "V' x = Some v'" and "v_tile v' = (if vo = Some x then Some n else v_tile v)"
    and "\<And>w m. view_ok w m v' = view_ok w m v"
  using assms unfolding moved_to_def by (cases "V' x") (auto dest!: spec [of _ x])

lemma moved_toD':
  assumes "moved_to vo n V V'" and "V' x = Some v'"
  obtains v where "V x = Some v" and "v_tile v' = (if vo = Some x then Some n else v_tile v)"
    and "\<And>w m. view_ok w m v' = view_ok w m v"
  using assms unfolding moved_to_def by (cases "V x") (auto dest!: spec [of _ x])

text \<open>What a split changes: the new tile, and the links and the size of its neighbours.\<close>

lemma split_tiles_cases:
  assumes f: "T f = Some ft" and b: "T b = Some bt" and n: "T n = None"
  obtains (new) "x = n" and "split_tiles f b n nt nw nh T x = Some nt"
  | (old) tl tl' where "x \<noteq> n" and "T x = Some tl" and "split_tiles f b n nt nw nh T x = Some tl'"
      and "t_view tl' = t_view tl" and "t_workspace tl' = t_workspace tl" and "t_id tl' = t_id tl"
      and "t_box tl' = (if x = f then (t_box tl)\<lparr>box_width := nw, box_height := nh\<rparr> else t_box tl)"
      and "x \<noteq> f \<Longrightarrow> x \<noteq> b \<Longrightarrow> tl' = tl"
  | (none) "x \<noteq> n" and "T x = None" and "split_tiles f b n nt nw nh T x = None"
proof -
  have "f \<noteq> n" "b \<noteq> n" using f b n by auto
  consider "x = n" | "x \<noteq> n" "T x = None" | tl where "x \<noteq> n" "T x = Some tl" by (cases "T x") auto
  then show thesis
  proof cases
    case 1
    with \<open>f \<noteq> n\<close> \<open>b \<noteq> n\<close> have "split_tiles f b n nt nw nh T x = Some nt" by (simp add: split_tiles_def upd_heap_def)
    with 1 show thesis by (rule new)
  next
    case 2
    with f b have "split_tiles f b n nt nw nh T x = None" by (auto simp: split_tiles_def upd_heap_def)
    with 2 show thesis by (rule none)
  next
    case 3
    let ?g = "\<lambda>t. if x = b then set_prev (Some n) t else t"
    let ?h = "\<lambda>t. if x = f then (set_next (Some n) t)\<lparr>t_box := (t_box t)\<lparr>box_width := nw, box_height := nh\<rparr>\<rparr> else t"
    have "split_tiles f b n nt nw nh T x = Some (?h (?g tl))"
      using 3 \<open>f \<noteq> n\<close> \<open>b \<noteq> n\<close>
      by (cases "x = f"; cases "x = b") (auto simp: split_tiles_def upd_heap_def set_next_def set_prev_def)
    with 3 show thesis by (rule old) (simp_all add: set_next_def set_prev_def)
  qed
qed

lemma split_ring:
  assumes r: "is_ring T (f # rest)" and f: "T f = Some ft" "t_next ft = Some b" and n: "T n = None"
    and nt: "t_next nt = Some b" "t_prev nt = Some f"
  shows "is_ring (split_tiles f b n nt nw nh T) (f # n # rest)"
proof -
  have notin: "n \<notin> set (f # rest)"
  proof
    assume "n \<in> set (f # rest)"
    from is_ring_in_dom [OF r this] n show False by auto
  qed
  have "is_ring (T(n \<mapsto> nt)) (f # rest) = is_ring T (f # rest)"
    using notin by (intro is_ring_cong) (auto simp: nxt_def prv_def)
  with r have r': "is_ring (T(n \<mapsto> nt)) (f # rest)" by simp
  have "is_ring (upd_heap f (set_next (Some n)) (upd_heap b (set_prev (Some n)) (T(n \<mapsto> nt)))) (f # n # rest)"
    using is_ring_insert [OF r' notin] f nt notin by (simp add: nxt_def prv_def)
  moreover have "nxt (upd_heap f (\<lambda>t. t\<lparr>t_box := (t_box t)\<lparr>box_width := nw, box_height := nh\<rparr>\<rparr>) h) x = nxt h x \<and>
      prv (upd_heap f (\<lambda>t. t\<lparr>t_box := (t_box t)\<lparr>box_width := nw, box_height := nh\<rparr>\<rparr>) h) x = prv h x" for h x
    by (cases "h f") (auto simp: nxt_def prv_def upd_heap_def)
  ultimately show ?thesis unfolding split_tiles_def by (subst is_ring_cong) auto
qed

lemma server_ok_split:
  assumes ok: "server_ok s" and w: "w \<in> live_ws s" and ws: "s_workspaces s w = Some ws"
    and r: "is_ring (s_tiles s) (f # rest)" "w_focused_tile ws = Some f"
      "\<And>t. t \<in> set (f # rest) \<Longrightarrow> \<exists>tl. s_tiles s t = Some tl \<and> tile_ok w (w_views ws) tl"
    and f: "s_tiles s f = Some ft" "t_next ft = Some b"
    and vo: "\<And>p. vo = Some p \<Longrightarrow> p \<in> set (w_views ws) \<and> \<not> is_shown p s"
    and V: "moved_to vo (s_tile_brk s) (s_views s) V"
  shows "server_ok (s\<lparr>s_tiles := split_tiles f b (s_tile_brk s) (new_tile f b w box vo i) nw nh (s_tiles s),
      s_views := V, s_tile_brk := Suc (s_tile_brk s), s_tiles_curr_id := i'\<rparr>)"
proof -
  let ?n = "s_tile_brk s"
  let ?nt = "new_tile f b w box vo i"
  let ?T = "split_tiles f b ?n ?nt nw nh (s_tiles s)"
  have brk: "x < ?n" if "s_tiles s x \<noteq> None" for x using ok that by (auto simp: server_ok_def tiles_below_brk_def)
  have fresh: "s_tiles s ?n = None" using brk [of ?n] by (cases "s_tiles s ?n") auto
  obtain bt where b: "s_tiles s b = Some bt" using is_ring_in_dom [OF r(1), of b] f is_ring_in_dom [OF r(1), of f] by auto
  note cs = split_tiles_cases [OF f(1) b fresh, where nt = ?nt and nw = nw and nh = nh]
  have wt: "t_workspace ft = Some w" using r(3) [of f] f by (auto simp: tile_ok_def)
  have bring: "b \<in> set (f # rest)" using is_ring_in_dom [OF r(1), of f] f by auto
  have wb: "t_workspace bt = Some w" using r(3) [OF bring] b by (auto simp: tile_ok_def)
  have W: "ws\<lparr>w_focused_tile := Some f\<rparr> = ws" using r(2) by simp
  have "server_ok (s\<lparr>s_tiles := ?T, s_views := V, s_workspaces := (s_workspaces s)(w \<mapsto> ws), s_seat := s_seat s,
      s_tile_brk := Suc ?n, s_tiles_curr_id := i'\<rparr>)"
  proof (rule server_ok_one_ws [OF ok w ws, where ts = "f # ?n # rest"])
    show "distinct (w_views ws)" using live_wsD [OF ok w ws] by metis
    show "is_ring ?T (f # ?n # rest)"
      using split_ring [OF r(1) f fresh] by (simp add: new_tile_def)
    show "\<exists>tl. ?T t = Some tl \<and> tile_ok w (w_views ws) tl" if t: "t \<in> set (f # ?n # rest)" for t
    proof (cases rule: cs [of t, case_names new old none])
      case new
      then show ?thesis using vo by (auto simp: tile_ok_def new_tile_def)
    next
      case (old tl tl')
      then have "t \<in> set (f # rest)" using t by auto
      from r(3) [OF this] old show ?thesis by (auto simp: tile_ok_def)
    next
      case none
      then have "t \<in> set (f # rest)" using t by auto
      from r(3) [OF this] none show ?thesis by auto
    qed
    show "?T t = Some tl" if t: "s_tiles s t = Some tl" "t_workspace tl \<noteq> Some w" for t tl
    proof (cases rule: cs [of t, case_names new old none])
      case (old tl1 tl')
      have "t \<noteq> f" "t \<noteq> b" using t f(1) b wt wb by auto
      with old t(1) show ?thesis by simp
    qed (use t fresh in auto)
    show "rel_option (\<lambda>x x'. \<forall>w m. view_ok w m x' = view_ok w m x) (s_views s v) (V v)" for v
      using V [unfolded moved_to_def, THEN spec, of v] by (cases "s_views s v"; cases "V v") auto
    show "links_ok ?T V"
      unfolding links_ok_def
    proof (intro conjI allI impI, goal_cases)
      case (1 t tl v)
      show ?case
      proof (cases rule: cs [of t, case_names new old none])
        case new
        with 1 have v: "vo = Some v" by (simp add: new_tile_def)
        then obtain vw where "s_views s v = Some vw" using vo live_wsD [OF ok w ws] by metis
        from moved_toD [OF V this] v new show ?thesis by metis
      next
        case (old tl0 tl')
        with 1 have sh: "s_tiles s t = Some tl0" "t_view tl0 = Some v" by simp_all
        obtain vw where vw: "s_views s v = Some vw" "v_tile vw = Some t"
          using links_ok_view [OF server_ok_links(1) [OF ok] sh] by metis
        have "is_shown v s" using sh by (auto simp: is_shown_def)
        then have "vo \<noteq> Some v" using vo by blast
        with moved_toD [OF V vw(1)] vw(2) show ?thesis by metis
      qed (use 1 in simp)
    next
      case (2 v vw t)
      then obtain v0 where v0: "s_views s v = Some v0" "v_tile vw = (if vo = Some v then Some ?n else v_tile v0)"
        using moved_toD' [OF V] by metis
      have sh: "(vo = Some v \<and> t = ?n) \<or> (\<exists>tl. s_tiles s t = Some tl \<and> t_view tl = Some v)"
        using v0 2 server_ok_links(1) [OF ok] by (auto simp: links_ok_def split: if_splits)
      show ?case
      proof (cases rule: cs [of t, case_names new old none])
        case new
        then show ?thesis using sh fresh by (auto simp: new_tile_def)
      qed (use sh in auto)
    qed
    show "s_views s v \<noteq> None" if "se_focused_view (s_seat s) = Some v" for v
      using server_ok_links(2) [OF ok] that by (simp add: seat_ok_def)
    show "\<exists>tl w. ?T t = Some tl \<and> t_workspace tl = Some w \<and> w \<in> live_ws s" if c: "se_cursor_tile (s_seat s) = Some t" for t
    proof -
      obtain tl w' where tl: "s_tiles s t = Some tl" "t_workspace tl = Some w'" "w' \<in> live_ws s"
        using server_ok_links(2) [OF ok] c by (auto simp: seat_ok_def)
      show ?thesis
        by (cases rule: cs [of t, case_names new old none])
          (use tl fresh in auto)
    qed
    show "t < Suc ?n" if "?T t \<noteq> None" for t
      by (cases rule: cs [of t, case_names new old none])
        (use that brk in \<open>auto simp: less_Suc_eq\<close>)
  qed (use r(2) in simp_all)
  then show ?thesis using ws by (simp add: fun_upd_idem)
qed

section \<open>Changes inside one workspace\<close>

text \<open>The tiles that belong to a workspace, and a change that does not touch the other workspaces.\<close>

definition ws_tiles :: "ws_ptr \<Rightarrow> cg_server \<Rightarrow> tile_ptr set" where
  "ws_tiles w s = {t. \<exists>tl. s_tiles s t = Some tl \<and> t_workspace tl = Some w}"

definition only_ws :: "ws_ptr \<Rightarrow> cg_server \<Rightarrow> cg_server \<Rightarrow> bool" where
  "only_ws w s s' \<longleftrightarrow>
     live_ws s' = live_ws s \<and> (\<forall>v. v \<noteq> w \<longrightarrow> focused_tile_of v s' = focused_tile_of v s) \<and>
     (\<forall>x tl. t_workspace tl \<noteq> Some w \<longrightarrow> (s_tiles s' x = Some tl \<longleftrightarrow> s_tiles s x = Some tl))"

section \<open>Splitting the focused tile\<close>

lemma showable_live:
  assumes ok: "server_ok s" and w: "w \<in> live_ws s" and ws: "s_workspaces s w = Some ws" and p: "p \<in> set (w_views ws)"
  shows "showable p w s"
proof -
  obtain c where "s_curr_output s = Some c" "s_outs s c \<noteq> None" using server_ok_curr [OF ok] by metis
  moreover obtain v where "s_views s p = Some v" "view_ok w True v" using live_wsD [OF ok w ws] p by metis
  moreover have "s_outs s (w_output ws) \<noteq> None" using live_wsD [OF ok w ws] by metis
  ultimately show ?thesis using ws by (auto simp: showable_def view_ok_def)
qed

lemma showable_shown:
  assumes r: "same_rest s s'" and V: "s_views s' = shown vo n t (s_views s)" and p: "showable p w s"
  shows "showable p w s'"
proof -
  obtain v where v: "s_views s p = Some v" "v_workspace v = Some w" using p by (auto simp: showable_def)
  have "\<exists>v'. s_views s' p = Some v' \<and> v_workspace v' = Some w"
    using v by (cases vo) (auto simp: V shown_def)
  then show ?thesis using showable_same_rest [OF r _ _ p] by blast
qed

text \<open>
  A split: the invariant is kept, the focus stays, and behind the focused tile the ring has one
  more tile. The two parts are the cut of the old box.
\<close>

definition split_ring_of :: "tile_ptr \<Rightarrow> bool \<Rightarrow> int \<Rightarrow> cg_server \<Rightarrow> cg_server \<Rightarrow> bool" where
  "split_ring_of f vertical k s s' \<longleftrightarrow>
     (\<exists>w rest ft ft' nt. curr_ws s = Some w \<and> curr_ws s' = Some w \<and> ws_ring w s = Some (f # rest) \<and>
        ws_ring w s' = Some (f # s_tile_brk s # rest) \<and>
        s_tiles s f = Some ft \<and> s_tiles s' f = Some ft' \<and> s_tiles s' (s_tile_brk s) = Some nt \<and>
        cut_box (vertical, k) (t_box ft) = (t_box ft', t_box nt) \<and> t_view ft' = t_view ft \<and>
        (\<forall>x \<in> set rest. map_option t_box (s_tiles s' x) = map_option t_box (s_tiles s x) \<and>
                        map_option t_view (s_tiles s' x) = map_option t_view (s_tiles s x)) \<and>
        only_ws w s s' \<and> ws_tiles w s' = insert (s_tile_brk s) (ws_tiles w s))"

lemma split_tiles_look:
  assumes r: "is_ring T (f # rest)" and f: "T f = Some ft" "t_next ft = Some b" and n: "T n = None"
  shows "split_tiles f b n nt nw nh T f \<noteq> None" and "split_tiles f b n nt nw nh T n = Some nt"
    and "x \<in> set rest \<Longrightarrow> \<exists>tl tl'. T x = Some tl \<and> split_tiles f b n nt nw nh T x = Some tl' \<and>
          t_view tl' = t_view tl \<and> t_box tl' = t_box tl"
    and "\<exists>tf. split_tiles f b n nt nw nh T f = Some tf \<and> t_view tf = t_view ft \<and> t_id tf = t_id ft \<and>
          t_box tf = (t_box ft)\<lparr>box_width := nw, box_height := nh\<rparr>"
proof -
  obtain bt where b: "T b = Some bt" using is_ring_in_dom [OF r, of b] f is_ring_in_dom [OF r, of f] by auto
  note cs = split_tiles_cases [OF f(1) b n, where nt = nt and nw = nw and nh = nh]
  have fn: "f \<noteq> n" using f n by auto
  show a: "\<exists>tf. split_tiles f b n nt nw nh T f = Some tf \<and> t_view tf = t_view ft \<and> t_id tf = t_id ft \<and>
          t_box tf = (t_box ft)\<lparr>box_width := nw, box_height := nh\<rparr>"
    by (cases rule: cs [of f]) (use fn f in simp_all)
  then show "split_tiles f b n nt nw nh T f \<noteq> None" by auto
  show "split_tiles f b n nt nw nh T n = Some nt" by (cases rule: cs [of n]) simp_all
  assume x: "x \<in> set rest"
  then have "x \<noteq> f" "T x \<noteq> None" using r is_ring_in_dom [OF r, of x] by (auto simp: is_ring_def)
  then show "\<exists>tl tl'. T x = Some tl \<and> split_tiles f b n nt nw nh T x = Some tl' \<and>
          t_view tl' = t_view tl \<and> t_box tl' = t_box tl"
    by (cases rule: cs [of x]) (use n in auto)
qed

lemma split_heap:
  assumes r: "is_ring T (f # rest)" and w: "\<And>t. t \<in> set (f # rest) \<Longrightarrow> \<exists>tl. T t = Some tl \<and> t_workspace tl = Some w"
    and f: "T f = Some ft" "t_next ft = Some b" and n: "T n = None" and nt: "t_workspace nt = Some w"
  shows "(t_workspace u \<noteq> Some w \<longrightarrow> (split_tiles f b n nt nw nh T x = Some u \<longleftrightarrow> T x = Some u)) \<and>
      ((\<exists>tl. split_tiles f b n nt nw nh T x = Some tl \<and> t_workspace tl = Some w) \<longleftrightarrow>
        x = n \<or> (\<exists>tl. T x = Some tl \<and> t_workspace tl = Some w))"
proof -
  have bin: "b \<in> set (f # rest)" using is_ring_in_dom [OF r, of f] f by auto
  then obtain bt where b: "T b = Some bt" "t_workspace bt = Some w" using w by blast
  have fw: "t_workspace ft = Some w" using w [of f] f(1) by simp
  show ?thesis
  proof (cases rule: split_tiles_cases [OF f(1) b(1) n, of x, where nt = nt and nw = nw and nh = nh, case_names new old none])
    case new
    then show ?thesis using n nt by auto
  next
    case (old tl0 tl')
    show ?thesis
    proof (cases "x = f \<or> x = b")
      case True
      then have "t_workspace tl0 = Some w" using old(2) f(1) fw b by auto
      with old(1-3,5) show ?thesis by auto
    next
      case False
      with old show ?thesis by auto
    qed
  qed auto
qed

lemma ws_ring_emit [simp]: "ws_ring w (emit c s) = ws_ring w s"
proof -
  have "ring_from n a b (emit c s) = ring_from n a b s" for n a b
    by (induction n arbitrary: b) (simp_all cong: if_cong)
  then show ?thesis by (simp add: ws_ring_def ring_of_def focused_tile_of_def)
qed

lemma server_order:
  "s\<lparr>s_tile_brk := a, s_tiles_curr_id := b, s_tiles := T, s_views := V\<rparr> =
   s\<lparr>s_tiles := T, s_views := V, s_tile_brk := a, s_tiles_curr_id := b\<rparr>"
  by (cases s) simp

lemma split_sizes:
  assumes "split_size (if vertical then box_width bx else box_height bx) perc = Some k" and "cut_box_ok (vertical, k) bx"
  obtains nw nh box where "cut_box (vertical, k) bx = (bx\<lparr>box_width := nw, box_height := nh\<rparr>, box)"
    and "(if vertical then split_size (box_width bx) perc else Some (box_width bx)) = Some nw"
    and "(if vertical then Some (box_height bx) else split_size (box_height bx) perc) = Some nh"
    and "\<not> (nw < 1 \<or> nh < 1)"
    and "\<lparr>box_x = if vertical then box_x bx + nw else box_x bx, box_y = if vertical then box_y bx else box_y bx + nh,
        box_width = box_x bx + box_width bx - (if vertical then box_x bx + nw else box_x bx),
        box_height = box_y bx + box_height bx - (if vertical then box_y bx else box_y bx + nh)\<rparr> = box"
proof (cases vertical)
  case True
  with assms show thesis
    by (intro that [of "box_height bx" k "bx\<lparr>box_x := box_x bx + k, box_width := box_width bx - k\<rparr>"]) simp_all
next
  case False
  with assms show thesis
    by (intro that [of k "box_width bx" "bx\<lparr>box_y := box_y bx + k, box_height := box_height bx - k\<rparr>"]) simp_all
qed

lemma split_output_ok:
  assumes ok: "server_ok s" and fo: "focus_ok s" and p: "s_curr_output s = Some p"
    and f: "curr_tile s = Some f" "s_tiles s f = Some ft"
    and k: "split_size (if vertical then box_width (t_box ft) else box_height (t_box ft)) perc = Some k"
      "cut_box_ok (vertical, k) (t_box ft)"
  obtains s' where "keybinding_split_output p vertical perc s = Some s'" and "server_ok s'" and "focus_ok s'"
    and "curr_tile s' = Some f" and "split_ring_of f vertical k s s'"
proof -
  obtain w ws ts j where w: "curr_ws_of p s = Some w" "curr_ws s = Some w" "s_workspaces s w = Some ws" "w \<in> live_ws s"
    "focused_tile_of w s = Some (hd ts)" "is_ring (s_tiles s) ts" "curr_tile s = Some (hd ts)"
    and tok: "\<forall>t \<in> set ts. \<exists>tl. s_tiles s t = Some tl \<and> tile_ok w (w_views ws) tl"
    using server_ok_curr [OF ok] p by (metis option.sel)
  define rest where "rest = tl ts"
  have ts: "ts = f # rest" using w(6,7) f(1) by (cases ts) (simp_all add: is_ring_def rest_def)
  obtain b where b: "t_next ft = Some b" "b \<in> set ts" using is_ring_in_dom [OF w(6), of f] f ts by auto
  have bT: "s_tiles s b \<noteq> None" using is_ring_in_dom [OF w(6) b(2)] by auto
  have foc: "w_focused_tile ws = Some f" using w(3,5) ts by (simp add: focused_tile_of_def)
  let ?n = "s_tile_brk s"
  have fresh: "s_tiles s ?n = None"
    using ok by (cases "s_tiles s ?n") (auto simp: server_ok_def tiles_below_brk_def)
  have orig: "seat_get_focus s = t_view ft" using fo f by (auto simp: focus_ok_def seat_get_focus_def)
  have inv: "t_view ft = Some q \<Longrightarrow> q \<in> set (w_views ws)" for q using tok f ts by (auto simp: tile_ok_def)
  let ?P = "\<lambda>q. \<not> is_shown q s \<and> t_view ft \<noteq> Some q"
  define vo where "vo = List.find ?P (w_views ws)"
  have vis: "view_is_visible q s = Some (is_shown q s)" if "q \<in> set (w_views ws)" for q
    using visible_shown [OF server_ok_links(1) [OF ok]] live_wsD [OF ok w(4,3)] that by metis
  have next_view: "split_next_view (t_view ft) (w_views ws) s = Some vo"
    using split_next_view_find [OF vis] by (simp add: vo_def)
  have vo: "q \<in> set (w_views ws) \<and> \<not> is_shown q s \<and> t_view ft \<noteq> Some q" if "vo = Some q" for q
    using find_in [of ?P "w_views ws" q] that by (simp add: vo_def)
  have sw: "showable q w s" if "vo = Some q \<or> t_view ft = Some q" for q
    using showable_live [OF ok w(4,3)] that vo inv by blast
  obtain nw nh box where cut: "cut_box (vertical, k) (t_box ft) = ((t_box ft)\<lparr>box_width := nw, box_height := nh\<rparr>, box)"
    and size: "(if vertical then split_size (box_width (t_box ft)) perc else Some (box_width (t_box ft))) = Some nw"
      "(if vertical then Some (box_height (t_box ft)) else split_size (box_height (t_box ft)) perc) = Some nh"
      "\<not> (nw < 1 \<or> nh < 1)"
    and boxeq: "\<lparr>box_x = if vertical then box_x (t_box ft) + nw else box_x (t_box ft),
        box_y = if vertical then box_y (t_box ft) else box_y (t_box ft) + nh,
        box_width = box_x (t_box ft) + box_width (t_box ft) - (if vertical then box_x (t_box ft) + nw else box_x (t_box ft)),
        box_height = box_y (t_box ft) + box_height (t_box ft) - (if vertical then box_y (t_box ft) else box_y (t_box ft) + nh)\<rparr> = box"
    using split_sizes [OF k] .
  let ?s0 = "s\<lparr>s_tile_brk := Suc ?n, s_tiles_curr_id := s_tiles_curr_id s + 1\<rparr>"
  let ?nt = "new_tile f b w box vo (s_tiles_curr_id s)"
  let ?T = "split_tiles f b ?n ?nt nw nh (s_tiles s)"
  have swv: "\<And>q. vo = Some q \<Longrightarrow> showable q w s" using sw by blast
  obtain s1 t1 where s1: "split_insert w f box nw nh vo s = Some (?n, s1)" "same_rest ?s0 s1" "s_tiles s1 = ?T"
    "s_views s1 = shown vo ?n t1 (s_views s)" "s_seat s1 = s_seat s"
    using split_insert_ok [OF f(2) b(1) bT fresh swv] by metis
  have W1: "s_workspaces s1 = s_workspaces s" using s1(2) by (simp add: same_rest_def)
  note look = split_tiles_look [OF w(6) [unfolded ts] f(2) b(1) fresh, where nt = ?nt and nw = nw and nh = nh, folded s1(3)]
  note t1 = look(1,2) and cs = look(3)
  obtain tf where tf: "s_tiles s1 f = Some tf" "t_view tf = t_view ft"
    "t_box tf = (t_box ft)\<lparr>box_width := nw, box_height := nh\<rparr>" using look(4) by blast
  obtain c where c: "workspace_focus_tile w f s1 = Some (emit c (set_focused w f s1))"
    using workspace_focus_tile_ok [of s1 w f] t1(1) W1 w(3) by auto
  have sf: "set_focused w f s1 = s1" using W1 w(3) foc by (simp add: set_focused_def fun_upd_idem)
  let ?s2 = "emit c s1"
  have r2: "same_rest ?s0 ?s2" using s1(2) by simp
  have sw0: "showable q w ?s0" if "showable q w s" for q using that by (simp add: showable_def)
  have sw2: "showable q w ?s2" if "showable q w s" for q
    using showable_shown [OF r2 _ sw0 [OF that], of vo ?n t1] s1(4) by simp
  have sw3: "\<And>q. vo = Some q \<Longrightarrow> showable q w ?s2" using sw sw2 by blast
  have n2: "s_tiles ?s2 ?n = Some ?nt" using t1(2) by simp
  obtain s3 where s3: "(case vo of None \<Rightarrow> Some ?s2 | Some q \<Rightarrow> view_maximize q ?n ?s2) = Some s3" "same_rest ?s2 s3"
    "s_tiles s3 = s_tiles ?s2" "s_views s3 = shown vo ?n ?nt (s_views ?s2)" "s_seat s3 = s_seat ?s2"
    using maximize_shown [OF n2 sw3] .
  have sw4: "\<And>q. t_view ft = Some q \<Longrightarrow> showable q w s3" using sw sw2 showable_shown [OF s3(2,4)] by blast
  have tf3: "s_tiles s3 f = Some tf" using s3(3) tf(1) by simp
  obtain s4 where s4: "(case t_view ft of None \<Rightarrow> Some s3 | Some q \<Rightarrow> view_maximize q f s3) = Some s4" "same_rest s3 s4"
    "s_tiles s4 = s_tiles s3" "s_views s4 = shown (t_view ft) f tf (s_views s3)" "s_seat s4 = s_seat s3"
    using maximize_shown [OF tf3 sw4] .
  have V3: "moved_to vo ?n (s_views s) (s_views s3)"
    using moved_to_again [OF moved_to_shown [of vo ?n "s_views s" t1]] s3(4) s1(4) by simp
  have V4: "moved_to vo ?n (s_views s) (s_views s4)"
  proof (cases "t_view ft")
    case None
    with V3 s4(4) show ?thesis by (simp add: shown_def)
  next
    case (Some q)
    have "vo \<noteq> Some q" using vo Some by blast
    moreover have "\<exists>v. s_views s q = Some v \<and> v_tile v = Some f"
      using links_ok_view [OF server_ok_links(1) [OF ok] f(2) Some] .
    ultimately show ?thesis using moved_to_refresh [OF V3] s4(4) Some by simp
  qed
  have r4: "same_rest ?s0 s4" using r2 s3(2) s4(2) same_rest_trans by blast
  have T4: "s_tiles s4 = ?T" "s_seat s4 = s_seat s" using s1(3,5) s3(3,5) s4(3,5) by simp_all
  have ok4: "server_ok s4"
    using server_ok_split [OF ok w(4,3) w(6) [unfolded ts] foc _ f(2) b(1) _ V4, where box = box
        and i = "s_tiles_curr_id s" and nw = nw and nh = nh and i' = "s_tiles_curr_id s + 1"]
      tok vo ts unfolding server_ok_same_rest [OF r4] T4 by (simp add: server_order)
  have curr4: "curr_ws s4 = Some w" "curr_ws_of p s4 = Some w" "s_workspaces s4 = s_workspaces s"
    using outs_sim_curr_ws_of [of ?s0 s4 p] r4 w(1) p by (simp_all add: same_rest_def curr_ws_def curr_ws_of_def)
  have foc4: "focused_tile_of w s4 = Some f" using curr4(3) w(3) foc by (simp add: focused_tile_of_def)
  have f4: "curr_tile s4 = Some f" using curr4 foc4 by (simp add: curr_tile_def)
  have live4: "w \<in> live_ws s4" using curr_ws_live [OF ok4 curr4(1)] .
  obtain a where a: "ws_event_args w s4 = Some a" using ws_event_args_total [OF ok4 live4] .
  obtain e where ev: "split_event w f ?n vertical s4 = Some (emit e s4)"
    using s4(3) s3(3) tf(1) t1(2) a by (simp add: split_event_def ipc_send_event_def)
  let ?s5 = "emit e s4"
  have step: "keybinding_split_output p vertical perc s = Some ?s5"
    unfolding keybinding_split_output_def orig Let_def
    using w(1,3,5) ts f size next_view s1(1) c sf s3(1) s4(1) ev boxeq by simp
  have ring4: "ws_ring w s4 = Some (f # ?n # rest)"
  proof -
    have "is_ring (s_tiles s4) (f # ?n # rest)"
      using split_ring [OF w(6) [unfolded ts] f(2) b(1) fresh] T4(1) by (simp add: new_tile_def)
    from ring_of_ring [OF this] ok4 foc4 show ?thesis by (simp add: server_ok_def ws_ring_def)
  qed
  have ring: "ws_ring w s = Some (f # rest)"
    using ring_of_ring [OF w(6) [unfolded ts]] ok w(5) ts by (simp add: server_ok_def ws_ring_def)
  have T41: "s_tiles ?s5 = s_tiles s1" using s3(3) s4(3) by (simp add: ipc_send_event_def)
  have heap: "(t_workspace tl \<noteq> Some w \<longrightarrow> (s_tiles ?s5 x = Some tl \<longleftrightarrow> s_tiles s x = Some tl)) \<and>
      ((\<exists>tl. s_tiles ?s5 x = Some tl \<and> t_workspace tl = Some w) \<longleftrightarrow>
        x = ?n \<or> (\<exists>tl. s_tiles s x = Some tl \<and> t_workspace tl = Some w))" for x tl
    using split_heap [OF w(6) [unfolded ts] _ f(2) b(1) fresh, where nt = ?nt and nw = nw and nh = nh and w = w]
      tok ts T4(1) by (fastforce simp: new_tile_def tile_ok_def)
  have "live_ws s4 = live_ws s" using same_rest_live [OF r4] by (simp add: live_ws_def)
  then have ows: "only_ws w s ?s5"
    using heap curr4(3) by (auto simp: only_ws_def focused_tile_of_def live_ws_def)
  have "split_ring_of f vertical k s ?s5"
    unfolding split_ring_of_def
  proof (intro exI conjI ballI)
    show "curr_ws s = Some w" "ws_ring w s = Some (f # rest)" "s_tiles s f = Some ft"
      using w(2) ring f(2) by simp_all
    show "curr_ws ?s5 = Some w" "ws_ring w ?s5 = Some (f # ?n # rest)"
      using curr4(1) ring4 same_place_curr_ws [of s4 ?s5] by simp_all
    show "s_tiles ?s5 f = Some tf" "s_tiles ?s5 ?n = Some ?nt" using T41 tf(1) t1(2) by simp_all
    show "cut_box (vertical, k) (t_box ft) = (t_box tf, t_box ?nt)" using cut tf(3) by (simp add: new_tile_def)
    show "t_view tf = t_view ft" using tf(2) .
    show "only_ws w s ?s5" using ows .
    show "ws_tiles w ?s5 = insert ?n (ws_tiles w s)" using heap unfolding ws_tiles_def by blast
    fix x assume "x \<in> set rest"
    from cs [OF this] T41 show "map_option t_box (s_tiles ?s5 x) = map_option t_box (s_tiles s x)"
      "map_option t_view (s_tiles ?s5 x) = map_option t_view (s_tiles s x)" by fastforce+
  qed
  moreover have "focus_ok ?s5"
    using f4 s4(3) s3(3) tf T4(2) orig same_place_curr_tile [of s4 ?s5] by (simp add: focus_ok_def seat_get_focus_def)
  ultimately show thesis using step ok4 f4 same_place_curr_tile [of s4 ?s5] by (intro that [of ?s5]) simp_all
qed

section \<open>The effect of a merge\<close>

text \<open>The heap of tiles after the tile \<open>m\<close>, between \<open>a\<close> and \<open>b\<close>, was merged into \<open>tp\<close>.\<close>

definition merged_tiles ::
    "tile_ptr \<Rightarrow> tile_ptr \<Rightarrow> tile_ptr \<Rightarrow> tile_ptr \<Rightarrow> wlr_box \<Rightarrow> (tile_ptr \<rightharpoonup> cg_tile) \<Rightarrow> (tile_ptr \<rightharpoonup> cg_tile)" where
  "merged_tiles tp m a b box T =
     (upd_heap tp (\<lambda>t. t\<lparr>t_box := box\<rparr>) (upd_heap b (set_prev (Some a)) (upd_heap a (set_next (Some b)) T)))(m := None)"

lemma upd_heap_other [simp]: "x \<noteq> p \<Longrightarrow> upd_heap p f h x = h x"
  by (simp add: upd_heap_def)

lemma upd_heap_cong: "h p = Some x \<Longrightarrow> f x = g x \<Longrightarrow> upd_heap p f h = upd_heap p g h"
  by (simp add: upd_heap_def)

lemma upd_heap_fun_upd: "x \<noteq> p \<Longrightarrow> upd_heap p f (h(x := y)) = (upd_heap p f h)(x := y)"
  by (auto simp: upd_heap_def)

lemma merged_tiles_look:
  assumes "x \<noteq> m"
  shows "merged_tiles tp m a b box T x = map_option (\<lambda>t. t\<lparr>
     t_next := (if x = a then Some b else t_next t), t_prev := (if x = b then Some a else t_prev t),
     t_box := (if x = tp then box else t_box t)\<rparr>) (T x)"
proof -
  have "t\<lparr>t_next := t_next t, t_prev := t_prev t, t_box := t_box t\<rparr> = t" for t :: cg_tile by (cases t) simp
  then show ?thesis
    using assms by (cases "T x") (auto simp: merged_tiles_def upd_heap_def set_next_def set_prev_def)
qed

lemma merged_tiles_gone [simp]: "merged_tiles tp m a b box T m = None"
  by (simp add: merged_tiles_def)

lemma merged_ring:
  assumes r: "is_ring T (m # rest)" and ne: "rest \<noteq> []" and m: "T m = Some mt" "t_prev mt = Some a" "t_next mt = Some b"
  shows "is_ring (merged_tiles tp m a b box T) rest"
proof -
  have d: "is_ring ((upd_heap b (set_prev (Some a)) (upd_heap a (set_next (Some b)) T))(m := None)) rest"
    using is_ring_delete [OF r ne, of a b] m by (simp add: nxt_def prv_def)
  have "nxt (merged_tiles tp m a b box T) x =
      nxt ((upd_heap b (set_prev (Some a)) (upd_heap a (set_next (Some b)) T))(m := None)) x \<and>
    prv (merged_tiles tp m a b box T) x =
      prv ((upd_heap b (set_prev (Some a)) (upd_heap a (set_next (Some b)) T))(m := None)) x" for x
    by (cases "upd_heap b (set_prev (Some a)) (upd_heap a (set_next (Some b)) T) tp")
      (auto simp: merged_tiles_def nxt_def prv_def upd_heap_def)
  with d show ?thesis using is_ring_cong by blast
qed

lemma merge_unlink_ok:
  assumes ok: "server_ok s" and tp: "s_tiles s tp = Some t" and m: "s_tiles s m = Some mt" "t_prev mt = Some a" "t_next mt = Some b"
    and ne: "m \<noteq> tp" "a \<noteq> m" "b \<noteq> m" and ab: "s_tiles s a \<noteq> None" "s_tiles s b \<noteq> None"
    and w: "t_workspace mt = Some w" "s_workspaces s w = Some ws"
  obtains s' where "merge_unlink tp m df cf s = Some s'"
    and "same_rest (if w_focused_tile ws = Some m then set_focused w tp s else s) s'"
    and "s_tiles s' = merged_tiles tp m a b (merge_boxes df cf (t_box t) (t_box mt)) (s_tiles s)"
    and "s_views s' = hide_view (t_view mt) (s_views s)"
    and "s_seat s' = (if se_cursor_tile (s_seat s) = Some m then (s_seat s)\<lparr>se_cursor_tile := Some tp\<rparr> else s_seat s)"
proof -
  obtain s1 where s1: "workspace_tile_update_view m None s = Some s1" "same_rest s s1"
    "s_tiles s1 = (s_tiles s)(m \<mapsto> mt\<lparr>t_view := None\<rparr>)"
    "s_views s1 = hide_view (t_view mt) (s_views s)" "s_seat s1 = s_seat s" using hide_ok [OF ok m(1)] .
  let ?bx = "merge_boxes df cf (t_box t) (t_box mt)"
  let ?T = "upd_heap b (set_prev (Some a)) (upd_heap a (set_next (Some b)) ((s_tiles s)(m \<mapsto> mt\<lparr>t_view := None\<rparr>)))"
  let ?s2 = "s1\<lparr>s_tiles := ?T\<rparr>"
  let ?s3 = "if w_focused_tile ws = Some m then set_focused w tp ?s2 else ?s2"
  have W1: "s_workspaces s1 w = Some ws" using s1(2) w(2) by (simp add: same_rest_def)
  have tbox: "?T tp = Some tt \<Longrightarrow> t_box tt = t_box t" for tt
    using tp ne by (auto simp: upd_heap_def set_next_def set_prev_def split: if_splits)
  have T0: "?T tp \<noteq> None" "?T m = Some (mt\<lparr>t_view := None\<rparr>)" using tp ne by (simp_all add: upd_heap_None)
  have u: "upd_heap tp (\<lambda>t. t\<lparr>t_box := merge_boxes df cf (t_box t) (t_box mt)\<rparr>) ?T = upd_heap tp (\<lambda>t. t\<lparr>t_box := ?bx\<rparr>) ?T"
  proof -
    obtain tt where tt: "?T tp = Some tt" using T0(1) by blast
    show ?thesis by (rule upd_heap_cong [where h = ?T, OF tt]) (simp only: tbox [OF tt])
  qed
  have fin: "(upd_heap tp (\<lambda>t. t\<lparr>t_box := ?bx\<rparr>) ?T)(m := None) = merged_tiles tp m a b ?bx (s_tiles s)"
    using ne by (simp add: merged_tiles_def upd_heap_fun_upd)
  let ?s4 = "?s3\<lparr>s_tiles := upd_heap tp (\<lambda>t. t\<lparr>t_box := ?bx\<rparr>) ?T\<rparr>"
  let ?s5 = "if se_cursor_tile (s_seat s) = Some m then upd_seat (\<lambda>se. se\<lparr>se_cursor_tile := Some tp\<rparr>) ?s4 else ?s4"
  let ?s6 = "?s5\<lparr>s_tiles := merged_tiles tp m a b ?bx (s_tiles s)\<rparr>"
  have foc: "(if w_focused_tile ws = Some m then upd_ws w (\<lambda>ws. ws\<lparr>w_focused_tile := Some tp\<rparr>) ?s2 else Some ?s2) = Some ?s3"
    using W1 by (simp add: upd_ws_def set_focused_def)
  have T3: "s_tiles ?s3 = ?T" "s_seat ?s3 = s_seat s" using s1(5) by (simp_all add: set_focused_def)
  have box: "upd_tile tp (\<lambda>t. t\<lparr>t_box := merge_boxes df cf (t_box t) (t_box mt)\<rparr>) ?s3 = Some ?s4"
    using T0(1) upd_tile_heap [of ?s3 tp "\<lambda>t. t\<lparr>t_box := merge_boxes df cf (t_box t) (t_box mt)\<rparr>"] unfolding T3(1) u by blast
  have links: "t_prev_update (\<lambda>_. x) = set_prev x" "t_next_update (\<lambda>_. x) = set_next x" for x
    by (simp_all add: fun_eq_iff set_prev_def set_next_def)
  have "merge_unlink tp m df cf s = Some ?s6"
    unfolding merge_unlink_def
    using s1(1,3) m ne ab w(1) W1 T0 foc box T3(2)
    by (simp add: upd_tile_heap upd_heap_None links fin Let_def split del: if_split) (simp add: fin set_focused_def)
  moreover have "same_rest (if w_focused_tile ws = Some m then set_focused w tp s else s) ?s6"
    using s1(2) by (auto simp: same_rest_def set_focused_def)
  ultimately show thesis using s1(4,5) by (intro that [of ?s6]) (simp_all add: set_focused_def)
qed

lemma remaximize_ok:
  assumes ok: "server_ok s" and t: "s_tiles s tp = Some t" and sh: "\<And>p. t_view t = Some p \<Longrightarrow> showable p w s"
  obtains s' where "(case t_view t of None \<Rightarrow> Some s | Some p \<Rightarrow> view_maximize p tp s) = Some s'" and "server_ok s'"
    and "same_rest s s'" and "s_tiles s' = s_tiles s" and "s_seat s' = s_seat s"
proof (cases "t_view t")
  case None
  with ok show thesis by (intro that [of s]) simp_all
next
  case (Some p)
  note l = server_ok_links [OF ok]
  obtain v where v: "s_views s p = Some v" "v_tile v = Some tp" using links_ok_view [OF l(1) t Some] by blast
  obtain ws c where w: "v_workspace v = Some w" "s_workspaces s w = Some ws" "s_outs s (w_output ws) \<noteq> None"
    and c: "s_curr_output s = Some c" "s_outs s c \<noteq> None" using sh [OF Some] v(1) by (auto simp: showable_def)
  obtain s' where s': "view_maximize p tp s = Some s'" "same_rest s s'" "s_tiles s' = s_tiles s"
    "s_views s' = (s_views s)(p \<mapsto> maximized tp t v)" "s_seat s' = s_seat s" using view_maximize_ok [OF t v(1) w c] .
  have "server_ok s'"
    unfolding server_ok_same_rest [OF s'(2)] s'(3-5)
  proof (rule server_ok_update [OF ok])
    show "links_ok (s_tiles s) ((s_views s)(p \<mapsto> maximized tp t v))"
      unfolding links_ok_def
    proof (intro conjI allI impI, goal_cases)
      case (1 t' tl v')
      then show ?case
        using links_ok_view [OF l(1), of t' tl v'] v by (cases "v' = p") auto
    next
      case (2 v' vw t')
      then show ?case
        using links_ok_tile [OF l(1), of v' vw t'] t Some by (cases "v' = p") auto
    qed
  qed (use v l(2) in \<open>auto simp: seat_ok_def same_shape_def intro!: option.rel_refl\<close>)
  with s' Some show thesis by (intro that [of s']) simp_all
qed

lemma hide_view_same:
  "rel_option (\<lambda>x x'. \<forall>w m. view_ok w m x' = view_ok w m x) (V v) (hide_view vo V v)"
  using view_ok_hide .

lemma server_ok_merge:
  assumes ok: "server_ok s" and w: "w \<in> live_ws s" and ws: "s_workspaces s w = Some ws"
    and r: "is_ring (s_tiles s) (m # rest)" "rest \<noteq> []" "tp \<in> set rest"
    and tok: "\<And>t. t \<in> set (m # rest) \<Longrightarrow> \<exists>tl. s_tiles s t = Some tl \<and> tile_ok w (w_views ws) tl"
    and fo: "w_focused_tile ws = Some fo" "fo \<in> set (m # rest)"
    and m: "s_tiles s m = Some mt" "t_prev mt = Some a" "t_next mt = Some b"
  shows "server_ok (s\<lparr>s_tiles := merged_tiles tp m a b box (s_tiles s), s_views := hide_view (t_view mt) (s_views s),
      s_workspaces := (s_workspaces s)(w \<mapsto> ws\<lparr>w_focused_tile := Some (if fo = m then tp else fo)\<rparr>),
      s_seat := (if se_cursor_tile (s_seat s) = Some m then (s_seat s)\<lparr>se_cursor_tile := Some tp\<rparr> else s_seat s)\<rparr>)"
proof -
  let ?T = "merged_tiles tp m a b box (s_tiles s)"
  let ?f = "if fo = m then tp else fo"
  let ?se = "if se_cursor_tile (s_seat s) = Some m then (s_seat s)\<lparr>se_cursor_tile := Some tp\<rparr> else s_seat s"
  note l = server_ok_links [OF ok]
  have look: "\<exists>tl'. ?T x = Some tl' \<and> t_view tl' = t_view tl \<and> t_workspace tl' = t_workspace tl"
    if "s_tiles s x = Some tl" "x \<noteq> m" for x tl
    using merged_tiles_look [OF that(2), of tp a b box "s_tiles s"] that(1) by simp
  have bk: "\<exists>tl. s_tiles s x = Some tl \<and> t_view tl = t_view tl' \<and> x \<noteq> m" if "?T x = Some tl'" for x tl'
    using that merged_tiles_look [of x m tp a b box "s_tiles s"] by (cases "x = m") auto
  have rest: "is_ring ?T rest" using merged_ring [OF r(1,2) m] .
  have "?f \<in> set rest" using fo(2) r(3) by auto
  then obtain us where us: "is_ring ?T us" "hd us = ?f" "set us = set rest" using is_ring_rotate_to [OF rest] by metis
  have mr: "m \<notin> set rest" using r(1) by (simp add: is_ring_def)
  have near: "a \<in> set (m # rest)" "b \<in> set (m # rest)" using is_ring_in_dom [OF r(1), of m] m by auto
  have "server_ok (s\<lparr>s_tiles := ?T, s_views := hide_view (t_view mt) (s_views s),
      s_workspaces := (s_workspaces s)(w \<mapsto> ws\<lparr>w_focused_tile := Some ?f\<rparr>), s_seat := ?se,
      s_tile_brk := s_tile_brk s, s_tiles_curr_id := s_tiles_curr_id s\<rparr>)"
  proof (rule server_ok_one_ws [OF ok w ws, where ts = us])
    show "\<exists>tl. ?T t = Some tl \<and> tile_ok w (w_views ws) tl" if t: "t \<in> set us" for t
    proof -
      have "t \<in> set (m # rest)" "t \<noteq> m" using t us(3) mr by auto
      with tok [OF this(1)] look show ?thesis by (fastforce simp: tile_ok_def)
    qed
    show "?T t = Some tl" if t: "s_tiles s t = Some tl" "t_workspace tl \<noteq> Some w" for t tl
    proof -
      have "t \<notin> set (m # rest)" using tok [of t] t by (auto simp: tile_ok_def)
      then have "t \<noteq> m" "t \<noteq> a" "t \<noteq> b" "t \<noteq> tp" using near r(3) by auto
      with t(1) show ?thesis by (simp add: merged_tiles_def)
    qed
    show "links_ok ?T (hide_view (t_view mt) (s_views s))"
      unfolding links_ok_def
    proof (intro conjI allI impI, goal_cases)
      case (1 t tl v)
      then obtain tl0 where t0: "s_tiles s t = Some tl0" "t_view tl0 = Some v" "t \<noteq> m" using bk by metis
      obtain vw where vw: "s_views s v = Some vw" "v_tile vw = Some t" using links_ok_view [OF l(1) t0(1,2)] by blast
      have "t_view mt \<noteq> Some v"
      proof
        assume "t_view mt = Some v"
        from links_ok_view [OF l(1) m(1) this] vw t0(3) show False by simp
      qed
      with vw show ?case by (simp add: hide_view_apply)
    next
      case (2 v vw t)
      then obtain v0 where v0: "s_views s v = Some v0" "t_view mt \<noteq> Some v" "v_tile v0 = Some t"
        using hide_view_tile by metis
      then obtain tl where "s_tiles s t = Some tl" "t_view tl = Some v" using links_ok_tile [OF l(1)] by blast
      moreover have "t \<noteq> m" using calculation m(1) v0(2) by auto
      ultimately show ?case using look by metis
    qed
    show "rel_option (\<lambda>x x'. \<forall>w m. view_ok w m x' = view_ok w m x) (s_views s v) (hide_view (t_view mt) (s_views s) v)" for v
      using view_ok_hide .
    show "s_views s v \<noteq> None" if "se_focused_view ?se = Some v" for v
      using l(2) that by (auto simp: seat_ok_def split: if_splits)
    show "\<exists>tl w. ?T t = Some tl \<and> t_workspace tl = Some w \<and> w \<in> live_ws s" if c: "se_cursor_tile ?se = Some t" for t
    proof (cases "se_cursor_tile (s_seat s) = Some m")
      case True
      with c have "t = tp" by simp
      moreover obtain tl where "s_tiles s tp = Some tl" "t_workspace tl = Some w" using tok [of tp] r(3) by (auto simp: tile_ok_def)
      moreover have "tp \<noteq> m" using r(3) mr by auto
      ultimately show ?thesis using look w by metis
    next
      case False
      with c obtain tl w' where "s_tiles s t = Some tl" "t_workspace tl = Some w'" "w' \<in> live_ws s" "t \<noteq> m"
        using l(2) by (auto simp: seat_ok_def)
      then show ?thesis using look by metis
    qed
    show "t < s_tile_brk s" if t: "?T t \<noteq> None" for t
    proof -
      obtain tl where "s_tiles s t = Some tl" using t bk by blast
      then show ?thesis using ok by (auto simp: server_ok_def tiles_below_brk_def)
    qed
  qed (use us live_wsD [OF ok w ws] in \<open>simp_all, metis\<close>)
  then show ?thesis by simp
qed

section \<open>Merging two tiles\<close>

text \<open>
  A merge: the tile \<open>m\<close> is gone from the ring of its workspace, the tile \<open>tp\<close> has the box of both,
  and the other tiles are as before.
\<close>

definition merge_ring_of :: "tile_ptr \<Rightarrow> tile_ptr \<Rightarrow> wlr_box \<Rightarrow> ws_ptr \<Rightarrow> cg_server \<Rightarrow> cg_server \<Rightarrow> bool" where
  "merge_ring_of tp m box w s s' \<longleftrightarrow>
     (\<exists>ts us. ws_ring w s = Some ts \<and> ws_ring w s' = Some us \<and> mset ts = add_mset m (mset us) \<and>
        tp \<in> set us \<and> s_tiles s' m = None \<and>
        (\<forall>x \<in> set us. \<exists>t t'. s_tiles s x = Some t \<and> s_tiles s' x = Some t' \<and> t_view t' = t_view t \<and>
           t_box t' = (if x = tp then box else t_box t)) \<and>
        only_ws w s s' \<and> ws_tiles w s' = ws_tiles w s - {m})"

lemma set_focused_id: "s_workspaces s w = Some ws \<Longrightarrow>
  set_focused w f s = s\<lparr>s_workspaces := (s_workspaces s)(w \<mapsto> ws\<lparr>w_focused_tile := Some f\<rparr>)\<rparr>"
  by (simp add: set_focused_def)

lemma merge_order:
  "s\<lparr>s_workspaces := W, s_tiles := T, s_views := V, s_seat := se\<rparr> =
   s\<lparr>s_tiles := T, s_views := V, s_workspaces := W, s_seat := se\<rparr>"
  by (cases s) simp

lemma merged_heap:
  assumes r: "is_ring T (m # rest)" and w: "\<And>t. t \<in> set (m # rest) \<Longrightarrow> \<exists>tl. T t = Some tl \<and> t_workspace tl = Some w"
    and m: "T m = Some mt" "t_prev mt = Some a" "t_next mt = Some b" and tp: "tp \<in> set rest" "m \<notin> set rest"
    and tl: "t_workspace u \<noteq> Some w"
  shows "merged_tiles tp m a b box T x = Some u \<longleftrightarrow> T x = Some u"
proof (cases "x \<in> set (m # rest)")
  case True
  with w obtain tx where tx: "T x = Some tx" "t_workspace tx = Some w" by blast
  show ?thesis
  proof (cases "x = m")
    case True
    with tx tl show ?thesis by auto
  next
    case False
    from merged_tiles_look [OF this, of tp a b box T] tx tl show ?thesis by auto
  qed
next
  case False
  have "a \<in> set (m # rest)" "b \<in> set (m # rest)" using is_ring_in_dom [OF r, of m] m by auto
  with False tp have "x \<noteq> m" "x \<noteq> a" "x \<noteq> b" "x \<noteq> tp" by auto
  then show ?thesis by (simp add: merged_tiles_def)
qed

lemma ring_neighbours_ne:
  assumes r: "is_ring h (m # rest)" and ne: "rest \<noteq> []" and m: "h m = Some mt" "t_prev mt = Some a" "t_next mt = Some b"
  shows "a \<noteq> m" and "b \<noteq> m"
proof -
  obtain es e where es: "rest = es @ [e]" using ne by (cases rest rule: rev_cases) auto
  then have "is_ring h (e # m # es)" using r is_ring_rotate [of h "m # es" "[e]"] by simp
  then have "prv h m = Some e" by (auto dest: is_ring_link_hd)
  moreover have "e \<noteq> m" using r es by (auto simp: is_ring_def)
  ultimately show "a \<noteq> m" using m by (simp add: prv_def)
  obtain c cs where c: "rest = c # cs" using ne by (cases rest) auto
  then have "nxt h m = Some c" "c \<noteq> m" using r by (auto simp: is_ring_def link_def)
  then show "b \<noteq> m" using m by (simp add: nxt_def)
qed

lemma merge_tile_ok:
  assumes f: "is_finder find_tile" and ok: "server_ok s" and w: "w \<in> live_ws s" and ts: "ws_ring w s = Some ts" "tp \<in> set ts"
    and t: "s_tiles s tp = Some t" and m: "find_tile tp s = Some (Some m)" "s_tiles s m = Some mt"
    and same: "get_field df (t_box t) = get_field df (t_box mt)" "get_field cf (t_box t) = get_field cf (t_box mt)"
  obtains s' where "merge_tile find_tile df cf tp s = Some s'" and "server_ok s'"
    and "merge_ring_of tp m (merge_boxes df cf (t_box t) (t_box mt)) w s s'"
    and "focused_tile_of w s' = (if focused_tile_of w s = Some m then Some tp else focused_tile_of w s)"
    and "se_focused_view (s_seat s') = se_focused_view (s_seat s)" and "curr_ws s' = curr_ws s"
proof -
  let ?bx = "merge_boxes df cf (t_box t) (t_box mt)"
  obtain ws where ws: "s_workspaces s w = Some ws" using live_ws_ok [OF ok w] by metis
  obtain r: "is_ring (s_tiles s) ts" and fo: "focused_tile_of w s = Some (hd ts)" "hd ts \<in> set ts"
    and tok: "\<forall>t \<in> set ts. \<exists>tl. s_tiles s t = Some tl \<and> tile_ok w (w_views ws) tl"
    using live_ws_ring [OF ok w ws] ts(1) by (metis option.sel)
  have mts: "m \<in> set ts" "m \<noteq> tp" using finder_total [OF f ok w ts] m(1) by (metis option.sel)+
  obtain rest where rest: "is_ring (s_tiles s) (m # rest)" "set ts = set (m # rest)" "mset ts = mset (m # rest)"
    using ring_rotate_cons [OF r mts(1)] by metis
  have tpr: "tp \<in> set rest" using ts(2) rest(2) mts(2) by auto
  have mr: "m \<notin> set rest" using rest(1) by (simp add: is_ring_def)
  have rne: "rest \<noteq> []" using tpr by auto
  obtain a b where ab: "t_prev mt = Some a" "t_next mt = Some b" "a \<in> set (m # rest)" "b \<in> set (m # rest)"
    "s_tiles s a \<noteq> None" "s_tiles s b \<noteq> None"
    using is_ring_in_dom [OF rest(1), of m] m(2) is_ring_in_dom [OF rest(1)] by (metis list.set_intros(1) option.distinct(1) option.sel)
  have near: "a \<noteq> m" "b \<noteq> m" using ring_neighbours_ne [OF rest(1) rne m(2) ab(1,2)] by auto
  have mw: "t_workspace mt = Some w" using tok mts(1) m(2) by (auto simp: tile_ok_def)
  have fw: "w_focused_tile ws = Some (hd ts)" using fo(1) ws by (simp add: focused_tile_of_def)
  let ?f = "if hd ts = m then tp else hd ts"
  obtain s1 where s1: "merge_unlink tp m df cf s = Some s1"
    "same_rest (if w_focused_tile ws = Some m then set_focused w tp s else s) s1"
    "s_tiles s1 = merged_tiles tp m a b ?bx (s_tiles s)" "s_views s1 = hide_view (t_view mt) (s_views s)"
    "s_seat s1 = (if se_cursor_tile (s_seat s) = Some m then (s_seat s)\<lparr>se_cursor_tile := Some tp\<rparr> else s_seat s)"
    using merge_unlink_ok [OF ok t m(2) ab(1,2) mts(2) near ab(5,6) mw ws] .
  have "(if w_focused_tile ws = Some m then set_focused w tp s else s) =
      s\<lparr>s_workspaces := (s_workspaces s)(w \<mapsto> ws\<lparr>w_focused_tile := Some ?f\<rparr>)\<rparr>" (is "_ = ?s0")
    using fw ws by (auto simp: set_focused_id fun_upd_idem)
  with s1(2) have r1: "same_rest ?s0 s1" by simp
  have ok1: "server_ok s1"
    using server_ok_merge [OF ok w ws rest(1) rne tpr _ fw _ m(2) ab(1,2), of ?bx] tok fo(2) rest(2)
    unfolding server_ok_same_rest [OF r1] s1(3-5) by (simp add: merge_order)
  have look: "s_tiles s1 x = map_option (\<lambda>t. t\<lparr>t_next := (if x = a then Some b else t_next t),
      t_prev := (if x = b then Some a else t_prev t), t_box := (if x = tp then ?bx else t_box t)\<rparr>) (s_tiles s x)"
    if "x \<noteq> m" for x using merged_tiles_look [OF that] s1(3) by simp
  obtain t1 where t1: "s_tiles s1 tp = Some t1" "t_view t1 = t_view t" "t_workspace t1 = t_workspace t" "t_id t1 = t_id t"
    using look [of tp] mts(2) t by simp
  have tw: "t_workspace t = Some w" "\<And>v. t_view t = Some v \<Longrightarrow> v \<in> set (w_views ws)"
    using tok ts(2) t by (auto simp: tile_ok_def)
  have live1: "w \<in> live_ws s1" using same_rest_live [OF r1] w by (simp add: live_ws_def)
  have W1: "s_workspaces s1 w = Some (ws\<lparr>w_focused_tile := Some ?f\<rparr>)" using same_rest_ws [OF r1] by simp
  have sh: "\<And>p. t_view t1 = Some p \<Longrightarrow> showable p w s1"
    using showable_live [OF ok1 live1 W1] tw(2) t1(2) by simp
  obtain s2 where s2: "(case t_view t1 of None \<Rightarrow> Some s1 | Some p \<Rightarrow> view_maximize p tp s1) = Some s2" "server_ok s2"
    "same_rest s1 s2" "s_tiles s2 = s_tiles s1" "s_seat s2 = s_seat s1" using remaximize_ok [OF ok1 t1(1) sh] .
  have live2: "w \<in> live_ws s2" using same_rest_live [OF s2(3)] live1 by simp
  obtain ev where ev: "ws_event_args w s2 = Some ev" using ws_event_args_total [OF s2(2) live2] .
  let ?e = "Ipc_send_event ''merge_tile'' ([(''tile_id'', d32 (t_id t)), (''merge_tile_id'', d32 (t_id mt))] @ ev)"
  have step: "merge_tile find_tile df cf tp s = Some (emit ?e s2)"
    using m t same mts(2) s1(1) t1 s2(1,4) tw(1) ev by (simp add: merge_tile_def ipc_send_event_def)
  have W2: "s_workspaces s2 w = Some (ws\<lparr>w_focused_tile := Some ?f\<rparr>)" using same_rest_ws [OF s2(3)] W1 by simp
  have rest2: "is_ring (s_tiles s2) rest" using merged_ring [OF rest(1) rne m(2) ab(1,2)] s1(3) s2(4) by simp
  have "?f \<in> set rest" using fo(2) rest(2) tpr by auto
  then obtain us where us: "is_ring (s_tiles s2) us" "hd us = ?f" "set us = set rest"
    using is_ring_rotate_to [OF rest2] by metis
  have "ws_ring w s2 = Some us"
    using ring_of_ring [of s2 "hd us" "tl us"] us s2(2) W2
    by (cases us) (simp_all add: is_ring_def server_ok_def ws_ring_def focused_tile_of_def)
  moreover have "mset us = mset rest"
    using us(1,3) rest2 by (simp add: is_ring_def set_eq_iff_mset_eq_distinct [symmetric])
  moreover have "\<exists>t t'. s_tiles s x = Some t \<and> s_tiles s2 x = Some t' \<and> t_view t' = t_view t \<and>
       t_box t' = (if x = tp then ?bx else t_box t)" if x: "x \<in> set us" for x
  proof -
    have "x \<noteq> m" using x us(3) mr by auto
    moreover obtain tx where "s_tiles s x = Some tx" using is_ring_in_dom [OF rest(1), of x] x us(3) by auto
    ultimately show ?thesis using look [of x] s2(4) by simp
  qed
  moreover have "s_tiles s2 m = None" using s2(4) s1(3) by simp
  moreover have "only_ws w s (emit ?e s2)"
  proof -
    have "\<exists>tl. s_tiles s x = Some tl \<and> t_workspace tl = Some w" if "x \<in> set (m # rest)" for x
      using tok rest(2) that by (auto simp: tile_ok_def)
    from merged_heap [OF rest(1) this m(2) ab(1,2) tpr mr, where box = ?bx] s2(4) s1(3)
    have "t_workspace tl \<noteq> Some w \<Longrightarrow> s_tiles s2 x = Some tl \<longleftrightarrow> s_tiles s x = Some tl" for x tl by simp
    moreover have "live_ws s2 = live_ws s" using same_rest_live [OF s2(3)] same_rest_live [OF r1] by (simp add: live_ws_def)
    moreover have "s_workspaces s2 v = s_workspaces s v" if "v \<noteq> w" for v
      using same_rest_ws [OF s2(3)] same_rest_ws [OF r1] that by simp
    moreover have "live_ws (emit ?e s2) = live_ws s2" by (simp add: live_ws_def)
    ultimately show ?thesis by (simp add: only_ws_def focused_tile_of_def)
  qed
  moreover have "ws_tiles w (emit ?e s2) = ws_tiles w s - {m}"
  proof -
    have "(\<exists>tl. s_tiles s2 x = Some tl \<and> t_workspace tl = Some w) \<longleftrightarrow>
        x \<noteq> m \<and> (\<exists>tl. s_tiles s x = Some tl \<and> t_workspace tl = Some w)" for x
      using look [of x] s2(4) s1(3) by (cases "x = m"; cases "s_tiles s x") simp_all
    then show ?thesis unfolding ws_tiles_def by auto
  qed
  ultimately have "merge_ring_of tp m ?bx w s (emit ?e s2)"
    unfolding merge_ring_of_def using ts(1) rest(3) tpr us(3)
    by (intro exI [of _ ts] exI [of _ us] conjI ballI) simp_all
  moreover have "focused_tile_of w (emit ?e s2) = (if focused_tile_of w s = Some m then Some tp else focused_tile_of w s)"
    using W2 fo(1) by (simp add: focused_tile_of_def)
  moreover have "curr_ws (emit ?e s2) = curr_ws s"
  proof -
    have "outs_sim (s_outs s) (s_outs s2)" "s_curr_output s2 = s_curr_output s"
      using r1 s2(3) by (auto simp: same_rest_def elim: outs_sim_trans)
    then show ?thesis using outs_sim_curr_ws_of [of s "emit ?e s2"] by (simp add: curr_ws_def)
  qed
  moreover have "se_focused_view (s_seat (emit ?e s2)) = se_focused_view (s_seat s)" using s1(5) s2(5) by simp
  moreover have "server_ok (emit ?e s2)" using s2(2) by simp
  ultimately show thesis using step by (intro that [of "emit ?e s2"])
qed

end
