(* ===== verification/Tiling_Geom.thy ===== *)
theory Tiling_Geom
  imports Split_Inv
begin

text \<open>
  The boxes of the tiles of a workspace as a tiling of the screen: the searches for a neighbour
  find the tile that contains the pixel beyond the middle of the edge, and a split or a merge turns
  a tiling into a tiling of the same region.
\<close>

section \<open>The neighbour across an edge\<close>

datatype side = Side_left | Side_right | Side_top | Side_bottom

fun finder :: "side \<Rightarrow> tile_finder" where
  "finder Side_left = find_left_tile"
| "finder Side_right = find_right_tile"
| "finder Side_top = find_top_tile"
| "finder Side_bottom = find_bottom_tile"

fun beside :: "side \<Rightarrow> wlr_box \<Rightarrow> wlr_box \<Rightarrow> bool" where
  "beside Side_left = is_left_of"
| "beside Side_right = is_right_of"
| "beside Side_top = is_top_of"
| "beside Side_bottom = is_bottom_of"

lemma finder_by: "finder d = find_tile_by (beside d)"
  by (cases d) (simp_all add: find_left_tile_def find_right_tile_def find_top_tile_def find_bottom_tile_def)

lemma finder_is_finder [simp]: "is_finder (finder d)"
  by (auto simp: finder_by is_finder_def)

text \<open>The pixel beyond the middle of an edge, and the length of that edge.\<close>

fun beyond :: "side \<Rightarrow> wlr_box \<Rightarrow> int \<times> int" where
  "beyond Side_left b = (box_x b - 1, box_y b + box_height b div 2 - 1)"
| "beyond Side_right b = (box_x b + box_width b, box_y b + box_height b div 2 - 1)"
| "beyond Side_top b = (box_x b + box_width b div 2 - 1, box_y b - 1)"
| "beyond Side_bottom b = (box_x b + box_width b div 2 - 1, box_y b + box_height b)"

fun edge :: "side \<Rightarrow> wlr_box \<Rightarrow> int" where
  "edge Side_left b = box_height b"
| "edge Side_right b = box_height b"
| "edge Side_top b = box_width b"
| "edge Side_bottom b = box_width b"

lemma sdiv_two: "0 \<le> (h::int) \<Longrightarrow> h sdiv 2 = h div 2"
  by (cases "h = 0") (simp_all add: signed_divide_int_def)

lemma beside_beyond:
  assumes e: "2 \<le> edge d b" and b: "\<not> wlr_box_empty b" and it: "\<not> wlr_box_empty it"
    and dis: "pix b \<inter> pix it = {}"
  shows "beside d b it \<longleftrightarrow> beyond d b \<in> pix it"
proof -
  have pos: "0 < box_width b" "0 < box_height b" "0 < box_width it" "0 < box_height it"
    using b it by (auto simp: wlr_box_empty_def)
  have no: "\<not> ((x, y) \<in> pix b \<and> (x, y) \<in> pix it)" for x y using dis by blast
  have half: "1 \<le> box_height b div 2 \<and> box_height b div 2 \<le> box_height b" if "2 \<le> box_height b"
    using that by linarith
  have halfw: "1 \<le> box_width b div 2 \<and> box_width b div 2 \<le> box_width b" if "2 \<le> box_width b"
    using that by linarith
  show ?thesis
  proof (cases d)
    case Side_left
    then show ?thesis
      using pos e half no [of "box_x b" "box_y b + box_height b div 2 - 1"]
      by (auto simp: is_left_of_def is_between_strict_def sdiv_two Let_def)
  next
    case Side_right
    then show ?thesis
      using pos e half no [of "box_x b + box_width b - 1" "box_y b + box_height b div 2 - 1"]
      by (auto simp: is_right_of_def is_between_strict_def sdiv_two Let_def)
  next
    case Side_top
    then show ?thesis
      using pos e halfw no [of "box_x b + box_width b div 2 - 1" "box_y b"]
      by (auto simp: is_top_of_def is_between_strict_def sdiv_two Let_def)
  next
    case Side_bottom
    then show ?thesis
      using pos e halfw no [of "box_x b + box_width b div 2 - 1" "box_y b + box_height b - 1"]
      by (auto simp: is_bottom_of_def is_between_strict_def sdiv_two Let_def)
  qed
qed

text \<open>The boxes of a workspace, in the order of its ring.\<close>

definition tile_box :: "cg_server \<Rightarrow> tile_ptr \<Rightarrow> wlr_box" where
  "tile_box s t = t_box (the (s_tiles s t))"

definition ws_tiles_box :: "wlr_box \<Rightarrow> ws_ptr \<Rightarrow> cg_server \<Rightarrow> bool" where
  "ws_tiles_box R w s \<longleftrightarrow> (\<exists>ts. ws_ring w s = Some ts \<and> tiles_box R (map (tile_box s) ts))"

lemma finder_tiling:
  assumes ok: "server_ok s" and w: "w \<in> live_ws s" and ts: "ws_ring w s = Some ts" "tp \<in> set ts"
    and R: "tiles_box R (map (tile_box s) ts)" and e: "2 \<le> edge d (tile_box s tp)"
  obtains r where "finder d tp s = Some r"
    and "case r of None \<Rightarrow> beyond d (tile_box s tp) \<notin> pix R
         | Some u \<Rightarrow> u \<in> set ts \<and> u \<noteq> tp \<and> beside d (tile_box s tp) (tile_box s u) \<and>
                     beyond d (tile_box s tp) \<in> pix (tile_box s u)"
proof -
  obtain ws where ws: "s_workspaces s w = Some ws" using live_ws_ok [OF ok w] by metis
  have r: "is_ring (s_tiles s) ts" using live_ws_ring [OF ok w ws] ts(1) by (metis option.sel)
  obtain us where us: "is_ring (s_tiles s) (tp # us)" "set ts = set (tp # us)" "tp \<notin> set us" "mset ts = mset (tp # us)"
    using ring_rotate_cons [OF r ts(2)] by metis
  have "tiles_below_brk s" using ok by (simp add: server_ok_def)
  from find_tile_by_ring [OF us(1) this, of "beside d"]
  have find: "finder d tp s = Some (List.find (\<lambda>u. beside d (tile_box s tp) (tile_box s u)) us)"
    by (simp add: finder_by tile_box_def)
  have "mset (map (tile_box s) ts) = mset (tile_box s tp # map (tile_box s) us)" using us(4) by simp
  then have R': "tiles_box R (tile_box s tp # map (tile_box s) us)"
    using R box_cover.tiling_mset by blast
  have ne: "\<not> wlr_box_empty (tile_box s x)" if "x \<in> set ts" for x
    using R that unfolding box_cover.tiling_def by (auto simp: pix_empty_iff [symmetric])
  have dis: "pix (tile_box s tp) \<inter> pix (tile_box s u) = {}" if u: "u \<in> set us" for u
  proof -
    obtain xs ys where "us = xs @ u # ys" using u by (auto simp: in_set_conv_decomp)
    with box_cover.tiling_disjoint [of "pix R" "[]" "tile_box s tp" "map (tile_box s) xs" "tile_box s u" "map (tile_box s) ys"] R'
    show ?thesis by simp
  qed
  have eq: "beside d (tile_box s tp) (tile_box s u) \<longleftrightarrow> beyond d (tile_box s tp) \<in> pix (tile_box s u)" if u: "u \<in> set us" for u
    using beside_beyond [OF e ne ne dis [OF u]] ts(2) u us(2) by simp
  show thesis
  proof (cases "List.find (\<lambda>u. beside d (tile_box s tp) (tile_box s u)) us")
    case None
    have own: "beyond d (tile_box s tp) \<notin> pix (tile_box s tp)" by (cases d) simp_all
    have "beyond d (tile_box s tp) \<notin> pix R"
    proof
      assume "beyond d (tile_box s tp) \<in> pix R"
      then obtain c where "c \<in> set (tile_box s tp # map (tile_box s) us)" "beyond d (tile_box s tp) \<in> pix c"
        using box_cover.tiling_covers [OF R'] by blast
      with own obtain u where "u \<in> set us" "beyond d (tile_box s tp) \<in> pix (tile_box s u)" by auto
      with eq None show False by (auto simp: find_None_iff)
    qed
    with find None show thesis by (intro that [of None]) simp_all
  next
    case (Some u)
    then have u: "u \<in> set us" "beside d (tile_box s tp) (tile_box s u)" by (auto dest: find_in)
    have "u \<in> set ts" "u \<noteq> tp" "beyond d (tile_box s tp) \<in> pix (tile_box s u)" using u us(2,3) eq by auto
    with find Some u show thesis by (intro that [of "Some u"]) simp_all
  qed
qed

section \<open>Splits and merges\<close>

lemma ring_box_same:
  assumes "map_option t_box (s_tiles s' x) = map_option t_box (s_tiles s x)" and "s_tiles s x \<noteq> None"
  shows "tile_box s' x = tile_box s x"
  using assms by (cases "s_tiles s x"; cases "s_tiles s' x") (simp_all add: tile_box_def)

lemma split_tiling:
  assumes ok: "server_ok s" and sp: "split_ring_of f vertical k s s'" and w: "curr_ws s = Some w" and R: "ws_tiles_box R w s"
    and k: "cut_box_ok (vertical, k) (tile_box s f)"
  shows "ws_tiles_box R w s'"
proof -
  obtain rest ft ft' nt where r: "ws_ring w s = Some (f # rest)" "ws_ring w s' = Some (f # s_tile_brk s # rest)"
    "s_tiles s f = Some ft" "s_tiles s' f = Some ft'" "s_tiles s' (s_tile_brk s) = Some nt"
    "cut_box (vertical, k) (t_box ft) = (t_box ft', t_box nt)"
    and same: "\<forall>x \<in> set rest. map_option t_box (s_tiles s' x) = map_option t_box (s_tiles s x)"
    using sp w unfolding split_ring_of_def by auto
  have live: "w \<in> live_ws s" using curr_ws_live [OF ok w] .
  obtain ws where "s_workspaces s w = Some ws" using live_ws_ok [OF ok live] by metis
  from live_ws_ring [OF ok live this] r(1) have ring: "is_ring (s_tiles s) (f # rest)" by (metis option.sel)
  have "tile_box s' x = tile_box s x" if x: "x \<in> set rest" for x
    using ring_box_same [OF same [rule_format, OF x]] is_ring_in_dom [OF ring, of x] x by auto
  then have rest: "map (tile_box s') rest = map (tile_box s) rest" by simp
  have "tiles_box R ([] @ tile_box s f # map (tile_box s) rest)" using R r(1) by (auto simp: ws_tiles_box_def)
  from box_cover.tiling_cut [OF this k, of "tile_box s' f" "tile_box s' (s_tile_brk s)"]
  have "tiles_box R (tile_box s' f # tile_box s' (s_tile_brk s) # map (tile_box s) rest)"
    using r(3-6) by (simp add: tile_box_def)
  then have "tiles_box R (map (tile_box s') (f # s_tile_brk s # rest))" by (simp only: rest list.map)
  with r(2) show ?thesis unfolding ws_tiles_box_def by blast
qed

text \<open>The dimension and the coordinate that must agree for a merge across a side.\<close>

fun merge_dim :: "side \<Rightarrow> box_field" where
  "merge_dim Side_left = Get_height"
| "merge_dim Side_right = Get_height"
| "merge_dim Side_top = Get_width"
| "merge_dim Side_bottom = Get_width"

fun merge_coord :: "side \<Rightarrow> box_field" where
  "merge_coord Side_left = Get_y"
| "merge_coord Side_right = Get_y"
| "merge_coord Side_top = Get_x"
| "merge_coord Side_bottom = Get_x"

fun horizontal :: "side \<Rightarrow> bool" where
  "horizontal Side_left = True"
| "horizontal Side_right = True"
| "horizontal Side_top = False"
| "horizontal Side_bottom = False"

lemma merge_boxes_glue: "merge_boxes (merge_dim d) (merge_coord d) b m = glue_box (horizontal d, 0) b m"
  by (cases d) (simp_all add: merge_boxes_def get_compl_dim_def get_compl_coord_def Let_def)

lemma beside_glue_ok:
  assumes "beside d b m" and "get_field (merge_dim d) b = get_field (merge_dim d) m"
    and "get_field (merge_coord d) b = get_field (merge_coord d) m"
  shows "glue_box_ok (horizontal d, 0) b m"
  using assms by (cases d) (auto simp: is_left_of_def is_right_of_def is_top_of_def is_bottom_of_def Let_def)

lemma finder_beside:
  assumes ok: "server_ok s" and w: "w \<in> live_ws s" and ts: "ws_ring w s = Some ts" "tp \<in> set ts"
    and m: "finder d tp s = Some (Some m)"
  shows "beside d (tile_box s tp) (tile_box s m)"
proof -
  obtain ws where ws: "s_workspaces s w = Some ws" using live_ws_ok [OF ok w] by metis
  have r: "is_ring (s_tiles s) ts" using live_ws_ring [OF ok w ws] ts(1) by (metis option.sel)
  obtain us where us: "is_ring (s_tiles s) (tp # us)" using ring_rotate_cons [OF r ts(2)] by metis
  have "tiles_below_brk s" using ok by (simp add: server_ok_def)
  from find_tile_by_ring [OF us this, of "beside d"] m
  have "List.find (\<lambda>u. beside d (t_box (the (s_tiles s tp))) (t_box (the (s_tiles s u)))) us = Some m"
    by (simp add: finder_by)
  from find_in [OF this] show ?thesis by (simp add: tile_box_def)
qed

lemma merge_tiling:
  assumes ok: "server_ok s" and w: "w \<in> live_ws s" and tp: "\<exists>ts. ws_ring w s = Some ts \<and> tp \<in> set ts"
    and R: "ws_tiles_box R w s" and m: "finder d tp s = Some (Some m)"
    and same: "get_field (merge_dim d) (tile_box s tp) = get_field (merge_dim d) (tile_box s m)"
      "get_field (merge_coord d) (tile_box s tp) = get_field (merge_coord d) (tile_box s m)"
    and mg: "merge_ring_of tp m (merge_boxes (merge_dim d) (merge_coord d) (tile_box s tp) (tile_box s m)) w s s'"
  shows "ws_tiles_box R w s'"
proof -
  let ?g = "glue_box (horizontal d, 0) (tile_box s tp) (tile_box s m)"
  from mg obtain ts us where ts: "ws_ring w s = Some ts" "ws_ring w s' = Some us" "mset ts = add_mset m (mset us)"
    "tp \<in> set us" and all: "\<forall>x \<in> set us. \<exists>t t'. s_tiles s x = Some t \<and> s_tiles s' x = Some t' \<and> t_view t' = t_view t \<and>
           t_box t' = (if x = tp then ?g else t_box t)"
    unfolding merge_ring_of_def merge_boxes_glue by blast
  have bx: "tile_box s' x = (if x = tp then ?g else tile_box s x)" if x: "x \<in> set us" for x
  proof -
    obtain t t' where "s_tiles s x = Some t" "s_tiles s' x = Some t'" "t_box t' = (if x = tp then ?g else t_box t)"
      using all x by blast
    then show ?thesis unfolding tile_box_def by (cases "x = tp") simp_all
  qed
  obtain as bs where us: "us = as @ tp # bs" using ts(4) by (auto simp: in_set_conv_decomp)
  have tpin: "tp \<in> set ts" using tp ts(1) by auto
  have dist: "distinct us"
  proof -
    obtain ws where ws: "s_workspaces s w = Some ws" using live_ws_ok [OF ok w] by metis
    have "is_ring (s_tiles s) ts" using live_ws_ring [OF ok w ws] ts(1) by (metis option.sel)
    then have "distinct (m # us)" using ts(3) by (metis is_ring_def mset.simps(2) mset_eq_imp_distinct_iff)
    then show ?thesis by simp
  qed
  have glue: "glue_box_ok (horizontal d, 0) (tile_box s tp) (tile_box s m)"
    using beside_glue_ok [OF finder_beside [OF ok w ts(1) tpin m] same] .
  have "tiles_box R (map (tile_box s) ts)" using R ts(1) by (auto simp: ws_tiles_box_def)
  moreover have "mset (map (tile_box s) ts) = mset (tile_box s tp # tile_box s m # map (tile_box s) (as @ bs))"
    using ts(3) us by simp
  ultimately have "tiles_box R (tile_box s tp # tile_box s m # map (tile_box s) (as @ bs))"
    using box_cover.tiling_mset by blast
  from box_cover.tiling_glue [OF this glue] have "tiles_box R (?g # map (tile_box s) (as @ bs))" .
  moreover have "map (tile_box s') (as @ bs) = map (tile_box s) (as @ bs)"
    using bx us dist by (auto simp: map_eq_conv)
  moreover have "tile_box s' tp = ?g" using bx ts(4) by simp
  moreover have "mset (map (tile_box s') us) = mset (tile_box s' tp # map (tile_box s') (as @ bs))" using us by simp
  ultimately have "tiles_box R (map (tile_box s') us)" using box_cover.tiling_mset by metis
  with ts(2) show ?thesis by (auto simp: ws_tiles_box_def)
qed

end
