(* ===== verification/Navigation.thy ===== *)
theory Navigation
  imports Tiling_Geom Float_Bounds
begin

text \<open>
  Sequences of the actions that move the focus and change the tiling. The locale \<open>action_system\<close>
  states what every action promises, that it never faults from a good state and leads to a good
  state, and derives this for sequences of actions and for all reachable states; it is interpreted
  on the actions of cagebreak, with an invariant that adds to \<open>server_ok\<close> that the tiles of every
  workspace tile its screen.
\<close>

section \<open>Systems of actions\<close>

inductive reachable :: "('a \<Rightarrow> 's \<Rightarrow> 's option) \<Rightarrow> ('a \<Rightarrow> bool) \<Rightarrow> 's \<Rightarrow> 's \<Rightarrow> bool"
  for step :: "'a \<Rightarrow> 's \<Rightarrow> 's option" and valid :: "'a \<Rightarrow> bool" and init :: 's where
  reachable_init: "reachable step valid init init"
| reachable_step: "reachable step valid init s \<Longrightarrow> valid a \<Longrightarrow> step a s = Some s' \<Longrightarrow> reachable step valid init s'"

fun run_actions :: "('a \<Rightarrow> 's \<Rightarrow> 's option) \<Rightarrow> 'a list \<Rightarrow> 's \<Rightarrow> 's option" where
  "run_actions step [] s = Some s"
| "run_actions step (a # as) s = Option.bind (step a s) (run_actions step as)"

locale action_system =
  fixes step :: "'a \<Rightarrow> 's \<Rightarrow> 's option" and valid :: "'a \<Rightarrow> bool" and good :: "'s \<Rightarrow> bool"
  assumes step_good: "good s \<Longrightarrow> valid a \<Longrightarrow> \<exists>s'. step a s = Some s' \<and> good s'"
begin

lemma run_good:
  assumes "good s" and "\<forall>a \<in> set as. valid a"
  shows "\<exists>s'. run_actions step as s = Some s' \<and> good s'"
  using assms
proof (induction as arbitrary: s)
  case (Cons a as)
  then obtain s1 where "step a s = Some s1" "good s1" using step_good by force
  with Cons show ?case by simp
qed simp

lemma reachable_good: "reachable step valid init s \<Longrightarrow> good init \<Longrightarrow> good s"
proof (induction rule: reachable.induct)
  case (reachable_step s a s')
  then show ?case using step_good by (metis option.sel)
qed

lemma reachable_run: "reachable step valid init s \<Longrightarrow> \<exists>as. (\<forall>a \<in> set as. valid a) \<and> run_actions step as init = Some s"
proof (induction rule: reachable.induct)
  case reachable_init
  show ?case by (rule exI [of _ "[]"]) simp
next
  case (reachable_step s a s')
  then obtain as where as: "\<forall>a \<in> set as. valid a" "run_actions step as init = Some s" by blast
  have "run_actions step (bs @ [a]) x = Option.bind (run_actions step bs x) (step a)" for bs x
    by (induction bs arbitrary: x) (auto split: bind_splits)
  then have "run_actions step (as @ [a]) init = Some s'" using as(2) reachable_step(3) by simp
  with as(1) reachable_step(2) show ?case by (intro exI [of _ "as @ [a]"]) simp
qed

lemma no_deadlock: "reachable step valid init s \<Longrightarrow> good init \<Longrightarrow> valid a \<Longrightarrow> step a s \<noteq> None"
  using reachable_good step_good by fastforce

end

section \<open>The actions\<close>

datatype nav_action =
    Nav_cycle_outputs bool
  | Nav_switch_output int
  | Nav_switch_ws u32
  | Nav_focus_tile u32
  | Nav_cycle_tiles bool
  | Nav_focus_side side
  | Nav_swap_side side
  | Nav_split bool f32
  | Nav_merge_side side

definition nav_step :: "nav_action \<Rightarrow> cg_server \<Rightarrow> cg_server option" where
  "nav_step a s =
     (case a of
        Nav_cycle_outputs r \<Rightarrow> keybinding_cycle_outputs r True s
      | Nav_switch_output n \<Rightarrow> keybinding_switch_output n s
      | Nav_switch_ws i \<Rightarrow> map_option snd (keybinding_switch_ws i s)
      | Nav_focus_tile i \<Rightarrow> keybinding_focus_tile i s
      | Nav_cycle_tiles r \<Rightarrow> keybinding_cycle_tiles r s
      | Nav_focus_side d \<Rightarrow> do { tp \<leftarrow> curr_tile s; focus_tile (finder d) tp s }
      | Nav_swap_side d \<Rightarrow> swap_tile 0 (finder d) False s
      | Nav_split vertical p \<Rightarrow>
          (if vertical then keybinding_split_vertical p s else keybinding_split_horizontal p s)
      | Nav_merge_side d \<Rightarrow> do { tp \<leftarrow> curr_tile s; merge_tile (finder d) (merge_dim d) (merge_coord d) tp s })"

text \<open>A split has a percentage that the parser accepts.\<close>

definition nav_valid :: "nav_action \<Rightarrow> bool" where
  "nav_valid a \<longleftrightarrow> (case a of Nav_split v p \<Rightarrow> proper_fraction p | _ \<Rightarrow> True)"

section \<open>The invariant\<close>

text \<open>
  \<open>scr w\<close> is the screen of the workspace \<open>w\<close>; the tiles of the workspace are its ring, and they
  tile the screen.
\<close>

definition screen_ok :: "(ws_ptr \<Rightarrow> wlr_box) \<Rightarrow> cg_server \<Rightarrow> ws_ptr \<Rightarrow> bool" where
  "screen_ok scr s w \<longleftrightarrow>
     box_width (scr w) < 2 ^ 24 \<and> box_height (scr w) < 2 ^ 24 \<and>
     (\<exists>ts. ws_ring w s = Some ts \<and> set ts = ws_tiles w s \<and> tiles_box (scr w) (map (tile_box s) ts))"

definition nav_good :: "(ws_ptr \<Rightarrow> wlr_box) \<Rightarrow> cg_server \<Rightarrow> bool" where
  "nav_good scr s \<longleftrightarrow> server_ok s \<and> focus_ok s \<and> (\<forall>w \<in> live_ws s. screen_ok scr s w)"

text \<open>Two rings of the same heap that share a tile have the same tiles.\<close>

lemma rings_same:
  assumes b: "tiles_below_brk s" and r: "is_ring (s_tiles s) ts" "is_ring (s_tiles s) us" and x: "x \<in> set ts" "x \<in> set us"
  shows "set ts = set us"
proof -
  obtain ts' where t: "is_ring (s_tiles s) (x # ts')" "set ts = set (x # ts')" using ring_rotate_cons [OF r(1) x(1)] by metis
  obtain us' where u: "is_ring (s_tiles s) (x # us')" "set us = set (x # us')" using ring_rotate_cons [OF r(2) x(2)] by metis
  from ring_of_ring [OF t(1) b] ring_of_ring [OF u(1) b] have "ts' = us'" by simp
  with t(2) u(2) show ?thesis by simp
qed

lemma ring_tiles_ws:
  assumes ok: "server_ok s" and w: "w \<in> live_ws s" and ts: "ws_ring w s = Some ts"
  shows "is_ring (s_tiles s) ts" and "set ts \<subseteq> ws_tiles w s" and "distinct ts"
proof -
  obtain ws where ws: "s_workspaces s w = Some ws" using live_ws_ok [OF ok w] by metis
  show r: "is_ring (s_tiles s) ts" using live_ws_ring [OF ok w ws] ts by (metis option.sel)
  then show "distinct ts" by (simp add: is_ring_def)
  have "\<forall>t \<in> set ts. \<exists>tl. s_tiles s t = Some tl \<and> tile_ok w (w_views ws) tl"
    using live_ws_ring [OF ok w ws] ts by (metis option.sel)
  then show "set ts \<subseteq> ws_tiles w s" by (auto simp: ws_tiles_def tile_ok_def)
qed

text \<open>
  The invariant of a screen only looks at the links, the boxes and the workspaces of the tiles of
  the workspace.
\<close>

lemma screen_ok_transfer:
  assumes ok: "server_ok s" and ok': "server_ok s'" and w: "w \<in> live_ws s" "w \<in> live_ws s'" and sc: "screen_ok scr s w"
    and tiles: "ws_tiles w s' = ws_tiles w s"
    and same: "\<And>t. t \<in> ws_tiles w s \<Longrightarrow> nxt (s_tiles s') t = nxt (s_tiles s) t \<and> prv (s_tiles s') t = prv (s_tiles s) t \<and>
        tile_box s' t = tile_box s t"
  shows "screen_ok scr s' w"
proof -
  obtain ts where ts: "ws_ring w s = Some ts" "set ts = ws_tiles w s" "tiles_box (scr w) (map (tile_box s) ts)"
    and sz: "box_width (scr w) < 2 ^ 24" "box_height (scr w) < 2 ^ 24" using sc by (auto simp: screen_ok_def)
  obtain ws' where ws': "s_workspaces s' w = Some ws'" using live_ws_ok [OF ok' w(2)] by metis
  obtain us where us: "ws_ring w s' = Some us" "is_ring (s_tiles s') us" "hd us \<in> set us"
    using live_ws_ring [OF ok' w(2) ws'] by metis
  have "is_ring (s_tiles s') ts"
    using ring_tiles_ws(1) [OF ok w(1) ts(1)] is_ring_cong [of ts "s_tiles s'" "s_tiles s"] same ts(2) by simp
  moreover have "hd us \<in> set ts" using ring_tiles_ws(2) [OF ok' w(2) us(1)] us(3) tiles ts(2) by auto
  ultimately have eq: "set us = set ts"
    using rings_same [of s' us ts "hd us"] us(2,3) ok' by (simp add: server_ok_def)
  then have m: "mset us = mset ts"
    using ring_tiles_ws(3) [OF ok w(1) ts(1)] ring_tiles_ws(3) [OF ok' w(2) us(1)] by (simp add: set_eq_iff_mset_eq_distinct [symmetric])
  have mp: "map (tile_box s') ts = map (tile_box s) ts" using same ts(2) by simp
  have "tiles_box (scr w) (map (tile_box s') ts)" using ts(3) by (simp only: mp)
  moreover have "mset (map (tile_box s') us) = mset (map (tile_box s') ts)" using m by simp
  ultimately have "tiles_box (scr w) (map (tile_box s') us)" using box_cover.tiling_mset by blast
  with us(1) sz eq ts(2) tiles show ?thesis by (auto simp: screen_ok_def)
qed

lemma nav_good_same_tiles:
  assumes g: "nav_good scr s" and ok: "server_ok s'" "focus_ok s'" and T: "s_tiles s' = s_tiles s" and L: "live_ws s' = live_ws s"
  shows "nav_good scr s'"
proof -
  have "screen_ok scr s' w" if w: "w \<in> live_ws s" for w
    using g w L T by (intro screen_ok_transfer [OF _ ok(1) w]) (simp_all add: nav_good_def ws_tiles_def tile_box_def)
  with ok L show ?thesis by (simp add: nav_good_def)
qed

lemma screen_ok_other:
  assumes ok: "server_ok s" "server_ok s'" and o: "only_ws w s s'" and v: "v \<noteq> w" "v \<in> live_ws s" and sc: "screen_ok scr s v"
  shows "screen_ok scr s' v"
proof (rule screen_ok_transfer [OF ok v(2) _ sc])
  show "v \<in> live_ws s'" using o v(2) by (simp add: only_ws_def)
  have same: "s_tiles s' t = Some tl \<longleftrightarrow> s_tiles s t = Some tl" if "t_workspace tl = Some v" for t tl
    using o v(1) that unfolding only_ws_def by auto
  then show "ws_tiles v s' = ws_tiles v s" by (auto simp: ws_tiles_def)
  fix t
  assume "t \<in> ws_tiles v s"
  then obtain tl where "s_tiles s t = Some tl" "s_tiles s' t = Some tl" using same by (auto simp: ws_tiles_def)
  then show "nxt (s_tiles s') t = nxt (s_tiles s) t \<and> prv (s_tiles s') t = prv (s_tiles s) t \<and> tile_box s' t = tile_box s t"
    by (simp add: nxt_def prv_def tile_box_def)
qed

section \<open>Every action\<close>

lemma same_place_nav:
  assumes "nav_good scr s" and "server_ok s'" and "focus_ok s'" and "same_place s1 s'"
    and "s_tiles s1 = s_tiles s" and "live_ws s1 = live_ws s"
  shows "nav_good scr s'"
  using assms same_place_live [OF assms(4)] same_place_parts(4) [OF assms(4)]
  by (intro nav_good_same_tiles [OF assms(1-3)]) simp_all

lemma nav_switches:
  assumes g: "nav_good scr s"
  shows "\<exists>s'. keybinding_cycle_outputs r e s = Some s' \<and> nav_good scr s'"
    and "\<exists>s'. keybinding_switch_output n s = Some s' \<and> nav_good scr s'"
    and "\<exists>s'. map_option snd (keybinding_switch_ws i s) = Some s' \<and> nav_good scr s'"
    and "\<exists>s'. keybinding_focus_tile i s = Some s' \<and> nav_good scr s'"
    and "\<exists>s'. keybinding_cycle_tiles r s = Some s' \<and> nav_good scr s'"
proof -
  have ok: "server_ok s" and fo: "focus_ok s" using g by (simp_all add: nav_good_def)
  have L: "live_ws (s\<lparr>s_curr_output := p\<rparr>) = live_ws s" for p by (simp add: live_ws_def)
  show "\<exists>s'. keybinding_cycle_outputs r e s = Some s' \<and> nav_good scr s'"
  proof -
    obtain s' q where "keybinding_cycle_outputs r e s = Some s'" "server_ok s'" "focus_ok s'"
      "same_place (s\<lparr>s_curr_output := Some q\<rparr>) s'" using cycle_outputs_ok [OF ok] by metis
    then show ?thesis using same_place_nav [OF g _ _ _ _ L] by auto
  qed
  show "\<exists>s'. keybinding_switch_output n s = Some s' \<and> nav_good scr s'"
  proof -
    obtain s' where s': "keybinding_switch_output n s = Some s'" "server_ok s'"
      "case output_from_num n s of None \<Rightarrow> same_place s s' \<and> s_seat s' = s_seat s
         | Some q \<Rightarrow> focus_ok s' \<and> same_place (s\<lparr>s_curr_output := Some q\<rparr>) s'" using switch_output_ok [OF ok] .
    have "nav_good scr s'"
    proof (cases "output_from_num n s")
      case None
      with s'(3) have p: "same_place s s'" "s_seat s' = s_seat s" by simp_all
      have "focus_ok s'"
        using fo p same_place_curr_tile [OF p(1)] same_place_parts(4) [OF p(1)] by (simp add: focus_ok_def)
      then show ?thesis using same_place_nav [OF g s'(2) _ p(1)] by simp
    next
      case (Some q)
      with s' show ?thesis using same_place_nav [OF g s'(2) _ _ _ L] by auto
    qed
    with s'(1) show ?thesis by blast
  qed
  show "\<exists>s'. map_option snd (keybinding_switch_ws i s) = Some s' \<and> nav_good scr s'"
  proof -
    obtain p where p: "s_curr_output s = Some p" using server_ok_curr [OF ok] by metis
    obtain r s' where s': "keybinding_switch_ws i s = Some (r, s')" "server_ok s'"
      "if uint i < uint (s_nws s) then r = 0 \<and> focus_ok s' \<and> same_place (set_curr_ws p (uint i) s) s' else r = - 1 \<and> s' = s"
      using switch_ws_ok [OF ok p] .
    have L': "live_ws (set_curr_ws p (uint i) s) = live_ws s" by (simp add: live_ws_def set_curr_ws_parts) (simp add: set_curr_ws_def)
    have "nav_good scr s'"
      using s'(2,3) g same_place_nav [OF g s'(2) _ _ _ L'] by (auto simp: set_curr_ws_def split: if_splits)
    with s'(1) show ?thesis by simp
  qed
  show "\<exists>s'. keybinding_focus_tile i s = Some s' \<and> nav_good scr s'"
  proof -
    obtain s' where s': "keybinding_focus_tile i s = Some s'" "server_ok s'" "s_tiles s' = s_tiles s" "live_ws s' = live_ws s"
      "case List.find (\<lambda>t. t_id (the (s_tiles s t)) = i) (all_tiles s) of
           None \<Rightarrow> s' = s | Some tp \<Rightarrow> focus_ok s' \<and> curr_tile s' = Some tp"
      using focus_tile_ok [OF ok] .
    have "focus_ok s'" using s'(5) fo by (auto split: option.splits)
    with nav_good_same_tiles [OF g s'(2) _ s'(3,4)] s'(1) show ?thesis by blast
  qed
  show "\<exists>s'. keybinding_cycle_tiles r s = Some s' \<and> nav_good scr s'"
  proof -
    obtain s' where s': "keybinding_cycle_tiles r s = Some s'" "server_ok s'" "focus_ok s'" "s_tiles s' = s_tiles s"
      "live_ws s' = live_ws s" using cycle_tiles_ok [OF ok] by metis
    with nav_good_same_tiles [OF g s'(2-5)] show ?thesis by blast
  qed
qed

lemma nav_focus_side:
  assumes g: "nav_good scr s"
  shows "\<exists>s'. nav_step (Nav_focus_side d) s = Some s' \<and> nav_good scr s'"
proof -
  have ok: "server_ok s" using g by (simp add: nav_good_def)
  obtain tp t where tp: "curr_tile s = Some tp" using server_ok_curr_tile [OF ok] by metis
  obtain r s' where s': "focus_tile (finder d) tp s = Some s'" "server_ok s'"
    "case r of None \<Rightarrow> s' = s
     | Some u \<Rightarrow> focus_ok s' \<and> curr_tile s' = Some u \<and> s_tiles s' = s_tiles s \<and> live_ws s' = live_ws s"
    using focus_neighbour_ok [OF finder_is_finder ok tp] by metis
  have "nav_good scr s'"
    using s'(2,3) g nav_good_same_tiles [OF g s'(2)] by (cases r) auto
  with s'(1) tp show ?thesis by (simp add: nav_step_def)
qed

lemma nav_swap_side:
  assumes g: "nav_good scr s"
  shows "\<exists>s'. nav_step (Nav_swap_side d) s = Some s' \<and> nav_good scr s'"
proof -
  have ok: "server_ok s" using g by (simp add: nav_good_def)
  obtain tp t where tp: "curr_tile s = Some tp" using server_ok_curr_tile [OF ok] by metis
  obtain w ts where w: "curr_ws s = Some w" "w \<in> live_ws s" "ws_ring w s = Some ts" "tp \<in> set ts" using curr_ring_at [OF ok tp] .
  obtain r where r: "finder d tp s = Some r" "\<And>u. r = Some u \<Longrightarrow> u \<in> set ts \<and> u \<noteq> tp"
    using finder_total [OF finder_is_finder ok w(2-4)] by blast
  have step: "nav_step (Nav_swap_side d) s = swap_tiles (Some tp) r False s"
    using tp r(1) by (simp add: nav_step_def swap_tile_def)
  show ?thesis
  proof (cases r)
    case None
    with step g show ?thesis by (simp add: swap_tiles_def)
  next
    case (Some u)
    have u: "u \<in> set ts" "u \<noteq> tp" using r(2) [OF Some] by auto
    obtain s' where s': "swap_tiles (Some tp) (Some u) False s = Some s'" "server_ok s'" "focus_ok s'"
      "s_tiles s' = swapped_tiles tp u (s_tiles s)" "live_ws s' = live_ws s"
      using swap_stay_ok [OF ok w(2-4) u] by metis
    obtain t tu where t: "s_tiles s tp = Some t" "s_tiles s u = Some tu" using ring_tile [OF ok w(2,3)] w(4) u(1) by metis
    have tiles: "ws_tiles v s' = ws_tiles v s" for v using t by (auto simp: ws_tiles_def s'(4) swapped_tiles_def split: if_splits)
    have same: "nxt (s_tiles s') x = nxt (s_tiles s) x \<and> prv (s_tiles s') x = prv (s_tiles s) x \<and> tile_box s' x = tile_box s x" for x
      using t by (simp add: s'(4) swapped_tiles_def nxt_def prv_def tile_box_def)
    have "screen_ok scr s' v" if v: "v \<in> live_ws s" for v
      using g v s'(5) tiles same by (intro screen_ok_transfer [OF ok s'(2) v]) (simp_all add: nav_good_def)
    with s'(2,3,5) have "nav_good scr s'" by (simp add: nav_good_def)
    with step Some s'(1) show ?thesis by simp
  qed
qed

lemma screen_tile_size:
  assumes sc: "screen_ok scr s w" and ts: "ws_ring w s = Some ts" "tp \<in> set ts"
  shows "0 < box_width (tile_box s tp)" "box_width (tile_box s tp) < 2 ^ 24"
    "0 < box_height (tile_box s tp)" "box_height (tile_box s tp) < 2 ^ 24"
proof -
  have "tiles_box (scr w) (map (tile_box s) ts)" "tile_box s tp \<in> set (map (tile_box s) ts)"
    "box_width (scr w) < 2 ^ 24" "box_height (scr w) < 2 ^ 24" using sc ts by (auto simp: screen_ok_def)
  with tiles_box_inside [OF this(1,2)] show "0 < box_width (tile_box s tp)" "box_width (tile_box s tp) < 2 ^ 24"
    "0 < box_height (tile_box s tp)" "box_height (tile_box s tp) < 2 ^ 24" by linarith+
qed

lemma split_output_small:
  assumes "curr_ws_of p s = Some w" and "focused_tile_of w s = Some f" and "s_tiles s f = Some ft"
    and "split_size (if vertical then box_width (t_box ft) else box_height (t_box ft)) perc = Some k" and "k < 1"
  shows "keybinding_split_output p vertical perc s = Some s"
  using assms by (cases vertical) (simp_all add: keybinding_split_output_def Let_def)

lemma nav_split:
  assumes g: "nav_good scr s" and pf: "proper_fraction perc"
  shows "\<exists>s'. nav_step (Nav_split vertical perc) s = Some s' \<and> nav_good scr s'"
proof -
  have ok: "server_ok s" and fo: "focus_ok s" using g by (simp_all add: nav_good_def)
  obtain p w f where p: "s_curr_output s = Some p" "curr_ws_of p s = Some w" "curr_ws s = Some w" "w \<in> live_ws s"
    "focused_tile_of w s = Some f" "curr_tile s = Some f" using server_ok_curr [OF ok] by metis
  obtain ts where ts: "ws_ring w s = Some ts" "f \<in> set ts" using curr_ring_at [OF ok p(6)] p(3) by auto
  obtain ft where ft: "s_tiles s f = Some ft" using ring_tile [OF ok p(4) ts] by metis
  have sc: "screen_ok scr s w" using g p(4) by (simp add: nav_good_def)
  note size = screen_tile_size [OF sc ts]
  let ?n = "if vertical then box_width (t_box ft) else box_height (t_box ft)"
  have n: "0 < ?n" "?n < 2 ^ 24" "0 < box_width (t_box ft)" "0 < box_height (t_box ft)"
    using size ft by (simp_all add: tile_box_def)
  then have "0 < nat ?n" "nat ?n < 2 ^ 24" by (simp_all add: nat_less_iff)
  from product_floor [OF this pf] obtain k where k: "split_size ?n perc = Some k" "0 \<le> k" "k < ?n"
    using n(1) by (auto simp: split_size_def)
  have step: "nav_step (Nav_split vertical perc) s = keybinding_split_output p vertical perc s"
    using p(1) by (simp add: nav_step_def keybinding_split_vertical_def keybinding_split_horizontal_def)
  show ?thesis
  proof (cases "k < 1")
    case True
    with split_output_small [OF p(2,5) ft k(1)] step g show ?thesis by simp
  next
    case False
    then have cut: "cut_box_ok (vertical, k) (t_box ft)" using k(3) n by (simp split: if_splits)
    obtain s' where s': "keybinding_split_output p vertical perc s = Some s'" "server_ok s'" "focus_ok s'"
      "split_ring_of f vertical k s s'" using split_output_ok [OF ok fo p(1,6) ft k(1) cut] .
    have cut': "cut_box_ok (vertical, k) (tile_box s f)" using cut ft by (simp add: tile_box_def)
    obtain rest where r: "ws_ring w s = Some (f # rest)" "ws_ring w s' = Some (f # s_tile_brk s # rest)"
      "only_ws w s s'" "ws_tiles w s' = insert (s_tile_brk s) (ws_tiles w s)"
      using s'(4) p(3) unfolding split_ring_of_def by auto
    have box: "box_width (scr w) < 2 ^ 24" "box_height (scr w) < 2 ^ 24" "ws_tiles_box (scr w) w s" "set (f # rest) = ws_tiles w s"
      using sc r(1) by (auto simp: screen_ok_def ws_tiles_box_def)
    have "ws_tiles_box (scr w) w s'" using split_tiling [OF ok s'(4) p(3) box(3) cut'] .
    then have "screen_ok scr s' w"
      using r(2,4) box(1,2,4) by (auto simp: screen_ok_def ws_tiles_box_def)
    moreover have "screen_ok scr s' v" if "v \<in> live_ws s" "v \<noteq> w" for v
      using screen_ok_other [OF ok s'(2) r(3) that(2,1)] g that(1) by (simp add: nav_good_def)
    moreover have "live_ws s' = live_ws s" using r(3) by (simp add: only_ws_def)
    ultimately have "nav_good scr s'" using s'(2,3) by (auto simp: nav_good_def)
    with step s'(1) show ?thesis by simp
  qed
qed

lemma nav_merge:
  assumes g: "nav_good scr s"
  shows "\<exists>s'. nav_step (Nav_merge_side d) s = Some s' \<and> nav_good scr s'"
proof -
  have ok: "server_ok s" and fo: "focus_ok s" using g by (simp_all add: nav_good_def)
  obtain tp where tp: "curr_tile s = Some tp" using server_ok_curr_tile [OF ok] by metis
  obtain w ts where w: "curr_ws s = Some w" "w \<in> live_ws s" "ws_ring w s = Some ts" "tp \<in> set ts" using curr_ring_at [OF ok tp] .
  obtain r where r: "finder d tp s = Some r" "\<And>u. r = Some u \<Longrightarrow> u \<in> set ts \<and> u \<noteq> tp"
    using finder_total [OF finder_is_finder ok w(2-4)] by blast
  obtain t where t: "s_tiles s tp = Some t" using ring_tile [OF ok w(2-4)] by metis
  have step: "nav_step (Nav_merge_side d) s = merge_tile (finder d) (merge_dim d) (merge_coord d) tp s"
    using tp by (simp add: nav_step_def)
  have sc: "screen_ok scr s w" using g w(2) by (simp add: nav_good_def)
  show ?thesis
  proof (cases r)
    case None
    with step r(1) g show ?thesis by (simp add: merge_tile_def)
  next
    case (Some m)
    have m: "m \<in> set ts" "m \<noteq> tp" using r(2) [OF Some] by auto
    obtain mt where mt: "s_tiles s m = Some mt" using ring_tile [OF ok w(2,3) m(1)] by metis
    show ?thesis
    proof (cases "get_field (merge_dim d) (t_box t) = get_field (merge_dim d) (t_box mt) \<and>
        get_field (merge_coord d) (t_box t) = get_field (merge_coord d) (t_box mt)")
      case False
      then have "merge_tile (finder d) (merge_dim d) (merge_coord d) tp s = Some s"
        using r(1) Some t mt by (simp add: merge_tile_def)
      with step g show ?thesis by simp
    next
      case True
      have found: "finder d tp s = Some (Some m)" using r(1) Some by simp
      obtain s' where s': "merge_tile (finder d) (merge_dim d) (merge_coord d) tp s = Some s'" "server_ok s'"
        "merge_ring_of tp m (merge_boxes (merge_dim d) (merge_coord d) (t_box t) (t_box mt)) w s s'"
        "focused_tile_of w s' = (if focused_tile_of w s = Some m then Some tp else focused_tile_of w s)"
        "se_focused_view (s_seat s') = se_focused_view (s_seat s)" "curr_ws s' = curr_ws s"
        using merge_tile_ok [OF finder_is_finder ok w(2-4) t found mt] True by blast
      have foc: "focused_tile_of w s = Some tp" using tp w(1) by (simp add: curr_tile_def)
      then have ct: "curr_tile s' = Some tp" using s'(4,6) m(2) w(1) by (simp add: curr_tile_def)
      obtain us where us: "ws_ring w s' = Some us" "mset ts = add_mset m (mset us)" "tp \<in> set us"
        "\<forall>x \<in> set us. \<exists>u t'. s_tiles s x = Some u \<and> s_tiles s' x = Some t' \<and> t_view t' = t_view u \<and>
           t_box t' = (if x = tp then merge_boxes (merge_dim d) (merge_coord d) (t_box t) (t_box mt) else t_box u)"
        "only_ws w s s'" "ws_tiles w s' = ws_tiles w s - {m}"
        using s'(3) w(3) t unfolding merge_ring_of_def by auto
      obtain t' where t': "s_tiles s' tp = Some t'" "t_view t' = t_view t" using us(3,4) t by auto
      have fo': "focus_ok s'" using fo tp t t' ct s'(5) by (simp add: focus_ok_def)
      have boxes: "tile_box s tp = t_box t" "tile_box s m = t_box mt" using t mt by (simp_all add: tile_box_def)
      have R: "box_width (scr w) < 2 ^ 24" "box_height (scr w) < 2 ^ 24" "ws_tiles_box (scr w) w s" "set ts = ws_tiles w s"
        using sc w(3) by (auto simp: screen_ok_def ws_tiles_box_def)
      have "ws_tiles_box (scr w) w s'"
        using merge_tiling [OF ok w(2) _ R(3) found _ _ s'(3) [folded boxes]] w(3,4) True boxes by auto
      moreover have "set us = ws_tiles w s - {m}"
      proof -
        have "distinct (m # us)"
          using ring_tiles_ws(3) [OF ok w(2,3)] us(2) by (metis mset.simps(2) mset_eq_imp_distinct_iff)
        moreover have "set ts = insert m (set us)" using us(2) by (metis list.simps(15) mset.simps(2) mset_eq_setD)
        ultimately show ?thesis using R(4) by auto
      qed
      ultimately have "screen_ok scr s' w" using us(1,6) R(1,2) by (auto simp: screen_ok_def ws_tiles_box_def)
      moreover have "screen_ok scr s' v" if "v \<in> live_ws s" "v \<noteq> w" for v
        using screen_ok_other [OF ok s'(2) us(5) that(2,1)] g that(1) by (simp add: nav_good_def)
      moreover have "live_ws s' = live_ws s" using us(5) by (simp add: only_ws_def)
      ultimately have "nav_good scr s'" using s'(2) fo' by (auto simp: nav_good_def)
      with step s'(1) show ?thesis by simp
    qed
  qed
qed

text \<open>The actions of cagebreak are an action system, for every assignment of screens.\<close>

interpretation nav: action_system nav_step nav_valid "nav_good scr" for scr
proof
  fix s a
  assume g: "nav_good scr s" and v: "nav_valid a"
  show "\<exists>s'. nav_step a s = Some s' \<and> nav_good scr s'"
    using nav_switches [OF g] nav_focus_side [OF g] nav_swap_side [OF g] nav_split [OF g] nav_merge [OF g] v
    by (cases a) (simp_all add: nav_step_def nav_valid_def)
qed

end
