(* ===== verification/Example_Server.thy ===== *)
theory Example_Server
  imports Navigation
begin

text \<open>
  A concrete state of the server that satisfies the invariant: two outputs with two workspaces
  each. The first workspace has two tiles side by side, 100 and 60 pixels wide, and three views, one
  of which is hidden; the other workspaces have one tile each. The witnesses of the theorems about the
  server are instances at this state.
\<close>

definition ex_box :: "int \<Rightarrow> int \<Rightarrow> wlr_box" where
  "ex_box x w = \<lparr>box_x = x, box_y = 0, box_width = w, box_height = 80\<rparr>"

definition ex_tile :: "ws_ptr \<Rightarrow> wlr_box \<Rightarrow> view_ptr option \<Rightarrow> tile_ptr \<Rightarrow> u32 \<Rightarrow> cg_tile" where
  "ex_tile w b vo n i = \<lparr>t_workspace = Some w, t_box = b, t_view = vo, t_next = Some n, t_prev = Some n, t_id = i\<rparr>"

definition ex_view :: "ws_ptr \<Rightarrow> tile_ptr option \<Rightarrow> u32 \<Rightarrow> cg_view" where
  "ex_view w to i = \<lparr>v_workspace = Some w, v_surface = Some (unat i), v_tile = to, v_ox = 0, v_oy = 0,
     v_type = CG_XDG_SHELL_VIEW, v_id = i, v_pid = 1000, v_override_redirect = False, v_wants_focus = True,
     v_max_size = None, v_xsurface_pos = (0, 0)\<rparr>"

definition ex_ws :: "view_ptr list \<Rightarrow> out_ptr \<Rightarrow> tile_ptr \<Rightarrow> u32 \<Rightarrow> cg_workspace" where
  "ex_ws vs p tp i = \<lparr>w_views = vs, w_unmanaged_views = [], w_output = p, w_focused_tile = Some tp, w_num = i\<rparr>"

definition ex_out :: "string \<Rightarrow> nat \<Rightarrow> ws_ptr list \<Rightarrow> cg_output" where
  "ex_out n i wss = \<lparr>o_name = n, o_wlr_output = i, o_workspaces = Some wss, o_layout_box = ex_box 0 160,
     o_curr_workspace = 0, o_priority = 0, o_role = OUTPUT_ROLE_DEFAULT, o_destroyed = False, o_bg = True, 
     o_scene_output = Some i\<rparr>"

definition ex_seat :: cg_seat where
  "ex_seat = \<lparr>se_mode = 0, se_default_mode = 0, se_enable_cursor = True, se_cursor_tile = Some 10,
     se_focused_view = Some 40, se_num_keyboards = 1, se_num_pointers = 1, se_num_touch = 0,
     se_touch_lx = 0, se_touch_ly = 0, se_drag_icons = [], se_keyboard_focus = Some 1,
     se_pointer_focus = None, se_dragging = False, se_cursor_x = 0, se_cursor_y = 0\<rparr>"

definition ex_server :: cg_server where
  "ex_server = \<lparr>
     s_tiles = [10 \<mapsto> ex_tile 20 (ex_box 0 100) (Some 40) 11 1, 11 \<mapsto> ex_tile 20 (ex_box 100 60) (Some 41) 10 2,
                12 \<mapsto> ex_tile 21 (ex_box 0 160) None 12 3, 13 \<mapsto> ex_tile 22 (ex_box 0 160) None 13 4,
                14 \<mapsto> ex_tile 23 (ex_box 0 160) None 14 5],
     s_views = [40 \<mapsto> ex_view 20 (Some 10) 1, 41 \<mapsto> ex_view 20 (Some 11) 2, 42 \<mapsto> ex_view 20 None 3],
     s_workspaces = [20 \<mapsto> ex_ws [40, 41, 42] 30 10 0, 21 \<mapsto> ex_ws [] 30 12 1,
                     22 \<mapsto> ex_ws [] 31 13 0, 23 \<mapsto> ex_ws [] 31 14 1],
     s_outs = [30 \<mapsto> ex_out ''DP-1'' 0 [20, 21], 31 \<mapsto> ex_out ''HDMI-1'' 1 [22, 23]],
     s_tile_brk = 15, s_view_brk = 43, s_ws_brk = 24, s_outputs = [30, 31], s_disabled_outputs = [],
     s_curr_output = Some 30, s_nws = 2, s_views_curr_id = 4, s_tiles_curr_id = 6, s_running = True,
     s_seat = ex_seat, s_layout = (\<lambda>_. ex_box 0 160),
     s_scene_outputs = [0 \<mapsto> 0, 1 \<mapsto> 1], s_scene_brk = 2, s_cursor_at = None, s_node_at = Hit_none, s_calls = []\<rparr>"

lemmas ex_defs = ex_server_def ex_box_def ex_tile_def ex_view_def ex_ws_def ex_out_def ex_seat_def

lemma ex_fields [simp]:
  "s_outputs ex_server = [30, 31]" "s_curr_output ex_server = Some 30" "s_nws ex_server = 2"
  "s_tile_brk ex_server = 15" "s_cursor_at ex_server = None" "s_seat ex_server = ex_seat"
  by (simp_all add: ex_server_def)

lemma ex_ws_ok:
  "ws_ok (s_tiles ex_server) (s_views ex_server) 30 0 20 (ex_ws [40, 41, 42] 30 10 0)"
  "ws_ok (s_tiles ex_server) (s_views ex_server) 30 1 21 (ex_ws [] 30 12 1)"
  "ws_ok (s_tiles ex_server) (s_views ex_server) 31 0 22 (ex_ws [] 31 13 0)"
  "ws_ok (s_tiles ex_server) (s_views ex_server) 31 1 23 (ex_ws [] 31 14 1)"
proof -
  note u = ws_ok_def ex_defs is_ring_def link_def nxt_def prv_def tile_ok_def view_ok_def managed_view_def
  show "ws_ok (s_tiles ex_server) (s_views ex_server) 30 0 20 (ex_ws [40, 41, 42] 30 10 0)"
    by (simp add: u) (intro exI [of _ "[10, 11]"], simp add: is_ring_def link_def nxt_def prv_def)
  show "ws_ok (s_tiles ex_server) (s_views ex_server) 30 1 21 (ex_ws [] 30 12 1)"
    by (simp add: u) (intro exI [of _ "[12]"], simp add: is_ring_def link_def nxt_def prv_def)
  show "ws_ok (s_tiles ex_server) (s_views ex_server) 31 0 22 (ex_ws [] 31 13 0)"
    by (simp add: u) (intro exI [of _ "[13]"], simp add: is_ring_def link_def nxt_def prv_def)
  show "ws_ok (s_tiles ex_server) (s_views ex_server) 31 1 23 (ex_ws [] 31 14 1)"
    by (simp add: u) (intro exI [of _ "[14]"], simp add: is_ring_def link_def nxt_def prv_def)
qed

lemma ex_out_ok: "out_ok ex_server 30" "out_ok ex_server 31"
proof -
  have W: "s_workspaces ex_server 20 = Some (ex_ws [40, 41, 42] 30 10 0)" "s_workspaces ex_server 21 = Some (ex_ws [] 30 12 1)"
    "s_workspaces ex_server 22 = Some (ex_ws [] 31 13 0)" "s_workspaces ex_server 23 = Some (ex_ws [] 31 14 1)"
    by (simp_all add: ex_server_def)
  have j: "(\<forall>j < length [a, b :: nat]. P j) \<longleftrightarrow> P 0 \<and> P 1" for P a b by (auto simp: less_Suc_eq)
  have n: "length [a, b :: nat] = unat (2 :: u16)" for a b by simp
  show "out_ok ex_server 30"
    unfolding out_ok_def
  proof (intro exI conjI)
    show "out_wss (s_outs ex_server) 30 = Some [20, 21]" "out_curr (s_outs ex_server) 30 = Some 0"
      by (simp_all add: out_wss_def out_curr_def ex_server_def ex_out_def)
    show "\<forall>j < length [20, 21 :: nat]. \<exists>ws. s_workspaces ex_server ([20, 21] ! j) = Some ws \<and>
        ws_ok (s_tiles ex_server) (s_views ex_server) 30 j ([20, 21] ! j) ws"
      unfolding j using W(1,2) ex_ws_ok(1,2) by simp
  qed simp_all
  show "out_ok ex_server 31"
    unfolding out_ok_def
  proof (intro exI conjI)
    show "out_wss (s_outs ex_server) 31 = Some [22, 23]" "out_curr (s_outs ex_server) 31 = Some 0"
      by (simp_all add: out_wss_def out_curr_def ex_server_def ex_out_def)
    show "\<forall>j < length [22, 23 :: nat]. \<exists>ws. s_workspaces ex_server ([22, 23] ! j) = Some ws \<and>
        ws_ok (s_tiles ex_server) (s_views ex_server) 31 j ([22, 23] ! j) ws"
      unfolding j using W(3,4) ex_ws_ok(3,4) by simp
  qed simp_all
qed

lemma ex_live: "20 \<in> live_ws ex_server"
  by (simp add: live_ws_def) (simp add: out_wss_def ex_server_def ex_out_def)

lemma ex_server_ok: "server_ok ex_server"
proof -
  have l: "links_ok (s_tiles ex_server) (s_views ex_server)"
    by (auto simp: links_ok_def ex_defs split: if_splits)
  have "s_tiles ex_server 10 = Some (ex_tile 20 (ex_box 0 100) (Some 40) 11 1)" "s_views ex_server 40 \<noteq> None"
    by (simp_all add: ex_server_def)
  with ex_live have "seat_ok ex_server" by (simp add: seat_ok_def ex_seat_def ex_tile_def)
  moreover have "tiles_below_brk ex_server" by (auto simp: tiles_below_brk_def ex_server_def split: if_splits)
  ultimately show ?thesis using l ex_out_ok by (simp add: server_ok_def)
qed

lemma ex_curr [simp]: "curr_ws ex_server = Some 20" "curr_tile ex_server = Some 10"
  by (simp_all add: curr_tile_def curr_ws_def curr_ws_of_def focused_tile_of_def ws_at_def ex_defs)

lemma ex_tile_10 [simp]: "s_tiles ex_server 10 = Some (ex_tile 20 (ex_box 0 100) (Some 40) 11 1)"
  by (simp add: ex_server_def)

lemma ex_focus_ok: "focus_ok ex_server"
  by (simp add: focus_ok_def ex_seat_def ex_tile_def)

lemma ex_rings [simp]: "ws_ring 20 ex_server = Some [10, 11]" "ws_ring 21 ex_server = Some [12]"
  "ws_ring 22 ex_server = Some [13]" "ws_ring 23 ex_server = Some [14]"
  by (simp_all add: ws_ring_def focused_tile_of_def ring_of_def ex_defs eval_nat_numeral)

lemma ex_all_ws [simp]: "all_ws ex_server = [20, 21, 22, 23]"
  by (simp add: all_ws_def out_wss_def) (simp add: ex_defs)

lemma ex_all_tiles [simp]: "all_tiles ex_server = [10, 11, 12, 13, 14]"
  by (simp add: all_tiles_def)

lemma ex_all_views [simp]: "all_views ex_server = [40, 41, 42]"
  by (simp add: all_views_def) (simp add: ex_defs)

lemma ex_ids: "tile_ids_unique ex_server"
  by (simp add: tile_ids_unique_def) (simp add: ex_defs)

lemma ex_tiling: "ws_tiles_box (ex_box 0 160) 20 ex_server"
proof -
  have b: "map (tile_box ex_server) [10, 11] = [ex_box 0 100, ex_box 100 60]" by (simp add: tile_box_def ex_defs)
  have c: "cut_box_ok (True, 100) (ex_box 0 160)" "cut_box (True, 100) (ex_box 0 160) = (ex_box 0 100, ex_box 100 60)"
    by (simp_all add: ex_box_def)
  have "tiles_box (ex_box 0 160) [ex_box 0 160]"
    by (simp add: box_cover.tiling_single pix_empty_iff wlr_box_empty_def ex_box_def)
  from box_cover.tiling_cut [of _ "[]" _ "[]", OF _ c] this have "tiles_box (ex_box 0 160) [ex_box 0 100, ex_box 100 60]" by simp
  then show ?thesis unfolding ws_tiles_box_def using b by (intro exI [of _ "[10, 11]"]) simp
qed

lemma ex_live_ws: "live_ws ex_server = {20, 21, 22, 23}"
proof -
  have "out_wss (s_outs ex_server) 30 = Some [20, 21]" "out_wss (s_outs ex_server) 31 = Some [22, 23]"
    by (simp_all add: out_wss_def ex_server_def ex_out_def)
  then show ?thesis by (auto simp: live_ws_def)
qed

lemma ex_ws_tiles: "ws_tiles 20 ex_server = {10, 11}" "ws_tiles 21 ex_server = {12}"
  "ws_tiles 22 ex_server = {13}" "ws_tiles 23 ex_server = {14}"
  by (auto simp: ws_tiles_def ex_server_def ex_tile_def split: if_splits)

lemma ex_nav_good: "nav_good (\<lambda>_. ex_box 0 160) ex_server"
proof -
  have one: "tiles_box (ex_box 0 160) [ex_box 0 160]"
    by (simp add: box_cover.tiling_single pix_empty_iff wlr_box_empty_def ex_box_def)
  have size: "box_width (ex_box 0 160) < 2 ^ 24" "box_height (ex_box 0 160) < 2 ^ 24" by (simp_all add: ex_box_def)
  have "tile_box ex_server t = ex_box 0 160" if "t \<in> {12, 13, 14}" for t
    using that by (auto simp: tile_box_def ex_server_def ex_tile_def)
  then have "screen_ok (\<lambda>_. ex_box 0 160) ex_server w" if "w \<in> {21, 22, 23}" for w
    using that one size ex_ws_tiles by (auto simp: screen_ok_def)
  moreover have "screen_ok (\<lambda>_. ex_box 0 160) ex_server 20"
    using ex_tiling size ex_ws_tiles(1) by (auto simp: screen_ok_def ws_tiles_box_def)
  ultimately show ?thesis using ex_server_ok ex_focus_ok ex_live_ws by (auto simp: nav_good_def)
qed

end
