(* ===== verification/Server_Props.thy ===== *)
theory Server_Props
  imports Example_Server
begin

text \<open>
  The properties of the code that keeps the tiles, the workspaces and the focus, each with its
  instance at the example state.
\<close>

section \<open>Sequences of actions\<close>

text \<open>
  C3: from a good state, any sequence of the actions that switch outputs and workspaces, focus,
  cycle or swap tiles, split the focused tile (with a percentage the parser accepts) or merge it with
  a neighbour runs to its end without a memory fault, and it ends in a good state: no pointer
  dangles, the focused view is the one the focused tile shows, and the tiles of every workspace
  cover the screen of the workspace with no gap and no overlap.
\<close>

theorem navigation_keeps_tilings:
  assumes "nav_good scr s" and "\<forall>a \<in> set as. nav_valid a"
  shows "\<exists>s'. run_actions nav_step as s = Some s' \<and> nav_good scr s'"
  using assms by (rule nav.run_good)

theorem navigation_keeps_tilings_witness:
  "\<exists>s'. run_actions nav_step
          [Nav_split True f32_half, Nav_focus_side Side_right, Nav_merge_side Side_left, Nav_switch_ws 1] ex_server = Some s' \<and>
        nav_good (\<lambda>_. ex_box 0 160) s'"
proof -
  have "proper_fraction f32_half" by (simp add: f32_half_def proper_fraction_def)
  then show ?thesis
    using navigation_keeps_tilings [OF ex_nav_good,
        of "[Nav_split True f32_half, Nav_focus_side Side_right, Nav_merge_side Side_left, Nav_switch_ws 1]"]
    by (simp add: nav_valid_def)
qed

section \<open>The neighbour of a tile\<close>

lemma tiling_pixel_unique:
  assumes t: "tiles_box R (map f ts)" and d: "distinct ts" and a: "a \<in> set ts" "p \<in> pix (f a)" and b: "b \<in> set ts" "p \<in> pix (f b)"
  shows "a = b"
proof (rule ccontr)
  assume ne: "a \<noteq> b"
  obtain xs ys where xs: "ts = xs @ a # ys" using a(1) by (auto simp: in_set_conv_decomp)
  then have "b \<in> set (xs @ ys)" using b(1) ne by auto
  then obtain us vs where us: "xs @ ys = us @ b # vs" by (meson split_list)
  have "mset (map f ts) = mset ([] @ f a # map f us @ f b # map f vs)" using xs us
    by (metis (no_types, lifting) append_Nil list.simps(9) map_append mset.simps(2) mset_append union_mset_add_mset_right)
  then have "tiles_box R ([] @ f a # map f us @ f b # map f vs)" using t box_cover.tiling_mset by blast
  from box_cover.tiling_disjoint [OF this] a(2) b(2) show False by blast
qed

text \<open>
  C6: in a workspace whose tiles tile the screen, the search for a neighbour of a tile finds exactly
  the tile that contains the pixel beyond the middle of the edge, and nothing exactly when that pixel is
  off the screen. (For an edge of one pixel the code looks a pixel too high, hence the length 2.)
\<close>

theorem neighbour_is_tile_beyond:
  assumes "server_ok s" and "w \<in> live_ws s" and "ws_ring w s = Some ts" and "tp \<in> set ts"
    and "tiles_box R (map (tile_box s) ts)" and "2 \<le> edge d (tile_box s tp)"
  shows "\<exists>r. finder d tp s = Some r \<and>
     (r = None \<longleftrightarrow> beyond d (tile_box s tp) \<notin> pix R) \<and>
     (\<forall>u. r = Some u \<longleftrightarrow> u \<in> set ts \<and> beyond d (tile_box s tp) \<in> pix (tile_box s u))"
proof -
  let ?p = "beyond d (tile_box s tp)"
  obtain r where r: "finder d tp s = Some r"
    and c: "case r of None \<Rightarrow> ?p \<notin> pix R
         | Some u \<Rightarrow> u \<in> set ts \<and> u \<noteq> tp \<and> beside d (tile_box s tp) (tile_box s u) \<and> ?p \<in> pix (tile_box s u)"
    using finder_tiling [OF assms] by blast
  have sub: "?p \<in> pix R" if "u \<in> set ts" "?p \<in> pix (tile_box s u)" for u
    using box_cover.tiling_subset [OF assms(5), of "tile_box s u"] that by auto
  have uniq: "u = v" if "u \<in> set ts" "?p \<in> pix (tile_box s u)" "v \<in> set ts" "?p \<in> pix (tile_box s v)" for u v
    using tiling_pixel_unique [OF assms(5) ring_tiles_ws(3) [OF assms(1-3)] that] .
  have "(r = None \<longleftrightarrow> ?p \<notin> pix R) \<and> (\<forall>u. r = Some u \<longleftrightarrow> u \<in> set ts \<and> ?p \<in> pix (tile_box s u))"
  proof (cases r)
    case None
    with c sub show ?thesis by auto
  next
    case (Some v)
    with c have v: "v \<in> set ts" "?p \<in> pix (tile_box s v)" by auto
    with Some sub uniq show ?thesis by blast
  qed
  with r show ?thesis by blast
qed

theorem neighbour_is_tile_beyond_witness:
  "\<exists>r. finder Side_right 10 ex_server = Some r \<and>
     (\<forall>u. r = Some u \<longleftrightarrow> u \<in> {10, 11} \<and> (100, 39) \<in> pix (tile_box ex_server u))"
proof -
  have b: "tile_box ex_server 10 = ex_box 0 100" by (simp add: tile_box_def ex_tile_def)
  have "tiles_box (ex_box 0 160) (map (tile_box ex_server) [10, 11])"
    using ex_tiling by (auto simp: ws_tiles_box_def)
  moreover have "2 \<le> edge Side_right (tile_box ex_server 10)" "beyond Side_right (tile_box ex_server 10) = (100, 39)"
    by (simp_all add: b ex_box_def)
  ultimately show ?thesis
    using neighbour_is_tile_beyond [OF ex_server_ok ex_live ex_rings(1), of 10 "ex_box 0 160" Side_right]
    by (simp only: set_simps insert_iff empty_iff) blast
qed

section \<open>Splitting and merging\<close>

text \<open>
  C9: a split cuts the box of the focused tile in two at the computed size and links the new tile
  right behind it in the ring; the focused tile keeps its view and the focus, no other tile
  changes, and the state stays consistent.
\<close>

theorem split_cuts_focused_tile:
  assumes "server_ok s" and "focus_ok s" and "s_curr_output s = Some p" and "curr_tile s = Some f"
    and "s_tiles s f = Some ft"
    and "split_size (if vertical then box_width (t_box ft) else box_height (t_box ft)) perc = Some k"
    and "cut_box_ok (vertical, k) (t_box ft)"
  shows "\<exists>s' w rest ft' nt. keybinding_split_output p vertical perc s = Some s' \<and>
     server_ok s' \<and> focus_ok s' \<and> curr_tile s' = Some f \<and>
     curr_ws s = Some w \<and> ws_ring w s = Some (f # rest) \<and> ws_ring w s' = Some (f # s_tile_brk s # rest) \<and>
     s_tiles s' f = Some ft' \<and> s_tiles s' (s_tile_brk s) = Some nt \<and>
     cut_box (vertical, k) (t_box ft) = (t_box ft', t_box nt) \<and> t_view ft' = t_view ft \<and>
     (\<forall>x \<in> set rest. map_option t_box (s_tiles s' x) = map_option t_box (s_tiles s x) \<and>
                     map_option t_view (s_tiles s' x) = map_option t_view (s_tiles s x))"
proof -
  obtain s' where "keybinding_split_output p vertical perc s = Some s'" "server_ok s'" "focus_ok s'" "curr_tile s' = Some f"
    "split_ring_of f vertical k s s'" using split_output_ok [OF assms] .
  with assms(5) show ?thesis unfolding split_ring_of_def by (intro exI [of _ s']) auto
qed

theorem split_cuts_focused_tile_witness:
  "\<exists>s' ft' nt. keybinding_split_output 30 True f32_half ex_server = Some s' \<and>
     ws_ring 20 s' = Some [10, 15, 11] \<and> s_tiles s' 10 = Some ft' \<and> s_tiles s' 15 = Some nt \<and>
     t_box ft' = ex_box 0 50 \<and> t_box nt = ex_box 50 50"
proof -
  have k: "split_size (box_width (t_box (ex_tile 20 (ex_box 0 100) (Some 40) 11 1))) f32_half = Some 50"
    by (simp add: ex_tile_def ex_box_def split_size_def f32_eval)
  have c: "cut_box_ok (True, 50) (t_box (ex_tile 20 (ex_box 0 100) (Some 40) 11 1))"
    "cut_box (True, 50) (t_box (ex_tile 20 (ex_box 0 100) (Some 40) 11 1)) = (ex_box 0 50, ex_box 50 50)"
    by (simp_all add: ex_tile_def ex_box_def)
  from split_cuts_focused_tile [OF ex_server_ok ex_focus_ok ex_fields(2) ex_curr(2) ex_tile_10, of True f32_half 50] k c
  show ?thesis by auto
qed

text \<open>
  C10: merging a tile with its neighbour across a side, when the two edges match, removes exactly the
  neighbour from the ring and the heap and gives the tile the union of both boxes; the tiling of the
  screen and the consistency of the state are kept and every other tile keeps its box and view.
\<close>

theorem merge_joins_neighbour:
  assumes "server_ok s" and "w \<in> live_ws s" and "ws_ring w s = Some ts" and "tp \<in> set ts"
    and "tiles_box R (map (tile_box s) ts)"
    and "finder d tp s = Some (Some m)"
    and "get_field (merge_dim d) (tile_box s tp) = get_field (merge_dim d) (tile_box s m)"
    and "get_field (merge_coord d) (tile_box s tp) = get_field (merge_coord d) (tile_box s m)"
  shows "\<exists>s' us. merge_tile (finder d) (merge_dim d) (merge_coord d) tp s = Some s' \<and> server_ok s' \<and>
     ws_ring w s' = Some us \<and> mset ts = add_mset m (mset us) \<and> s_tiles s' m = None \<and>
     pix (tile_box s' tp) = pix (tile_box s tp) \<union> pix (tile_box s m) \<and>
     (\<forall>x \<in> set us - {tp}. tile_box s' x = tile_box s x) \<and>
     (\<forall>x \<in> set us. map_option t_view (s_tiles s' x) = map_option t_view (s_tiles s x)) \<and>
     tiles_box R (map (tile_box s') us)"
proof -
  obtain r where r: "finder d tp s = Some r" "\<And>u. r = Some u \<Longrightarrow> u \<in> set ts \<and> u \<noteq> tp"
    using finder_total [OF finder_is_finder assms(1-4)] by blast
  have m: "m \<in> set ts" "m \<noteq> tp" using r assms(6) by auto
  obtain t where t: "s_tiles s tp = Some t" using ring_tile [OF assms(1-4)] by metis
  obtain mt where mt: "s_tiles s m = Some mt" using ring_tile [OF assms(1-3) m(1)] by metis
  have boxes: "tile_box s tp = t_box t" "tile_box s m = t_box mt" using t mt by (simp_all add: tile_box_def)
  let ?g = "merge_boxes (merge_dim d) (merge_coord d) (tile_box s tp) (tile_box s m)"
  obtain s' where s': "merge_tile (finder d) (merge_dim d) (merge_coord d) tp s = Some s'" "server_ok s'"
    "merge_ring_of tp m ?g w s s'"
    using merge_tile_ok [OF finder_is_finder assms(1-4) t assms(6) mt] assms(7,8) unfolding boxes by blast
  obtain us where us: "ws_ring w s' = Some us" "mset ts = add_mset m (mset us)" "tp \<in> set us" "s_tiles s' m = None"
    "\<forall>x \<in> set us. \<exists>t t'. s_tiles s x = Some t \<and> s_tiles s' x = Some t' \<and> t_view t' = t_view t \<and>
       t_box t' = (if x = tp then ?g else t_box t)"
    using s'(3) assms(3) unfolding merge_ring_of_def by auto
  have ws: "ws_tiles_box R w s" using assms(3,5) by (auto simp: ws_tiles_box_def)
  have "ws_tiles_box R w s'"
    using merge_tiling [OF assms(1,2) _ ws assms(6-8) s'(3)] assms(3,4) by auto
  then have tiling: "tiles_box R (map (tile_box s') us)" using us(1) by (auto simp: ws_tiles_box_def)
  have glue: "glue_box_ok (horizontal d, 0) (tile_box s tp) (tile_box s m)"
    using beside_glue_ok [OF finder_beside [OF assms(1-4,6)] assms(7,8)] .
  have ne: "pix (tile_box s x) \<noteq> {}" if "x \<in> set ts" for x
    using assms(5) that unfolding box_cover.tiling_def by auto
  have dis: "pix (tile_box s tp) \<inter> pix (tile_box s m) = {}"
    using tiling_pixel_unique [OF assms(5) ring_tiles_ws(3) [OF assms(1-3)] assms(4) _ m(1)] m(2) by blast
  have "tile_box s' tp = ?g" using us(3,5) by (auto simp: tile_box_def)
  then have union: "pix (tile_box s' tp) = pix (tile_box s tp) \<union> pix (tile_box s m)"
    using box_cover.glue_cells [OF glue ne [OF assms(4)] ne [OF m(1)] dis] by (simp add: merge_boxes_glue)
  have same: "(x \<noteq> tp \<longrightarrow> tile_box s' x = tile_box s x) \<and>
      map_option t_view (s_tiles s' x) = map_option t_view (s_tiles s x)" if x: "x \<in> set us" for x
  proof -
    obtain t t' where "s_tiles s x = Some t" "s_tiles s' x = Some t'" "t_view t' = t_view t"
      "t_box t' = (if x = tp then ?g else t_box t)" using us(5) x by blast
    then show ?thesis by (simp add: tile_box_def)
  qed
  then show ?thesis
    using s'(1,2) us(1,2,4) union tiling by (intro exI [of _ s'] exI [of _ us] conjI ballI) simp_all
qed

theorem merge_joins_neighbour_witness:
  "\<exists>s' us. merge_tile find_right_tile Get_height Get_y 10 ex_server = Some s' \<and> ws_ring 20 s' = Some us \<and>
     mset [10, 11] = add_mset 11 (mset us) \<and> pix (tile_box s' 10) = pix (ex_box 0 100) \<union> pix (ex_box 100 60)"
proof -
  have b: "tile_box ex_server 10 = ex_box 0 100" "tile_box ex_server 11 = ex_box 100 60"
    by (simp_all add: tile_box_def ex_defs)
  have t: "tiles_box (ex_box 0 160) (map (tile_box ex_server) [10, 11])"
    using ex_tiling by (auto simp: ws_tiles_box_def)
  have e: "2 \<le> edge Side_right (tile_box ex_server 10)" "beyond Side_right (tile_box ex_server 10) = (100, 39)"
    "(100, 39) \<in> pix (ex_box 100 60)" by (simp_all add: b ex_box_def)
  have m: "(10::nat) \<in> set [10, 11]" by simp
  obtain r where r: "finder Side_right 10 ex_server = Some r"
    "case r of None \<Rightarrow> (100, 39) \<notin> pix (ex_box 0 160)
         | Some u \<Rightarrow> u \<in> set [10, 11] \<and> u \<noteq> 10 \<and>
             beside Side_right (tile_box ex_server 10) (tile_box ex_server u) \<and> (100, 39) \<in> pix (tile_box ex_server u)"
    using finder_tiling [OF ex_server_ok ex_live ex_rings(1) m t e(1), unfolded e(2)] that by blast
  have "(100, 39) \<in> pix (ex_box 0 160)" by (simp add: ex_box_def)
  with r have f: "finder Side_right 10 ex_server = Some (Some 11)" by (cases r) auto
  have d: "get_field (merge_dim Side_right) (tile_box ex_server 10) = get_field (merge_dim Side_right) (tile_box ex_server 11)"
    "get_field (merge_coord Side_right) (tile_box ex_server 10) = get_field (merge_coord Side_right) (tile_box ex_server 11)"
    by (simp_all add: b ex_box_def)
  from merge_joins_neighbour [OF ex_server_ok ex_live ex_rings(1) m t f d]
  obtain s' us where s': "merge_tile (finder Side_right) (merge_dim Side_right) (merge_coord Side_right) 10 ex_server = Some s'"
      "ws_ring 20 s' = Some us" "mset [10, 11] = add_mset 11 (mset us)"
      "pix (tile_box s' 10) = pix (tile_box ex_server 10) \<union> pix (tile_box ex_server 11)"
    by blast
  show ?thesis by (intro exI [of _ s'] exI [of _ us] conjI) (use s' b in simp_all)
qed

end
