(* ===== verification/Output_Config.thy ===== *)
theory Output_Config
  imports Outputs Config_Merge
begin

text \<open>
  Applying a configuration to an output (\<^verbatim>\<open>output_set_mode\<close>, \<^verbatim>\<open>output_apply_config\<close>,
  \<^verbatim>\<open>output_configure\<close>) and the arrival of an output (\<^verbatim>\<open>handle_new_output\<close>),
  \<^verbatim>\<open>output.c\<close>. What wlroots decides is the argument \<open>wlr_env\<close>: the modes of an output, whether a
  pending state is accepted, and the layout of the outputs after a call. A pending state is the list
  of the settings made on it, the last one of a kind counts.
\<close>

section \<open>Committing a state\<close>

fun size_op :: "output_op \<Rightarrow> bool" where
  "size_op (Op_enabled b) = False"
| "size_op op = True"

text \<open>\<^verbatim>\<open>output->wlr_output->enabled\<close> once the state is committed.\<close>

fun enabled_after :: "output_op list \<Rightarrow> bool \<Rightarrow> bool" where
  "enabled_after [] e = e"
| "enabled_after (Op_enabled b # ops) e = enabled_after ops b"
| "enabled_after (op # ops) e = enabled_after ops e"

text \<open>
  \<^verbatim>\<open>wlr_output_commit_state\<close>. A commit that succeeds calls \<^verbatim>\<open>handle_output_commit\<close>, when the
  output listens.
\<close>

definition output_commit :: "wlr_env \<Rightarrow> bool \<Rightarrow> out_ptr \<Rightarrow> output_op list \<Rightarrow> cg_server \<Rightarrow> cg_server option" where
  "output_commit env listening p ops s = do {
     out \<leftarrow> s_outs s p;
     let w = o_wlr_output out;
     let s = emit (Output_call (Output_commit w ops)) s;
     if we_commit env w ops
     then do {
       let s = s\<lparr>s_layout := we_committed env w ops (s_layout s)\<rparr>;
       if listening
       then handle_output_commit (enabled_after ops (we_enabled env w)) (\<exists>op \<in> set ops. size_op op) p s
       else Some s
     }
     else Some s
   }"

section \<open>The mode of an output\<close>

text \<open>\<^verbatim>\<open>(int)(refresh_rate * 1000)\<close>, after a rate out of range was replaced by 0.\<close>

definition rate_mhz :: "f32 \<Rightarrow> (f32 \<times> int) option" where
  "rate_mhz refresh_rate =
     (let r = f32_mult refresh_rate (f32_of_int 1000);
          refresh_rate = (if f32_less (f32_of_int 2147483647) r \<or> f32_less r (Fin 0 0)
                          then Fin 0 0 else refresh_rate)
      in map_option (\<lambda>mhz. (refresh_rate, mhz)) (f32_to_int (f32_mult refresh_rate (f32_of_int 1000))))"

text \<open>The loop over the modes of the output for the configured size: the exact rate, else the highest.\<close>

fun best_mode :: "int \<Rightarrow> int \<Rightarrow> int \<Rightarrow> (nat \<times> int \<times> int \<times> int) list \<Rightarrow> (nat \<times> int) option \<Rightarrow> nat option" where
  "best_mode width height mhz [] best = map_option fst best"
| "best_mode width height mhz ((m, w, h, refresh) # ms) best =
     (if w = width \<and> h = height
      then if refresh = mhz then Some m
           else if best = None \<or> refresh > snd (the best) then best_mode width height mhz ms (Some (m, refresh))
           else best_mode width height mhz ms best
      else best_mode width height mhz ms best)"

text \<open>The fallback: every other mode in turn, until the output accepts one.\<close>

fun try_modes ::
    "wlr_env \<Rightarrow> bool \<Rightarrow> out_ptr \<Rightarrow> nat \<Rightarrow> nat \<Rightarrow> (nat \<times> int \<times> int \<times> int) list \<Rightarrow> output_op list \<Rightarrow> cg_server \<Rightarrow>
     (output_op list \<times> cg_server) option" where
  "try_modes env listening p w best [] ops s = Some (ops, s)"
| "try_modes env listening p w best ((m, _) # ms) ops s =
     (if m = best then try_modes env listening p w best ms ops s
      else do {
        let ops = ops @ [Op_mode m];
        s \<leftarrow> output_commit env listening p ops s;
        if we_test env w ops then Some (ops, s) else try_modes env listening p w best ms ops s
      })"

definition output_set_mode ::
    "wlr_env \<Rightarrow> bool \<Rightarrow> out_ptr \<Rightarrow> output_op list \<Rightarrow> int \<Rightarrow> int \<Rightarrow> f32 \<Rightarrow> cg_server \<Rightarrow>
     (int \<times> output_op list \<times> cg_server) option" where
  "output_set_mode env listening p ops width height refresh_rate s = do {
     out \<leftarrow> s_outs s p;
     let w = o_wlr_output out;
     (refresh_rate, mhz) \<leftarrow> rate_mhz refresh_rate;
     if we_modes env w = []
     then Some (0, ops @ [Op_custom_mode width height (if f32_less (Fin 0 0) refresh_rate then mhz else 0)], s)
     else do {
       best \<leftarrow> (case best_mode width height mhz (we_modes env w) None of
                  Some m \<Rightarrow> Some m
                | None \<Rightarrow> we_preferred env w);
       let ops = ops @ [Op_mode best];
       s \<leftarrow> output_commit env listening p ops s;
       if we_test env w ops then Some (0, ops, s)
       else do {
         (ops, s) \<leftarrow> try_modes env listening p w best (we_modes env w) ops s;
         Some (if we_test env w ops then 0 else 1, ops, s)
       }
     }
   }"

section \<open>Applying a configuration\<close>

text \<open>
  \<^verbatim>\<open>wlr_output_layout_add\<close> with \<^verbatim>\<open>wlr_scene_output_layout_add_output\<close>, and
  \<^verbatim>\<open>wlr_scene_output_set_position\<close>: both follow \<^verbatim>\<open>output->scene_output\<close>.
\<close>

definition live_scene_output :: "out_ptr \<Rightarrow> cg_server \<Rightarrow> nat option" where
  "live_scene_output p s = do { out \<leftarrow> s_outs s p; a \<leftarrow> o_scene_output out; s_scene_outputs s a }"

definition scene_layout_add :: "wlr_env \<Rightarrow> out_ptr \<Rightarrow> nat \<Rightarrow> int \<Rightarrow> int \<Rightarrow> cg_server \<Rightarrow> cg_server option" where
  "scene_layout_add env p w x y s = do {
     let s = emit (Output_call (Layout_add w x y)) (s\<lparr>s_layout := we_add env w x y (s_layout s)\<rparr>);
     _ \<leftarrow> live_scene_output p s;
     Some (emit (Output_call (Scene_output_add w)) s)
   }"

definition scene_position :: "out_ptr \<Rightarrow> int \<Rightarrow> int \<Rightarrow> cg_server \<Rightarrow> cg_server option" where
  "scene_position p x y s = do {
     w \<leftarrow> live_scene_output p s;
     Some (emit (Output_call (Scene_output_position w x y)) s)
   }"

text \<open>
  The position of the visible views when only the output has moved. The loop starts at the focused
  tile of the workspace.
\<close>

definition reposition_views :: "out_ptr \<Rightarrow> nat \<Rightarrow> cg_server \<Rightarrow> cg_server option" where
  "reposition_views p i s = do {
     out \<leftarrow> s_outs s p;
     w \<leftarrow> ws_at out (int i);
     start \<leftarrow> focused_tile_of w s;
     ts \<leftarrow> ring_of start s;
     ofold (\<lambda>tp s. do {
       t \<leftarrow> s_tiles s tp;
       case t_view t of
         None \<Rightarrow> Some s
       | Some v \<Rightarrow> do {
           view \<leftarrow> s_views s v;
           Some (emit (Scene_set_position v (v_ox view + box_x (o_layout_box out))
                         (v_oy view + box_y (o_layout_box out))) s)
         }
     }) ts s
   }"

text \<open>A new size gives every workspace one tile again, a new position moves the views.\<close>

definition relayout :: "out_ptr \<Rightarrow> wlr_box \<Rightarrow> cg_server \<Rightarrow> cg_server option" where
  "relayout p prev_box s = do {
     out \<leftarrow> s_outs s p;
     if o_workspaces out = None then Some s
     else do {
       s \<leftarrow> upd_out p (\<lambda>o1. o1\<lparr>o_layout_box := s_layout s (o_wlr_output out)\<rparr>) s;
       out \<leftarrow> s_outs s p;
       s \<leftarrow> (if box_width (o_layout_box out) \<noteq> box_width prev_box \<or>
                box_height (o_layout_box out) \<noteq> box_height prev_box
             then ofold (\<lambda>i. output_make_workspace_fullscreen p (of_nat i)) [0..<unat (s_nws s)] s
             else Some s);
       out \<leftarrow> s_outs s p;
       if box_x prev_box \<noteq> box_x (o_layout_box out) \<or> box_y prev_box \<noteq> box_y (o_layout_box out)
       then ofold (reposition_views p) [0..<unat (s_nws s)] s
       else Some s
     }
   }"

text \<open>\<^verbatim>\<open>output_clear\<close> and the move to the list of disabled outputs.\<close>

definition output_disable :: "wlr_env \<Rightarrow> bool \<Rightarrow> out_ptr \<Rightarrow> output_op list \<Rightarrow> cg_server \<Rightarrow> cg_server option" where
  "output_disable env listening p ops s = do {
     s \<leftarrow> output_clear p s;
     let s = s\<lparr>s_disabled_outputs := wl_insert p (s_disabled_outputs s)\<rparr>;
     output_commit env listening p (ops @ [Op_enabled False]) s
   }"

text \<open>The branch for an output without a configured position that is not in the layout yet.\<close>

definition layout_auto :: "wlr_env \<Rightarrow> out_ptr \<Rightarrow> output_op list \<Rightarrow> cg_server \<Rightarrow> (output_op list \<times> cg_server) option" where
  "layout_auto env p ops s = do {
     out \<leftarrow> s_outs s p;
     let w = o_wlr_output out;
     let s = emit (Output_call (Layout_add_auto w)) s;
     let s = s\<lparr>s_layout := we_add_auto env w (s_layout s)\<rparr>;
     let b = s_layout s w;
     s \<leftarrow> upd_out p (\<lambda>o1. o1\<lparr>o_layout_box := b\<rparr>) s;
     let s = emit (Output_call (Layout_remove w)) s;
     let s = s\<lparr>s_layout := (s_layout s)(w := zero_box)\<rparr>;
     s \<leftarrow> scene_layout_add env p w (box_x b) (box_y b) s;
     Some (case we_preferred env w of None \<Rightarrow> ops | Some m \<Rightarrow> ops @ [Op_mode m], s)
   }"

text \<open>The branch for a configured position; the first component tells that no mode could be set.\<close>

definition layout_position ::
    "wlr_env \<Rightarrow> bool \<Rightarrow> out_ptr \<Rightarrow> cg_output_config \<Rightarrow> wlr_box \<Rightarrow> output_op list \<Rightarrow> cg_server \<Rightarrow>
     (bool \<times> output_op list \<times> cg_server) option" where
  "layout_position env listening p config prev_box ops s = do {
     let pos = oc_pos config;
     (r, ops, s) \<leftarrow> output_set_mode env listening p ops (box_width pos) (box_height pos) (oc_refresh_rate config) s;
     if r \<noteq> 0 then do { s \<leftarrow> output_disable env listening p ops s; Some (True, ops, s) }
     else do {
       out \<leftarrow> s_outs s p;
       let w = o_wlr_output out;
       s \<leftarrow> (if wlr_box_empty (o_layout_box out)
             then scene_layout_add env p w (box_x pos) (box_y pos) s
             else scene_position p (box_x pos) (box_y pos) s);
       s \<leftarrow> relayout p prev_box s;
       Some (False, ops, s)
     }
   }"

text \<open>
  The colour rectangle behind the views is made anew; there is none for an output that has no scene
  output (any more).
\<close>

definition output_background :: "out_ptr \<Rightarrow> cg_server \<Rightarrow> cg_server option" where
  "output_background p s = do {
     out \<leftarrow> s_outs s p;
     let s = (if o_bg out then emit (Output_call (Bg_destroy p)) s else s);
     let shown = (\<exists>a \<in> set [0..<s_scene_brk s]. s_scene_outputs s a = Some (o_wlr_output out));
     s \<leftarrow> upd_out p (\<lambda>o1. o1\<lparr>o_bg := shown\<rparr>) s;
     if \<not> shown then Some s
     else do {
       let s = emit (Output_call (Bg_lower p)) (emit (Output_call (Bg_create p)) s);
       Some (emit (Output_call (Layer_above p ''bottom'' ''background''))
              (emit (Output_call (Layer_above p ''background'' ''bg'')) s))
     }
   }"

text \<open>The role; \<open>True\<close> when an output that was unplugged goes away because of it.\<close>

definition apply_role :: "wlr_env \<Rightarrow> out_ptr \<Rightarrow> cg_output_config \<Rightarrow> cg_server \<Rightarrow> (bool \<times> cg_server) option" where
  "apply_role env p config s =
     (if oc_role config = OUTPUT_ROLE_DEFAULT then Some (False, s)
      else do {
        s \<leftarrow> upd_out p (\<lambda>o1. o1\<lparr>o_role := oc_role config\<rparr>) s;
        out \<leftarrow> s_outs s p;
        if o_role out = OUTPUT_ROLE_PERIPHERAL \<and> o_destroyed out
        then do {
          s \<leftarrow> output_destroy env p s;
          Some (True, emit (Output_call (Output_destroy_wlr (o_wlr_output out))) s)
        }
        else Some (False, s)
      })"

text \<open>The settings of angle and scale.\<close>

definition angle_scale_ops :: "cg_output_config \<Rightarrow> output_op list" where
  "angle_scale_ops config =
     (if oc_angle config \<noteq> - 1 then [Op_transform (oc_angle config)] else []) @
     (if \<not> f32_eq (oc_scale config) (Fin (- 1) 0) \<and> f32_le (oc_scale config) (f32_of_int 10)
      then [Op_scale (oc_scale config)] else [])"

text \<open>The last part: the output is disabled, or enabled, and then sorted in again when its priority changed.\<close>

definition apply_status ::
    "wlr_env \<Rightarrow> bool \<Rightarrow> out_ptr \<Rightarrow> cg_output_config \<Rightarrow> bool \<Rightarrow> output_op list \<Rightarrow> cg_server \<Rightarrow> cg_server option" where
  "apply_status env listening p config prio_changed ops s =
     (if oc_status config = OUTPUT_DISABLE \<and> length (s_outputs s) > 1
      then output_disable env listening p ops s
      else do {
        s \<leftarrow> (if prio_changed then output_insert p (output_unlink p s) else Some s);
        output_commit env listening p (ops @ [Op_enabled True]) s
      })"

definition output_apply_config ::
    "wlr_env \<Rightarrow> bool \<Rightarrow> out_ptr \<Rightarrow> cg_output_config \<Rightarrow> cg_server \<Rightarrow> cg_server option" where
  "output_apply_config env listening p config s = do {
     out \<leftarrow> s_outs s p;
     let prev_box = o_layout_box out;
     (gone, s) \<leftarrow> apply_role env p config s;
     if gone then Some s
     else do {
       let prio_changed = (oc_priority config \<noteq> - 1 \<and> o_priority out \<noteq> oc_priority config);
       s \<leftarrow> (if oc_priority config \<noteq> - 1
             then upd_out p (\<lambda>o1. o1\<lparr>o_priority := oc_priority config\<rparr>) s else Some s);
       let ops = angle_scale_ops config;
       (failed, ops, s) \<leftarrow>
         (if box_x (oc_pos config) \<noteq> - 1 then layout_position env listening p config prev_box ops s
          else if wlr_box_empty (o_layout_box out)
          then map_option (\<lambda>(ops, s). (False, ops, s)) (layout_auto env p ops s)
          else Some (False, ops, s));
       if failed then Some s
       else do {
         s \<leftarrow> apply_status env listening p config prio_changed ops s;
         output_background p s
       }
     }
   }"

definition output_configure ::
    "wlr_env \<Rightarrow> bool \<Rightarrow> cg_output_config list \<Rightarrow> out_ptr \<Rightarrow> cg_server \<Rightarrow> cg_server option" where
  "output_configure env listening cfgs p s = do {
     out \<leftarrow> s_outs s p;
     output_apply_config env listening p (output_total_config cfgs (o_name out)) s
   }"

section \<open>A new output\<close>

text \<open>The last output of the list with this name that was unplugged and kept.\<close>

fun find_destroyed :: "string \<Rightarrow> out_ptr list \<Rightarrow> cg_server \<Rightarrow> out_ptr option option" where
  "find_destroyed name [] s = Some None"
| "find_destroyed name (p # ps) s = do {
     out \<leftarrow> s_outs s p;
     r \<leftarrow> find_destroyed name ps s;
     Some (if r \<noteq> None then r else if o_name out = name \<and> o_destroyed out then Some p else None)
   }"

text \<open>The priority from the list of priorities, the last entry for the name counts.\<close>

definition stored_priority :: "(string \<times> int) list \<Rightarrow> string \<Rightarrow> int" where
  "stored_priority prios name = foldl (\<lambda>prio (ident, q). if ident = name then q else prio) (- 1) prios"

definition new_workspaces :: "out_ptr \<Rightarrow> cg_server \<Rightarrow> (ws_ptr list \<times> cg_server) option" where
  "new_workspaces p s =
     ofold (\<lambda>i (wss, s). do {
       (w, s) \<leftarrow> full_screen_workspace p s;
       s \<leftarrow> upd_ws w (\<lambda>ws. ws\<lparr>w_num := of_nat i, w_views := [], w_unmanaged_views := []\<rparr>) s;
       Some (wss @ [w], s)
     }) [0..<unat (s_nws s)] ([], s)"

text \<open>
  A new output is set up before it has workspaces: the configuration is applied first, and its
  commits are not listened to yet. \<open>p\<close> is the address that \<^verbatim>\<open>calloc\<close> returns.
\<close>

definition new_output :: "nat \<Rightarrow> string \<Rightarrow> int \<Rightarrow> nat \<Rightarrow> cg_output" where
  "new_output w name prio so =
     \<lparr>o_name = name, o_wlr_output = w, o_workspaces = None, o_layout_box = zero_box, o_curr_workspace = 0,
      o_priority = prio, o_role = OUTPUT_ROLE_PERIPHERAL, o_destroyed = False, o_bg = False,
      o_scene_output = Some so\<rparr>"

definition first_connection ::
    "wlr_env \<Rightarrow> cg_output_config list \<Rightarrow> (string \<times> int) list \<Rightarrow> out_ptr \<Rightarrow> nat \<Rightarrow> string \<Rightarrow> cg_server \<Rightarrow> cg_server option" where
  "first_connection env cfgs prios p w name s = do {
     let (so, s) = scene_output_create w s;
     let s = s\<lparr>s_outs := (s_outs s)(p \<mapsto> new_output w name (stored_priority prios name) so)\<rparr>;
     s \<leftarrow> output_commit env False p [Op_transform 0, Op_enabled True] s;
     s \<leftarrow> output_insert p s;
     s \<leftarrow> output_configure env False cfgs p s;
     s \<leftarrow> upd_out p (\<lambda>o1. o1\<lparr>o_layout_box := s_layout s w\<rparr>) s;
     (wss, s) \<leftarrow> new_workspaces p s;
     s \<leftarrow> upd_out p (\<lambda>o1. o1\<lparr>o_workspaces := Some wss\<rparr>) s;
     w0 \<leftarrow> (case wss of [] \<Rightarrow> None | w0 # _ \<Rightarrow> Some w0);
     let s = emit (Scene_raise_ws w0) s;
     s \<leftarrow> workspace_focus p 0 s;
     let s = emit (Scene_raise_layers p) s;
     Some (if s_curr_output s = None then s\<lparr>s_curr_output := Some p\<rparr> else s)
   }"

definition reconnection ::
    "wlr_env \<Rightarrow> cg_output_config list \<Rightarrow> out_ptr \<Rightarrow> nat \<Rightarrow> cg_server \<Rightarrow> cg_server option" where
  "reconnection env cfgs p w s = do {
     out \<leftarrow> s_outs s p;
     let old = o_wlr_output out;
     let s = emit (Output_call (Layout_remove old)) (s\<lparr>s_layout := (s_layout s)(old := zero_box)\<rparr>);
     s \<leftarrow> scene_output_destroy (o_scene_output out) s;
     let (so, s) = scene_output_create w s;
     s \<leftarrow> upd_out p (\<lambda>o1. o1\<lparr>o_wlr_output := w, o_destroyed := False, o_scene_output := Some so\<rparr>) s;
     let b = o_layout_box out;
     s \<leftarrow> scene_layout_add env p w (box_x b) (box_y b) s;
     let ops = Op_transform 0 # (case we_preferred env w of None \<Rightarrow> [] | Some m \<Rightarrow> [Op_mode m]);
     s \<leftarrow> scene_position p (box_x b) (box_y b) s;
     s \<leftarrow> output_commit env False p (ops @ [Op_enabled True]) s;
     output_configure env False cfgs p s
   }"

definition handle_new_output ::
    "wlr_env \<Rightarrow> bool \<Rightarrow> cg_output_config list \<Rightarrow> (string \<times> int) list \<Rightarrow> out_ptr \<Rightarrow> nat \<Rightarrow> string \<Rightarrow> cg_server \<Rightarrow> cg_server option" where
  "handle_new_output env renderer cfgs prios new w name s =
     (if \<not> we_init_render env w then Some s
      else do {
        known \<leftarrow> find_destroyed name (s_outputs s) s;
        let p = (case known of None \<Rightarrow> new | Some p \<Rightarrow> p);
        s \<leftarrow> (if known = None then first_connection env cfgs prios p w name s
              else reconnection env cfgs p w s);
        let s = (if renderer then emit (Seat_call (Cursor_set_xcursor ''left_ptr'')) s else s);
        let s = emit (Seat_call Cursor_warp) s;
        out \<leftarrow> s_outs s p;
        n \<leftarrow> output_get_num p s;
        Some (ipc_send_event ''new_output''
                [(''output'', IStr (o_name out)), (''output_id'', IInt n), (''priority'', IInt (o_priority out)),
                 (''restart'', IInt (of_bool (known \<noteq> None)))] s)
      })"

end
