(* ===== verification/Frames.thy ===== *)
theory Frames
  imports Output_Config
begin

text \<open>
  What the operations on tiles, views, workspaces and the focus leave alone: the lists of outputs, the
  scene outputs, the number of workspaces and everything of an output except its cached layout box and
  its current workspace. \<open>frame_sig\<close> collects this part of the state; every operation keeps it when it
  does not fault, without any assumption about the state.
\<close>

definition out_core :: "cg_output \<Rightarrow> cg_output" where
  "out_core out = out\<lparr>o_layout_box := zero_box, o_curr_workspace := 0\<rparr>"

definition frame_sig :: "cg_server \<Rightarrow>
    out_ptr list \<times> out_ptr list \<times> (nat \<rightharpoonup> nat) \<times> nat \<times> u16 \<times> bool \<times> (nat \<Rightarrow> wlr_box) \<times> (out_ptr \<rightharpoonup> cg_output)" where
  "frame_sig s = (s_outputs s, s_disabled_outputs s, s_scene_outputs s, s_scene_brk s, s_nws s, s_running s, s_layout s,
                  \<lambda>p. map_option out_core (s_outs s p))"

named_theorems frame \<open>what an operation leaves alone\<close>

lemma out_core_updates [simp]:
  "out_core (out\<lparr>o_layout_box := b\<rparr>) = out_core out" "out_core (out\<lparr>o_curr_workspace := i\<rparr>) = out_core out"
  by (simp_all add: out_core_def)

lemma out_core_eqD:
  assumes "out_core a = out_core b"
  shows "o_name a = o_name b" "o_wlr_output a = o_wlr_output b" "o_workspaces a = o_workspaces b"
    "o_priority a = o_priority b" "o_role a = o_role b" "o_destroyed a = o_destroyed b" "o_bg a = o_bg b"
    "o_scene_output a = o_scene_output b"
  using assms by (cases a; cases b; simp add: out_core_def)+

lemma frame_sig_updates [simp]:
  "frame_sig (emit c s) = frame_sig s" "frame_sig (upd_seat f s) = frame_sig s"
  "frame_sig (s\<lparr>s_tiles := T\<rparr>) = frame_sig s" "frame_sig (s\<lparr>s_views := V\<rparr>) = frame_sig s"
  "frame_sig (s\<lparr>s_workspaces := W\<rparr>) = frame_sig s" "frame_sig (s\<lparr>s_calls := cs\<rparr>) = frame_sig s"
  "frame_sig (s\<lparr>s_curr_output := co\<rparr>) = frame_sig s" "frame_sig (s\<lparr>s_tile_brk := n\<rparr>) = frame_sig s"
  "frame_sig (s\<lparr>s_ws_brk := n\<rparr>) = frame_sig s" "frame_sig (s\<lparr>s_tiles_curr_id := i\<rparr>) = frame_sig s"
  "frame_sig (s\<lparr>s_seat := se\<rparr>) = frame_sig s"
  "frame_sig (ipc_send_event e args s) = frame_sig s" "frame_sig (message_printf p m s) = frame_sig s"
  by (simp_all add: frame_sig_def emit_def upd_seat_def ipc_send_event_def message_printf_def)

lemma frame_sigD:
  assumes "frame_sig s' = frame_sig s"
  shows "s_outputs s' = s_outputs s" "s_disabled_outputs s' = s_disabled_outputs s" "s_scene_outputs s' = s_scene_outputs s"
    "s_nws s' = s_nws s" "s_running s' = s_running s" "s_layout s' = s_layout s"
    "map_option out_core (s_outs s' p) = map_option out_core (s_outs s p)"
  using assms by (simp_all add: frame_sig_def fun_eq_iff)

lemma frame_out:
  assumes "frame_sig s' = frame_sig s" and "s_outs s p = Some out"
  obtains out' where "s_outs s' p = Some out'" "out_core out' = out_core out"
  using frame_sigD(7) [OF assms(1), of p] assms(2) by auto

section \<open>Heap updates\<close>

lemma upd_frame [frame]:
  "upd_tile p ft s = Some s' \<Longrightarrow> frame_sig s' = frame_sig s"
  "upd_view p fv s = Some s' \<Longrightarrow> frame_sig s' = frame_sig s"
  "upd_ws p fw s = Some s' \<Longrightarrow> frame_sig s' = frame_sig s"
  by (auto simp: upd_tile_def upd_view_def upd_ws_def)

lemma upd_out_frame:
  "upd_out p f s = Some s' \<Longrightarrow> (\<And>out. out_core (f out) = out_core out) \<Longrightarrow> frame_sig s' = frame_sig s"
  by (auto simp: upd_out_def frame_sig_def fun_eq_iff)

lemma upd_out_box_frame [frame]:
  "upd_out p (\<lambda>out. out\<lparr>o_layout_box := b\<rparr>) s = Some s' \<Longrightarrow> frame_sig s' = frame_sig s"
  "upd_out p (\<lambda>out. out\<lparr>o_curr_workspace := i\<rparr>) s = Some s' \<Longrightarrow> frame_sig s' = frame_sig s"
  by (erule upd_out_frame; simp)+

lemma ofold_frame:
  assumes "ofold f xs s = Some s'" and "\<And>x s s'. f x s = Some s' \<Longrightarrow> frame_sig s' = frame_sig s"
  shows "frame_sig s' = frame_sig s"
  using ofold_invariant [OF assms(1), of "\<lambda>t. frame_sig t = frame_sig s"] assms(2) by simp

lemma ofold_upd_view_frame [frame]:
  "ofold (\<lambda>v. upd_view v (g v)) xs s = Some s' \<Longrightarrow> frame_sig s' = frame_sig s"
  by (erule ofold_frame) (rule upd_frame)

lemma not_xdg_view: "t \<noteq> CG_XDG_SHELL_VIEW \<longleftrightarrow> t = CG_XWAYLAND_VIEW"
  by (cases t) simp_all

section \<open>Views and focus\<close>

lemma layout_box_frame [frame]: "output_get_layout_box p s = Some (b, s') \<Longrightarrow> frame_sig s' = frame_sig s"
  by (auto simp: output_get_layout_box_def bind_eq_Some Let_def dest!: frame)

lemma view_activate_frame [frame]: "view_activate po act s = Some s' \<Longrightarrow> frame_sig s' = frame_sig s"
  by (auto simp: view_activate_def bind_eq_Some not_xdg_view xdg_activate_def xwayland_activate_def Let_def
           split: option.splits cg_view_type.splits if_splits)

lemma view_impl_maximize_frame [frame]: "view_impl_maximize p w h s = Some s' \<Longrightarrow> frame_sig s' = frame_sig s"
  by (auto simp: view_impl_maximize_def bind_eq_Some not_xdg_view xdg_maximize_def xwayland_maximize_def
           split: option.splits cg_view_type.splits prod.splits dest!: frame)

lemma view_maximize_frame [frame]: "view_maximize p tp s = Some s' \<Longrightarrow> frame_sig s' = frame_sig s"
  by (auto simp: view_maximize_def bind_eq_Some dest!: frame)

lemma tile_update_view_frame [frame]:
  "workspace_tile_update_view tp vo s = Some s' \<Longrightarrow> frame_sig s' = frame_sig s"
  by (auto simp: workspace_tile_update_view_def bind_eq_Some split: option.splits dest!: frame)

lemma cursor_switch_tile_frame [frame]: "cursor_switch_tile c ox oy s = Some s' \<Longrightarrow> frame_sig s' = frame_sig s"
  by (auto simp: cursor_switch_tile_def cursor_switch_event_def bind_eq_Some Let_def split: option.splits if_splits)

lemma process_cursor_motion_frame [frame]: "process_cursor_motion t s = Some s' \<Longrightarrow> frame_sig s' = frame_sig s"
  by (auto simp: process_cursor_motion_def pointer_notify_def Let_def
           split: option.splits prod.splits if_splits node_hit.splits dest!: frame)

lemma seat_focus_background_frame [frame]: "seat_focus_background s = Some s' \<Longrightarrow> frame_sig s' = frame_sig s"
  by (auto simp: seat_focus_background_def bind_eq_Some Let_def dest!: frame)

lemma focus_show_view_frame [frame]: "focus_show_view p s = Some s' \<Longrightarrow> frame_sig s' = frame_sig s"
  by (auto simp: focus_show_view_def bind_eq_Some dest!: frame)

lemma seat_focus_enter_frame [frame]: "seat_focus_enter p s = Some s' \<Longrightarrow> frame_sig s' = frame_sig s"
  by (auto simp: seat_focus_enter_def bind_eq_Some Let_def dest!: frame)

lemma seat_set_focus_frame [frame]: "seat_set_focus po s = Some s' \<Longrightarrow> frame_sig s' = frame_sig s"
  by (auto simp: seat_set_focus_def bind_eq_Some Let_def split: option.splits if_splits dest!: frame)

lemma set_output_frame [frame]: "set_output p s = Some s' \<Longrightarrow> frame_sig s' = frame_sig s"
  by (auto simp: set_output_def bind_eq_Some Let_def dest!: frame)

lemma cycle_outputs_frame [frame]: "keybinding_cycle_outputs r e s = Some s' \<Longrightarrow> frame_sig s' = frame_sig s"
  by (auto simp: keybinding_cycle_outputs_def bind_eq_Some split: if_splits dest!: frame)

section \<open>Workspaces\<close>

lemma view_unlink_frame [frame]: "view_unlink p s = Some s' \<Longrightarrow> frame_sig s' = frame_sig s"
  by (auto simp: view_unlink_def split: if_splits)

lemma view_link_frame [frame]:
  "view_link w p s = Some s' \<Longrightarrow> frame_sig s' = frame_sig s"
  "view_link_unmanaged w p s = Some s' \<Longrightarrow> frame_sig s' = frame_sig s"
  by (auto simp: view_link_def view_link_unmanaged_def dest!: frame)

lemma view_impl_destroy_frame [frame]: "view_impl_destroy p s = Some s' \<Longrightarrow> frame_sig s' = frame_sig s"
  by (auto simp: view_impl_destroy_def bind_eq_Some)

lemma free_tiles_loop_frame [frame]: "free_tiles_loop fuel tp s = Some s' \<Longrightarrow> frame_sig s' = frame_sig s"
proof (induction fuel tp s rule: free_tiles_loop.induct)
  case (3 fuel tp s)
  from 3(2) show ?case by (auto simp: bind_eq_Some Let_def split: if_splits dest!: 3(1) [rotated])
qed simp_all

lemma workspace_free_tiles_frame [frame]: "workspace_free_tiles w s = Some s' \<Longrightarrow> frame_sig s' = frame_sig s"
  by (auto simp: workspace_free_tiles_def bind_eq_Some dest!: frame)

lemma full_screen_workspace_tiles_frame [frame]:
  "full_screen_workspace_tiles w s = Some s' \<Longrightarrow> frame_sig s' = frame_sig s"
  by (auto simp: full_screen_workspace_tiles_def calloc_tile_def bind_eq_Some Let_def dest!: frame)

lemma full_screen_workspace_frame [frame]: "full_screen_workspace p s = Some (w, s') \<Longrightarrow> frame_sig s' = frame_sig s"
  by (auto simp: full_screen_workspace_def bind_eq_Some Let_def dest!: frame)

lemma workspace_focus_frame [frame]: "workspace_focus p i s = Some s' \<Longrightarrow> frame_sig s' = frame_sig s"
  by (auto simp: workspace_focus_def bind_eq_Some split: if_splits dest!: frame)

lemma fullscreen_frame [frame]: "output_make_workspace_fullscreen p i s = Some s' \<Longrightarrow> frame_sig s' = frame_sig s"
  by (auto simp: output_make_workspace_fullscreen_def bind_eq_Some
           split: if_splits dest!: frame)

section \<open>Taking the views off an output\<close>

lemma clear_tiles_frame [frame]: "clear_tiles w s = Some s' \<Longrightarrow> frame_sig s' = frame_sig s"
  by (auto simp: clear_tiles_def bind_eq_Some elim!: ofold_frame dest!: frame)

lemma evacuate_view_frame [frame]: "evacuate_view w p s = Some s' \<Longrightarrow> frame_sig s' = frame_sig s"
  by (auto simp: evacuate_view_def bind_eq_Some Let_def split: if_splits dest!: frame)

lemma evacuate_unmanaged_view_frame [frame]: "evacuate_unmanaged_view w p s = Some s' \<Longrightarrow> frame_sig s' = frame_sig s"
  by (auto simp: evacuate_unmanaged_view_def bind_eq_Some Let_def split: if_splits dest!: frame)

lemma evacuate_all_frame [frame]:
  "ofold (evacuate_view w) vs s = Some s' \<Longrightarrow> frame_sig s' = frame_sig s"
  "ofold (evacuate_unmanaged_view w) vs s = Some s' \<Longrightarrow> frame_sig s' = frame_sig s"
  by (erule ofold_frame, erule frame)+

lemma clear_workspace_frame [frame]: "clear_workspace p i s = Some s' \<Longrightarrow> frame_sig s' = frame_sig s"
  by (auto simp: clear_workspace_def bind_eq_Some dest!: frame)

lemma clear_workspaces_frame [frame]: "ofold (clear_workspace p) is s = Some s' \<Longrightarrow> frame_sig s' = frame_sig s"
  by (erule ofold_frame, erule frame)

lemma output_commit_handler_frame [frame]: "handle_output_commit en ch p s = Some s' \<Longrightarrow> frame_sig s' = frame_sig s"
  by (auto simp: handle_output_commit_def bind_eq_Some split: if_splits dest!: frame
           elim!: ofold_frame)

end
