(* ===== verification/Example_Output.thy ===== *)
theory Example_Output
  imports Frames Example_Server
begin

text \<open>
  An environment in which wlroots accepts everything, and the example server with a third output that
  shows no views; disabling the third output succeeds.
\<close>

definition ex_env :: wlr_env where
  "ex_env = \<lparr>we_modes = (\<lambda>_. [(0, 160, 90, 60000)]), we_preferred = (\<lambda>_. Some 0), we_test = (\<lambda>_ _. True),
     we_commit = (\<lambda>_ _. True), we_enabled = (\<lambda>_. True), we_committed = (\<lambda>_ _ l. l),
     we_add = (\<lambda>w x y l. l(w := \<lparr>box_x = x, box_y = y, box_width = 160, box_height = 90\<rparr>)),
     we_add_auto = (\<lambda>w l. l(w := ex_box 0 160)), we_headless = 9, we_session_active = True,
     we_init_render = (\<lambda>_. True)\<rparr>"

definition ex_three :: cg_server where
  "ex_three = ex_server\<lparr>
     s_tiles := (s_tiles ex_server)(15 \<mapsto> ex_tile 24 (ex_box 0 160) None 15 6, 16 \<mapsto> ex_tile 25 (ex_box 0 160) None 16 7),
     s_workspaces := (s_workspaces ex_server)(24 \<mapsto> ex_ws [] 32 15 0, 25 \<mapsto> ex_ws [] 32 16 1),
     s_outs := (s_outs ex_server)(32 \<mapsto> ex_out ''DP-3'' 2 [24, 25]), s_tile_brk := 17, s_ws_brk := 26,
     s_outputs := [30, 31, 32], s_scene_outputs := (s_scene_outputs ex_server)(2 \<mapsto> 2), s_scene_brk := 3\<rparr>"

lemma clear_workspace_empty:
  assumes "s_outs s p = Some out" and "ws_at out (int i) = Some w" and "s_workspaces s w = Some ws"
    and "w_views ws = []" and "w_unmanaged_views ws = []" and "w_focused_tile ws = Some tp"
    and t: "s_tiles s tp = Some t" "t_next t = Some tp" "t_view t = None" and "s_tile_brk s \<noteq> 0" and "curr_ws s = Some cw"
  shows "clear_workspace p i s = Some s"
proof -
  obtain n where n: "s_tile_brk s = Suc n" using assms(10) not0_implies_Suc by blast
  have r: "ring_of tp s = Some [tp]" using t by (simp add: ring_of_def n)
  have "t\<lparr>t_view := None\<rparr> = t" using t(3) by (cases t) simp
  then have "workspace_tile_update_view tp None s = Some s"
    using t by (simp add: workspace_tile_update_view_def upd_tile_def fun_upd_idem)
  then have "clear_tiles w s = Some s" using r assms(3,6) by (simp add: clear_tiles_def focused_tile_of_def)
  then show ?thesis using assms by (simp add: clear_workspace_def)
qed

lemma output_unlink_simps [simp]:
  "s_running (output_unlink p s) = s_running s" "s_nws (output_unlink p s) = s_nws s"
  by (simp_all add: output_unlink_def)

lemma upt_two: "[0..<2] = [0, Suc 0]"
  by (simp add: upt_rec)

lemma ex_three_disable:
  "\<exists>s1. output_disable ex_env True 32 [] ex_three = Some s1 \<and> s_outputs s1 = [30, 31] \<and>
     s_outs s1 32 = Some (ex_out ''DP-3'' 2 [24, 25])"
proof -
  let ?s = "emit (Message_clear 32) (output_unlink 32
     (emit (Output_call (Scene_output_destroy 2)) (ex_three\<lparr>s_scene_outputs := (s_scene_outputs ex_three)(2 := None)\<rparr>)))"
  have f: "s_outs ex_three 32 = Some (ex_out ''DP-3'' 2 [24, 25])" "s_running ex_three" "s_nws ex_three = 2"
    "s_curr_output ex_three = Some 30" "s_scene_outputs ex_three 2 = Some 2" "s_outputs ex_three = [30, 31, 32]"
    by (simp_all add: ex_three_def ex_server_def)
  have g: "s_outs ?s = s_outs ex_three" "s_workspaces ?s = s_workspaces ex_three" "s_tiles ?s = s_tiles ex_three"
    "s_tile_brk ?s = 17" "s_curr_output ?s = s_curr_output ex_three" "s_outputs ?s = [30, 31]"
    by (simp_all add: output_unlink_def wl_remove_def ex_three_def)
  have cw: "curr_ws ?s = Some 20"
    unfolding curr_ws_def curr_ws_of_def g by (simp add: ex_three_def ex_defs ws_at_def)
  have w: "s_outs ?s 32 = Some (ex_out ''DP-3'' 2 [24, 25])" "s_workspaces ?s 24 = Some (ex_ws [] 32 15 0)"
    "s_workspaces ?s 25 = Some (ex_ws [] 32 16 1)" "s_tiles ?s 15 = Some (ex_tile 24 (ex_box 0 160) None 15 6)"
    "s_tiles ?s 16 = Some (ex_tile 25 (ex_box 0 160) None 16 7)"
    unfolding g f by (simp_all add: ex_three_def ex_server_def)
  have "clear_workspace 32 0 ?s = Some ?s"
    by (rule clear_workspace_empty [OF w(1) _ w(2) _ _ _ w(4) _ _ _ cw])
      (simp_all only: g, simp_all add: ex_out_def ex_ws_def ex_tile_def ws_at_def)
  moreover have "clear_workspace 32 (Suc 0) ?s = Some ?s"
    by (rule clear_workspace_empty [OF w(1) _ w(3) _ _ _ w(5) _ _ _ cw])
      (simp_all only: g, simp_all add: ex_out_def ex_ws_def ex_tile_def ws_at_def)
  ultimately have c: "output_clear 32 ex_three = Some ?s"
    using f by (simp add: output_clear_def scene_output_destroy_def ex_out_def upt_two Let_def)
  show ?thesis
    unfolding output_disable_def c using f g
    by (simp add: output_commit_def ex_env_def handle_output_commit_def)
qed

end
