(* ===== verification/Output_Props.thy ===== *)
theory Output_Props
  imports Example_Output
begin

text \<open>
  Properties of the code that configures, connects and removes outputs: the order by priority, the
  choice of a mode, and what disabling an output does to later commands.
\<close>

section \<open>Sorting in an output\<close>

definition prio_of :: "cg_server \<Rightarrow> out_ptr \<Rightarrow> int" where
  "prio_of s p = (case s_outs s p of None \<Rightarrow> 0 | Some out \<Rightarrow> o_priority out)"

lemma insert_by_priority_list:
  assumes "set ps \<subseteq> dom (s_outs s)"
  shows "insert_by_priority prio p ps s =
     Some (takeWhile (\<lambda>q. prio \<le> prio_of s q) ps @ p # dropWhile (\<lambda>q. prio \<le> prio_of s q) ps)"
  using assms by (induction ps) (auto simp: prio_of_def)

lemma insert_by_priority_length: "insert_by_priority prio p qs s = Some ps \<Longrightarrow> length ps = Suc (length qs)"
  by (induction qs arbitrary: ps) (auto simp: bind_eq_Some split: if_splits)

lemma takeWhile_sorted:
  assumes "sorted_wrt (\<lambda>a b. f b \<le> (f a :: int)) ps" and "q \<in> set (dropWhile (\<lambda>q. k \<le> f q) ps)"
  shows "f q < k"
  using assms
proof (induction ps)
  case (Cons a ps)
  show ?case
  proof (cases "k \<le> f a")
    case False
    with Cons.prems have "q = a \<or> f q \<le> f a" by auto
    with False show ?thesis by auto
  qed (use Cons in auto)
qed simp

lemma sorted_wrt_insert:
  fixes f :: "'a \<Rightarrow> int"
  assumes "sorted_wrt (\<lambda>a b. f b \<le> f a) (us @ vs)" and "\<forall>q \<in> set us. f p \<le> f q" and "\<forall>q \<in> set vs. f q < f p"
  shows "sorted_wrt (\<lambda>a b. f b \<le> f a) (us @ p # vs)"
  using assms by (induction us) (auto simp: less_imp_le)

text \<open>
  C16: \<^verbatim>\<open>output_insert\<close> keeps the outputs ordered by decreasing priority: the new output comes
  behind all outputs of at least its priority and before all others, and the order of the others does not
  change, so outputs of equal priority are in the order of their arrival.
\<close>

theorem output_insert_sorted:
  assumes "s_outs s p = Some out" and "set (s_outputs s) \<subseteq> dom (s_outs s)"
    and "sorted_wrt (\<lambda>a b. prio_of s b \<le> prio_of s a) (s_outputs s)"
  shows "\<exists>us vs. output_insert p s = Some (s\<lparr>s_outputs := us @ p # vs\<rparr>) \<and> s_outputs s = us @ vs \<and>
     (\<forall>q \<in> set us. o_priority out \<le> prio_of s q) \<and> (\<forall>q \<in> set vs. prio_of s q < o_priority out) \<and>
     sorted_wrt (\<lambda>a b. prio_of s b \<le> prio_of s a) (us @ p # vs)"
proof -
  let ?P = "\<lambda>q. o_priority out \<le> prio_of s q"
  let ?us = "takeWhile ?P (s_outputs s)" and ?vs = "dropWhile ?P (s_outputs s)"
  have ins: "output_insert p s = Some (s\<lparr>s_outputs := ?us @ p # ?vs\<rparr>)"
    using assms(1) insert_by_priority_list [OF assms(2)] by (simp add: output_insert_def)
  have us: "\<forall>q \<in> set ?us. ?P q" by (auto dest: set_takeWhileD)
  have vs: "\<forall>q \<in> set ?vs. prio_of s q < o_priority out" using takeWhile_sorted [OF assms(3)] by blast
  have "prio_of s p = o_priority out" using assms(1) by (simp add: prio_of_def)
  then have "sorted_wrt (\<lambda>a b. prio_of s b \<le> prio_of s a) (?us @ p # ?vs)"
    using us vs assms(3) by (intro sorted_wrt_insert) (simp_all only: takeWhile_dropWhile_id)
  moreover have "s_outputs s = ?us @ ?vs" by (simp only: takeWhile_dropWhile_id)
  ultimately show ?thesis using ins us vs by blast
qed

theorem output_insert_sorted_witness:
  "output_insert 31 (ex_server\<lparr>s_outputs := [30]\<rparr>) = Some (ex_server\<lparr>s_outputs := [30, 31]\<rparr>)"
proof -
  have o: "s_outs ex_server 31 = Some (ex_out ''HDMI-1'' 1 [22, 23])" "s_outs ex_server 30 = Some (ex_out ''DP-1'' 0 [20, 21])"
    by (simp_all add: ex_server_def)
  let ?s = "ex_server\<lparr>s_outputs := [30]\<rparr>"
  have out: "s_outs ?s 31 = Some (ex_out ''HDMI-1'' 1 [22, 23])" "set (s_outputs ?s) \<subseteq> dom (s_outs ?s)"
    "sorted_wrt (\<lambda>a b. prio_of ?s b \<le> prio_of ?s a) (s_outputs ?s)" using o by auto
  obtain us vs where r: "output_insert 31 ?s = Some (?s\<lparr>s_outputs := us @ 31 # vs\<rparr>)" and uv: "s_outputs ?s = us @ vs"
    and lt: "\<forall>q \<in> set vs. prio_of ?s q < o_priority (ex_out ''HDMI-1'' 1 [22, 23])"
    using output_insert_sorted [OF out] by blast
  have "us = [30] \<and> vs = []"
  proof (cases us)
    case Nil
    then have "vs = [30]" using uv by simp
    with lt o show ?thesis by (simp add: prio_of_def ex_out_def)
  qed (use uv in simp)
  with r show ?thesis by simp
qed

section \<open>Choosing a mode\<close>

abbreviation (input) fits :: "int \<Rightarrow> int \<Rightarrow> (nat \<times> int \<times> int \<times> int) \<Rightarrow> bool" where
  "fits width height m \<equiv> fst (snd m) = width \<and> fst (snd (snd m)) = height"

lemma best_mode_result:
  assumes "best_mode width height mhz ms best = r"
  shows "case find (\<lambda>m. fits width height m \<and> snd (snd (snd m)) = mhz) ms of
       Some m \<Rightarrow> r = Some (fst m)
     | None \<Rightarrow>
         (case r of
            None \<Rightarrow> best = None \<and> (\<forall>m \<in> set ms. \<not> fits width height m)
          | Some b \<Rightarrow> \<exists>f. (best = Some (b, f) \<or> (b, width, height, f) \<in> set ms) \<and>
              (\<forall>m \<in> set ms. fits width height m \<longrightarrow> snd (snd (snd m)) \<le> f) \<and>
              (\<forall>b' f'. best = Some (b', f') \<longrightarrow> f' \<le> f))"
  using assms
proof (induction ms arbitrary: best)
  case Nil
  then show ?case by (cases best) auto
next
  case (Cons m ms)
  obtain i w h f where m: "m = (i, w, h, f)" by (cases m)
  consider (other) "\<not> (w = width \<and> h = height)" | (exact) "w = width" "h = height" "f = mhz"
    | (better) "w = width" "h = height" "f \<noteq> mhz" "best = None \<or> f > snd (the best)"
    | (worse) "w = width" "h = height" "f \<noteq> mhz" "best \<noteq> None" "f \<le> snd (the best)"
    by (cases "f = mhz"; cases "best = None"; cases "snd (the best) < f") auto
  then show ?case
  proof cases
    case other
    with Cons.prems m Cons.IH [of best] show ?thesis by (auto split: option.splits)
  next
    case exact
    with Cons.prems m show ?thesis by auto
  next
    case better
    with Cons.prems m Cons.IH [of "Some (i, f)"] show ?thesis
      by (auto split: option.splits)
  next
    case worse
    with Cons.prems m Cons.IH [of best] show ?thesis
      by (auto split: option.splits)
  qed
qed

text \<open>
  C17: the mode chosen for a configured size and rate: the first mode of this size with exactly the rate,
  and if there is none one of this size with the highest rate; no mode is chosen (and the preferred one
  is taken instead) exactly when no mode has the size.
\<close>

theorem best_mode_correct:
  "case find (\<lambda>m. fits width height m \<and> snd (snd (snd m)) = mhz) ms of
     Some m \<Rightarrow> best_mode width height mhz ms None = Some (fst m)
   | None \<Rightarrow>
       (case best_mode width height mhz ms None of
          None \<Rightarrow> \<forall>m \<in> set ms. \<not> fits width height m
        | Some b \<Rightarrow> \<exists>f. (b, width, height, f) \<in> set ms \<and>
            (\<forall>m \<in> set ms. fits width height m \<longrightarrow> snd (snd (snd m)) \<le> f))"
  using best_mode_result [of width height mhz ms None, OF refl] by (auto split: option.splits)

theorem best_mode_correct_witness:
  "best_mode 1920 1080 60000 [(0, 1280, 720, 60000), (1, 1920, 1080, 50000), (2, 1920, 1080, 75000)] None = Some 2 \<and>
   best_mode 1920 1080 50000 [(0, 1280, 720, 60000), (1, 1920, 1080, 50000), (2, 1920, 1080, 75000)] None = Some 1"
  using best_mode_correct [where width = 1920 and height = 1080 and mhz = 50000 and ms = "[(0, 1280, 720, 60000), (1, 1920, 1080, 50000), (2, 1920, 1080, 75000)]"]
  by simp

section \<open>Disabled outputs\<close>

lemma output_commit_frame:
  assumes "output_commit env l p ops s = Some s'"
  shows "\<exists>L. frame_sig s' = frame_sig (s\<lparr>s_layout := L\<rparr>)"
proof -
  obtain out where "s_outs s p = Some out" using assms by (auto simp: output_commit_def bind_eq_Some)
  let ?s = "emit (Output_call (Output_commit (o_wlr_output out) ops)) s"
  have e: "frame_sig (?s\<lparr>s_layout := L\<rparr>) = frame_sig (s\<lparr>s_layout := L\<rparr>)" for L by (simp add: frame_sig_def emit_def)
  let ?t = "?s\<lparr>s_layout := we_committed env (o_wlr_output out) ops (s_layout ?s)\<rparr>"
  note u = assms [unfolded output_commit_def \<open>s_outs s p = Some out\<close>, simplified bind.bind_lunit Let_def]
  show ?thesis
  proof (cases "we_commit env (o_wlr_output out) ops")
    case False
    then have "s' = ?s" using u by simp
    then have "frame_sig s' = frame_sig (s\<lparr>s_layout := s_layout s\<rparr>)" by simp
    then show ?thesis by (intro exI [of _ "s_layout s"])
  next
    case True
    have "frame_sig s' = frame_sig ?t"
    proof (cases l)
      case l: True
      have "handle_output_commit (enabled_after ops (we_enabled env (o_wlr_output out))) (\<exists>op \<in> set ops. size_op op) p ?t = Some s'"
        using u unfolding if_P [OF True] if_P [OF l] by simp
      then show ?thesis by (rule output_commit_handler_frame)
    next
      case l: False
      show ?thesis using u unfolding if_P [OF True] if_not_P [OF l] by simp
    qed
    with e show ?thesis by metis
  qed
qed

lemma output_commit_parts:
  assumes "output_commit env l p ops s = Some s'"
  shows "s_outputs s' = s_outputs s" "s_disabled_outputs s' = s_disabled_outputs s" "s_scene_outputs s' = s_scene_outputs s"
    "map_option out_core (s_outs s' q) = map_option out_core (s_outs s q)" "s_running s' = s_running s" "s_nws s' = s_nws s"
  using output_commit_frame [OF assms] by (auto simp: frame_sig_def fun_eq_iff)

text \<open>An output whose scene output is destroyed cannot be cleared again.\<close>

lemma output_clear_dead:
  assumes "s_outs s p = Some out" and "o_scene_output out = Some a" and "s_scene_outputs s a = None"
  shows "output_clear p s = None"
  using assms by (simp add: output_clear_def scene_output_destroy_def)

lemma output_clear_parts:
  assumes "output_clear p s = Some s'" and out: "s_outs s p = Some out"
  shows "s_outputs s' = wl_remove p (s_outputs s)" and "s_disabled_outputs s' = wl_remove p (s_disabled_outputs s)"
    and "\<exists>out'. s_outs s' p = Some out' \<and> out_core out' = out_core out"
    and "o_scene_output out = Some a \<Longrightarrow> s_scene_outputs s' a = None"
proof -
  obtain s1 where s1: "scene_output_destroy (o_scene_output out) s = Some s1"
    using assms by (auto simp: output_clear_def bind_eq_Some)
  have p1: "s_outputs s1 = s_outputs s" "s_disabled_outputs s1 = s_disabled_outputs s" "s_outs s1 = s_outs s"
    "o_scene_output out = Some a \<Longrightarrow> s_scene_outputs s1 a = None"
    using s1 by (auto simp: scene_output_destroy_def bind_eq_Some split: option.splits)
  obtain s2 where s2: "frame_sig s2 = frame_sig s1" "frame_sig s' = frame_sig (emit (Message_clear p) (output_unlink p s2))"
    using assms(1) out s1
    by (auto simp: output_clear_def bind_eq_Some Let_def split: if_splits dest!: frame)
  show "s_outputs s' = wl_remove p (s_outputs s)" "s_disabled_outputs s' = wl_remove p (s_disabled_outputs s)"
    using frame_sigD(1,2) [OF s2(1)] frame_sigD(1,2) [OF s2(2)] p1 by (simp_all add: output_unlink_def)
  have "map_option out_core (s_outs s' p) = map_option out_core (s_outs s p)"
    using frame_sigD(7) [OF s2(1), of p] frame_sigD(7) [OF s2(2), of p] p1 by (simp add: output_unlink_def)
  then show "\<exists>out'. s_outs s' p = Some out' \<and> out_core out' = out_core out" using out by auto
  show "s_scene_outputs s' a = None" if "o_scene_output out = Some a"
    using frame_sigD(3) [OF s2(1)] frame_sigD(3) [OF s2(2)] p1(4) [OF that] by (simp add: output_unlink_def)
qed

lemma output_disable_parts:
  assumes "output_disable env l p ops s = Some s'" and out: "s_outs s p = Some out"
  shows "s_outputs s' = wl_remove p (s_outputs s)" and "s_disabled_outputs s' = p # wl_remove p (s_disabled_outputs s)"
    and "\<exists>out'. s_outs s' p = Some out' \<and> out_core out' = out_core out"
    and "o_scene_output out = Some a \<Longrightarrow> s_scene_outputs s' a = None"
proof -
  obtain s1 where s1: "output_clear p s = Some s1"
    and c: "output_commit env l p (ops @ [Op_enabled False]) (s1\<lparr>s_disabled_outputs := wl_insert p (s_disabled_outputs s1)\<rparr>) = Some s'"
    using assms(1) by (auto simp: output_disable_def bind_eq_Some)
  note parts = output_clear_parts [OF s1 out] and cp = output_commit_parts [OF c]
  show "s_outputs s' = wl_remove p (s_outputs s)" "s_disabled_outputs s' = p # wl_remove p (s_disabled_outputs s)"
    using parts(1,2) cp(1,2) by (simp_all add: wl_insert_def)
  show "\<exists>out'. s_outs s' p = Some out' \<and> out_core out' = out_core out"
    using parts(3) cp(4) [of p] by auto
  show "s_scene_outputs s' a = None" if "o_scene_output out = Some a" using parts(4) [OF that] cp(3) by simp
qed

text \<open>A configuration without role and position: what is left of \<open>output_apply_config\<close>.\<close>

lemma apply_config_simple:
  assumes "output_apply_config env l p c s = Some s'" and "s_outs s p = Some out"
    and "oc_role c = OUTPUT_ROLE_DEFAULT" and "box_x (oc_pos c) = - 1" and "\<not> wlr_box_empty (o_layout_box out)"
  obtains s1 s2 where "s1 = s \<or> upd_out p (\<lambda>o1. o1\<lparr>o_priority := oc_priority c\<rparr>) s = Some s1"
    and "apply_status env l p c (oc_priority c \<noteq> - 1 \<and> o_priority out \<noteq> oc_priority c) (angle_scale_ops c) s1 = Some s2"
    and "output_background p s2 = Some s'"
proof -
  from assms(1) obtain s1 s2 where "(if oc_priority c \<noteq> - 1
             then upd_out p (\<lambda>o1. o1\<lparr>o_priority := oc_priority c\<rparr>) s else Some s) = Some s1"
    "apply_status env l p c (oc_priority c \<noteq> - 1 \<and> o_priority out \<noteq> oc_priority c) (angle_scale_ops c) s1 = Some s2"
    "output_background p s2 = Some s'"
    using assms(2-5) by (auto simp: output_apply_config_def apply_role_def bind_eq_Some split: if_splits)
  then show thesis by (intro that [of s1 s2]) (auto split: if_splits)
qed

lemma output_background_effect:
  assumes "output_background p s = Some s'"
  obtains out b where "s_outs s p = Some out" and "s_outs s' = (s_outs s)(p \<mapsto> out\<lparr>o_bg := b\<rparr>)"
    and "s_outputs s' = s_outputs s" "s_disabled_outputs s' = s_disabled_outputs s" "s_scene_outputs s' = s_scene_outputs s"
    and "s_tiles s' = s_tiles s" "s_views s' = s_views s" "s_workspaces s' = s_workspaces s" "s_seat s' = s_seat s"
    and "s_curr_output s' = s_curr_output s" "s_running s' = s_running s"
proof -
  obtain out0 s1 where o: "s_outs s p = Some out0" and s1: "s1 = (if o_bg out0 then emit (Output_call (Bg_destroy p)) s else s)"
    using assms by (auto simp: output_background_def bind_eq_Some)
  let ?b = "\<exists>a \<in> set [0..<s_scene_brk s1]. s_scene_outputs s1 a = Some (o_wlr_output out0)"
  have "s_outs s' = (s_outs s)(p \<mapsto> out0\<lparr>o_bg := ?b\<rparr>) \<and> s_outputs s' = s_outputs s \<and>
      s_disabled_outputs s' = s_disabled_outputs s \<and> s_scene_outputs s' = s_scene_outputs s \<and> s_tiles s' = s_tiles s \<and>
      s_views s' = s_views s \<and> s_workspaces s' = s_workspaces s \<and> s_seat s' = s_seat s \<and>
      s_curr_output s' = s_curr_output s \<and> s_running s' = s_running s"
    using assms o s1
    by (cases "o_bg out0") (simp_all add: output_background_def Let_def upd_out_def split: if_splits, auto)
  with o show thesis by (intro that [of out0 ?b]) blast+
qed


lemma output_background_total: "s_outs s p = Some out \<Longrightarrow> \<exists>s'. output_background p s = Some s'"
  by (cases "o_bg out") (simp_all add: output_background_def upd_out_def Let_def)

text \<open>The command \<^verbatim>\<open>output X enable\<close> or \<^verbatim>\<open>disable\<close>, as the parser makes it.\<close>

definition status_config :: "string \<Rightarrow> output_status \<Rightarrow> cg_output_config" where
  "status_config name st = empty_output_config\<lparr>oc_output_name := Some name, oc_status := st\<rparr>"

lemma ex_three_parts:
  "s_outs ex_three 32 = Some (ex_out ''DP-3'' 2 [24, 25])" "o_scene_output (ex_out ''DP-3'' 2 [24, 25]) = Some 2"
  "distinct (s_outputs ex_three)" "\<not> wlr_box_empty (o_layout_box (ex_out ''DP-3'' 2 [24, 25]))"
  by (simp_all add: ex_three_def ex_server_def ex_out_def ex_box_def wlr_box_empty_def)


text \<open>
  C19: disabling an output a second time is a memory fault, as long as two other outputs are enabled: the
  scene output that the first command destroyed is destroyed again.
\<close>

theorem disable_twice_faults:
  assumes "output_disable env l p ops s = Some s1" and "s_outs s p = Some out" and "o_scene_output out = Some a"
    and "1 < length (s_outputs s1)" and "s_outs s1 p = Some out1" and "\<not> wlr_box_empty (o_layout_box out1)"
    and "oc_status c = OUTPUT_DISABLE" and "oc_role c = OUTPUT_ROLE_DEFAULT" and "box_x (oc_pos c) = - 1"
  shows "output_apply_config env l2 p c s1 = None"
proof (rule ccontr)
  note d = output_disable_parts [OF assms(1,2)]
  assume "output_apply_config env l2 p c s1 \<noteq> None"
  then obtain s2 where "output_apply_config env l2 p c s1 = Some s2" by blast
  from apply_config_simple [OF this assms(5,8,9,6)]
  obtain s3 s4 where u: "s3 = s1 \<or> upd_out p (\<lambda>o1. o1\<lparr>o_priority := oc_priority c\<rparr>) s1 = Some s3"
    and st: "apply_status env l2 p c (oc_priority c \<noteq> - 1 \<and> o_priority out1 \<noteq> oc_priority c) (angle_scale_ops c) s3 = Some s4"
    by metis
  have "o_scene_output out1 = Some a" using d(3) assms(3,5) by (auto dest: out_core_eqD)
  then obtain out3 where out3: "s_outs s3 p = Some out3" "o_scene_output out3 = Some a"
    using u assms(5) by (auto simp: upd_out_def)
  have dead: "s_scene_outputs s3 a = None" and len: "length (s_outputs s3) = length (s_outputs s1)"
    using d(4) [OF assms(3)] u by (auto simp: upd_out_def)
  have "output_disable env l2 p (angle_scale_ops c) s3 = None"
    using output_clear_dead [OF out3 dead] by (simp add: output_disable_def)
  with st assms(4,7) len show False by (simp add: apply_status_def)
qed

theorem disable_twice_faults_witness:
  "\<exists>s1. output_disable ex_env True 32 [] ex_three = Some s1 \<and>
     output_apply_config ex_env True 32 (status_config ''DP-3'' OUTPUT_DISABLE) s1 = None"
proof -
  let ?c = "status_config ''DP-3'' OUTPUT_DISABLE"
  obtain s1 where s1: "output_disable ex_env True 32 [] ex_three = Some s1" "s_outs s1 32 = Some (ex_out ''DP-3'' 2 [24, 25])"
    "1 < length (s_outputs s1)" using ex_three_disable by auto
  have c: "oc_status ?c = OUTPUT_DISABLE" "oc_role ?c = OUTPUT_ROLE_DEFAULT" "box_x (oc_pos ?c) = - 1"
    by (simp_all add: status_config_def empty_output_config_def)
  from disable_twice_faults [OF s1(1) ex_three_parts(1,2) s1(3,2) ex_three_parts(4) c] s1(1) show ?thesis by blast
qed

section \<open>New outputs\<close>

text \<open>An output that is set up and has no workspaces yet, beside another one.\<close>

definition bare_output :: "out_ptr \<Rightarrow> cg_server \<Rightarrow> bool" where
  "bare_output p s \<longleftrightarrow> (\<exists>out. s_outs s p = Some out \<and> o_workspaces out = None \<and> \<not> o_destroyed out) \<and>
     s_running s \<and> s_nws s \<noteq> 0 \<and> 1 < length (s_outputs s)"

lemma bare_output_core:
  assumes "bare_output p s" and "map_option out_core (s_outs s' p) = map_option out_core (s_outs s p)"
    and "s_running s' = s_running s" "s_nws s' = s_nws s" "s_outputs s' = s_outputs s"
  shows "bare_output p s'"
proof -
  obtain out where "s_outs s p = Some out" "o_workspaces out = None" "\<not> o_destroyed out"
    using assms(1) by (auto simp: bare_output_def)
  moreover from this assms(2) obtain out' where "s_outs s' p = Some out'" "out_core out' = out_core out" by auto
  ultimately show ?thesis using assms out_core_eqD(3,6) [of out' out] by (auto simp: bare_output_def)
qed

lemma bare_output_upd:
  assumes "upd_out p f s = Some s'" and "bare_output p s"
    and "\<And>out. o_workspaces (f out) = o_workspaces out \<and> o_destroyed (f out) = o_destroyed out"
  shows "bare_output p s'"
proof -
  obtain out where "s_outs s p = Some out" "o_workspaces out = None" "\<not> o_destroyed out"
    using assms(2) by (auto simp: bare_output_def)
  with assms(1,2) assms(3) [of out] show ?thesis by (auto simp: upd_out_def bare_output_def)
qed

lemma bare_output_frame:
  assumes "frame_sig s' = frame_sig s" and "bare_output p s"
  shows "bare_output p s'"
  by (rule bare_output_core [OF assms(2)]) (simp_all add: frame_sigD [OF assms(1)])

lemma bare_output_layout [simp]: "bare_output p (s\<lparr>s_layout := L\<rparr>) = bare_output p s"
  "bare_output p (emit c s) = bare_output p s"
  by (simp_all add: bare_output_def)

lemma bare_output_commit:
  assumes "output_commit env l p' ops s = Some s'" and "bare_output p s"
  shows "bare_output p s'"
  by (rule bare_output_core [OF assms(2)]) (simp_all add: output_commit_parts [OF assms(1)])

lemma output_clear_bare:
  assumes "bare_output p s"
  shows "output_clear p s = None"
proof (rule ccontr)
  assume "output_clear p s \<noteq> None"
  then obtain s' where s': "output_clear p s = Some s'" by blast
  obtain out where out: "s_outs s p = Some out" using assms by (auto simp: bare_output_def)
  obtain s1 where s1: "scene_output_destroy (o_scene_output out) s = Some s1"
    using s' out by (auto simp: output_clear_def bind_eq_Some)
  obtain s2 where s2: "frame_sig s2 = frame_sig s1"
    and w: "(let s = emit (Message_clear p) (output_unlink p s2)
             in if s_running s then ofold (clear_workspace p) [0..<unat (s_nws s)] s else Some s) = Some s'"
    using s' out s1 by (auto simp: output_clear_def bind_eq_Some split: if_splits dest!: frame)
  have "bare_output p s1" using s1 assms
    by (auto simp: scene_output_destroy_def bind_eq_Some bare_output_def split: option.splits)
  with s2 have b2: "bare_output p s2" by (rule bare_output_frame)
  let ?t = "emit (Message_clear p) (output_unlink p s2)"
  have "s_outs ?t = s_outs s2" "s_running ?t" "s_nws ?t = s_nws s2"
    using b2 by (simp_all add: output_unlink_def bare_output_def)
  moreover from this(1) b2 have "clear_workspace p 0 ?t = None"
    by (auto simp: clear_workspace_def bare_output_def ws_at_def)
  moreover have "[0..<unat (s_nws s2)] = 0 # [1..<unat (s_nws s2)]"
    using b2 by (simp add: bare_output_def unat_gt_0 upt_conv_Cons)
  ultimately show False using w by (simp add: Let_def)
qed

lemma output_disable_bare: "bare_output p s \<Longrightarrow> output_disable env l p ops s = None"
  by (simp add: output_disable_def output_clear_bare)

lemma try_modes_bare:
  assumes "try_modes env l p w best ms ops s = Some (ops', s')" and "bare_output p s"
  shows "bare_output p s'"
  using assms
proof (induction ms arbitrary: ops s)
  case (Cons m ms)
  obtain i where i: "m = (i, snd m)" by (cases m) simp
  show ?case
  proof (cases "i = best")
    case True
    with Cons i show ?thesis by (metis try_modes.simps(2))
  next
    case False
    with Cons.prems(1) i obtain s1 where s1: "output_commit env l p (ops @ [Op_mode i]) s = Some s1"
      and r: "(if we_test env w (ops @ [Op_mode i]) then Some (ops @ [Op_mode i], s1)
               else try_modes env l p w best ms (ops @ [Op_mode i]) s1) = Some (ops', s')"
      by (cases m) (auto simp: bind_eq_Some Let_def)
    have "bare_output p s1" using bare_output_commit [OF s1 Cons.prems(2)] .
    with r Cons.IH show ?thesis by (auto split: if_splits)
  qed
qed simp

lemma set_mode_bare:
  assumes "output_set_mode env l p ops w h r s = Some (i, ops', s')" and "bare_output p s"
  shows "bare_output p s'"
  using assms by (auto simp: output_set_mode_def bind_eq_Some Let_def split: if_splits option.splits
      dest: bare_output_commit try_modes_bare)

lemma layout_position_bare:
  assumes "layout_position env l p c b ops s = Some (failed, ops', s')" and "bare_output p s"
  shows "\<not> failed \<and> bare_output p s'"
proof -
  obtain i ops1 s1 where m: "output_set_mode env l p ops (box_width (oc_pos c)) (box_height (oc_pos c)) (oc_refresh_rate c) s = Some (i, ops1, s1)"
    using assms(1) by (auto simp: layout_position_def bind_eq_Some Let_def)
  note b1 = set_mode_bare [OF m assms(2)]
  have i: "i = 0" using assms(1) m output_disable_bare [OF b1] by (cases "i = 0") (simp_all add: layout_position_def Let_def)
  obtain out where out: "s_outs s1 p = Some out" using b1 by (auto simp: bare_output_def)
  obtain s2 where s2: "(if wlr_box_empty (o_layout_box out)
        then scene_layout_add env p (o_wlr_output out) (box_x (oc_pos c)) (box_y (oc_pos c)) s1
        else scene_position p (box_x (oc_pos c)) (box_y (oc_pos c)) s1) = Some s2"
    and r: "relayout p b s2 = Some s'" and f: "\<not> failed"
    using assms(1) m i out by (auto simp: layout_position_def bind_eq_Some Let_def)
  have b2: "bare_output p s2"
    using s2 b1 by (auto simp: scene_layout_add_def scene_position_def bind_eq_Some Let_def split: if_splits)
  have "relayout p b s2 = Some s2" using b2 by (auto simp: relayout_def bare_output_def)
  with r b2 f show ?thesis by simp
qed

lemma layout_auto_bare:
  assumes "layout_auto env p ops s = Some (ops', s')" and "bare_output p s"
  shows "bare_output p s'"
  using assms by (auto simp: layout_auto_def bind_eq_Some Let_def scene_layout_add_def dest!: bare_output_upd)

lemma apply_config_bare:
  assumes "bare_output p s" and "oc_status c = OUTPUT_DISABLE"
  shows "output_apply_config env l p c s = None"
proof (rule ccontr)
  assume "output_apply_config env l p c s \<noteq> None"
  then obtain out g s1 where out: "s_outs s p = Some out" and r: "apply_role env p c s = Some (g, s1)"
    by (auto simp: output_apply_config_def bind_eq_Some)
  have b1: "bare_output p s1" and g: "\<not> g"
    using r assms(1) by (auto simp: apply_role_def bind_eq_Some upd_out_def bare_output_def split: if_splits)
  obtain s2 where s2: "(if oc_priority c \<noteq> - 1 then upd_out p (\<lambda>o1. o1\<lparr>o_priority := oc_priority c\<rparr>) s1 else Some s1) = Some s2"
    using b1 by (cases "oc_priority c = - 1") (auto simp: upd_out_def bare_output_def)
  have b2: "bare_output p s2" using s2 b1 by (auto split: if_splits elim!: bare_output_upd)
  have "\<not> failed \<and> bare_output p s3" if e: "(if box_x (oc_pos c) \<noteq> - 1 then layout_position env l p c (o_layout_box out) (angle_scale_ops c) s2
          else if wlr_box_empty (o_layout_box out)
          then map_option (\<lambda>(ops, s). (False, ops, s)) (layout_auto env p (angle_scale_ops c) s2)
          else Some (False, angle_scale_ops c, s2)) = Some (failed, ops, s3)" for failed ops s3
  proof (cases "box_x (oc_pos c) = - 1")
    case False
    with e have "layout_position env l p c (o_layout_box out) (angle_scale_ops c) s2 = Some (failed, ops, s3)" by simp
    from layout_position_bare [OF this b2] show ?thesis .
  next
    case True
    show ?thesis
    proof (cases "wlr_box_empty (o_layout_box out)")
      case empty: True
      with e True have "layout_auto env p (angle_scale_ops c) s2 = Some (ops, s3)" "\<not> failed" by auto
      with layout_auto_bare [OF _ b2] show ?thesis by blast
    qed (use e True b2 in auto)
  qed
  note step = this
  let ?pc = "oc_priority c \<noteq> - 1 \<and> o_priority out \<noteq> oc_priority c"
  obtain failed ops s3 where e: "(if box_x (oc_pos c) \<noteq> - 1 then layout_position env l p c (o_layout_box out) (angle_scale_ops c) s2
          else if wlr_box_empty (o_layout_box out)
          then map_option (\<lambda>(ops, s). (False, ops, s)) (layout_auto env p (angle_scale_ops c) s2)
          else Some (False, angle_scale_ops c, s2)) = Some (failed, ops, s3)"
    and n: "failed \<or> apply_status env l p c ?pc ops s3 \<noteq> None"
    using \<open>output_apply_config env l p c s \<noteq> None\<close> out r g s2
    by (auto simp: output_apply_config_def Let_def bind_eq_Some split: if_splits)
  from step [OF e] have "\<not> failed" and b3: "bare_output p s3" by auto
  moreover have "apply_status env l p c ?pc ops s3 = None"
    using b3 assms(2) output_disable_bare [OF b3] by (simp add: apply_status_def bare_output_def)
  ultimately show False using n by blast
qed

text \<open>
  C20: connecting an output that the configuration disables, while another output is there, is a memory
  fault: the configuration is applied before the output has workspaces, and clearing the output goes
  through its workspaces.
\<close>

theorem hotplug_disabled_output_faults:
  assumes "we_init_render env w" and "find_destroyed name (s_outputs s) s = Some None"
    and "s_running s" and "s_nws s \<noteq> 0" and "s_outputs s \<noteq> []"
    and "oc_status (output_total_config cfgs name) = OUTPUT_DISABLE"
  shows "handle_new_output env r cfgs prios p w name s = None"
proof -
  have "first_connection env cfgs prios p w name s = None"
  proof (rule ccontr)
    assume "first_connection env cfgs prios p w name s \<noteq> None"
    moreover obtain so s1 where s1: "scene_output_create w s = (so, s1)" by (cases "scene_output_create w s")
    moreover define out where "out = new_output w name (stored_priority prios name) so"
    ultimately obtain s2 s3 s4 where s2: "output_commit env False p [Op_transform 0, Op_enabled True] (s1\<lparr>s_outs := (s_outs s1)(p \<mapsto> out)\<rparr>) = Some s2"
      and s3: "output_insert p s2 = Some s3" and s4: "output_configure env False cfgs p s3 = Some s4"
      by (auto simp: first_connection_def bind_eq_Some Let_def)
    have out: "o_name out = name" "o_workspaces out = None" "\<not> o_destroyed out" by (simp_all add: out_def new_output_def)
    note c = output_commit_parts [OF s2]
    obtain out2 where out2: "s_outs s2 p = Some out2" "out_core out2 = out_core out" using c(4) [of p] by auto
    have l: "s_outputs s2 = s_outputs s" "s_running s2" "s_nws s2 \<noteq> 0"
      using c s1 assms(3,4) by (auto simp: scene_output_create_def)
    obtain ps where ps: "insert_by_priority (o_priority out2) p (s_outputs s2) s2 = Some ps" "s3 = s2\<lparr>s_outputs := ps\<rparr>"
      using s3 out2 by (auto simp: output_insert_def bind_eq_Some)
    have "length ps = Suc (length (s_outputs s2))"
      using insert_by_priority_length [OF ps(1)] .
    then have "bare_output p s3" using ps(2) l out2 out assms(5) out_core_eqD(3,6) [OF out2(2)]
      by (cases "s_outputs s") (simp_all add: bare_output_def)
    from apply_config_bare [OF this assms(6)] have "output_configure env False cfgs p s3 = None"
      using ps(2) out2 out out_core_eqD(1) [OF out2(2)] by (simp add: output_configure_def)
    with s4 show False by simp
  qed
  with assms(1,2) show ?thesis by (simp add: handle_new_output_def)
qed

theorem hotplug_disabled_output_faults_witness:
  "handle_new_output ex_env True [status_config ''DP-3'' OUTPUT_DISABLE] [] 32 2 ''DP-3'' ex_server = None"
proof -
  have "find_destroyed ''DP-3'' (s_outputs ex_server) ex_server = Some None"
    by (simp add: ex_server_def ex_out_def)
  moreover have "oc_status (output_total_config [status_config ''DP-3'' OUTPUT_DISABLE] ''DP-3'') = OUTPUT_DISABLE"
    by (simp add: output_total_config_def status_config_def merge_output_configs_def empty_output_config_def Let_def)
  ultimately show ?thesis
    using hotplug_disabled_output_faults [of ex_env 2 "''DP-3''" ex_server]
    by (simp add: ex_env_def ex_server_def)
qed

section \<open>Permanent outputs\<close>

text \<open>What the user sees of an output, and of everything else.\<close>

definition content :: "out_ptr \<Rightarrow> cg_server \<Rightarrow> (tile_ptr \<rightharpoonup> cg_tile) \<times> (view_ptr \<rightharpoonup> cg_view) \<times> (ws_ptr \<rightharpoonup> cg_workspace) \<times>
    out_ptr list \<times> out_ptr option \<times> cg_seat \<times> bool \<times> (string \<times> ws_ptr list option \<times> int \<times> output_role \<times> wlr_box) option" where
  "content p s = (s_tiles s, s_views s, s_workspaces s, s_outputs s, s_curr_output s, s_seat s, s_running s,
     map_option (\<lambda>out. (o_name out, o_workspaces out, o_curr_workspace out, o_role out, o_layout_box out)) (s_outs s p))"

lemma content_updates [simp]:
  "content p (emit c s) = content p s" "content p (s\<lparr>s_layout := L\<rparr>) = content p s"
  "content p (s\<lparr>s_scene_outputs := S\<rparr>) = content p s" "content p (ipc_send_event e args s) = content p s"
  by (simp_all add: content_def ipc_send_event_def)

lemma content_upd_out:
  assumes "upd_out p f s = Some s'"
    and "\<And>out. (o_name (f out), o_workspaces (f out), o_curr_workspace (f out), o_role (f out), o_layout_box (f out)) =
           (o_name out, o_workspaces out, o_curr_workspace out, o_role out, o_layout_box out)"
  shows "content p s' = content p s"
  using assms(1) assms(2) [of "the (s_outs s p)"] by (auto simp: upd_out_def content_def)

lemma content_out:
  assumes "content p s' = content p s" and "s_outs s p = Some out"
  obtains out' where "s_outs s' p = Some out'" "o_name out' = o_name out" "o_workspaces out' = o_workspaces out"
    "o_curr_workspace out' = o_curr_workspace out" "o_role out' = o_role out" "o_layout_box out' = o_layout_box out"
  using assms by (auto simp: content_def)

lemma content_scene:
  "scene_output_destroy so s = Some s' \<Longrightarrow> content p s' = content p s"
  "scene_output_create w s = (a, s') \<Longrightarrow> content p s' = content p s"
  "scene_layout_add env q w x y s = Some s' \<Longrightarrow> content p s' = content p s"
  "scene_position q x y s = Some s' \<Longrightarrow> content p s' = content p s"
  by (auto simp: scene_output_destroy_def scene_output_create_def scene_layout_add_def scene_position_def
      bind_eq_Some Let_def content_def split: option.splits)

lemma content_commit:
  assumes "output_commit env False q ops s = Some s'"
  shows "content p s' = content p s"
proof -
  obtain out where "s_outs s q = Some out" using assms by (auto simp: output_commit_def bind_eq_Some)
  with assms show ?thesis
    by (cases "we_commit env (o_wlr_output out) ops")
      (simp_all add: output_commit_def Let_def, (drule sym, simp)+)
qed

lemma content_keep:
  assumes "output_keep env p s = Some s'"
  shows "content p s' = content p s"
proof -
  obtain so s1 where s1: "scene_output_create (we_headless env) s = (so, s1)" by (cases "scene_output_create (we_headless env) s")
  with assms obtain s2 where "upd_out p (\<lambda>out. out\<lparr>o_wlr_output := we_headless env, o_scene_output := Some so\<rparr>) s1 = Some s2"
    and "content p s' = content p s2"
    by (auto simp: output_keep_def bind_eq_Some Let_def split: if_splits)
  then show ?thesis using content_upd_out [of p _ s1 s2] content_scene(2) [OF s1] by simp
qed

lemma content_unplug:
  assumes "output_destroy env p s = Some s'" and "s_outs s p = Some out" and "o_role out = OUTPUT_ROLE_PERMANENT"
    and "s_running s"
  shows "content p s' = content p s"
proof -
  obtain s1 where s1: "(if \<not> o_destroyed out
           then do {
             s \<leftarrow> scene_output_destroy (o_scene_output out) s;
             upd_out p (\<lambda>out. out\<lparr>o_scene_output := None\<rparr>) s
           }
           else Some s) = Some s1"
    using assms(1,2) unfolding output_destroy_def by (auto simp only: bind_eq_Some option.inject)
  obtain s2 where s2: "upd_out p (\<lambda>out. out\<lparr>o_destroyed := True\<rparr>) s1 = Some s2"
    using assms(1,2) s1 unfolding output_destroy_def by (auto simp only: bind_eq_Some option.inject)
  obtain s3 where s3: "(if s_running s2 then output_keep env p s2 else output_free p s2) = Some s3"
    and s': "content p s' = content p s3"
  proof -
    obtain num where n: "output_get_num p s = Some num"
      using assms(1,2) unfolding output_destroy_def by (auto simp only: bind_eq_Some option.inject)
    have r: "(o_role out = OUTPUT_ROLE_PERMANENT \<and> s_running s2) = s_running s2" using assms(3) by simp
    from assms(1) obtain s3 where s3: "(if s_running s2 then output_keep env p s2 else output_free p s2) = Some s3"
      unfolding output_destroy_def assms(2) bind.bind_lunit n s1 s2 r by (auto simp only: bind_eq_Some)
    moreover have "content p s' = content p s3"
      using assms(1) unfolding output_destroy_def assms(2) bind.bind_lunit n s1 s2 r s3 Let_def option.inject
      by (drule_tac sym) simp
    ultimately show thesis using that by blast
  qed
  have c1: "content p s1 = content p s"
    using s1 content_upd_out [of p "\<lambda>out. out\<lparr>o_scene_output := None\<rparr>"]
    by (auto simp: bind_eq_Some content_scene split: if_splits)
  have c2: "content p s2 = content p s1" using content_upd_out [OF s2] by simp
  then have "s_running s2" using c1 assms(4) by (simp add: content_def)
  with s3 content_keep s' c1 c2 show ?thesis by simp
qed

lemma content_background: "output_background p s = Some s' \<Longrightarrow> content p s' = content p s"
  by (elim output_background_effect) (simp add: content_def)

text \<open>The output behind the pointer, and that it is plugged in.\<close>

definition plugged :: "out_ptr \<Rightarrow> nat \<Rightarrow> cg_server \<Rightarrow> bool" where
  "plugged p w s \<longleftrightarrow> (\<exists>out. s_outs s p = Some out \<and> o_wlr_output out = w \<and> \<not> o_destroyed out)"

lemma plugged_commit:
  assumes c: "output_commit env l q ops s = Some s'" and "plugged p w s"
  shows "plugged p w s'"
proof -
  obtain out where out: "s_outs s p = Some out" "o_wlr_output out = w" "\<not> o_destroyed out"
    using assms(2) by (auto simp: plugged_def)
  then obtain out' where out': "s_outs s' p = Some out'" "out_core out' = out_core out"
    using output_commit_parts(4) [OF c, of p] by auto
  with out out_core_eqD(2,6) [OF out'(2)] show ?thesis by (simp add: plugged_def)
qed

lemma content_replug:
  assumes "reconnection env [] p w s = Some s'" and "s_outs s p = Some out" and "\<not> wlr_box_empty (o_layout_box out)"
  shows "content p s' = content p s" and "plugged p w s'"
proof -
  let ?b = "o_layout_box out" and ?old = "o_wlr_output out"
  let ?s0 = "emit (Output_call (Layout_remove ?old)) (s\<lparr>s_layout := (s_layout s)(?old := zero_box)\<rparr>)"
  obtain s1 where s1: "scene_output_destroy (o_scene_output out) ?s0 = Some s1"
    using assms(1,2) by (auto simp: reconnection_def bind_eq_Some Let_def)
  obtain so s2 where s2: "scene_output_create w s1 = (so, s2)" by (cases "scene_output_create w s1")
  let ?f = "\<lambda>o1. o1\<lparr>o_wlr_output := w, o_destroyed := False, o_scene_output := Some so\<rparr>"
  obtain s3 s4 s5 s6 ops where s3: "upd_out p ?f s2 = Some s3"
    and s4: "scene_layout_add env p w (box_x ?b) (box_y ?b) s3 = Some s4"
    and s5: "scene_position p (box_x ?b) (box_y ?b) s4 = Some s5"
    and s6: "output_commit env False p ops s5 = Some s6"
    and conf: "output_configure env False [] p s6 = Some s'"
    using assms(1,2) s1 s2 by (auto simp: reconnection_def bind_eq_Some Let_def)
  have c6: "content p s6 = content p s"
    using content_scene(1) [OF s1, of p] content_scene(2) [OF s2, of p] content_upd_out [OF s3]
      content_scene(3) [OF s4, of p] content_scene(4) [OF s5, of p] content_commit [OF s6, of p] by simp
  obtain out6 where out6: "s_outs s6 p = Some out6" "o_layout_box out6 = ?b" using content_out [OF c6 assms(2)] by metis
  have "plugged p w s3" using s3 by (auto simp: upd_out_def plugged_def)
  moreover have "s_outs s5 = s_outs s3"
    using s4 s5 by (auto simp: scene_layout_add_def scene_position_def bind_eq_Some Let_def)
  ultimately have p6: "plugged p w s6" using plugged_commit [OF s6] by (simp add: plugged_def)
  have e: "oc_role empty_output_config = OUTPUT_ROLE_DEFAULT" "box_x (oc_pos empty_output_config) = - 1"
    "oc_priority empty_output_config = - 1" "oc_status empty_output_config = OUTPUT_DEFAULT"
    by (simp_all add: empty_output_config_def)
  have "output_apply_config env False p empty_output_config s6 = Some s'"
    using conf out6 by (simp add: output_configure_def output_total_config_def)
  then obtain s8 where st: "output_commit env False p (angle_scale_ops empty_output_config @ [Op_enabled True]) s6 = Some s8"
    and bg: "output_background p s8 = Some s'"
    using out6 assms(3) e by (auto simp: output_apply_config_def apply_role_def apply_status_def bind_eq_Some)
  show "content p s' = content p s"
    using content_background [OF bg] content_commit [OF st, of p] c6 by simp
  show "plugged p w s'"
    using plugged_commit [OF st p6] bg by (auto simp: plugged_def elim!: output_background_effect)
qed


definition ex_permanent :: cg_server where
  "ex_permanent = ex_server\<lparr>s_outs := (s_outs ex_server)(31 \<mapsto> (ex_out ''HDMI-1'' 1 [22, 23])\<lparr>o_role := OUTPUT_ROLE_PERMANENT\<rparr>)\<rparr>"

lemma ex_unplug:
  "\<exists>s1. output_destroy ex_env 31 ex_permanent = Some s1 \<and> find_destroyed ''HDMI-1'' (s_outputs s1) s1 = Some (Some 31) \<and>
  s_outs s1 31 = Some ((ex_out ''HDMI-1'' 9 [22, 23])\<lparr>o_role := OUTPUT_ROLE_PERMANENT, o_destroyed := True, o_scene_output := Some 2\<rparr>) \<and>
  s_scene_outputs s1 2 = Some 9 \<and> s_outs s1 30 = s_outs ex_server 30 \<and> s_outputs s1 = [30, 31]"
  by (simp add: output_destroy_def ex_permanent_def ex_server_def output_get_num_def scene_output_destroy_def upd_out_def
   output_keep_def scene_output_create_def ex_env_def ex_out_def ipc_send_event_def emit_def Let_def)

lemma ex_replug:
  assumes "find_destroyed ''HDMI-1'' (s_outputs s1) s1 = Some (Some 31)"
  "s_outs s1 31 = Some ((ex_out ''HDMI-1'' 9 [22, 23])\<lparr>o_role := OUTPUT_ROLE_PERMANENT, o_destroyed := True, o_scene_output := Some 2\<rparr>)"
  "s_scene_outputs s1 2 = Some 9"  "s_outs s1 30 = s_outs ex_server 30" "s_outputs s1 = [30, 31]"
  shows "\<exists>s2. handle_new_output ex_env True [] [] 32 5 ''HDMI-1'' s1 = Some s2"
proof -
  have a: "angle_scale_ops empty_output_config = []" by (simp add: angle_scale_ops_def empty_output_config_def f32_eval)
  have e: "oc_role empty_output_config = OUTPUT_ROLE_DEFAULT" "box_x (oc_pos empty_output_config) = - 1"
    "oc_priority empty_output_config = - 1" "oc_status empty_output_config = OUTPUT_DEFAULT"
    by (simp_all add: empty_output_config_def)
  have "\<exists>s2. reconnection ex_env [] 31 5 s1 = Some s2 \<and> s_outputs s2 = [30, 31] \<and> s_outs s2 30 = s_outs ex_server 30 \<and> s_outs s2 31 \<noteq> None"
    using assms(2-) a e by (simp add: reconnection_def scene_output_destroy_def scene_output_create_def upd_out_def scene_layout_add_def
       scene_position_def live_scene_output_def output_commit_def output_configure_def output_apply_config_def apply_role_def
       apply_status_def output_total_config_def ex_env_def ex_out_def ex_box_def wlr_box_empty_def output_background_def Let_def)
  then obtain s2 where s2: "reconnection ex_env [] 31 5 s1 = Some s2" "s_outputs s2 = [30, 31]" "s_outs s2 30 = s_outs ex_server 30"
    "s_outs s2 31 \<noteq> None" by blast
  then obtain o2 where o2: "s_outs s2 31 = Some o2" by blast
  have "\<exists>n. output_get_num 31 s2 = Some n" using s2 o2 by (simp add: output_get_num_def ex_server_def)
  then obtain n where "output_get_num 31 s2 = Some n" ..
  then have "output_get_num 31 (emit c (emit d s2)) = Some n" for c d
    using s2 o2 by (auto simp: output_get_num_def ex_server_def)
  then show ?thesis using s2(1) o2 assms(1) by (simp add: handle_new_output_def ex_env_def)
qed


end
