(* ===== verification/Compositor.thy ===== *)
theory Compositor
  imports Output_Config Keybindings Input_Config Resize
begin

text \<open>
  The whole of \<^verbatim>\<open>struct cg_server\<close>: the window management state together with the table of key
  bindings and its memory, the modes, the colours, the message settings, the lists of
  configurations, the input devices and the keyboard groups; and the commands that act on these
  parts (\<^verbatim>\<open>keybinding.c\<close>).
\<close>

section \<open>The state\<close>

datatype input_device_type =
    WLR_INPUT_DEVICE_KEYBOARD | WLR_INPUT_DEVICE_POINTER | WLR_INPUT_DEVICE_TOUCH
  | WLR_INPUT_DEVICE_TABLET | WLR_INPUT_DEVICE_TABLET_PAD | WLR_INPUT_DEVICE_SWITCH

text \<open>
  An input device; \<open>dv_libinput\<close> is its libinput handle, when it has one, and the last two
  fields tell whether \<^verbatim>\<open>pointer\<close> and \<^verbatim>\<open>touch\<close> are set.
\<close>

record cg_input_device =
  dv_identifier :: string
  dv_wlr_device :: nat
  dv_is_virtual :: bool
  dv_type :: input_device_type
  dv_libinput :: "libinput_device option"
  dv_pointer :: bool
  dv_touch :: bool

text \<open>
  A keyboard group: the settings of \<open>keyboard_group\<close>, the group of wlroots with its keymap and
  keyboards, and \<^verbatim>\<open>repeat_keybinding\<close>, which points to a slot of the array of key bindings: the
  address of the array and the index.
\<close>

record cg_keyboard_group =
  gr_wlr_group :: nat
  gr_settings :: keyboard_group
  gr_keymap :: nat
  gr_keyboards :: "nat list"
  gr_repeat :: "(nat \<times> nat) option"

text \<open>
  \<open>c_array\<close> is the address of the array of key bindings, \<open>c_kb_brk\<close> the next free address for a
  binding and for an array. The arrays of the modes are \<open>None\<close> when \<^verbatim>\<open>server->modes\<close> or
  \<^verbatim>\<open>server->modecursors\<close> points to freed memory; \<open>c_modecursors\<close> has one entry more than there
  are modes, for the terminating NULL. \<open>c_seat_keyboard\<close> is the keyboard that wlroots has for the
  seat, a device or a group.
\<close>

record compositor =
  c_srv :: cg_server
  c_keybindings :: keybinding_list
  c_kb_heap :: kb_heap
  c_array :: nat
  c_kb_brk :: nat
  c_modes :: "string list option"
  c_modecursors :: "string option list option"
  c_bg_color :: "f32 list"
  c_message_config :: cg_message_config
  c_output_config :: "cg_output_config list"
  c_input_config :: "cg_input_config list"
  c_groups :: "cg_keyboard_group list"
  c_seat_keyboard :: "nat option"
  c_devices :: "cg_input_device list"

text \<open>
  What the surroundings decide: wlroots, memory allocation, the backend, the clock, the titles that
  clients give to their views, and what the outputs report.
\<close>

record cg_env =
  ce_wlr :: wlr_env
  ce_listening :: bool
  ce_realloc_ok :: bool
  ce_realloc_moves :: bool
  ce_realloc_modes :: bool
  ce_realloc_cursors :: bool
  ce_renderer :: bool
  ce_multi :: bool
  ce_session :: bool
  ce_ctime :: string
  ce_clients :: bool
  ce_bs :: bool
  ce_title :: "view_ptr \<Rightarrow> string option"
  ce_output_size :: "nat \<Rightarrow> int \<times> int"
  ce_refresh :: "nat \<Rightarrow> int"

definition on_srv :: "(cg_server \<Rightarrow> cg_server option) \<Rightarrow> compositor \<Rightarrow> compositor option" where
  "on_srv f c = map_option (\<lambda>s. c\<lparr>c_srv := s\<rparr>) (f (c_srv c))"

definition emit_srv :: "lib_call \<Rightarrow> compositor \<Rightarrow> compositor" where
  "emit_srv call c = c\<lparr>c_srv := emit call (c_srv c)\<rparr>"

definition event :: "string \<Rightarrow> (string \<times> ipc_val) list \<Rightarrow> compositor \<Rightarrow> compositor" where
  "event name args c = c\<lparr>c_srv := ipc_send_event name args (c_srv c)\<rparr>"

section \<open>Modes\<close>

definition get_mode_name :: "string list \<Rightarrow> nat \<Rightarrow> string" where
  "get_mode_name modes mode_nr = (if mode_nr < length modes then modes ! mode_nr else ''NULL'')"

text \<open>
  When one of the two reallocations fails the other array is freed as well, although \<^verbatim>\<open>server\<close>
  still points to where it was.
\<close>

definition keybinding_definemode :: "cg_env \<Rightarrow> string \<Rightarrow> compositor \<Rightarrow> compositor option" where
  "keybinding_definemode env mode c = do {
     modes \<leftarrow> c_modes c;
     cursors \<leftarrow> c_modecursors c;
     if \<not> ce_realloc_modes env \<or> \<not> ce_realloc_cursors env
     then Some (c\<lparr>c_modes := (if ce_realloc_modes env then None else Some modes),
                  c_modecursors := (if ce_realloc_cursors env then None else Some cursors)\<rparr>)
     else Some (event ''definemode'' [(''mode'', IStr mode)]
                  (c\<lparr>c_modes := Some (modes @ [mode]), c_modecursors := Some (cursors @ [None])\<rparr>))
   }"

text \<open>\<^verbatim>\<open>setmodecursor\<close>: every mode of this name gets the cursor.\<close>

definition set_mode_cursor :: "string \<Rightarrow> string \<Rightarrow> compositor \<Rightarrow> compositor option" where
  "set_mode_cursor mode cursor c = do {
     modes \<leftarrow> c_modes c;
     cursors \<leftarrow> c_modecursors c;
     Some (c\<lparr>c_modecursors :=
       Some (map2 (\<lambda>m cur. if m = Some mode then Some cursor else cur) (map Some modes @ [None]) cursors)\<rparr>)
   }"

definition set_cursor :: "cg_env \<Rightarrow> bool \<Rightarrow> compositor \<Rightarrow> compositor" where
  "set_cursor env enabled c =
     (let c = c\<lparr>c_srv := upd_seat (\<lambda>se. se\<lparr>se_enable_cursor := enabled\<rparr>) (c_srv c)\<rparr>
      in if \<not> ce_renderer env then c
         else emit_srv (Seat_call (if enabled then Cursor_set_xcursor ''left_ptr'' else Cursor_unset_image)) c)"

text \<open>
  \<^verbatim>\<open>mode\<close>: the cursor of the new mode is shown when there is a pointer; a mode without a cursor of
  its own leaves the image as it is.
\<close>

definition switch_mode :: "cg_env \<Rightarrow> u32 \<Rightarrow> compositor \<Rightarrow> compositor option" where
  "switch_mode env u c = do {
     modes \<leftarrow> c_modes c;
     let se = s_seat (c_srv c);
     c \<leftarrow> (if u \<noteq> ucast (se_default_mode se) \<and> unat u < length modes \<and> 0 < se_num_pointers se
           then do {
             let c = emit_srv Pointer_clear_focus c;
             if \<not> se_enable_cursor se then Some c
             else do {
               cursors \<leftarrow> c_modecursors c;
               if unat u < length cursors
               then Some (case cursors ! unat u of
                            Some cur \<Rightarrow> if ce_renderer env then emit_srv (Seat_call (Cursor_set_xcursor cur)) c else c
                          | None \<Rightarrow> c)
               else None
             }
           }
           else Some c);
     Some (c\<lparr>c_srv := upd_seat (\<lambda>se. se\<lparr>se_mode := ucast u\<rparr>) (c_srv c)\<rparr>)
   }"

definition switch_default_mode :: "cg_env \<Rightarrow> u32 \<Rightarrow> compositor \<Rightarrow> compositor option" where
  "switch_default_mode env u c = do {
     modes \<leftarrow> c_modes c;
     let se = s_seat (c_srv c);
     let c = event ''switch_default_mode''
               [(''old_mode'', IStr (get_mode_name modes (unat (se_default_mode se)))),
                (''mode'', IStr (get_mode_name modes (unat u)))] c;
     c \<leftarrow> (if u \<noteq> ucast (se_default_mode se) \<and> unat u < length modes
           then do {
             let c = emit_srv Pointer_clear_focus c;
             if \<not> (se_enable_cursor se \<and> 0 < se_num_pointers se \<and> ce_renderer env) then Some c
             else do {
               cursors \<leftarrow> c_modecursors c;
               if unat u < length cursors
               then Some (emit_srv (Seat_call (Cursor_set_xcursor
                            (case cursors ! unat u of Some cur \<Rightarrow> cur | None \<Rightarrow> ''left_ptr''))) c)
               else None
             }
           }
           else Some c);
     Some (c\<lparr>c_srv := upd_seat (\<lambda>se. se\<lparr>se_mode := ucast u, se_default_mode := ucast u\<rparr>) (c_srv c)\<rparr>)
   }"

section \<open>Key bindings\<close>

text \<open>
  A parsed binding in memory: its own cell first, then the one it defines. \<open>kb_params\<close> is what a
  cell keeps besides the pointer \<^verbatim>\<open>data.kb\<close>.
\<close>

fun kb_params :: "keybinding_params \<Rightarrow> keybinding_params" where
  "kb_params (Data_kb kb) = Data_none"
| "kb_params d = d"

primrec alloc_kb :: "keybinding \<Rightarrow> nat \<times> kb_heap \<Rightarrow> nat \<times> kb_heap"
  and alloc_params ::
    "keybinding_params \<Rightarrow> nat \<times> kb_heap \<Rightarrow> (kb_ptr option) \<times> nat \<times> kb_heap" where
  "alloc_kb (Keybinding mode modifiers key act data) m =
     (let (q, brk, h) = alloc_params data (Suc (fst m), snd m)
      in (brk, h(fst m \<mapsto> \<lparr>kc_mode = mode, kc_modifiers = modifiers, kc_key = key, kc_action = act,
                          kc_data = kb_params data, kc_kb = q\<rparr>)))"
| "alloc_params Data_none m = (None, m)"
| "alloc_params (Data_c s) m = (None, m)"
| "alloc_params (Data_cs s t) m = (None, m)"
| "alloc_params (Data_u u) m = (None, m)"
| "alloc_params (Data_is u v) m = (None, m)"
| "alloc_params (Data_us u v w) m = (None, m)"
| "alloc_params (Data_i i) m = (None, m)"
| "alloc_params (Data_b b) m = (None, m)"
| "alloc_params (Data_f f) m = (None, m)"
| "alloc_params (Data_color r g b) m = (None, m)"
| "alloc_params (Data_kb kb) m = (Some (fst m), alloc_kb kb m)"
| "alloc_params (Data_o_cfg oc) m = (None, m)"
| "alloc_params (Data_i_cfg ic) m = (None, m)"
| "alloc_params (Data_m_cfg mc) m = (None, m)"

fun keybinding_action_string :: "keybinding_action \<Rightarrow> string" where
  "keybinding_action_string KEYBINDING_RUN_COMMAND = ''exec''"
| "keybinding_action_string KEYBINDING_CLOSE_VIEW = ''close''"
| "keybinding_action_string KEYBINDING_SPLIT_VERTICAL = ''vsplit''"
| "keybinding_action_string KEYBINDING_SPLIT_HORIZONTAL = ''hsplit''"
| "keybinding_action_string KEYBINDING_CHANGE_TTY = ''switchvt''"
| "keybinding_action_string KEYBINDING_LAYOUT_FULLSCREEN = ''only''"
| "keybinding_action_string KEYBINDING_CYCLE_VIEWS = ''cycle_views''"
| "keybinding_action_string KEYBINDING_CYCLE_TILES = ''cycle_tiles''"
| "keybinding_action_string KEYBINDING_CYCLE_OUTPUT = ''cycle_outputs''"
| "keybinding_action_string KEYBINDING_CONFIGURE_OUTPUT = ''output''"
| "keybinding_action_string KEYBINDING_CONFIGURE_MESSAGE = ''configure_message''"
| "keybinding_action_string KEYBINDING_CONFIGURE_INPUT = ''input''"
| "keybinding_action_string KEYBINDING_QUIT = ''quit''"
| "keybinding_action_string KEYBINDING_NOOP = ''abort''"
| "keybinding_action_string KEYBINDING_SWITCH_OUTPUT = ''screen''"
| "keybinding_action_string KEYBINDING_SWITCH_WORKSPACE = ''workspace''"
| "keybinding_action_string KEYBINDING_SWITCH_MODE = ''mode''"
| "keybinding_action_string KEYBINDING_SWITCH_DEFAULT_MODE = ''setmode''"
| "keybinding_action_string KEYBINDING_RESIZE_TILE_HORIZONTAL = ''resize_tile_horizontal''"
| "keybinding_action_string KEYBINDING_RESIZE_TILE_VERTICAL = ''resize_tile_vertical''"
| "keybinding_action_string KEYBINDING_MOVE_TO_TILE = ''movetoworkspace''"
| "keybinding_action_string KEYBINDING_MOVE_TO_WORKSPACE = ''movetoworkspace''"
| "keybinding_action_string KEYBINDING_MOVE_TO_OUTPUT = ''movetoscreen''"
| "keybinding_action_string KEYBINDING_MOVE_VIEW_TO_TILE = ''movetoworkspace''"
| "keybinding_action_string KEYBINDING_MOVE_VIEW_TO_WORKSPACE = ''movetoworkspace''"
| "keybinding_action_string KEYBINDING_MOVE_VIEW_TO_OUTPUT = ''movetoscreen''"
| "keybinding_action_string KEYBINDING_MOVE_VIEW_TO_CYCLE_OUTPUT = ''move_view_to_cycle_output''"
| "keybinding_action_string KEYBINDING_DUMP = ''dump''"
| "keybinding_action_string KEYBINDING_SHOW_TIME = ''time''"
| "keybinding_action_string KEYBINDING_SHOW_INFO = ''show_info''"
| "keybinding_action_string KEYBINDING_DISPLAY_MESSAGE = ''message''"
| "keybinding_action_string KEYBINDING_SEND_CUSTOM_EVENT = ''custom_event''"
| "keybinding_action_string KEYBINDING_CURSOR = ''cursor''"
| "keybinding_action_string KEYBINDING_SWAP_LEFT = ''exchangeleft''"
| "keybinding_action_string KEYBINDING_SWAP_RIGHT = ''exchangeright''"
| "keybinding_action_string KEYBINDING_SWAP_TOP = ''exchangeup''"
| "keybinding_action_string KEYBINDING_SWAP_BOTTOM = ''exchangedown''"
| "keybinding_action_string KEYBINDING_SWAP = ''exchangedown''"
| "keybinding_action_string KEYBINDING_MERGE_LEFT = ''exchangeleft''"
| "keybinding_action_string KEYBINDING_MERGE_RIGHT = ''exchangeright''"
| "keybinding_action_string KEYBINDING_MERGE_TOP = ''exchangeup''"
| "keybinding_action_string KEYBINDING_MERGE_BOTTOM = ''exchangedown''"
| "keybinding_action_string KEYBINDING_FOCUS_LEFT = ''focusleft''"
| "keybinding_action_string KEYBINDING_FOCUS_RIGHT = ''focusright''"
| "keybinding_action_string KEYBINDING_FOCUS_TOP = ''focusup''"
| "keybinding_action_string KEYBINDING_FOCUS_BOTTOM = ''focusdown''"
| "keybinding_action_string KEYBINDING_DEFINEKEY = ''definekey''"
| "keybinding_action_string KEYBINDING_SETMODECURSOR = ''setmodecursor''"
| "keybinding_action_string KEYBINDING_BACKGROUND = ''background''"
| "keybinding_action_string KEYBINDING_DEFINEMODE = ''definemode''"
| "keybinding_action_string KEYBINDING_WORKSPACES = ''workspaces''"

text \<open>
  A growing table may move to a new address. The result of \<^verbatim>\<open>keybinding_list_push\<close> is ignored;
  the event reads the binding, which the push may have freed.
\<close>

definition push_binding :: "cg_env \<Rightarrow> kb_ptr \<Rightarrow> compositor \<Rightarrow> compositor option" where
  "push_binding env p c = do {
     let l = c_keybindings c;
     (_, l', h) \<leftarrow> keybinding_list_push (Suc (c_kb_brk c)) (ce_realloc_ok env) l p (c_kb_heap c);
     let moved = (kl_length l = kl_capacity l \<and> ce_realloc_ok env \<and> ce_realloc_moves env);
     Some (c\<lparr>c_keybindings := l', c_kb_heap := h,
             c_array := (if moved then c_kb_brk c else c_array c),
             c_kb_brk := (if moved then Suc (c_kb_brk c) else c_kb_brk c)\<rparr>)
   }"

definition keybinding_definekey :: "cg_env \<Rightarrow> kb_ptr option \<Rightarrow> compositor \<Rightarrow> compositor option" where
  "keybinding_definekey env kb c = do {
     p \<leftarrow> kb;
     c \<leftarrow> push_binding env p c;
     b \<leftarrow> c_kb_heap c p;
     Some (event ''definekey''
             [(''modifiers'', d32 (kc_modifiers b)), (''key'', d32 (kc_key b)),
              (''command'', IStr (keybinding_action_string (kc_action b)))] c)
   }"

section \<open>Colours and messages\<close>

text \<open>Setting the colour of a rectangle that does not exist is a fault.\<close>

definition set_bg_color :: "f32 list \<Rightarrow> out_ptr \<Rightarrow> cg_server \<Rightarrow> cg_server option" where
  "set_bg_color col p s = do {
     out \<leftarrow> s_outs s p;
     if o_bg out then Some (emit (Output_call (Bg_color p col)) s) else None
   }"

definition keybinding_set_background :: "f32 list \<Rightarrow> compositor \<Rightarrow> compositor option" where
  "keybinding_set_background bg c =
     (let old = c_bg_color c;
          c = event ''background'' [(''old_bg'', IFloats (take 3 old)), (''new_bg'', IFloats bg)] c;
          col = bg @ drop 3 old
      in on_srv (\<lambda>s. ofold (set_bg_color col) (s_outputs s @ s_disabled_outputs s) s) (c\<lparr>c_bg_color := col\<rparr>))"

definition merge_message_config :: "cg_message_config \<Rightarrow> cg_message_config \<Rightarrow> cg_message_config" where
  "merge_message_config config m =
     (let m = (if mc_font config \<noteq> None then m\<lparr>mc_font := mc_font config\<rparr> else m);
          m = (if mc_display_time config \<noteq> - 1 then m\<lparr>mc_display_time := mc_display_time config\<rparr> else m);
          m = (if \<not> f32_eq (mc_bg_color config ! 0) (Fin (- 1) 0) then m\<lparr>mc_bg_color := mc_bg_color config\<rparr> else m);
          m = (if \<not> f32_eq (mc_fg_color config ! 0) (Fin (- 1) 0) then m\<lparr>mc_fg_color := mc_fg_color config\<rparr> else m);
          m = (if mc_anchor config \<noteq> CG_MESSAGE_NOPT then m\<lparr>mc_anchor := mc_anchor config\<rparr> else m)
      in if mc_enabled config \<noteq> - 1 then m\<lparr>mc_enabled := mc_enabled config\<rparr> else m)"

definition keybinding_configure_message :: "cg_message_config \<Rightarrow> compositor \<Rightarrow> compositor" where
  "keybinding_configure_message config c =
     event ''configure_message'' [] (c\<lparr>c_message_config := merge_message_config config (c_message_config c)\<rparr>)"

section \<open>Configurations of outputs and input devices\<close>

fun find_by_name :: "string option \<Rightarrow> out_ptr list \<Rightarrow> cg_server \<Rightarrow> out_ptr option option" where
  "find_by_name name [] s = Some None"
| "find_by_name name (p # ps) s = do {
     out \<leftarrow> s_outs s p;
     if name = Some (o_name out) then Some (Some p) else find_by_name name ps s
   }"

definition name_val :: "string option \<Rightarrow> ipc_val" where
  "name_val n = IStr (case n of Some x \<Rightarrow> x | None \<Rightarrow> [])"

definition keybinding_configure_output :: "cg_env \<Rightarrow> cg_output_config \<Rightarrow> compositor \<Rightarrow> compositor option" where
  "keybinding_configure_output env cfg c = do {
     let name = oc_output_name cfg;
     let cfgs = keybinding_configure_output_list cfg (c_output_config c);
     let c = c\<lparr>c_output_config := cfgs\<rparr>;
     found \<leftarrow> find_by_name name (s_outputs (c_srv c)) (c_srv c);
     case found of
       Some p \<Rightarrow> do {
         n \<leftarrow> output_get_num p (c_srv c);
         c \<leftarrow> on_srv (output_configure (ce_wlr env) (ce_listening env) cfgs p) c;
         Some (event ''configure_output'' [(''output'', name_val name), (''output_id'', IInt n)] c)
       }
     | None \<Rightarrow> do {
         found \<leftarrow> find_by_name name (s_disabled_outputs (c_srv c)) (c_srv c);
         case found of
           Some p \<Rightarrow> do {
             c \<leftarrow> on_srv (output_configure (ce_wlr env) (ce_listening env) cfgs p) c;
             Some (event ''configure_output'' [(''output'', name_val name)] c)
           }
         | None \<Rightarrow> Some c
       }
   }"

definition input_device_get_type :: "cg_input_device \<Rightarrow> string" where
  "input_device_get_type d =
     (case dv_type d of
        WLR_INPUT_DEVICE_POINTER \<Rightarrow>
          (case dv_libinput d of
             Some li \<Rightarrow> if li_finger_count li > 0 then ''touchpad'' else ''pointer''
           | None \<Rightarrow> ''pointer'')
      | WLR_INPUT_DEVICE_KEYBOARD \<Rightarrow> ''keyboard''
      | WLR_INPUT_DEVICE_TOUCH \<Rightarrow> ''touch''
      | WLR_INPUT_DEVICE_TABLET \<Rightarrow> ''tablet_tool''
      | WLR_INPUT_DEVICE_TABLET_PAD \<Rightarrow> ''tablet_pad''
      | WLR_INPUT_DEVICE_SWITCH \<Rightarrow> ''switch'')"

definition configure_device :: "cg_input_config list \<Rightarrow> cg_input_device \<Rightarrow> cg_input_device" where
  "configure_device cfgs d =
     d\<lparr>dv_libinput := map_option (cg_input_configure_libinput_device cfgs (dv_identifier d) (input_device_get_type d))
        (dv_libinput d)\<rparr>"

definition configure_group :: "cg_input_config list \<Rightarrow> cg_keyboard_group \<Rightarrow> cg_keyboard_group" where
  "configure_group cfgs g = g\<lparr>gr_settings := cg_input_manager_configure_keyboard_group cfgs (gr_settings g)\<rparr>"

definition cg_input_manager_configure :: "compositor \<Rightarrow> compositor" where
  "cg_input_manager_configure c =
     c\<lparr>c_devices := map (configure_device (c_input_config c)) (c_devices c),
       c_groups := map (configure_group (c_input_config c)) (c_groups c)\<rparr>"

definition keybinding_configure_input :: "cg_input_config \<Rightarrow> compositor \<Rightarrow> compositor" where
  "keybinding_configure_input cfg c =
     event ''configure_input'' [(''input'', name_val (ic_identifier cfg))]
       (cg_input_manager_configure
         (c\<lparr>c_input_config := keybinding_configure_input_list cfg (c_input_config c)\<rparr>))"

section \<open>Messages on the screen\<close>

definition show_message :: "string \<Rightarrow> compositor \<Rightarrow> compositor option" where
  "show_message msg c = do {
     p \<leftarrow> s_curr_output (c_srv c);
     Some (c\<lparr>c_srv := message_printf p msg (c_srv c)\<rparr>)
   }"

definition keybinding_show_time :: "cg_env \<Rightarrow> compositor \<Rightarrow> compositor option" where
  "keybinding_show_time env = show_message (takeWhile (\<lambda>ch. ch \<noteq> CHR 0x0A) (ce_ctime env))"

fun output_names :: "out_ptr list \<Rightarrow> cg_server \<Rightarrow> string list option" where
  "output_names [] s = Some []"
| "output_names (p # ps) s = do {
     out \<leftarrow> s_outs s p;
     rest \<leftarrow> output_names ps s;
     Some (o_name out # rest)
   }"

definition info_line :: "string \<Rightarrow> string" where
  "info_line name = [CHR 0x09] @ '' * '' @ name @ [CHR 0x0A]"

definition server_show_info :: "compositor \<Rightarrow> string option" where
  "server_show_info c = do {
     outs \<leftarrow> output_names (s_outputs (c_srv c)) (c_srv c);
     let ins = filter (\<lambda>i. i \<noteq> []) (map dv_identifier (c_devices c));
     Some (''Outputs:'' @ [CHR 0x0A] @ concat (map info_line outs) @
           ''Inputs:'' @ [CHR 0x0A] @ concat (map info_line ins))
   }"

definition keybinding_show_info :: "compositor \<Rightarrow> compositor option" where
  "keybinding_show_info c = do { msg \<leftarrow> server_show_info c; show_message msg c }"

definition keybinding_send_custom_event :: "string \<Rightarrow> compositor \<Rightarrow> compositor" where
  "keybinding_send_custom_event msg = event ''custom_event'' [(''message'', IStr msg)]"

definition keybinding_switch_vt :: "cg_env \<Rightarrow> u32 \<Rightarrow> compositor \<Rightarrow> int \<times> compositor" where
  "keybinding_switch_vt env vt c =
     (if ce_multi env then (0, if ce_session env then emit_srv (Switch_vt vt) c else c) else (- 1, c))"

end
