(* ===== verification/Dump.thy ===== *)
theory Dump
  imports Compositor
begin

text \<open>
  The command \<^verbatim>\<open>dump\<close> (\<^verbatim>\<open>keybinding.c\<close>): a text with the state of the compositor, put together in
  arrays of pieces whose sizes are fixed beforehand. Writing past the end of such an array is the
  fault \<open>None\<close>. Texts of 4 GiB and more, whose length would wrap in \<^verbatim>\<open>uint32_t\<close>, are not considered.
\<close>

section \<open>Pieces\<close>

record dyn_str =
  ds_size :: nat
  ds_arr :: "string list"

definition print_str :: "string \<Rightarrow> dyn_str \<Rightarrow> dyn_str option" where
  "print_str piece d =
     (if length (ds_arr d) < ds_size d then Some (d\<lparr>ds_arr := ds_arr d @ [piece]\<rparr>) else None)"

definition dyn_str_to_str :: "dyn_str \<Rightarrow> string" where
  "dyn_str_to_str d = concat (ds_arr d)"

definition print_pieces :: "nat \<Rightarrow> string list \<Rightarrow> string option" where
  "print_pieces nmemb ps =
     map_option dyn_str_to_str (ofold print_str ps \<lparr>ds_size = nmemb, ds_arr = []\<rparr>)"

abbreviation (input) nl :: string where "nl \<equiv> [CHR 0x0A]"

text \<open>The shapes \<^verbatim>\<open>"key": value\<close> and \<^verbatim>\<open>"key": {"a":x,"b":y}\<close>.\<close>

definition keyed :: "string \<Rightarrow> string \<Rightarrow> string" where
  "keyed k v = quoted k @ '': '' @ v"

definition pair_of :: "string \<Rightarrow> string \<Rightarrow> string \<Rightarrow> string \<Rightarrow> string" where
  "pair_of a x b y = ''{'' @ quoted a @ '':'' @ x @ '','' @ quoted b @ '':'' @ y @ ''}''"

definition fmt_u :: "u32 \<Rightarrow> string" where
  "fmt_u w = fmt_d (sint w)"

definition fmt_bool :: "bool \<Rightarrow> string" where
  "fmt_bool b = (if b then ''1'' else ''0'')"

fun commas :: "string list \<Rightarrow> string list" where
  "commas [] = []"
| "commas [x] = [x]"
| "commas (x # y # ys) = x # '','' # commas (y # ys)"

text \<open>\<^verbatim>\<open>%f\<close> for a \<^verbatim>\<open>double\<close>, here the rational number that it is.\<close>

definition fmt_f_rat :: "rat \<Rightarrow> string" where
  "fmt_f_rat x =
     (case quotient_of \<bar>x\<bar> of (a, b) \<Rightarrow>
      let n = div_even (nat a * 1000000) (nat b)
      in (if x < 0 then ''-'' else []) @ nat_digits (n div 1000000) @ ''.'' @ pad6 (n mod 1000000))"

definition fmt_millis :: "int \<Rightarrow> string" where
  "fmt_millis refresh =
     (case f32_of_int refresh of
        Fin m e \<Rightarrow> fmt_f_rat (rat_of_int m * (if 0 \<le> e then 2 ^ nat e else 1 / 2 ^ nat (- e)) / 1000)
      | Inf neg \<Rightarrow> fmt_f (Inf neg)
      | NaN \<Rightarrow> fmt_f NaN)"

section \<open>Settings\<close>

fun anchor_name :: "cg_message_anchor \<Rightarrow> string" where
  "anchor_name CG_MESSAGE_TOP_LEFT = ''top_left''"
| "anchor_name CG_MESSAGE_TOP_CENTER = ''top_center''"
| "anchor_name CG_MESSAGE_TOP_RIGHT = ''top_right''"
| "anchor_name CG_MESSAGE_BOTTOM_LEFT = ''bottom_left''"
| "anchor_name CG_MESSAGE_BOTTOM_CENTER = ''bottom_center''"
| "anchor_name CG_MESSAGE_BOTTOM_RIGHT = ''bottom_right''"
| "anchor_name CG_MESSAGE_CENTER = ''center''"
| "anchor_name CG_MESSAGE_NOPT = ''no_op''"

definition float_array :: "f32 list \<Rightarrow> string" where
  "float_array fs = ''['' @ concat (commas (map fmt_f fs)) @ '']''"

definition print_message_conf :: "cg_message_config \<Rightarrow> string option" where
  "print_message_conf m =
     print_pieces 8
       [quoted ''message_config'' @ '': {'',
        keyed ''font'' (quoted (case mc_font m of Some f \<Rightarrow> f | None \<Rightarrow> ''(null)'')) @ '','' @ nl,
        keyed ''display_time'' (fmt_d (mc_display_time m)) @ '','' @ nl,
        keyed ''bg_color'' (float_array (mc_bg_color m)) @ '','' @ nl,
        keyed ''fg_color'' (float_array (mc_fg_color m)) @ '','' @ nl,
        keyed ''enabled'' (fmt_bool (mc_enabled m = 1)) @ '','' @ nl,
        keyed ''anchor'' (quoted (anchor_name (mc_anchor m))) @ nl,
        ''}'']"

text \<open>The piece of \<^verbatim>\<open>print_modes\<close>; nothing is printed when there are no modes.\<close>

definition print_modes :: "string list \<Rightarrow> string list" where
  "print_modes modes =
     (if modes = [] then []
      else [quoted ''modes'' @ '':['' @ concat (commas (map quoted modes)) @ ''],'' @ nl])"

section \<open>Views, tiles and workspaces\<close>

definition print_view :: "cg_env \<Rightarrow> view_ptr \<Rightarrow> cg_server \<Rightarrow> string option" where
  "print_view env p s = do {
     v \<leftarrow> s_views s p;
     pid \<leftarrow> view_get_pid v;
     print_pieces 5
       ([keyed ''id'' (fmt_u (v_id v)) @ '','' @ nl,
         keyed ''pid'' (fmt_d pid) @ '','' @ nl] @
        (if ce_bs env
         then [keyed ''title'' (quoted (case ce_title env p of Some t \<Rightarrow> t | None \<Rightarrow> [])) @ '','' @ nl]
         else []) @
        [keyed ''coords'' (pair_of ''x'' (fmt_d (v_ox v)) ''y'' (fmt_d (v_oy v))) @ '','' @ nl,
         keyed ''type'' (quoted (if v_type v = CG_XWAYLAND_VIEW then ''xwayland'' else ''xdg'')) @ nl])
   }"

definition print_tile :: "tile_ptr \<Rightarrow> cg_server \<Rightarrow> string option" where
  "print_tile tp s = do {
     t \<leftarrow> s_tiles s tp;
     vid \<leftarrow> (case t_view t of
               None \<Rightarrow> Some (- 1)
             | Some p \<Rightarrow> do { v \<leftarrow> s_views s p; Some (sint (v_id v)) });
     print_pieces 4
       [keyed ''id'' (fmt_u (t_id t)) @ '','' @ nl,
        keyed ''coords'' (pair_of ''x'' (fmt_d (box_x (t_box t))) ''y'' (fmt_d (box_y (t_box t)))) @ '','' @ nl,
        keyed ''size'' (pair_of ''width'' (fmt_d (box_width (t_box t)))
                                ''height'' (fmt_d (box_height (t_box t)))) @ '','' @ nl,
        keyed ''view_id'' (fmt_d vid) @ nl]
   }"

fun each :: "('a \<Rightarrow> string option) \<Rightarrow> 'a list \<Rightarrow> string list option" where
  "each f [] = Some []"
| "each f (x # xs) = do { y \<leftarrow> f x; ys \<leftarrow> each f xs; Some (y # ys) }"

definition braced :: "string \<Rightarrow> string" where
  "braced t = ''{'' @ nl @ t @ nl @ ''}''"

definition print_views :: "cg_env \<Rightarrow> view_ptr list \<Rightarrow> cg_server \<Rightarrow> string option" where
  "print_views env vs s =
     (if vs = [] then Some ''{}''
      else do {
        ts \<leftarrow> each (\<lambda>p. print_view env p s) vs;
        print_pieces (2 * length vs - 1) (commas (map braced ts))
      })"

definition print_tiles :: "ws_ptr \<Rightarrow> cg_server \<Rightarrow> string option" where
  "print_tiles w s = do {
     start \<leftarrow> focused_tile_of w s;
     tps \<leftarrow> ring_of start s;
     ts \<leftarrow> each (\<lambda>tp. print_tile tp s) tps;
     print_pieces (2 * length tps - 1) (commas (map braced ts))
   }"

definition print_workspace :: "cg_env \<Rightarrow> ws_ptr \<Rightarrow> cg_server \<Rightarrow> string option" where
  "print_workspace env w s = do {
     ws \<leftarrow> s_workspaces s w;
     views \<leftarrow> print_views env (w_views ws) s;
     tiles \<leftarrow> print_tiles w s;
     print_pieces 6
       [quoted ''views'' @ '': ['', views, ''],'', quoted ''tiles'' @ '': ['', tiles, '']'']
   }"

definition print_workspaces :: "cg_env \<Rightarrow> cg_output \<Rightarrow> cg_server \<Rightarrow> string option" where
  "print_workspaces env out s = do {
     let n = unat (s_nws s);
     ts \<leftarrow> each (\<lambda>i. do { w \<leftarrow> ws_at out (int i); print_workspace env w s }) [0..<n];
     print_pieces (2 * n + 1)
       ([quoted ''workspaces'' @ '': [''] @ commas (map (\<lambda>t. ''{'' @ t @ ''}'') ts) @ ['']'' @ nl])
   }"

section \<open>Outputs and input devices\<close>

definition print_output :: "cg_env \<Rightarrow> out_ptr \<Rightarrow> cg_server \<Rightarrow> (string \<times> cg_server) option" where
  "print_output env p s = do {
     (b, s) \<leftarrow> output_get_layout_box p s;
     out \<leftarrow> s_outs s p;
     ws \<leftarrow> print_workspaces env out s;
     let (width, height) = ce_output_size env (o_wlr_output out);
     t \<leftarrow> print_pieces 10
       [quoted (o_name out) @ '': {'' @ nl,
        keyed ''priority'' (fmt_d (o_priority out)) @ '','' @ nl,
        keyed ''coords'' (pair_of ''x'' (fmt_d (box_x b)) ''y'' (fmt_d (box_y b))) @ '','' @ nl,
        keyed ''size'' (pair_of ''width'' (fmt_d width) ''height'' (fmt_d height)) @ '','' @ nl,
        keyed ''refresh_rate'' (fmt_millis (ce_refresh env (o_wlr_output out))) @ '','' @ nl,
        keyed ''permanent'' (fmt_bool (o_role out = OUTPUT_ROLE_PERMANENT)) @ '','' @ nl,
        keyed ''active'' (fmt_bool (\<not> o_destroyed out)) @ '','' @ nl,
        keyed ''curr_workspace'' (fmt_d (o_curr_workspace out + 1)) @ '','' @ nl,
        ws, ''}''];
     Some (t, s)
   }"

fun print_each_output :: "cg_env \<Rightarrow> out_ptr list \<Rightarrow> cg_server \<Rightarrow> (string list \<times> cg_server) option" where
  "print_each_output env [] s = Some ([], s)"
| "print_each_output env (p # ps) s = do {
     (t, s) \<leftarrow> print_output env p s;
     (ts, s) \<leftarrow> print_each_output env ps s;
     Some (t # ts, s)
   }"

definition print_outputs :: "cg_env \<Rightarrow> cg_server \<Rightarrow> (string \<times> cg_server) option" where
  "print_outputs env s = do {
     let n = length (s_outputs s);
     (ts, s) \<leftarrow> print_each_output env (s_outputs s) s;
     t \<leftarrow> print_pieces (2 * n + 1) ([quoted ''outputs'' @ '': {''] @ commas ts @ [''}'' @ nl]);
     Some (t, s)
   }"

definition print_keyboard_group :: "keyboard_group \<Rightarrow> string option" where
  "print_keyboard_group g =
     print_pieces 5
       [quoted (kg_identifier g) @ '': {'' @ nl,
        keyed ''commands_enabled'' (fmt_d (kg_enable_keybindings g)) @ '','' @ nl,
        keyed ''repeat_delay'' (fmt_d (kg_repeat_delay g)) @ '','' @ nl,
        keyed ''repeat_rate'' (fmt_d (kg_repeat_rate g)) @ nl,
        ''}'']"

definition print_keyboard_groups :: "cg_keyboard_group list \<Rightarrow> string option" where
  "print_keyboard_groups gs = do {
     ts \<leftarrow> each (print_keyboard_group \<circ> gr_settings) gs;
     print_pieces (2 * length gs + 2) ([quoted ''keyboards'' @ '': {''] @ commas ts @ [''}'' @ nl])
   }"

fun device_type_name :: "input_device_type \<Rightarrow> string" where
  "device_type_name WLR_INPUT_DEVICE_POINTER = ''pointer''"
| "device_type_name WLR_INPUT_DEVICE_SWITCH = ''switch''"
| "device_type_name WLR_INPUT_DEVICE_TABLET_PAD = ''tablet pad''"
| "device_type_name WLR_INPUT_DEVICE_TABLET = ''tablet''"
| "device_type_name WLR_INPUT_DEVICE_TOUCH = ''touch''"
| "device_type_name WLR_INPUT_DEVICE_KEYBOARD = ''keyboard''"

definition print_input_device :: "cg_input_device \<Rightarrow> string option" where
  "print_input_device d =
     print_pieces 4
       [quoted (dv_identifier d) @ '': {'' @ nl,
        keyed ''is_virtual'' (fmt_bool (dv_is_virtual d)) @ '','' @ nl,
        keyed ''type'' (quoted (device_type_name (dv_type d))) @ nl,
        ''}'']"

definition print_input_devices :: "cg_input_device list \<Rightarrow> string option" where
  "print_input_devices ds = do {
     ts \<leftarrow> each print_input_device ds;
     print_pieces (2 * length ds + 2) ([quoted ''input_devices'' @ '': {''] @ commas ts @ [''}'' @ nl])
   }"

section \<open>The dump\<close>

definition focused_ids :: "cg_server \<Rightarrow> (int \<times> int) option" where
  "focused_ids s =
     (case se_focused_view (s_seat s) of
        None \<Rightarrow> Some (- 1, - 1)
      | Some p \<Rightarrow> do {
          v \<leftarrow> s_views s p;
          case v_tile v of
            None \<Rightarrow> Some (sint (v_id v), - 1)
          | Some tp \<Rightarrow> do { t \<leftarrow> s_tiles s tp; Some (sint (v_id v), sint (t_id t)) }
        })"

definition compact_field :: "string \<Rightarrow> string \<Rightarrow> string" where
  "compact_field k v = quoted k @ '':'' @ v @ '','' @ nl"

definition dump_pieces ::
    "compositor \<Rightarrow> int \<times> int \<Rightarrow> string \<Rightarrow> string list \<Rightarrow> string \<Rightarrow> string \<Rightarrow> string \<Rightarrow> string \<Rightarrow> string list" where
  "dump_pieces c ids curr_output modes message outps keyboards inputs =
     (let s = c_srv c; se = s_seat s in
      [''{'' @ quoted ''event_name'' @ '':'' @ quoted ''dump'' @ '','',
       compact_field ''nws'' (fmt_d (uint (s_nws s))),
       compact_field ''bg_color'' (float_array (take 3 (c_bg_color c))),
       compact_field ''views_curr_id'' (fmt_d (fst ids)),
       compact_field ''tiles_curr_id'' (fmt_d (snd ids)),
       compact_field ''curr_output'' (quoted curr_output),
       compact_field ''default_mode'' (quoted (get_mode_name modes (unat (se_default_mode se))))] @
      print_modes modes @
      [message @ '','', outps @ '','', keyboards @ '','', inputs @ '','',
       quoted ''cursor_coords'' @ '':'' @
         pair_of ''x'' (fmt_f_rat (se_cursor_x se)) ''y'' (fmt_f_rat (se_cursor_y se)) @ nl,
       ''}''])"

definition dump_text :: "cg_env \<Rightarrow> compositor \<Rightarrow> (string \<times> compositor) option" where
  "dump_text env c = do {
     ids \<leftarrow> focused_ids (c_srv c);
     p \<leftarrow> s_curr_output (c_srv c);
     out \<leftarrow> s_outs (c_srv c) p;
     modes \<leftarrow> c_modes c;
     message \<leftarrow> print_message_conf (c_message_config c);
     (outps, s) \<leftarrow> print_outputs env (c_srv c);
     keyboards \<leftarrow> print_keyboard_groups (c_groups c);
     inputs \<leftarrow> print_input_devices (c_devices c);
     t \<leftarrow> print_pieces 14 (dump_pieces c ids (o_name out) modes message outps keyboards inputs);
     Some (t, c\<lparr>c_srv := s\<rparr>)
   }"

text \<open>
  The text is passed to \<^verbatim>\<open>ipc_send_event\<close> as its format. Without further arguments a format is
  defined only when each percent sign in it is doubled.
\<close>

fun printf_plain :: "string \<Rightarrow> string option" where
  "printf_plain [] = Some []"
| "printf_plain (ch # t) =
     (if ch \<noteq> CHR ''%'' then map_option ((#) ch) (printf_plain t)
      else case t of
             ch' # u \<Rightarrow> if ch' = CHR ''%'' then map_option ((#) ch) (printf_plain u) else None
           | [] \<Rightarrow> None)"

definition keybinding_dump :: "cg_env \<Rightarrow> compositor \<Rightarrow> compositor option" where
  "keybinding_dump env c = do {
     (t, c) \<leftarrow> dump_text env c;
     if \<not> ce_clients env then Some c
     else do { m \<leftarrow> printf_plain t; Some (event ''dump'' [('''', IStr m)] c) }
   }"

end
