(* ===== verification/Run_Action.thy ===== *)
theory Run_Action
  imports Dump Parse_Command
begin

text \<open>
  \<^verbatim>\<open>run_action\<close> (\<^verbatim>\<open>keybinding.c\<close>), which carries out a command, and \<^verbatim>\<open>parse_rc_line\<close>
  (\<^verbatim>\<open>parse.c\<close>), which reads one and carries it out. The parameters of an action are a union;
  reading another member than the one that was written is the fault \<open>None\<close>. The pointer \<^verbatim>\<open>data.kb\<close>
  is passed separately.
\<close>

section \<open>The members of the union\<close>

definition data_c :: "keybinding_params \<Rightarrow> string option" where
  "data_c d = (case d of Data_c s \<Rightarrow> Some s | _ \<Rightarrow> None)"

definition data_u :: "keybinding_params \<Rightarrow> u32 option" where
  "data_u d = (case d of Data_u u \<Rightarrow> Some u | _ \<Rightarrow> None)"

definition data_i :: "keybinding_params \<Rightarrow> int option" where
  "data_i d = (case d of Data_i i \<Rightarrow> Some i | _ \<Rightarrow> None)"

definition data_b :: "keybinding_params \<Rightarrow> bool option" where
  "data_b d = (case d of Data_b b \<Rightarrow> Some b | _ \<Rightarrow> None)"

definition data_f :: "keybinding_params \<Rightarrow> f32 option" where
  "data_f d = (case d of Data_f f \<Rightarrow> Some f | _ \<Rightarrow> None)"

definition data_is :: "keybinding_params \<Rightarrow> (u32 \<times> u32) option" where
  "data_is d = (case d of Data_is a b \<Rightarrow> Some (a, b) | _ \<Rightarrow> None)"

definition data_us :: "keybinding_params \<Rightarrow> (u32 \<times> u32 \<times> u32) option" where
  "data_us d = (case d of Data_us a b e \<Rightarrow> Some (a, b, e) | _ \<Rightarrow> None)"

definition data_cs :: "keybinding_params \<Rightarrow> (string \<times> string) option" where
  "data_cs d = (case d of Data_cs a b \<Rightarrow> Some (a, b) | _ \<Rightarrow> None)"

definition data_color :: "keybinding_params \<Rightarrow> (f32 list) option" where
  "data_color d = (case d of Data_color r g b \<Rightarrow> Some [r, g, b] | _ \<Rightarrow> None)"

definition data_o_cfg :: "keybinding_params \<Rightarrow> cg_output_config option" where
  "data_o_cfg d = (case d of Data_o_cfg x \<Rightarrow> Some x | _ \<Rightarrow> None)"

definition data_i_cfg :: "keybinding_params \<Rightarrow> cg_input_config option" where
  "data_i_cfg d = (case d of Data_i_cfg x \<Rightarrow> Some x | _ \<Rightarrow> None)"

definition data_m_cfg :: "keybinding_params \<Rightarrow> cg_message_config option" where
  "data_m_cfg d = (case d of Data_m_cfg x \<Rightarrow> Some x | _ \<Rightarrow> None)"

lemmas data_defs = data_c_def data_u_def data_i_def data_b_def data_f_def data_is_def data_us_def
  data_cs_def data_color_def data_o_cfg_def data_i_cfg_def data_m_cfg_def

section \<open>The actions that change the arrangement of the windows\<close>

text \<open>\<^verbatim>\<open>(int)view->id\<close> of the view in the focused tile, -1 when there is none.\<close>

definition focused_tile_view :: "cg_server \<Rightarrow> view_ptr option option" where
  "focused_tile_view s = do { tp \<leftarrow> curr_tile s; t \<leftarrow> s_tiles s tp; Some (t_view t) }"

definition focused_view_id :: "cg_server \<Rightarrow> int option" where
  "focused_view_id s = do {
     vo \<leftarrow> focused_tile_view s;
     case vo of
       None \<Rightarrow> Some (- 1)
     | Some p \<Rightarrow> do { v \<leftarrow> s_views s p; Some (sint (v_id v)) }
   }"

text \<open>
  The tile of a \<^verbatim>\<open>merge\<close> command: the focused one, or the one with the given id; the code reads the
  focused tile of the current workspace in either case.
\<close>

definition merge_target :: "u32 \<Rightarrow> cg_server \<Rightarrow> tile_ptr option option" where
  "merge_target u s = do {
     w \<leftarrow> curr_ws s;
     ws \<leftarrow> s_workspaces s w;
     if u \<noteq> 0 then tile_from_id u s else Some (w_focused_tile ws)
   }"

definition run_merge :: "(tile_ptr \<Rightarrow> cg_server \<Rightarrow> cg_server option) \<Rightarrow> u32 \<Rightarrow> cg_server \<Rightarrow> cg_server option" where
  "run_merge merge u s = do {
     tile \<leftarrow> merge_target u s;
     case tile of None \<Rightarrow> Some s | Some tp \<Rightarrow> merge tp s
   }"

definition run_focus :: "(tile_ptr \<Rightarrow> cg_server \<Rightarrow> cg_server option) \<Rightarrow> cg_server \<Rightarrow> cg_server option" where
  "run_focus focus s = do { tp \<leftarrow> curr_tile s; focus tp s }"

definition run_swap :: "(u32 \<Rightarrow> bool \<Rightarrow> cg_server \<Rightarrow> cg_server option) \<Rightarrow> keybinding_params \<Rightarrow> cg_server \<Rightarrow> cg_server option" where
  "run_swap swap d s = do { (a, b, _) \<leftarrow> data_us d; swap a (b = 1) s }"

definition action_tiles :: "keybinding_action \<Rightarrow> keybinding_params \<Rightarrow> cg_server \<Rightarrow> cg_server option" where
  "action_tiles act d s =
     (if act = KEYBINDING_LAYOUT_FULLSCREEN
      then do { (a, b, _) \<leftarrow> data_us d; keybinding_workspace_fullscreen a b s }
      else if act = KEYBINDING_SPLIT_HORIZONTAL
      then do { f \<leftarrow> data_f d; keybinding_split_horizontal f s }
      else if act = KEYBINDING_SPLIT_VERTICAL
      then do { f \<leftarrow> data_f d; keybinding_split_vertical f s }
      else if act = KEYBINDING_CYCLE_TILES
      then do { (a, b, _) \<leftarrow> data_us d;
                if b = 0 then keybinding_cycle_tiles (a \<noteq> 0) s else keybinding_focus_tile b s }
      else if act = KEYBINDING_RESIZE_TILE_HORIZONTAL
      then do { (a, b) \<leftarrow> data_is d; resize_tile (sint a) 0 (sint b) s }
      else if act = KEYBINDING_RESIZE_TILE_VERTICAL
      then do { (a, b) \<leftarrow> data_is d; resize_tile 0 (sint a) (sint b) s }
      else if act = KEYBINDING_MERGE_LEFT then do { u \<leftarrow> data_u d; run_merge merge_tile_left u s }
      else if act = KEYBINDING_MERGE_RIGHT then do { u \<leftarrow> data_u d; run_merge merge_tile_right u s }
      else if act = KEYBINDING_MERGE_TOP then do { u \<leftarrow> data_u d; run_merge merge_tile_top u s }
      else if act = KEYBINDING_MERGE_BOTTOM then do { u \<leftarrow> data_u d; run_merge merge_tile_bottom u s }
      else if act = KEYBINDING_SWAP_LEFT then run_swap swap_tile_left d s
      else if act = KEYBINDING_SWAP_RIGHT then run_swap swap_tile_right d s
      else if act = KEYBINDING_SWAP_TOP then run_swap swap_tile_top d s
      else if act = KEYBINDING_SWAP_BOTTOM then run_swap swap_tile_bottom d s
      else if act = KEYBINDING_SWAP
      then do { (a, b, e) \<leftarrow> data_us d;
                ta \<leftarrow> tile_from_id a s; tb \<leftarrow> tile_from_id b s;
                swap_tiles ta tb (e = 1) s }
      else if act = KEYBINDING_FOCUS_LEFT then run_focus focus_tile_left s
      else if act = KEYBINDING_FOCUS_RIGHT then run_focus focus_tile_right s
      else if act = KEYBINDING_FOCUS_TOP then run_focus focus_tile_top s
      else if act = KEYBINDING_FOCUS_BOTTOM then run_focus focus_tile_bottom s
      else None)"

definition action_views :: "keybinding_action \<Rightarrow> keybinding_params \<Rightarrow> cg_server \<Rightarrow> cg_server option" where
  "action_views act d s =
     (if act = KEYBINDING_CYCLE_VIEWS
      then do { (a, b, _) \<leftarrow> data_us d; keybinding_cycle_views None b (a \<noteq> 0) True s }
      else if act = KEYBINDING_CYCLE_OUTPUT
      then do { b \<leftarrow> data_b d; keybinding_cycle_outputs b True s }
      else if act = KEYBINDING_SWITCH_WORKSPACE
      then do { u \<leftarrow> data_u d; map_option snd (keybinding_switch_ws u s) }
      else if act = KEYBINDING_SWITCH_OUTPUT
      then do { u \<leftarrow> data_u d; keybinding_switch_output (sint u) s }
      else if act = KEYBINDING_MOVE_TO_TILE
      then do { v \<leftarrow> focused_view_id s; (a, b, _) \<leftarrow> data_us d;
                keybinding_move_view_to_tile (word_of_int v) a (b > 0) s }
      else if act = KEYBINDING_MOVE_TO_WORKSPACE
      then do { v \<leftarrow> focused_view_id s; (a, b, _) \<leftarrow> data_us d;
                keybinding_move_view_to_workspace v a (b > 0) s }
      else if act = KEYBINDING_MOVE_TO_OUTPUT
      then do { v \<leftarrow> focused_view_id s; (a, b, _) \<leftarrow> data_us d;
                keybinding_move_view_to_output v (sint a) (b > 0) s }
      else if act = KEYBINDING_MOVE_VIEW_TO_TILE
      then do { (a, b, e) \<leftarrow> data_us d; keybinding_move_view_to_tile a b (e > 0) s }
      else if act = KEYBINDING_MOVE_VIEW_TO_WORKSPACE
      then do { (a, b, e) \<leftarrow> data_us d; keybinding_move_view_to_workspace (sint a) b (e > 0) s }
      else if act = KEYBINDING_MOVE_VIEW_TO_OUTPUT
      then do { (a, b, e) \<leftarrow> data_us d; keybinding_move_view_to_output (sint a) (sint b) (e > 0) s }
      else if act = KEYBINDING_MOVE_VIEW_TO_CYCLE_OUTPUT
      then do { b \<leftarrow> data_b d; keybinding_move_view_to_cycle_output b s }
      else if act = KEYBINDING_CLOSE_VIEW
      then do { vo \<leftarrow> focused_tile_view s; keybinding_close_view vo s }
      else if act = KEYBINDING_WORKSPACES
      then do { i \<leftarrow> data_i d; keybinding_set_nws i s }
      else None)"

definition is_tiles_action :: "keybinding_action \<Rightarrow> bool" where
  "is_tiles_action act \<longleftrightarrow>
     act \<in> {KEYBINDING_LAYOUT_FULLSCREEN, KEYBINDING_SPLIT_HORIZONTAL, KEYBINDING_SPLIT_VERTICAL,
            KEYBINDING_CYCLE_TILES, KEYBINDING_RESIZE_TILE_HORIZONTAL, KEYBINDING_RESIZE_TILE_VERTICAL,
            KEYBINDING_MERGE_LEFT, KEYBINDING_MERGE_RIGHT, KEYBINDING_MERGE_TOP, KEYBINDING_MERGE_BOTTOM,
            KEYBINDING_SWAP_LEFT, KEYBINDING_SWAP_RIGHT, KEYBINDING_SWAP_TOP, KEYBINDING_SWAP_BOTTOM,
            KEYBINDING_SWAP, KEYBINDING_FOCUS_LEFT, KEYBINDING_FOCUS_RIGHT, KEYBINDING_FOCUS_TOP,
            KEYBINDING_FOCUS_BOTTOM}"

definition is_views_action :: "keybinding_action \<Rightarrow> bool" where
  "is_views_action act \<longleftrightarrow>
     act \<in> {KEYBINDING_CYCLE_VIEWS, KEYBINDING_CYCLE_OUTPUT, KEYBINDING_SWITCH_WORKSPACE,
            KEYBINDING_SWITCH_OUTPUT, KEYBINDING_MOVE_TO_TILE, KEYBINDING_MOVE_TO_WORKSPACE,
            KEYBINDING_MOVE_TO_OUTPUT, KEYBINDING_MOVE_VIEW_TO_TILE, KEYBINDING_MOVE_VIEW_TO_WORKSPACE,
            KEYBINDING_MOVE_VIEW_TO_OUTPUT, KEYBINDING_MOVE_VIEW_TO_CYCLE_OUTPUT, KEYBINDING_CLOSE_VIEW,
            KEYBINDING_WORKSPACES}"

section \<open>run_action\<close>

text \<open>The actions on the rest of the state; the result code is 0 except for \<^verbatim>\<open>switchvt\<close>.\<close>

definition display_terminate :: "compositor \<Rightarrow> compositor" where
  "display_terminate = emit_srv Display_terminate"

definition action_other ::
    "cg_env \<Rightarrow> keybinding_action \<Rightarrow> keybinding_params \<Rightarrow> kb_ptr option \<Rightarrow> compositor \<Rightarrow> compositor option" where
  "action_other env act d kb c =
     (if act = KEYBINDING_QUIT
      then Some ((display_terminate c)\<lparr>c_srv := (c_srv (display_terminate c))\<lparr>s_running := False\<rparr>\<rparr>)
      else if act = KEYBINDING_CURSOR then do { i \<leftarrow> data_i d; Some (set_cursor env (i \<noteq> 0) c) }
      else if act = KEYBINDING_RUN_COMMAND
      then do { cmd \<leftarrow> data_c d; Some (emit_srv (Fork_command cmd) c) }
      else if act = KEYBINDING_SWITCH_MODE then do { u \<leftarrow> data_u d; switch_mode env u c }
      else if act = KEYBINDING_SWITCH_DEFAULT_MODE
      then do { u \<leftarrow> data_u d; switch_default_mode env u c }
      else if act = KEYBINDING_NOOP then Some c
      else if act = KEYBINDING_SHOW_TIME then keybinding_show_time env c
      else if act = KEYBINDING_DUMP then keybinding_dump env c
      else if act = KEYBINDING_SHOW_INFO then keybinding_show_info c
      else if act = KEYBINDING_DISPLAY_MESSAGE
      then do { msg \<leftarrow> data_c d; show_message msg c }
      else if act = KEYBINDING_SEND_CUSTOM_EVENT
      then do { msg \<leftarrow> data_c d; Some (keybinding_send_custom_event msg c) }
      else if act = KEYBINDING_DEFINEKEY then keybinding_definekey env kb c
      else if act = KEYBINDING_BACKGROUND
      then do { bg \<leftarrow> data_color d; keybinding_set_background bg c }
      else if act = KEYBINDING_DEFINEMODE
      then do { m \<leftarrow> data_c d; keybinding_definemode env m c }
      else if act = KEYBINDING_CONFIGURE_OUTPUT
      then do { cfg \<leftarrow> data_o_cfg d; keybinding_configure_output env cfg c }
      else if act = KEYBINDING_CONFIGURE_MESSAGE
      then do { cfg \<leftarrow> data_m_cfg d; Some (keybinding_configure_message cfg c) }
      else if act = KEYBINDING_CONFIGURE_INPUT
      then do { cfg \<leftarrow> data_i_cfg d; Some (keybinding_configure_input cfg c) }
      else if act = KEYBINDING_SETMODECURSOR
      then do { (mode, cursor) \<leftarrow> data_cs d; set_mode_cursor mode cursor c }
      else None)"

definition run_action ::
    "cg_env \<Rightarrow> keybinding_action \<Rightarrow> keybinding_params \<Rightarrow> kb_ptr option \<Rightarrow> compositor \<Rightarrow> (int \<times> compositor) option" where
  "run_action env act d kb c =
     (if act = KEYBINDING_CHANGE_TTY then do { u \<leftarrow> data_u d; Some (keybinding_switch_vt env u c) }
      else if is_tiles_action act then map_option (Pair 0) (on_srv (action_tiles act d) c)
      else if is_views_action act then map_option (Pair 0) (on_srv (action_views act d) c)
      else map_option (Pair 0) (action_other env act d kb c))"

section \<open>parse_rc_line\<close>

text \<open>
  The command itself is a temporary that is freed in the end; the binding that it may define is put
  into memory and from then on belongs to the table. Errors of \<^verbatim>\<open>run_action\<close> are not reported.
\<close>

definition parse_rc_line ::
    "cg_env \<Rightarrow> parse_env \<Rightarrow> string \<Rightarrow> bool \<Rightarrow> compositor \<Rightarrow> ((int \<times> string option) \<times> compositor) option" where
  "parse_rc_line env penv line en c = do {
     modes \<leftarrow> c_modes c;
     (case parse_command (penv\<lparr>pe_modes := modes\<rparr>) line en 1 of
        (Inl err, _) \<Rightarrow> Some ((- 1, err), c)
      | (Inr (act, d), _) \<Rightarrow>
          (case alloc_params d (c_kb_brk c, c_kb_heap c) of (kb, brk, h) \<Rightarrow> do {
             (_, c) \<leftarrow> run_action env act (kb_params d) kb (c\<lparr>c_kb_brk := brk, c_kb_heap := h\<rparr>);
             Some ((0, None), c)
           }))
   }"

end
