(* ===== verification/Key_Events.thy ===== *)
theory Key_Events
  imports Run_Action
begin

text \<open>
  Key events (\<^verbatim>\<open>seat.c\<close>): looking up and carrying out a key binding, the return to the default mode,
  repeating a binding while its key is held, and passing other keys on to the client.
\<close>

section \<open>Keyboard groups\<close>

definition group_of :: "nat \<Rightarrow> compositor \<Rightarrow> cg_keyboard_group option" where
  "group_of g c = find (\<lambda>gr. gr_wlr_group gr = g) (c_groups c)"

definition upd_group ::
    "nat \<Rightarrow> (cg_keyboard_group \<Rightarrow> cg_keyboard_group) \<Rightarrow> compositor \<Rightarrow> compositor option" where
  "upd_group g f c =
     (if group_of g c = None then None
      else Some (c\<lparr>c_groups := map (\<lambda>gr. if gr_wlr_group gr = g then f gr else gr) (c_groups c)\<rparr>))"

section \<open>Bindings\<close>

text \<open>
  Following \<^verbatim>\<open>repeat_keybinding\<close>: the array must still be where it was when the pointer was taken.
\<close>

definition deref_slot :: "nat \<times> nat \<Rightarrow> compositor \<Rightarrow> kb_cell option" where
  "deref_slot slot c =
     (case slot of (base, i) \<Rightarrow>
      if base = c_array c \<and> i < length (kl_array (c_keybindings c))
      then do { p \<leftarrow> kl_array (c_keybindings c) ! i; c_kb_heap c p }
      else None)"

definition run_cell :: "cg_env \<Rightarrow> kb_cell \<Rightarrow> compositor \<Rightarrow> compositor option" where
  "run_cell env b c = map_option snd (run_action env (kc_action b) (kc_data b) (kc_kb b) c)"

definition handle_keyboard_repeat :: "cg_env \<Rightarrow> nat \<Rightarrow> compositor \<Rightarrow> compositor option" where
  "handle_keyboard_repeat env g c = do {
     gr \<leftarrow> group_of g c;
     case gr_repeat gr of
       None \<Rightarrow> Some c
     | Some slot \<Rightarrow> do {
         let rate = kg_repeat_rate (gr_settings gr);
         let c = (if rate > 0 then emit_srv (Seat_call (Timer_update g (1000 sdiv rate))) c else c);
         b \<leftarrow> deref_slot slot c;
         run_cell env b c
       }
   }"

definition keyboard_disarm_key_repeat :: "nat \<Rightarrow> compositor \<Rightarrow> compositor option" where
  "keyboard_disarm_key_repeat g c =
     map_option (emit_srv (Seat_call (Timer_update g 0))) (upd_group g (\<lambda>gr. gr\<lparr>gr_repeat := None\<rparr>) c)"

text \<open>The mode ends with the key; the cursor image and the surface under it come back.\<close>

definition leave_mode :: "cg_env \<Rightarrow> compositor \<Rightarrow> compositor" where
  "leave_mode env c =
     (let se = s_seat (c_srv c)
      in if se_mode se = se_default_mode se then c
         else let c = c\<lparr>c_srv := upd_seat (\<lambda>se. se\<lparr>se_mode := se_default_mode se\<rparr>) (c_srv c)\<rparr>
              in if \<not> (se_enable_cursor se \<and> ce_renderer env) then c
                 else let c = emit_srv (Seat_call (Cursor_set_xcursor ''left_ptr'')) c
                      in case s_node_at (c_srv c) of
                           Hit_buffer (Some surf) \<Rightarrow> emit_srv (Pointer_enter surf) c
                         | _ \<Rightarrow> c)"

definition arm_repeat :: "nat \<Rightarrow> nat \<Rightarrow> compositor \<Rightarrow> compositor option" where
  "arm_repeat g i c = do {
     gr \<leftarrow> group_of g c;
     let delay = kg_repeat_delay (gr_settings gr);
     if delay > 0
     then map_option (emit_srv (Seat_call (Timer_update g delay)))
            (upd_group g (\<lambda>gr. gr\<lparr>gr_repeat := Some (c_array c, i)\<rparr>) c)
     else Some c
   }"

definition message_clear :: "compositor \<Rightarrow> compositor option" where
  "message_clear c = do { p \<leftarrow> s_curr_output (c_srv c); Some (emit_srv (Message_clear p) c) }"

definition handle_command_key_bindings ::
    "cg_env \<Rightarrow> u32 \<Rightarrow> u32 \<Rightarrow> u32 \<Rightarrow> nat \<Rightarrow> compositor \<Rightarrow> (bool \<times> compositor) option" where
  "handle_command_key_bindings env keysym modifiers mode g c = do {
     gr \<leftarrow> group_of g c;
     if kg_enable_keybindings (gr_settings gr) = 0 then Some (False, c)
     else do {
       found \<leftarrow> find_keybinding (c_keybindings c) modifiers (ucast mode) keysym (c_kb_heap c);
       let c = leave_mode env c;
       case found of
         Some i \<Rightarrow> do {
           c \<leftarrow> arm_repeat g i c;
           c \<leftarrow> message_clear c;
           b \<leftarrow> deref_slot (c_array c, i) c;
           c \<leftarrow> run_cell env b c;
           Some (True, emit_srv Idle_activity c)
         }
       | None \<Rightarrow>
           if mode \<noteq> 0
           then do {
             (_, c) \<leftarrow> run_action env KEYBINDING_NOOP Data_none None c;
             c \<leftarrow> show_message ''unbound key pressed'' c;
             Some (True, c)
           }
           else Some (False, c)
     }
   }"

section \<open>Events\<close>

text \<open>The key symbols of xkbcommon: both keys of shift, control, alt, super and hyper.\<close>

definition key_is_modifier :: "u32 \<Rightarrow> bool" where
  "key_is_modifier key \<longleftrightarrow>
     key \<in> {0xFFE1, 0xFFE2, 0xFFE3, 0xFFE4, 0xFFE9, 0xFFEA, 0xFFEB, 0xFFEC, 0xFFED, 0xFFEE}"

text \<open>
  A key event as wlroots and xkbcommon present it: the symbols of the key, the modifiers that are
  down, and those that the key itself consumed.
\<close>

record key_event =
  ke_keycode :: u32
  ke_pressed :: bool
  ke_syms :: "u32 list"
  ke_modifiers :: u32
  ke_consumed :: u32

definition handle_sym ::
    "cg_env \<Rightarrow> nat \<Rightarrow> key_event \<Rightarrow> u32 \<Rightarrow> bool \<times> compositor \<Rightarrow> (bool \<times> compositor) option" where
  "handle_sym env g ev keysym st =
     (case st of (handled, c) \<Rightarrow>
      if ke_pressed ev \<and> \<not> key_is_modifier keysym
      then do {
        (r, c) \<leftarrow> handle_command_key_bindings env keysym (ke_modifiers ev AND NOT (ke_consumed ev))
                    (ucast (se_mode (s_seat (c_srv c)))) g c;
        Some (handled \<or> r, c)
      }
      else do {
        gr \<leftarrow> group_of g c;
        if gr_repeat gr \<noteq> None \<and> \<not> handled
        then map_option (Pair handled) (keyboard_disarm_key_repeat g c)
        else Some (handled, c)
      })"

definition handle_key_event :: "cg_env \<Rightarrow> nat \<Rightarrow> key_event \<Rightarrow> compositor \<Rightarrow> compositor option" where
  "handle_key_event env g ev c = do {
     (handled, c) \<leftarrow> ofold (handle_sym env g ev) (ke_syms ev) (False, c);
     let c = (if handled then c
              else emit_srv (Seat_call (Keyboard_notify_key (ke_keycode ev) (ke_pressed ev)))
                     (emit_srv (Seat_call (Seat_set_keyboard (Some g))) (c\<lparr>c_seat_keyboard := Some g\<rparr>)));
     Some (emit_srv Idle_activity c)
   }"

definition handle_modifier_event :: "nat \<Rightarrow> compositor \<Rightarrow> compositor" where
  "handle_modifier_event keyboard c =
     emit_srv Idle_activity
       (emit_srv (Seat_call (Keyboard_notify_modifiers keyboard))
         (emit_srv (Seat_call (Seat_set_keyboard (Some keyboard))) (c\<lparr>c_seat_keyboard := Some keyboard\<rparr>)))"

end
