(* ===== verification/Seat_Devices.thy ===== *)
theory Seat_Devices
  imports Key_Events
begin

text \<open>
  Input devices coming and going (\<^verbatim>\<open>seat.c\<close>, \<^verbatim>\<open>input_manager.c\<close>): the counters of the seat, its
  capabilities, and the groups in which keyboards with the same settings are put together.
\<close>

text \<open>
  What the surroundings say of a device: whether the memory for it, for its pointer or touch struct and
  the XKB context can be had,
  the compiled default keymap, the repeat settings the keyboard comes with, which groups of wlroots
  accept it, the address of a new group, the output a pointer or touch device belongs to.
\<close>

record device_env =
  de_device_ok :: bool
  de_alloc_ok :: bool
  de_context_ok :: bool
  de_keymap :: "nat option"
  de_rate :: int
  de_delay :: int
  de_add_ok :: "nat \<Rightarrow> bool"
  de_group_alloc_ok :: bool
  de_new_group :: "nat option"
  de_output_name :: "string option"

definition count_seat :: "(cg_seat \<Rightarrow> cg_seat) \<Rightarrow> compositor \<Rightarrow> compositor" where
  "count_seat f c = c\<lparr>c_srv := upd_seat f (c_srv c)\<rparr>"

section \<open>Capabilities\<close>

definition update_capabilities :: "cg_env \<Rightarrow> compositor \<Rightarrow> compositor" where
  "update_capabilities env c =
     (let se = s_seat (c_srv c);
          pointer = (se_num_pointers se > 0);
          c = emit_srv (Seat_call (Set_capabilities (se_num_keyboards se > 0) pointer (se_num_touch se > 0))) c
      in if \<not> ce_renderer env then c
         else emit_srv (Seat_call (if \<not> pointer \<or> \<not> se_enable_cursor se then Cursor_unset_image
                                   else Cursor_set_xcursor ''left_ptr'')) c)"

section \<open>Pointers and touch devices\<close>

definition map_to_output :: "device_env \<Rightarrow> nat \<Rightarrow> compositor \<Rightarrow> compositor option" where
  "map_to_output de w c =
     (case de_output_name de of
        None \<Rightarrow> Some c
      | Some name \<Rightarrow> do {
          found \<leftarrow> find_by_name (Some name) (s_outputs (c_srv c)) (c_srv c);
          case found of
            None \<Rightarrow> Some c
          | Some p \<Rightarrow> do {
              out \<leftarrow> s_outs (c_srv c) p;
              Some (emit_srv (Seat_call (Cursor_map_to_output w (o_wlr_output out))) c)
            }
        })"

definition new_touch :: "device_env \<Rightarrow> cg_input_device \<Rightarrow> compositor \<Rightarrow> (cg_input_device \<times> compositor) option" where
  "new_touch de d c =
     (if \<not> de_alloc_ok de then Some (d, c)
      else let c = emit_srv (Seat_call (Cursor_attach (dv_wlr_device d))) c;
               c = count_seat (\<lambda>se. se\<lparr>se_num_touch := se_num_touch se + 1\<rparr>) c
           in map_option (Pair (d\<lparr>dv_touch := True\<rparr>)) (map_to_output de (dv_wlr_device d) c))"

definition remove_touch :: "cg_input_device \<Rightarrow> compositor \<Rightarrow> compositor" where
  "remove_touch d c =
     (if \<not> dv_touch d then c
      else count_seat (\<lambda>se. se\<lparr>se_num_touch := se_num_touch se - 1\<rparr>)
             (emit_srv (Seat_call (Cursor_detach (dv_wlr_device d))) c))"

definition new_pointer :: "device_env \<Rightarrow> cg_input_device \<Rightarrow> compositor \<Rightarrow> (cg_input_device \<times> compositor) option" where
  "new_pointer de d c =
     (if \<not> de_alloc_ok de then Some (d, c)
      else let c = emit_srv (Seat_call (Cursor_attach (dv_wlr_device d))) c;
               c = count_seat (\<lambda>se. se\<lparr>se_num_pointers := se_num_pointers se + 1\<rparr>) c
           in map_option (Pair (d\<lparr>dv_pointer := True\<rparr>)) (map_to_output de (dv_wlr_device d) c))"

definition remove_pointer :: "cg_input_device \<Rightarrow> compositor \<Rightarrow> compositor" where
  "remove_pointer d c =
     (if \<not> dv_pointer d then c
      else count_seat (\<lambda>se. se\<lparr>se_num_pointers := se_num_pointers se - 1\<rparr>)
             (emit_srv (Seat_call (Cursor_detach (dv_wlr_device d))) c))"

section \<open>Keyboards\<close>

definition repeat_info_match :: "device_env \<Rightarrow> keyboard_group \<Rightarrow> bool" where
  "repeat_info_match de g \<longleftrightarrow> de_rate de = kg_repeat_rate g \<and> de_delay de = kg_repeat_delay g"

definition joins_group :: "device_env \<Rightarrow> nat \<Rightarrow> cg_keyboard_group \<Rightarrow> bool" where
  "joins_group de keymap gr \<longleftrightarrow>
     gr_keymap gr = keymap \<and> repeat_info_match de (gr_settings gr) \<and> de_add_ok de (gr_wlr_group gr)"

fun join_group :: "device_env \<Rightarrow> nat \<Rightarrow> nat \<Rightarrow> cg_keyboard_group list \<Rightarrow> cg_keyboard_group list option" where
  "join_group de keymap w [] = None"
| "join_group de keymap w (gr # grs) =
     (if joins_group de keymap gr then Some (gr\<lparr>gr_keyboards := gr_keyboards gr @ [w]\<rparr> # grs)
      else map_option ((#) gr) (join_group de keymap w grs))"

definition create_group :: "device_env \<Rightarrow> nat \<Rightarrow> cg_input_device \<Rightarrow> compositor \<Rightarrow> compositor" where
  "create_group de keymap d c =
     (case (de_group_alloc_ok de, de_new_group de) of
        (True, Some g) \<Rightarrow>
          let gr = \<lparr>gr_wlr_group = g,
                    gr_settings = \<lparr>kg_identifier = dv_identifier d, kg_enable_keybindings = 1,
                                   kg_repeat_rate = de_rate de, kg_repeat_delay = de_delay de\<rparr>,
                    gr_keymap = keymap, gr_keyboards = [dv_wlr_device d], gr_repeat = None\<rparr>
          in c\<lparr>c_groups := configure_group (c_input_config c) gr # c_groups c\<rparr>
      | _ \<Rightarrow> c)"

definition cg_keyboard_group_add :: "device_env \<Rightarrow> nat \<Rightarrow> cg_input_device \<Rightarrow> compositor \<Rightarrow> compositor" where
  "cg_keyboard_group_add de keymap d c =
     (case (if dv_is_virtual d then None else join_group de keymap (dv_wlr_device d) (c_groups c)) of
        Some grs \<Rightarrow> c\<lparr>c_groups := grs\<rparr>
      | None \<Rightarrow> create_group de keymap d c)"

text \<open>Without an XKB context or keymap the keyboard is not counted.\<close>

definition new_keyboard :: "device_env \<Rightarrow> cg_input_device \<Rightarrow> compositor \<Rightarrow> compositor" where
  "new_keyboard de d c =
     (case (de_context_ok de, de_keymap de) of
        (True, Some keymap) \<Rightarrow>
          let c = count_seat (\<lambda>se. se\<lparr>se_num_keyboards := se_num_keyboards se + 1\<rparr>)
                    (cg_keyboard_group_add de keymap d c)
          in emit_srv (Seat_call (Seat_set_keyboard (Some (dv_wlr_device d))))
               (c\<lparr>c_seat_keyboard := Some (dv_wlr_device d)\<rparr>)
      | _ \<Rightarrow> c)"

definition keyboard_group_of :: "nat \<Rightarrow> compositor \<Rightarrow> cg_keyboard_group option" where
  "keyboard_group_of w c = find (\<lambda>gr. w \<in> set (gr_keyboards gr)) (c_groups c)"

definition leave_group :: "nat \<Rightarrow> cg_keyboard_group \<Rightarrow> compositor \<Rightarrow> compositor" where
  "leave_group w gr c =
     (let g = gr_wlr_group gr; rest = remove1 w (gr_keyboards gr)
      in if rest \<noteq> []
         then c\<lparr>c_groups := map (\<lambda>x. if gr_wlr_group x = g then x\<lparr>gr_keyboards := rest\<rparr> else x) (c_groups c)\<rparr>
         else let c = (if c_seat_keyboard c = Some g
                       then emit_srv (Seat_call (Seat_set_keyboard None)) (c\<lparr>c_seat_keyboard := None\<rparr>) else c)
              in c\<lparr>c_groups := filter (\<lambda>x. gr_wlr_group x \<noteq> g) (c_groups c)\<rparr>)"

definition remove_keyboard :: "cg_input_device \<Rightarrow> compositor \<Rightarrow> compositor" where
  "remove_keyboard d c =
     (let c = (case keyboard_group_of (dv_wlr_device d) c of
                 Some gr \<Rightarrow> leave_group (dv_wlr_device d) gr c
               | None \<Rightarrow> c)
      in count_seat (\<lambda>se. se\<lparr>se_num_keyboards := se_num_keyboards se - 1\<rparr>) c)"

section \<open>Devices\<close>

definition seat_add_device ::
    "cg_env \<Rightarrow> device_env \<Rightarrow> cg_input_device \<Rightarrow> compositor \<Rightarrow> (cg_input_device \<times> compositor) option" where
  "seat_add_device env de d c =
     (case dv_type d of
        WLR_INPUT_DEVICE_KEYBOARD \<Rightarrow> Some (d, update_capabilities env (new_keyboard de d c))
      | WLR_INPUT_DEVICE_POINTER \<Rightarrow> map_option (map_prod id (update_capabilities env)) (new_pointer de d c)
      | WLR_INPUT_DEVICE_TOUCH \<Rightarrow> map_option (map_prod id (update_capabilities env)) (new_touch de d c)
      | _ \<Rightarrow> Some (d, c))"

definition seat_remove_device :: "cg_env \<Rightarrow> cg_input_device \<Rightarrow> compositor \<Rightarrow> compositor" where
  "seat_remove_device env d c =
     (case dv_type d of
        WLR_INPUT_DEVICE_KEYBOARD \<Rightarrow> update_capabilities env (remove_keyboard d c)
      | WLR_INPUT_DEVICE_POINTER \<Rightarrow> update_capabilities env (remove_pointer d c)
      | WLR_INPUT_DEVICE_TOUCH \<Rightarrow> update_capabilities env (remove_touch d c)
      | _ \<Rightarrow> c)"

text \<open>
  \<^verbatim>\<open>new_input\<close> for a device of which wlroots reports the record \<open>d\<close>; an element of \<open>c_devices\<close>
  stands for the allocated struct, so the fields that \<^verbatim>\<open>seat_add_device\<close> sets are stored there.
\<close>

definition new_input :: "cg_env \<Rightarrow> device_env \<Rightarrow> bool \<Rightarrow> cg_input_device \<Rightarrow> compositor \<Rightarrow> compositor option" where
  "new_input env de virtual d c =
     (if \<not> de_device_ok de then Some c
      else do {
        let d = d\<lparr>dv_is_virtual := virtual, dv_pointer := False, dv_touch := False\<rparr>;
        let d = configure_device (c_input_config c) d;
        (d, c) \<leftarrow> seat_add_device env de d c;
        Some (c\<lparr>c_devices := wl_insert d (c_devices c)\<rparr>)
      })"

definition handle_new_input :: "cg_env \<Rightarrow> device_env \<Rightarrow> cg_input_device \<Rightarrow> compositor \<Rightarrow> compositor option" where
  "handle_new_input env de d c = new_input env de False d c"

definition handle_virtual_keyboard :: "cg_env \<Rightarrow> device_env \<Rightarrow> cg_input_device \<Rightarrow> compositor \<Rightarrow> compositor option" where
  "handle_virtual_keyboard env de d c = new_input env de True d c"

definition input_manager_handle_device_destroy :: "cg_env \<Rightarrow> nat \<Rightarrow> compositor \<Rightarrow> compositor option" where
  "input_manager_handle_device_destroy env w c = do {
     d \<leftarrow> find (\<lambda>d. dv_wlr_device d = w) (c_devices c);
     let c = seat_remove_device env d c;
     Some (c\<lparr>c_devices := wl_remove d (c_devices c)\<rparr>)
   }"

definition handle_virtual_pointer ::
    "cg_env \<Rightarrow> device_env \<Rightarrow> nat option \<Rightarrow> cg_input_device \<Rightarrow> compositor \<Rightarrow> compositor option" where
  "handle_virtual_pointer env de suggested_output d c = do {
     c \<leftarrow> new_input env de True d c;
     Some (case suggested_output of
             Some w \<Rightarrow> emit_srv (Seat_call (Cursor_map_to_output (dv_wlr_device d) w)) c
           | None \<Rightarrow> c)
   }"

end
