(* ===== verification/Key_Props.thy ===== *)
theory Key_Props
  imports Seat_Devices Example_Output
begin

text \<open>
  Properties of the key bindings in use: a binding that defines a binding cannot be carried out
  twice, so holding its key down is a fault.
\<close>

section \<open>Memory of the bindings\<close>

definition kb_shrinks :: "kb_heap \<Rightarrow> kb_heap \<Rightarrow> bool" where
  "kb_shrinks h h' \<longleftrightarrow> (\<forall>q. h' q = None \<or> h' q = h q)"

lemma kb_shrinks_refl: "kb_shrinks h h"
  by (simp add: kb_shrinks_def)

lemma kb_shrinks_trans: "kb_shrinks h h' \<Longrightarrow> kb_shrinks h' h'' \<Longrightarrow> kb_shrinks h h''"
  unfolding kb_shrinks_def by metis

lemma kb_shrinks_Some: "kb_shrinks h h' \<Longrightarrow> h' q = Some b \<Longrightarrow> h q = Some b"
  unfolding kb_shrinks_def by (metis option.distinct(1))

lemma keybinding_free_shrinks:
  assumes "keybinding_free fuel p r h = Some h'"
  shows "kb_shrinks h h'" and "h' p = None"
proof -
  have "kb_shrinks h h' \<and> h' p = None" using assms
  proof (induction fuel arbitrary: p r h h')
    case (Suc fuel)
    then obtain b where b: "h p = Some b" by (auto simp: bind_eq_Some)
    let ?sub = "if kc_action b = KEYBINDING_DEFINEKEY \<and> r
           then (case kc_kb b of None \<Rightarrow> Some h | Some q \<Rightarrow> keybinding_free fuel q True h)
           else Some h"
    obtain h1 where f: "?sub = Some h1" using Suc.prems b by (cases ?sub) simp_all
    then have h': "h' = h1(p := None)" using Suc.prems b by (simp split: if_split_asm)
    have "kb_shrinks h h1"
      using f Suc.IH kb_shrinks_refl by (auto split: if_split_asm option.split_asm)
    then show ?case by (simp add: h' kb_shrinks_def)
  qed simp
  then show "kb_shrinks h h'" and "h' p = None" by blast+
qed

section \<open>Searching an array with dangling entries\<close>

lemma find_slot_SomeD:
  assumes "find_slot P n xs h = Some (Some j)"
  shows "n \<le> j \<and> j - n < length xs \<and> (\<exists>q b. xs ! (j - n) = Some q \<and> h q = Some b \<and> P b) \<and>
         (\<forall>k < j - n. \<exists>q b. xs ! k = Some q \<and> h q = Some b \<and> \<not> P b)"
  using assms
proof (induction P n xs h rule: find_slot.induct)
  case (3 P n p ps h)
  then obtain b where b: "h p = Some b" by (auto split: option.splits)
  show ?case
  proof (cases "P b")
    case False
    with 3 b have ih: "Suc n \<le> j \<and> j - Suc n < length ps \<and> (\<exists>q b. ps ! (j - Suc n) = Some q \<and> h q = Some b \<and> P b) \<and>
        (\<forall>k < j - Suc n. \<exists>q b. ps ! k = Some q \<and> h q = Some b \<and> \<not> P b)" by simp
    then have j: "j - n = Suc (j - Suc n)" by linarith
    show ?thesis unfolding j
    proof (intro conjI allI impI)
      fix k assume "k < Suc (j - Suc n)"
      then show "\<exists>q b. (Some p # ps) ! k = Some q \<and> h q = Some b \<and> \<not> P b"
        using ih b False by (cases k) auto
    qed (use ih in auto)
  qed (use 3 b in auto)
qed auto

lemma find_slot_NoneD:
  "find_slot P n xs h = Some None \<Longrightarrow> k < length xs \<Longrightarrow> \<exists>q b. xs ! k = Some q \<and> h q = Some b \<and> \<not> P b"
proof (induction P n xs h arbitrary: k rule: find_slot.induct)
  case (3 P n p ps h)
  then show ?case by (cases k) (auto split: option.splits if_splits)
qed auto

text \<open>The search stops at the first entry that satisfies \<open>P\<close>, unless it meets a freed one before.\<close>

lemma find_slot_first:
  assumes "find_slot P n xs h = Some r"
    and "j < length xs" and "xs ! j = Some p" and "h p = Some b" and "P b"
    and before: "\<And>k q b. k < j \<Longrightarrow> xs ! k = Some q \<Longrightarrow> h q = Some b \<Longrightarrow> \<not> P b"
  shows "r = Some (n + j)"
  using assms
proof (induction P n xs h arbitrary: j rule: find_slot.induct)
  case (3 P n q qs h)
  then obtain b' where b': "h q = Some b'" by (auto split: option.splits)
  show ?case
  proof (cases j)
    case 0
    with 3 show ?thesis by simp
  next
    case (Suc i)
    then have "\<not> P b'" using "3.prems"(6) [of 0 q b'] b' by simp
    moreover have "find_slot P (Suc n) qs h = Some r" using "3.prems"(1) b' \<open>\<not> P b'\<close> by simp
    moreover have "\<not> P b''" if "k < i" "qs ! k = Some q'" "h q' = Some b''" for k q' b''
      using "3.prems"(6) [of "Suc k" q' b''] Suc that by simp
    ultimately have "r = Some (Suc n + i)"
      using "3.IH" [OF b', of i] "3.prems"(2-5) Suc by auto
    then show ?thesis by (simp add: Suc)
  qed
qed auto

section \<open>Pushing a binding twice\<close>

lemma keybinding_resize_True:
  obtains l' where "keybinding_resize True l = (0, l')" "kl_length l' = kl_length l"
    "length (kl_array l) < 2 ^ 32 \<Longrightarrow> length (kl_array l') < 2 ^ 32"
    "unat (kl_length l) \<le> length (kl_array l) \<Longrightarrow> unat (kl_length l) \<le> length (kl_array l') \<Longrightarrow>
     take (unat (kl_length l)) (kl_array l') = take (unat (kl_length l)) (kl_array l)"
proof (cases "kl_length l = kl_capacity l")
  case True
  let ?c = "kl_capacity l * 2"
  let ?l = "l\<lparr>kl_capacity := ?c, kl_array := take (unat ?c) (kl_array l @ replicate (unat ?c) None)\<rparr>"
  show ?thesis
  proof (rule that [of ?l])
    show "keybinding_resize True l = (0, ?l)" using True by (simp add: keybinding_resize_def)
    have "unat ?c < 2 ^ 32" using unsigned_less [of ?c] by simp
    then show "length (kl_array ?l) < 2 ^ 32" by simp
    assume "unat (kl_length l) \<le> length (kl_array l)" and "unat (kl_length l) \<le> length (kl_array ?l)"
    then show "take (unat (kl_length l)) (kl_array ?l) = take (unat (kl_length l)) (kl_array l)"
      by (simp add: min_def)
  qed simp
next
  case False
  then show ?thesis by (intro that [of l]) (simp_all add: keybinding_resize_def)
qed

text \<open>After a push the search for the pushed binding ends at its own slot.\<close>

lemma push_finds_itself:
  assumes push: "keybinding_list_push fuel True l p h = Some (r, l1, h1)" and p1: "h1 p = Some b"
    and small: "length (kl_array l) < 2 ^ 32"
  shows "kb_shrinks h h1"
    and "unat (kl_length l1) \<le> length (kl_array l1)"
    and "find_slot (kb_match (kc_modifiers b) (kc_mode b) (kc_key b)) 0
           (take (unat (kl_length l1)) (kl_array l1)) h1 = Some x \<Longrightarrow>
         \<exists>i. x = Some i \<and> i < unat (kl_length l1) \<and> kl_array l1 ! i = Some p"
proof -
  obtain l' where res: "keybinding_resize True l = (0, l')" and len: "kl_length l' = kl_length l"
    and small': "length (kl_array l') < 2 ^ 32"
    using keybinding_resize_True [of l] small by metis
  let ?n = "unat (kl_length l')" and ?arr = "kl_array l'"
  have "\<exists>c. h p = Some c" using push res by (auto simp: keybinding_list_push_def bind_eq_Some)
  then obtain c where c: "h p = Some c" by blast
  let ?P = "kb_match (kc_modifiers c) (kc_mode c) (kc_key c)"
  have Pc: "?P c" by (simp add: kb_match_def xor_eq_0)
  obtain found where found: "find_keybinding l' (kc_modifiers c) (kc_mode c) (kc_key c) h = Some found"
    using push res c by (auto simp: keybinding_list_push_def bind_eq_Some)
  then have n: "?n \<le> length ?arr" and fs: "find_slot ?P 0 (take ?n ?arr) h = Some found"
    by (auto simp: find_keybinding_def split: if_splits)
  have "kb_shrinks h h1 \<and> unat (kl_length l1) \<le> length (kl_array l1) \<and>
    (find_slot (kb_match (kc_modifiers b) (kc_mode b) (kc_key b)) 0 (take (unat (kl_length l1)) (kl_array l1)) h1
       = Some x \<longrightarrow> (\<exists>i. x = Some i \<and> i < unat (kl_length l1) \<and> kl_array l1 ! i = Some p))"
  proof (cases found)
    case (Some i)
    note hit = find_slot_SomeD [OF fs [unfolded Some]]
    from push res c found Some obtain old h' where free: "keybinding_free fuel old True h = Some h'"
      and l1: "l1 = l'\<lparr>kl_array := ?arr[i := Some p]\<rparr>" and h1: "h1 = h'"
      by (auto simp: keybinding_list_push_def bind_eq_Some)
    have sh: "kb_shrinks h h1" using keybinding_free_shrinks(1) [OF free] h1 by simp
    have bc: "b = c" using kb_shrinks_Some [OF sh p1] c by simp
    have i: "i < ?n" using hit n by simp
    let ?xs = "(take ?n ?arr)[i := Some p]"
    have xs: "take (unat (kl_length l1)) (kl_array l1) = ?xs" using i by (simp add: l1 take_update_swap)
    have "x = Some i" if f: "find_slot ?P 0 ?xs h1 = Some x"
    proof -
      have "x = Some (0 + i)"
      proof (rule find_slot_first [OF f])
        show "i < length ?xs" using i n by simp
        show "?xs ! i = Some p" using i n by simp
        show "h1 p = Some c" using p1 bc by simp
        show "?P c" by (rule Pc)
        fix k q b' assume k: "k < i" and q: "?xs ! k = Some q" and b': "h1 q = Some b'"
        have "take ?n ?arr ! k = Some q" using q k by simp
        moreover have "h q = Some b'" by (rule kb_shrinks_Some [OF sh b'])
        ultimately show "\<not> ?P b'" using hit k by fastforce
      qed
      then show ?thesis by simp
    qed
    moreover have "kl_array l1 ! i = Some p" using i n by (simp add: l1)
    ultimately show ?thesis using sh i n unfolding xs bc by (auto simp: l1)
  next
    case None
    note miss = find_slot_NoneD [OF fs [unfolded None]]
    from push res c found None have lt: "?n < length ?arr"
      and l1: "l1 = l'\<lparr>kl_array := ?arr[?n := Some p], kl_length := kl_length l' + 1\<rparr>" and h1: "h1 = h"
      by (auto simp: keybinding_list_push_def bind_eq_Some split: if_splits)
    have bc: "b = c" using p1 c h1 by simp
    have suc: "unat (kl_length l' + 1) = Suc ?n"
      using lt small' unat_add_of_nat [of "kl_length l'" 1] by simp
    have xs: "take (unat (kl_length l1)) (kl_array l1) = take ?n ?arr @ [Some p]"
      using lt by (simp add: l1 suc take_Suc_conv_app_nth)
    have "x = Some ?n" if f: "find_slot ?P 0 (take ?n ?arr @ [Some p]) h = Some x"
    proof -
      have "x = Some (0 + ?n)"
      proof (rule find_slot_first [OF f _ _ c Pc])
        show "?n < length (take ?n ?arr @ [Some p])" using lt by simp
        show "(take ?n ?arr @ [Some p]) ! ?n = Some p" using lt by (simp add: nth_append)
        fix k q b' assume k: "k < ?n" and q: "(take ?n ?arr @ [Some p]) ! k = Some q" and b': "h q = Some b'"
        then show "\<not> ?P b'" using miss [of k] lt by (auto simp: nth_append)
      qed
      then show ?thesis by simp
    qed
    moreover have "kl_array l1 ! ?n = Some p" using lt by (simp add: l1)
    ultimately show ?thesis using lt suc kb_shrinks_refl unfolding xs bc h1 by (auto simp: l1)
  qed
  then show "kb_shrinks h h1" and "unat (kl_length l1) \<le> length (kl_array l1)"
    and "find_slot (kb_match (kc_modifiers b) (kc_mode b) (kc_key b)) 0
           (take (unat (kl_length l1)) (kl_array l1)) h1 = Some x \<Longrightarrow>
         \<exists>i. x = Some i \<and> i < unat (kl_length l1) \<and> kl_array l1 ! i = Some p" by blast+
qed

lemma push_twice_frees:
  assumes push: "keybinding_list_push fuel True l p h = Some (r, l1, h1)" and p1: "h1 p = Some b"
    and small: "length (kl_array l) < 2 ^ 32"
    and again: "keybinding_list_push fuel' True l1 p h1 = Some (r', l2, h2)"
  shows "h2 p = None"
proof -
  note first = push_finds_itself [OF push p1 small]
  obtain l' where res: "keybinding_resize True l1 = (0, l')" and len: "kl_length l' = kl_length l1"
    and tk: "unat (kl_length l1) \<le> length (kl_array l') \<Longrightarrow>
             take (unat (kl_length l1)) (kl_array l') = take (unat (kl_length l1)) (kl_array l1)"
    using keybinding_resize_True [of l1] first(2) by metis
  obtain x where found: "find_keybinding l' (kc_modifiers b) (kc_mode b) (kc_key b) h1 = Some x"
    using again res p1 by (auto simp: keybinding_list_push_def bind_eq_Some)
  then have n: "unat (kl_length l1) \<le> length (kl_array l')"
    and fs: "find_slot (kb_match (kc_modifiers b) (kc_mode b) (kc_key b)) 0
               (take (unat (kl_length l1)) (kl_array l1)) h1 = Some x"
    using tk len by (auto simp: find_keybinding_def split: if_splits)
  from first(3) [OF fs] obtain i where x: "x = Some i" and i: "i < unat (kl_length l1)"
    and arr: "kl_array l1 ! i = Some p" by blast
  have "kl_array l' ! i = Some p" using tk [OF n] arr i nth_take by metis
  then obtain h' where "keybinding_free fuel' p True h1 = Some h'" and "h2 = h'"
    using again res p1 found x by (auto simp: keybinding_list_push_def bind_eq_Some)
  then show ?thesis by (simp add: keybinding_free_shrinks(2))
qed

lemma definekey_twice:
  assumes once: "keybinding_definekey env (Some p) c = Some c1"
    and env: "ce_realloc_ok env" and small: "length (kl_array (c_keybindings c)) < 2 ^ 32"
    and same: "c_keybindings c2 = c_keybindings c1" "c_kb_heap c2 = c_kb_heap c1"
  shows "keybinding_definekey env (Some p) c2 = None"
proof (rule ccontr)
  assume "\<not> ?thesis"
  then obtain c3 where "keybinding_definekey env (Some p) c2 = Some c3" by auto
  then obtain r' l2 h2 b2 where
    again: "keybinding_list_push (Suc (c_kb_brk c2)) True (c_keybindings c1) p (c_kb_heap c1) = Some (r', l2, h2)"
    and b2: "h2 p = Some b2"
    using same env by (auto simp: keybinding_definekey_def push_binding_def bind_eq_Some Let_def)
  obtain r l1 h1 b where push: "keybinding_list_push (Suc (c_kb_brk c)) True (c_keybindings c) p (c_kb_heap c) = Some (r, l1, h1)"
    and b: "h1 p = Some b" and c1: "c_keybindings c1 = l1" "c_kb_heap c1 = h1"
    using once env by (auto simp: keybinding_definekey_def push_binding_def bind_eq_Some Let_def event_def)
  from push_twice_frees [OF push b small again [unfolded c1]] b2 show False by simp
qed

section \<open>Holding a key\<close>

lemma kl_of_simps [simp]:
  "c_keybindings (emit_srv x c) = c_keybindings c" "c_kb_heap (emit_srv x c) = c_kb_heap c"
  "c_array (emit_srv x c) = c_array c" "c_groups (emit_srv x c) = c_groups c"
  "c_keybindings (leave_mode env c) = c_keybindings c" "c_kb_heap (leave_mode env c) = c_kb_heap c"
  "c_array (leave_mode env c) = c_array c" "c_groups (leave_mode env c) = c_groups c"
  by (simp_all add: emit_srv_def leave_mode_def Let_def split: node_hit.split option.split)

lemma group_of_simps [simp]:
  "group_of g (emit_srv x c) = group_of g c" "group_of g (leave_mode env c) = group_of g c"
  by (simp_all add: group_of_def)

lemma find_map_upd:
  "(\<And>gr. gr_wlr_group (f gr) = gr_wlr_group gr) \<Longrightarrow>
   find (\<lambda>gr. gr_wlr_group gr = g) (map (\<lambda>gr. if gr_wlr_group gr = g then f gr else gr) grs) =
   map_option f (find (\<lambda>gr. gr_wlr_group gr = g) grs)"
  by (induction grs) auto

lemma message_clear_frame:
  assumes "message_clear c = Some c'"
  shows "c_keybindings c' = c_keybindings c" and "c_kb_heap c' = c_kb_heap c" and "c_array c' = c_array c"
    and "group_of g c' = group_of g c"
  using assms by (auto simp: message_clear_def bind_eq_Some)

lemma arm_repeat_frame:
  assumes "arm_repeat g i c = Some c'"
  shows "c_keybindings c' = c_keybindings c" and "c_kb_heap c' = c_kb_heap c" and "c_array c' = c_array c"
  using assms by (auto simp: arm_repeat_def upd_group_def bind_eq_Some Let_def split: if_splits)

lemma arm_repeat_group:
  assumes "arm_repeat g i c = Some c'" and "group_of g c = Some gr" and "kg_repeat_delay (gr_settings gr) > 0"
  shows "group_of g c' = Some (gr\<lparr>gr_repeat := Some (c_array c, i)\<rparr>)"
  using assms by (auto simp: arm_repeat_def upd_group_def bind_eq_Some Let_def)
    (simp add: group_of_def find_map_upd)

lemma definekey_frame:
  assumes "keybinding_definekey env kb c = Some c'"
  shows "group_of g c' = group_of g c"
  using assms by (auto simp: keybinding_definekey_def push_binding_def bind_eq_Some Let_def event_def group_of_def)

lemma definekey_memory:
  assumes "keybinding_definekey env (Some p) c = Some c'" and env: "ce_realloc_ok env"
    and small: "length (kl_array (c_keybindings c)) < 2 ^ 32"
  shows "kb_shrinks (c_kb_heap c) (c_kb_heap c')" and "c_kb_heap c' p \<noteq> None"
proof -
  obtain r l1 h1 b where push: "keybinding_list_push (Suc (c_kb_brk c)) True (c_keybindings c) p (c_kb_heap c) = Some (r, l1, h1)"
    and b: "h1 p = Some b" and c': "c_kb_heap c' = h1"
    using assms by (auto simp: keybinding_definekey_def push_binding_def bind_eq_Some Let_def event_def)
  show "kb_shrinks (c_kb_heap c) (c_kb_heap c')" using push_finds_itself(1) [OF push b small] c' by simp
  show "c_kb_heap c' p \<noteq> None" using b c' by simp
qed

text \<open>A slot keeps its binding, unless that is the one that the new binding replaces.\<close>

lemma definekey_slot:
  assumes dk: "keybinding_definekey env (Some p) c = Some c'" and env: "ce_realloc_ok env"
    and i: "i < unat (kl_length (c_keybindings c))" "unat (kl_length (c_keybindings c)) \<le> length (kl_array (c_keybindings c))"
    and q: "kl_array (c_keybindings c) ! i = Some q"
  shows "kl_array (c_keybindings c') ! i = Some q \<or>
         (\<exists>fuel. keybinding_free fuel q True (c_kb_heap c) = Some (c_kb_heap c'))"
proof -
  let ?l = "c_keybindings c"
  obtain r l1 h1 where push: "keybinding_list_push (Suc (c_kb_brk c)) True ?l p (c_kb_heap c) = Some (r, l1, h1)"
    and c': "c_keybindings c' = l1" "c_kb_heap c' = h1"
    using dk env by (auto simp: keybinding_definekey_def push_binding_def bind_eq_Some Let_def event_def)
  obtain l' where res: "keybinding_resize True ?l = (0, l')" and len: "kl_length l' = kl_length ?l"
    and tk: "unat (kl_length ?l) \<le> length (kl_array l') \<Longrightarrow>
             take (unat (kl_length ?l)) (kl_array l') = take (unat (kl_length ?l)) (kl_array ?l)"
    using keybinding_resize_True [of ?l] i(2) by metis
  from push res obtain b x where b: "c_kb_heap c p = Some b"
    and found: "find_keybinding l' (kc_modifiers b) (kc_mode b) (kc_key b) (c_kb_heap c) = Some x"
    by (auto simp: keybinding_list_push_def bind_eq_Some)
  then have n: "unat (kl_length ?l) \<le> length (kl_array l')"
    using len by (auto simp: find_keybinding_def split: if_splits)
  have same: "kl_array l' ! i = Some q" using tk [OF n] i(1) q nth_take by metis
  show ?thesis
  proof (cases x)
    case (Some j)
    then obtain old where "kl_array l' ! j = Some old"
      and "keybinding_free (Suc (c_kb_brk c)) old True (c_kb_heap c) = Some h1" and "l1 = l'\<lparr>kl_array := (kl_array l')[j := Some p]\<rparr>"
      using push res b found by (auto simp: keybinding_list_push_def bind_eq_Some)
    then show ?thesis using same c' by (cases "j = i") (auto simp del: keybinding_free.simps)
  next
    case None
    then have "l1 = l'\<lparr>kl_array := (kl_array l')[unat (kl_length l') := Some p], kl_length := kl_length l' + 1\<rparr>"
      using push res b found by (auto simp: keybinding_list_push_def bind_eq_Some split: if_splits)
    then show ?thesis using same c' i len by simp
  qed
qed

lemma run_definekey:
  "kc_action b = KEYBINDING_DEFINEKEY \<Longrightarrow> run_cell env b c = keybinding_definekey env (kc_kb b) c"
  by (simp add: run_cell_def run_action_def is_tiles_action_def is_views_action_def action_other_def
      option.map_comp comp_def option.map_ident)

text \<open>A binding that frees itself takes what it defines with it.\<close>

lemma free_definekey_child:
  assumes "keybinding_free fuel q True h = Some h'" and "h q = Some b"
    and "kc_action b = KEYBINDING_DEFINEKEY" and "kc_kb b = Some p"
  shows "h' p = None"
proof (cases fuel)
  case (Suc n)
  obtain h1 where h1: "keybinding_free n p True h = Some h1" and h': "h' = h1(q := None)"
    using assms Suc by (auto simp: bind_eq_Some split: if_split_asm)
  show ?thesis using keybinding_free_shrinks(2) [OF h1] h' by simp
qed (use assms in simp)

section \<open>An example\<close>

text \<open>
  The example server with one keyboard and one binding: the key 107 in the default mode defines a
  binding of the key 120.
\<close>

definition ex_cell :: "u32 \<Rightarrow> keybinding_action \<Rightarrow> keybinding_params \<Rightarrow> kb_ptr option \<Rightarrow> kb_cell" where
  "ex_cell k act d q = \<lparr>kc_mode = 0, kc_modifiers = 0, kc_key = k, kc_action = act, kc_data = d, kc_kb = q\<rparr>"

definition ex_group :: cg_keyboard_group where
  "ex_group = \<lparr>gr_wlr_group = 50,
     gr_settings = \<lparr>kg_identifier = ''kbd'', kg_enable_keybindings = 1, kg_repeat_rate = 25, kg_repeat_delay = 600\<rparr>,
     gr_keymap = 0, gr_keyboards = [60], gr_repeat = None\<rparr>"

definition ex_message_config :: cg_message_config where
  "ex_message_config = \<lparr>mc_font = Some ''pango:Monospace 10'', mc_display_time = 2,
     mc_bg_color = [Fin 1 0, Fin 1 0, Fin 1 0, Fin 1 0], mc_fg_color = [Fin 0 0, Fin 0 0, Fin 0 0, Fin 1 0],
     mc_enabled = 1, mc_anchor = CG_MESSAGE_TOP_RIGHT\<rparr>"

definition ex_comp :: compositor where
  "ex_comp = \<lparr>c_srv = ex_server,
     c_keybindings = \<lparr>kl_length = 1, kl_capacity = 4, kl_array = [Some 0, None, None, None]\<rparr>,
     c_kb_heap = [0 \<mapsto> ex_cell 107 KEYBINDING_DEFINEKEY Data_none (Some 1),
                  1 \<mapsto> ex_cell 120 KEYBINDING_RUN_COMMAND (Data_c ''xterm'') None],
     c_array = 2, c_kb_brk = 3, c_modes = Some [''top'', ''root'', ''resize''],
     c_modecursors = Some [None, Some ''cell'', None, None],
     c_bg_color = [Fin 0 0, Fin 0 0, Fin 0 0, Fin 1 0], c_message_config = ex_message_config,
     c_output_config = [], c_input_config = [], c_groups = [ex_group], c_seat_keyboard = None,
     c_devices = []\<rparr>"

definition ex_cg_env :: cg_env where
  "ex_cg_env = \<lparr>ce_wlr = ex_env, ce_listening = True, ce_realloc_ok = True, ce_realloc_moves = True,
     ce_realloc_modes = True, ce_realloc_cursors = True, ce_renderer = True, ce_multi = True,
     ce_session = True, ce_ctime = ''Thu Jan  1 00:00:00 1970'', ce_clients = True, ce_bs = False,
     ce_title = (\<lambda>_. None), ce_output_size = (\<lambda>_. (160, 90)), ce_refresh = (\<lambda>_. 60000)\<rparr>"

lemma ex_comp_simps [simp]:
  "c_srv ex_comp = ex_server" "c_groups ex_comp = [ex_group]" "c_array ex_comp = 2" "c_kb_brk ex_comp = 3"
  "c_keybindings ex_comp = \<lparr>kl_length = 1, kl_capacity = 4, kl_array = [Some 0, None, None, None]\<rparr>"
  "c_kb_heap ex_comp = [0 \<mapsto> ex_cell 107 KEYBINDING_DEFINEKEY Data_none (Some 1),
                  1 \<mapsto> ex_cell 120 KEYBINDING_RUN_COMMAND (Data_c ''xterm'') None]"
  "c_modes ex_comp = Some [''top'', ''root'', ''resize'']"
  "c_modecursors ex_comp = Some [None, Some ''cell'', None, None]"
  "c_input_config ex_comp = []" "c_devices ex_comp = []" "c_message_config ex_comp = ex_message_config"
  by (simp_all add: ex_comp_def)

lemma ex_cg_env_simps [simp]:
  "ce_realloc_ok ex_cg_env" "ce_renderer ex_cg_env" "ce_clients ex_cg_env" "\<not> ce_bs ex_cg_env"
  "ce_realloc_moves ex_cg_env" "ce_realloc_modes ex_cg_env" "ce_realloc_cursors ex_cg_env" "ce_wlr ex_cg_env = ex_env"
  by (simp_all add: ex_cg_env_def)

section \<open>The theorem\<close>

text \<open>What the slot of a binding holds after the binding was carried out cannot be carried out again.\<close>

lemma second_definekey:
  assumes dk: "keybinding_definekey env (Some p) c2 = Some c3" and env: "ce_realloc_ok env"
    and small: "length (kl_array (c_keybindings c2)) < 2 ^ 32" and b: "kc_action b = KEYBINDING_DEFINEKEY" "kc_kb b = Some p"
    and i: "i < unat (kl_length (c_keybindings c2))" "unat (kl_length (c_keybindings c2)) \<le> length (kl_array (c_keybindings c2))"
    and q: "kl_array (c_keybindings c2) ! i = Some q" "c_kb_heap c2 q = Some b"
    and b'': "deref_slot (a, i) c4 = Some b''"
    and c4: "c_keybindings c4 = c_keybindings c3" "c_kb_heap c4 = c_kb_heap c3"
  shows "run_cell env b'' c4 = None"
proof -
  note mem3 = definekey_memory [OF dk env small]
  obtain q' where q': "kl_array (c_keybindings c3) ! i = Some q'" "c_kb_heap c3 q' = Some b''"
    using b'' c4 by (auto simp: deref_slot_def bind_eq_Some split: if_splits)
  have "kl_array (c_keybindings c3) ! i = Some q"
  proof (rule ccontr)
    assume "\<not> ?thesis"
    then obtain fuel where "keybinding_free fuel q True (c_kb_heap c2) = Some (c_kb_heap c3)"
      using definekey_slot [OF dk env i q(1)] by blast
    from free_definekey_child [OF this _ b] q(2) mem3(2) show False by simp
  qed
  then have "b'' = b" using q' kb_shrinks_Some [OF mem3(1)] q(2) by fastforce
  then show ?thesis using definekey_twice [OF dk env small, of c4] c4 run_definekey b by simp
qed

text \<open>
  C1: A key that is bound to a definition of a key binding cannot be held down: when the key press
  was handled and the repeat timer then fires, the binding is pushed a second time, frees itself, and
  is read after that. The only assumptions are that allocation succeeds and that the group repeats
  keys.
\<close>

theorem repeating_definekey_faults:
  assumes press: "handle_command_key_bindings env key modifiers mode g c = Some (True, c')"
    and group: "group_of g c = Some gr" "kg_repeat_delay (gr_settings gr) > 0"
    and slot: "find_keybinding (c_keybindings c) modifiers (ucast mode) key (c_kb_heap c) = Some (Some i)"
    and bound: "deref_slot (c_array c, i) c = Some b" "kc_action b = KEYBINDING_DEFINEKEY"
    and env: "ce_realloc_ok env" "length (kl_array (c_keybindings c)) < 2 ^ 32"
  shows "handle_keyboard_repeat env g c' = None"
proof -
  have en: "kg_enable_keybindings (gr_settings gr) \<noteq> 0"
    using press group by (auto simp: handle_command_key_bindings_def split: if_splits)
  from press group slot en obtain c1 c2 b' c3 where
    c1: "arm_repeat g i (leave_mode env c) = Some c1" and c2: "message_clear c1 = Some c2"
    and b': "deref_slot (c_array c2, i) c2 = Some b'" and c3: "run_cell env b' c2 = Some c3"
    and c': "c' = emit_srv Idle_activity c3"
    by (auto simp: handle_command_key_bindings_def bind_eq_Some Let_def)
  note f1 = arm_repeat_frame [OF c1] and f2 = message_clear_frame [OF c2]
  have mem: "c_keybindings c2 = c_keybindings c" "c_kb_heap c2 = c_kb_heap c" "c_array c2 = c_array c"
    using f1 f2 by simp_all
  have "b' = b" using b' bound(1) mem by (auto simp: deref_slot_def split: if_splits)
  then have dk: "keybinding_definekey env (kc_kb b) c2 = Some c3" using c3 run_definekey bound(2) by simp
  then obtain p where p: "kc_kb b = Some p" by (auto simp: keybinding_definekey_def bind_eq_Some)
  note dk = dk [unfolded p]
  have small: "length (kl_array (c_keybindings c2)) < 2 ^ 32" using env(2) mem by simp
  have gr': "group_of g c' = Some (gr\<lparr>gr_repeat := Some (c_array c, i)\<rparr>)"
    using arm_repeat_group [OF c1] group f2(4) definekey_frame [OF dk] c' by simp
  obtain q where q: "kl_array (c_keybindings c2) ! i = Some q" "c_kb_heap c2 q = Some b"
    using bound(1) mem by (auto simp: deref_slot_def bind_eq_Some split: if_splits)
  have i: "i < unat (kl_length (c_keybindings c2))" "unat (kl_length (c_keybindings c2)) \<le> length (kl_array (c_keybindings c2))"
    using slot find_slot_SomeD mem(1) by (fastforce simp: find_keybinding_def split: if_splits)+
  have "run_cell env b'' c4 = None"
    if "deref_slot (c_array c, i) c4 = Some b''" "c_keybindings c4 = c_keybindings c3" "c_kb_heap c4 = c_kb_heap c3"
    for b'' c4
    by (rule second_definekey [OF dk env(1) small bound(2) p i q that])
  then show ?thesis
    using gr' c' by (simp add: handle_keyboard_repeat_def Let_def split: bind_split)
qed

theorem repeating_definekey_faults_witness:
  "\<exists>c'. handle_command_key_bindings ex_cg_env 107 0 0 50 ex_comp = Some (True, c') \<and>
        handle_keyboard_repeat ex_cg_env 50 c' = None"
proof -
  have g: "group_of 50 ex_comp = Some ex_group" by (simp add: group_of_def ex_group_def)
  have slot: "find_keybinding (c_keybindings ex_comp) 0 (ucast (0 :: u32)) 107 (c_kb_heap ex_comp) = Some (Some 0)"
    by (simp add: find_keybinding_def kb_match_def ex_cell_def)
  have b: "deref_slot (c_array ex_comp, 0) ex_comp = Some (ex_cell 107 KEYBINDING_DEFINEKEY Data_none (Some 1))"
    by (simp add: deref_slot_def)
  have lm: "leave_mode ex_cg_env ex_comp = ex_comp" by (simp add: leave_mode_def ex_seat_def)
  obtain c' where press: "handle_command_key_bindings ex_cg_env 107 0 0 50 ex_comp = Some (True, c')"
  proof -
    let ?c = "emit_srv (Message_clear 30) (emit_srv (Seat_call (Timer_update 50 600))
                (ex_comp\<lparr>c_groups := [ex_group\<lparr>gr_repeat := Some (2, 0)\<rparr>]\<rparr>))"
    have arm: "arm_repeat 50 0 ex_comp = Some (emit_srv (Seat_call (Timer_update 50 600))
                (ex_comp\<lparr>c_groups := [ex_group\<lparr>gr_repeat := Some (2, 0)\<rparr>]\<rparr>))"
    proof -
      have "upd_group 50 (\<lambda>gr. gr\<lparr>gr_repeat := Some (2, 0)\<rparr>) ex_comp =
            Some (ex_comp\<lparr>c_groups := [ex_group\<lparr>gr_repeat := Some (2, 0)\<rparr>]\<rparr>)"
        using g by (simp add: upd_group_def) (simp add: ex_group_def)
      then show ?thesis using g by (simp add: arm_repeat_def) (simp add: ex_group_def)
    qed
    have "\<exists>c'. keybinding_definekey ex_cg_env (Some 1) ?c = Some c'"
      by (simp add: keybinding_definekey_def push_binding_def keybinding_list_push_def keybinding_resize_def
          find_keybinding_def kb_match_def ex_cell_def Let_def)
    then obtain c' where dk: "keybinding_definekey ex_cg_env (Some 1) ?c = Some c'" by blast
    have "kg_enable_keybindings (gr_settings ex_group) \<noteq> 0" by (simp add: ex_group_def)
    moreover have mc: "message_clear (emit_srv (Seat_call (Timer_update 50 600))
                (ex_comp\<lparr>c_groups := [ex_group\<lparr>gr_repeat := Some (2, 0)\<rparr>]\<rparr>)) = Some ?c"
      by (simp add: message_clear_def) (simp add: emit_srv_def emit_def)
    moreover have "deref_slot (c_array ?c, 0) ?c = Some (ex_cell 107 KEYBINDING_DEFINEKEY Data_none (Some 1))"
      by (simp add: deref_slot_def)
    moreover have "run_cell ex_cg_env (ex_cell 107 KEYBINDING_DEFINEKEY Data_none (Some 1)) ?c = Some c'"
      using dk run_definekey by (simp add: ex_cell_def)
    ultimately show thesis
      using that slot by (simp add: handle_command_key_bindings_def g lm arm)
  qed
  from repeating_definekey_faults [OF press g _ slot b] show ?thesis
    using press by (auto simp: ex_group_def ex_cell_def)
qed

end
