(* ===== verification/Dump_Props.thy ===== *)
theory Dump_Props
  imports Key_Props "HOL-Library.Sublist"
begin

text \<open>
  Properties of \<^verbatim>\<open>dump\<close>: the arrays of pieces are large enough, so that the dump of a consistent
  state never overruns one; and the use of the text as a format string.
\<close>

section \<open>Arrays of pieces\<close>

lemma ofold_print_str:
  "ofold print_str ps d =
     (if length (ds_arr d) + length ps \<le> ds_size d \<or> ps = []
      then Some (d\<lparr>ds_arr := ds_arr d @ ps\<rparr>) else None)"
  by (induction ps arbitrary: d) (auto simp: print_str_def)

lemma print_pieces_eq:
  "print_pieces n ps = (if length ps \<le> n then Some (concat ps) else None)"
  by (auto simp: print_pieces_def ofold_print_str dyn_str_to_str_def)

lemma length_commas: "length (commas xs) = 2 * length xs - 1"
  by (induction xs rule: commas.induct) auto

lemma each_map:
  assumes "\<And>x. x \<in> set xs \<Longrightarrow> f x \<noteq> None"
  shows "each f xs = Some (map (the \<circ> f) xs)"
  using assms
proof (induction xs)
  case (Cons x xs)
  then obtain y where "f x = Some y" by force
  with Cons show ?case by simp
qed simp

lemma each_length: "each f xs = Some ys \<Longrightarrow> length ys = length xs"
  by (induction xs arbitrary: ys) (auto simp: bind_eq_Some)

lemma each_in: "each f xs = Some ys \<Longrightarrow> x \<in> set xs \<Longrightarrow> \<exists>y \<in> set ys. f x = Some y"
  by (induction xs arbitrary: ys) (fastforce simp: bind_eq_Some)+

section \<open>The parts without memory\<close>

lemma print_message_conf_total: "print_message_conf m \<noteq> None"
  by (simp add: print_message_conf_def print_pieces_eq)

lemma print_keyboard_groups_total: "print_keyboard_groups gs \<noteq> None"
proof -
  have "each (print_keyboard_group \<circ> gr_settings) gs = Some (map (the \<circ> (print_keyboard_group \<circ> gr_settings)) gs)"
    by (rule each_map) (simp add: print_keyboard_group_def print_pieces_eq)
  then show ?thesis by (simp add: print_keyboard_groups_def print_pieces_eq length_commas)
qed

lemma print_input_devices_total: "print_input_devices ds \<noteq> None"
proof -
  have "each print_input_device ds = Some (map (the \<circ> print_input_device) ds)"
    by (rule each_map) (simp add: print_input_device_def print_pieces_eq)
  then show ?thesis by (simp add: print_input_devices_def print_pieces_eq length_commas)
qed

section \<open>The parts that read the memory\<close>

lemma print_view_total:
  assumes "s_views s p = Some v" and "v_surface v \<noteq> None"
  shows "print_view env p s \<noteq> None"
proof -
  obtain pid where "view_get_pid v = Some pid" using assms(2) by (auto simp: view_get_pid_def)
  then show ?thesis using assms(1) by (simp add: print_view_def print_pieces_eq)
qed

lemma print_tile_total:
  assumes t: "s_tiles s tp = Some t" and v: "\<And>p. t_view t = Some p \<Longrightarrow> s_views s p \<noteq> None"
  shows "print_tile tp s \<noteq> None"
proof (cases "t_view t")
  case None
  then show ?thesis using t by (simp add: print_tile_def print_pieces_eq)
next
  case (Some p)
  then obtain vw where "s_views s p = Some vw" using v by blast
  then show ?thesis using t Some by (simp add: print_tile_def print_pieces_eq)
qed

lemma print_workspace_total:
  assumes ok: "server_ok s" and w: "w \<in> live_ws s"
  shows "print_workspace env w s \<noteq> None"
proof -
  obtain ws where ws: "s_workspaces s w = Some ws" using live_ws_ok [OF ok w] by metis
  obtain ts where ts: "ws_ring w s = Some ts" "is_ring (s_tiles s) ts" "focused_tile_of w s = Some (hd ts)"
    "\<forall>t \<in> set ts. \<exists>tl. s_tiles s t = Some tl \<and> tile_ok w (w_views ws) tl"
    "\<exists>p j. ws_ok (s_tiles s) (s_views s) p j w ws \<and> w_output ws = p \<and> p \<in> set (s_outputs s)"
    using live_ws_ring [OF ok w ws] by metis
  have views: "\<forall>v \<in> set (w_views ws). \<exists>vw. s_views s v = Some vw \<and> v_surface vw \<noteq> None"
    using ts(5) by (fastforce simp: ws_ok_def view_ok_def)
  have "each (\<lambda>p. print_view env p s) (w_views ws) = Some (map (the \<circ> (\<lambda>p. print_view env p s)) (w_views ws))"
    by (rule each_map) (use views print_view_total in blast)
  then have v: "print_views env (w_views ws) s \<noteq> None"
    by (simp add: print_views_def print_pieces_eq length_commas)
  have "each (\<lambda>tp. print_tile tp s) ts = Some (map (the \<circ> (\<lambda>tp. print_tile tp s)) ts)"
  proof (rule each_map, rule print_tile_total)
    fix tp assume "tp \<in> set ts"
    then obtain t where t: "s_tiles s tp = Some t" "tile_ok w (w_views ws) t" using ts(4) by blast
    then show "s_tiles s tp = Some (the (s_tiles s tp))" by simp
    fix p assume "t_view (the (s_tiles s tp)) = Some p"
    then show "s_views s p \<noteq> None" using t views by (fastforce simp: tile_ok_def)
  qed
  moreover have "ring_of (hd ts) s = Some ts" using ts(1,3) by (simp add: ws_ring_def)
  ultimately have t: "print_tiles w s \<noteq> None" using ts(3) by (simp add: print_tiles_def print_pieces_eq length_commas)
  from v t ws show ?thesis by (auto simp: print_workspace_def print_pieces_eq)
qed

lemma print_workspaces_total:
  assumes ok: "server_ok s" and p: "p \<in> set (s_outputs s)" and out: "s_outs s p = Some out"
  shows "print_workspaces env out s \<noteq> None"
proof -
  have "out_ok s p" using ok p by (simp add: server_ok_def)
  from out_ok_out [OF this] out obtain wss where wss: "o_workspaces out = Some wss"
    "out_wss (s_outs s) p = Some wss" "length wss = unat (s_nws s)" by auto
  let ?f = "\<lambda>i. do { w \<leftarrow> ws_at out (int i); print_workspace env w s }"
  have "each ?f [0..<unat (s_nws s)] = Some (map (the \<circ> ?f) [0..<unat (s_nws s)])"
  proof (rule each_map)
    fix i assume i: "i \<in> set [0..<unat (s_nws s)]"
    then have "wss ! i \<in> set wss" using wss(3) by simp
    then have "wss ! i \<in> live_ws s" using p wss(2) by (auto simp: live_ws_def)
    moreover have "ws_at out (int i) = Some (wss ! i)" using i wss by (simp add: ws_at_def)
    ultimately show "?f i \<noteq> None" using print_workspace_total [OF ok] by simp
  qed
  moreover have "0 < unat (s_nws s)"
    using out_ok_out [OF \<open>out_ok s p\<close>] wss(3) by (metis of_nat_0_less_iff order.strict_trans1)
  ultimately show ?thesis by (simp add: print_workspaces_def Let_def print_pieces_eq length_commas)
qed

lemma print_output_total:
  assumes ok: "server_ok s" and p: "p \<in> set (s_outputs s)"
  obtains t outs where "print_output env p s = Some (t, s\<lparr>s_outs := outs\<rparr>)" and "server_ok (s\<lparr>s_outs := outs\<rparr>)"
    and "outs_sim (s_outs s) outs"
proof -
  obtain b outs where b: "output_get_layout_box p s = Some (b, s\<lparr>s_outs := outs\<rparr>)"
    and sim: "outs_sim (s_outs s) outs" using layout_box_ok [of s p] outputs_alive [OF ok p] by metis
  have ok': "server_ok (s\<lparr>s_outs := outs\<rparr>)"
    using server_ok_same_rest [of s "s\<lparr>s_outs := outs\<rparr>"] sim ok by (simp add: same_rest_def)
  obtain out where out: "outs p = Some out" using outputs_alive [OF ok', of p] p by auto
  obtain ws where "print_workspaces env out (s\<lparr>s_outs := outs\<rparr>) = Some ws"
    using print_workspaces_total [OF ok', of p out] p out by auto
  then have "\<exists>t. print_output env p s = Some (t, s\<lparr>s_outs := outs\<rparr>)"
    using b out by (simp add: print_output_def print_pieces_eq split: prod.split)
  then show thesis using that ok' sim by blast
qed

lemma print_each_output_total:
  assumes "server_ok s" and "set ps \<subseteq> set (s_outputs s)"
  shows "\<exists>ts outs. print_each_output env ps s = Some (ts, s\<lparr>s_outs := outs\<rparr>) \<and> length ts = length ps"
  using assms
proof (induction ps arbitrary: s)
  case Nil
  then show ?case by (intro exI [of _ "[]"] exI [of _ "s_outs s"]) simp
next
  case (Cons p ps)
  have "p \<in> set (s_outputs s)" using Cons.prems(2) by simp
  from print_output_total [OF Cons.prems(1) this] obtain t outs where
    o: "print_output env p s = Some (t, s\<lparr>s_outs := outs\<rparr>)" "server_ok (s\<lparr>s_outs := outs\<rparr>)" by metis
  from Cons.IH [OF o(2)] Cons.prems(2) obtain ts outs' where
    "print_each_output env ps (s\<lparr>s_outs := outs\<rparr>) = Some (ts, s\<lparr>s_outs := outs'\<rparr>)" "length ts = length ps" by auto
  with o show ?case by (intro exI [of _ "t # ts"] exI [of _ outs']) simp
qed



section \<open>Percent signs\<close>

text \<open>A text that is followed by a quotation mark is read by itself.\<close>

lemma printf_plain_other: "c \<noteq> CHR ''%'' \<Longrightarrow> printf_plain (c # v) = map_option ((#) c) (printf_plain v)"
  by simp

lemma printf_plain_percent:
  "printf_plain (CHR ''%'' # t) =
     (case t of [] \<Rightarrow> None | d # u \<Rightarrow> if d = CHR ''%'' then map_option ((#) d) (printf_plain u) else None)"
  by (cases t) auto

declare printf_plain.simps(2) [simp del]

lemma printf_plain_split:
  assumes "c \<noteq> CHR ''%''"
  shows "printf_plain (u @ c # v) \<noteq> None \<Longrightarrow> printf_plain u \<noteq> None \<and> printf_plain (c # v) \<noteq> None"
proof (induction u rule: printf_plain.induct)
  case (2 ch t)
  show ?case
  proof (cases "ch = CHR ''%''")
    case False
    then have "printf_plain (t @ c # v) \<noteq> None" using 2(3) by (simp add: printf_plain_other)
    with 2(1) False show ?thesis by (simp add: printf_plain_other)
  next
    case True
    show ?thesis
    proof (cases t)
      case Nil
      then show ?thesis using 2(3) True assms by (simp add: printf_plain_percent)
    next
      case (Cons d u)
      with 2(3) True have d: "d = CHR ''%''" and "printf_plain (u @ c # v) \<noteq> None"
        by (simp_all add: printf_plain_percent split: if_split_asm)
      with 2(2) True Cons have "printf_plain u \<noteq> None \<and> printf_plain (c # v) \<noteq> None" by simp
      with Cons True d show ?thesis by (simp add: printf_plain_percent)
    qed
  qed
qed simp

lemma printf_plain_quoted:
  assumes "printf_plain (u @ quoted m @ v) \<noteq> None"
  shows "printf_plain m \<noteq> None"
proof -
  have q: "CHR 0x22 \<noteq> CHR ''%''" by simp
  have eq: "u @ quoted m @ v = u @ CHR 0x22 # (m @ CHR 0x22 # v)" by (simp add: quoted_def)
  have "printf_plain (CHR 0x22 # (m @ CHR 0x22 # v)) \<noteq> None"
    using printf_plain_split [OF q, of u "m @ CHR 0x22 # v"] assms unfolding eq by blast
  then have "printf_plain (m @ CHR 0x22 # v) \<noteq> None" by (simp add: printf_plain_other)
  from printf_plain_split [OF q this] show ?thesis by blast
qed

lemma printf_plain_sublist: "sublist (quoted m) t \<Longrightarrow> printf_plain m = None \<Longrightarrow> printf_plain t = None"
  using printf_plain_quoted unfolding sublist_def by metis

lemma sublist_concat: "t \<in> set ts \<Longrightarrow> sublist x t \<Longrightarrow> sublist x (concat ts)"
  by (induction ts) (auto intro: sublist_order.order.trans)

lemma in_commas: "t \<in> set ts \<Longrightarrow> t \<in> set (commas ts)"
  by (induction ts rule: commas.induct) auto

lemma print_pieces_sublist: "print_pieces n ps = Some t \<Longrightarrow> p \<in> set ps \<Longrightarrow> sublist x p \<Longrightarrow> sublist x t"
  by (auto simp: print_pieces_eq split: if_splits intro: sublist_concat)

text \<open>The titles that the dump shows are those of the views on the workspaces of the outputs.\<close>

definition dumped_views :: "cg_server \<Rightarrow> view_ptr set" where
  "dumped_views s = {p. \<exists>w \<in> live_ws s. \<exists>ws. s_workspaces s w = Some ws \<and> p \<in> set (w_views ws)}"

definition dumped_name :: "cg_env \<Rightarrow> compositor \<Rightarrow> string \<Rightarrow> bool" where
  "dumped_name env c m \<longleftrightarrow>
     (\<exists>ms. c_modes c = Some ms \<and> m \<in> set ms) \<or> mc_font (c_message_config c) = Some m \<or>
     (\<exists>gr \<in> set (c_groups c). kg_identifier (gr_settings gr) = m) \<or>
     (\<exists>d \<in> set (c_devices c). dv_identifier d = m) \<or>
     (ce_bs env \<and> (\<exists>p \<in> dumped_views (c_srv c). ce_title env p = Some m))"

lemma sublist_append: "sublist x t \<Longrightarrow> sublist x (u @ t @ v)"
  by (metis append.assoc sublist_def)

lemma sublist_append1: "sublist x t \<Longrightarrow> sublist x (t @ v)" "sublist x t \<Longrightarrow> sublist x (u @ t)"
  using sublist_append [of x t "[]" v] sublist_append [of x t u "[]"] by simp_all

lemma sublist_Cons: "sublist x t \<Longrightarrow> sublist x (c # t)"
  using sublist_append1(2) [of x t "[c]"] by simp

lemmas sublist_in = sublist_append1 sublist_Cons

lemma keyed_quoted: "sublist (quoted m) (keyed k (quoted m) @ v)"
  by (simp add: keyed_def sublist_in)

lemma print_view_title:
  assumes "print_view env p s = Some t" and "ce_bs env" and "ce_title env p = Some m"
  shows "sublist (quoted m) t"
proof -
  have "\<exists>n ps. print_pieces n ps = Some t \<and> keyed ''title'' (quoted m) @ '','' @ nl \<in> set ps"
    using assms by (auto simp: print_view_def bind_eq_Some) (intro exI conjI, assumption, simp)
  then show ?thesis using print_pieces_sublist keyed_quoted by metis
qed

lemma print_workspace_title:
  assumes t: "print_workspace env w s = Some t" and p: "s_workspaces s w = Some ws" "p \<in> set (w_views ws)"
    and m: "ce_bs env" "ce_title env p = Some m"
  shows "sublist (quoted m) t"
proof -
  obtain views tiles where v: "print_views env (w_views ws) s = Some views"
    and pp: "print_pieces 6 [quoted ''views'' @ '': ['', views, ''],'', quoted ''tiles'' @ '': ['', tiles, '']''] = Some t"
    using t p by (auto simp: print_workspace_def bind_eq_Some)
  obtain ts where ts: "each (\<lambda>p. print_view env p s) (w_views ws) = Some ts"
    and pv: "print_pieces (2 * length (w_views ws) - 1) (commas (map braced ts)) = Some views"
    using v p(2) by (cases "w_views ws = []") (auto simp: print_views_def bind_eq_Some)
  obtain x where x: "x \<in> set ts" "print_view env p s = Some x" using each_in [OF ts p(2)] by blast
  have "sublist (quoted m) (braced x)"
    using print_view_title [OF x(2) m] by (simp add: braced_def sublist_in)
  then have "sublist (quoted m) views"
    using x(1) by (intro print_pieces_sublist [OF pv, of "braced x"] in_commas) auto
  then show ?thesis by (intro print_pieces_sublist [OF pp, of views]) simp_all
qed

lemma print_output_title:
  assumes t: "print_output env p s = Some (t, s')" and w: "out_wss (s_outs s) p = Some wss" "length wss = unat (s_nws s)"
    and ws: "w \<in> set wss" "s_workspaces s w = Some ws" "v \<in> set (w_views ws)" and m: "ce_bs env" "ce_title env v = Some m"
  shows "sublist (quoted m) t"
proof -
  obtain b s1 where b: "output_get_layout_box p s = Some (b, s1)" using t by (auto simp: print_output_def bind_eq_Some)
  obtain outs where s1: "s1 = s\<lparr>s_outs := outs\<rparr>" and sim: "outs_sim (s_outs s) outs"
    using output_get_layout_box_ok [OF b] by metis
  have w1: "out_wss outs p = Some wss" using outs_sim_parts(1) [OF sim] w(1) by simp
  obtain out wst where out: "outs p = Some out" and wst: "print_workspaces env out s1 = Some wst"
    using t b s1 by (auto simp: print_output_def bind_eq_Some)
  have "\<exists>ps n. print_pieces n ps = Some t \<and> wst \<in> set ps"
    using t b out wst s1 by (auto simp: print_output_def bind_eq_Some split: prod.splits)
  then obtain ps n where pp: "print_pieces n ps = Some t" and wps: "wst \<in> set ps" by blast
  let ?f = "\<lambda>i. do { w \<leftarrow> ws_at out (int i); print_workspace env w s1 }"
  obtain ts where ts: "each ?f [0..<unat (s_nws s1)] = Some ts"
    and pw: "print_pieces (2 * unat (s_nws s1) + 1)
       ([quoted ''workspaces'' @ '': [''] @ commas (map (\<lambda>t. ''{'' @ t @ ''}'') ts) @ ['']'' @ nl]) = Some wst"
    using wst by (auto simp: print_workspaces_def Let_def bind_eq_Some)
  obtain i where i: "i < length wss" "w = wss ! i" using ws(1) by (auto simp: in_set_conv_nth)
  have owss: "o_workspaces out = Some wss" using w1 out by (simp add: out_wss_def)
  have "i \<in> set [0..<unat (s_nws s1)]" using i w(2) s1 by simp
  from each_in [OF ts this] obtain y where y: "y \<in> set ts" "print_workspace env w s1 = Some y"
    using i owss by (auto simp: ws_at_def)
  have "sublist (quoted m) y" using print_workspace_title [OF y(2) _ ws(3) m] ws(2) s1 by simp
  then have "sublist (quoted m) (''{'' @ y @ ''}'')" by (simp add: sublist_in)
  moreover have "''{'' @ y @ ''}'' \<in> set (commas (map (\<lambda>t. ''{'' @ t @ ''}'') ts))" using y(1) by (intro in_commas) auto
  ultimately have "sublist (quoted m) wst"
    by (intro print_pieces_sublist [OF pw, of "''{'' @ y @ ''}''"]) auto
  then show ?thesis by (rule print_pieces_sublist [OF pp wps])
qed

lemma print_each_output_title:
  assumes "print_each_output env ps s = Some (ts, s')" and "p \<in> set ps"
    and "out_wss (s_outs s) p = Some wss" "length wss = unat (s_nws s)"
    and "w \<in> set wss" "s_workspaces s w = Some ws" "v \<in> set (w_views ws)" and m: "ce_bs env" "ce_title env v = Some m"
  shows "\<exists>t \<in> set ts. sublist (quoted m) t"
  using assms
proof (induction ps arbitrary: s ts)
  case (Cons q qs)
  obtain t s1 us where t: "print_output env q s = Some (t, s1)" and us: "print_each_output env qs s1 = Some (us, s')"
    and ts: "ts = t # us" using Cons.prems(1) by (auto simp: bind_eq_Some)
  show ?case
  proof (cases "q = p")
    case True
    then show ?thesis using print_output_title [OF t [unfolded True] Cons.prems(3-9)] ts by auto
  next
    case False
    obtain b where "output_get_layout_box q s = Some (b, s1)"
      using t by (auto simp: print_output_def bind_eq_Some case_prod_beta Let_def)
    then obtain outs where s1: "s1 = s\<lparr>s_outs := outs\<rparr>" and sim: "outs_sim (s_outs s) outs"
      using output_get_layout_box_ok by metis
    have "\<exists>t \<in> set us. sublist (quoted m) t"
      using Cons.IH [OF us] Cons.prems(2-9) False s1 outs_sim_parts(1) [OF sim] by simp
    then show ?thesis using ts by simp
  qed
qed simp

lemma dump_text_shows:
  assumes t: "dump_text env c = Some (t, c')" and ok: "server_ok (c_srv c)" and m: "dumped_name env c m"
  shows "sublist (quoted m) t"
proof -
  let ?s = "c_srv c"
  obtain ids name modes message outps s' keyboards inputs where
    modes: "c_modes c = Some modes" and message: "print_message_conf (c_message_config c) = Some message"
    and outps: "print_outputs env ?s = Some (outps, s')"
    and keyboards: "print_keyboard_groups (c_groups c) = Some keyboards"
    and inputs: "print_input_devices (c_devices c) = Some inputs"
    and pp: "print_pieces 14 (dump_pieces c ids name modes message outps keyboards inputs) = Some t"
    using t by (clarsimp simp: dump_text_def bind_eq_Some)
  define ps where "ps = dump_pieces c ids name modes message outps keyboards inputs"
  have pm: "set (print_modes modes) \<subseteq> set ps"
    and in_ps: "{message @ '','', outps @ '','', keyboards @ '','', inputs @ '',''} \<subseteq> set ps"
    by (auto simp: ps_def dump_pieces_def Let_def)
  note pp = pp [folded ps_def]
  note part = print_pieces_sublist [OF pp]
  from m consider
      (mode) "m \<in> set modes"
    | (font) "mc_font (c_message_config c) = Some m"
    | (group) gr where "gr \<in> set (c_groups c)" "kg_identifier (gr_settings gr) = m"
    | (device) d where "d \<in> set (c_devices c)" "dv_identifier d = m"
    | (title) v where "ce_bs env" "v \<in> dumped_views ?s" "ce_title env v = Some m"
    using modes by (auto simp: dumped_name_def)
  then show ?thesis
  proof cases
    case mode
    have "sublist (quoted m) (concat (commas (map quoted modes)))"
      using mode by (intro sublist_concat [of "quoted m"] in_commas) auto
    then have "\<forall>x \<in> set (print_modes modes). sublist (quoted m) x" and "print_modes modes \<noteq> []"
      using mode by (auto simp: print_modes_def sublist_in)
    then show ?thesis using part pm by (metis hd_in_set subsetD)
  next
    case font
    have "sublist (quoted m) message"
      using message font unfolding print_message_conf_def
      by (intro print_pieces_sublist [OF message [unfolded print_message_conf_def],
            of "keyed ''font'' (quoted (case mc_font (c_message_config c) of Some f \<Rightarrow> f | None \<Rightarrow> ''(null)'')) @ '','' @ nl"])
        (simp_all add: keyed_quoted)
    then show ?thesis using part [of "message @ '',''"] in_ps by (simp add: sublist_in)
  next
    case (group gr)
    obtain ts where ts: "each (print_keyboard_group \<circ> gr_settings) (c_groups c) = Some ts"
      and pk: "print_pieces (2 * length (c_groups c) + 2) ([quoted ''keyboards'' @ '': {''] @ commas ts @ [''}'' @ nl]) = Some keyboards"
      using keyboards by (auto simp: print_keyboard_groups_def bind_eq_Some)
    obtain y where y: "y \<in> set ts" "print_keyboard_group (gr_settings gr) = Some y"
      using each_in [OF ts group(1)] by auto
    have "sublist (quoted m) y"
      using group(2) by (intro print_pieces_sublist [OF y(2) [unfolded print_keyboard_group_def], of "quoted m @ '': {'' @ nl"])
        (simp_all add: sublist_in)
    then have "sublist (quoted m) keyboards"
      using in_commas [OF y(1)] by (intro print_pieces_sublist [OF pk, of y]) auto
    then show ?thesis using part [of "keyboards @ '',''"] in_ps by (simp add: sublist_in)
  next
    case (device d)
    obtain ts where ts: "each print_input_device (c_devices c) = Some ts"
      and pk: "print_pieces (2 * length (c_devices c) + 2) ([quoted ''input_devices'' @ '': {''] @ commas ts @ [''}'' @ nl]) = Some inputs"
      using inputs by (auto simp: print_input_devices_def bind_eq_Some)
    obtain y where y: "y \<in> set ts" "print_input_device d = Some y" using each_in [OF ts device(1)] by auto
    have "sublist (quoted m) y"
      using device(2) by (intro print_pieces_sublist [OF y(2) [unfolded print_input_device_def], of "quoted m @ '': {'' @ nl"])
        (simp_all add: sublist_in)
    then have "sublist (quoted m) inputs"
      using in_commas [OF y(1)] by (intro print_pieces_sublist [OF pk, of y]) auto
    then show ?thesis using part [of "inputs @ '',''"] in_ps by (simp add: sublist_in)
  next
    case (title v)
    obtain w ws where w: "w \<in> live_ws ?s" "s_workspaces ?s w = Some ws" "v \<in> set (w_views ws)"
      using title(2) by (auto simp: dumped_views_def)
    obtain q wss where q: "q \<in> set (s_outputs ?s)" "out_wss (s_outs ?s) q = Some wss" "w \<in> set wss"
      using w(1) by (auto simp: live_ws_def)
    have "length wss = unat (s_nws ?s)" using ok q by (auto simp: server_ok_def out_ok_def)
    obtain ts where ts: "print_each_output env (s_outputs ?s) ?s = Some (ts, s')"
      and po: "print_pieces (2 * length (s_outputs ?s) + 1) ([quoted ''outputs'' @ '': {''] @ commas ts @ [''}'' @ nl]) = Some outps"
      using outps by (auto simp: print_outputs_def Let_def bind_eq_Some)
    obtain y where y: "y \<in> set ts" "sublist (quoted m) y"
      using print_each_output_title [OF ts q(1,2) \<open>length wss = unat (s_nws ?s)\<close> q(3) w(2,3) title(1,3)] by blast
    then have "sublist (quoted m) outps"
      using in_commas [OF y(1)] by (intro print_pieces_sublist [OF po, of y]) auto
    then show ?thesis using part [of "outps @ '',''"] in_ps by (simp add: sublist_in)
  qed
qed

text \<open>
  C30: The text of the dump is used as a format string. With a client listening, a dump is undefined
  behaviour as soon as the name of a mode, the message font, the identifier of a keyboard group or
  input device or, when titles are shown, the title of a view holds a percent sign that is not
  doubled.
\<close>

theorem dump_percent_faults:
  assumes ok: "server_ok (c_srv c)" and clients: "ce_clients env"
    and m: "dumped_name env c m" "printf_plain m = None"
  shows "keybinding_dump env c = None"
proof (cases "dump_text env c")
  case (Some r)
  obtain t c' where t: "dump_text env c = Some (t, c')" using Some by (cases r) simp
  have "printf_plain t = None" using printf_plain_sublist [OF dump_text_shows [OF t ok m(1)] m(2)] .
  then show ?thesis using t clients by (simp add: keybinding_dump_def)
qed (simp add: keybinding_dump_def)

theorem dump_percent_faults_witness:
  "keybinding_dump ex_cg_env (ex_comp\<lparr>c_modes := Some [''top'', ''100%s'']\<rparr>) = None"
proof (rule dump_percent_faults [where m = "''100%s''"])
  show "printf_plain ''100%s'' = None" by (simp add: printf_plain_other printf_plain_percent)
qed (simp_all add: ex_server_ok dumped_name_def)

end
