(* ===== verification/Config_File.thy ===== *)
theory Config_File
  imports Run_Action Ipc
begin

text \<open>
  Reading the configuration file: \<^verbatim>\<open>set_configuration\<close> and \<^verbatim>\<open>get_config_file\<close> of
  \<^verbatim>\<open>cagebreak.c\<close>. The line is read into a buffer that grows with \<^verbatim>\<open>reallocarray\<close>; its
  length is kept at 32 bits. The reader is shown to be the same as splitting the file at its
  newlines.
\<close>

section \<open>The C library\<close>

text \<open>
  \<^verbatim>\<open>fgets\<close> into a buffer of \<open>n\<close> bytes, where \<open>n\<close> is at least 2: at most \<open>n - 1\<close> characters, up to
  and with the first newline; NULL at the end of the file.
\<close>

fun read_upto :: "nat \<Rightarrow> string \<Rightarrow> string \<times> string" where
  "read_upto 0 fl = ([], fl)"
| "read_upto (Suc n) [] = ([], [])"
| "read_upto (Suc n) (c # cs) =
     (if c = NL then ([c], cs) else (case read_upto n cs of (r, rest) \<Rightarrow> (c # r, rest)))"

definition fgets :: "nat \<Rightarrow> string \<Rightarrow> (string \<times> string) option" where
  "fgets n fl = (if fl = [] then None else Some (read_upto (n - 1) fl))"

definition strcspn_nl :: "string \<Rightarrow> nat" where
  "strcspn_nl s = length (takeWhile (\<lambda>c. c \<noteq> NL) s)"

lemma read_upto_append: "read_upto n fl = (r, rest) \<Longrightarrow> fl = r @ rest \<and> length r \<le> n"
  by (induction n fl arbitrary: r rest rule: read_upto.induct) (auto split: if_splits prod.splits)

lemma read_upto_shorter: "fl \<noteq> [] \<Longrightarrow> 0 < n \<Longrightarrow> length (snd (read_upto n fl)) < length fl"
proof -
  assume a: "fl \<noteq> []" "0 < n"
  then obtain c cs m where "fl = c # cs" "n = Suc m" by (cases fl; cases n) auto
  moreover obtain r rest where r: "read_upto m cs = (r, rest)" by fastforce
  ultimately show ?thesis using read_upto_append [OF r] by simp
qed

section \<open>One line\<close>

text \<open>
  The environment of the reader: whether the allocator has room for a buffer of that length, and
  whether \<^verbatim>\<open>errno\<close> is set when a line is parsed.
\<close>

record file_env =
  fe_alloc :: "u32 \<Rightarrow> bool"
  fe_errno :: "nat \<Rightarrow> bool"

text \<open>
  The loop that reads into the buffer and doubles it while it is full; the first component is the
  C string in the buffer. A buffer that cannot be had is \<open>Inl\<close>. \<^verbatim>\<open>reallocarray\<close> of no bytes
  frees the buffer and returns NULL.
\<close>

function read_line :: "file_env \<Rightarrow> u32 \<Rightarrow> string \<Rightarrow> string \<Rightarrow> (unit + (string \<times> u32 \<times> string)) option" where
  "read_line fe len line fl =
     (if length line + 2 > unat len then None
      else case fgets (unat len - length line) fl of
        None \<Rightarrow> Some (Inr (line, len, fl))
      | Some (r, rest) \<Rightarrow>
          (let line' = c_string (line @ r) in
           if strcspn_nl line' = unat len - 1
           then (if len * 2 = 0 \<or> \<not> fe_alloc fe (len * 2) then Some (Inl ())
                 else read_line fe (len * 2) line' rest)
           else Some (Inr (line', len, rest))))"
  by pat_completeness auto

termination
proof (relation "measure (\<lambda>(fe, len, line, fl). length fl)")
  fix fe :: file_env and len :: u32 and line fl x r rest line'
  assume room: "\<not> unat len < length line + 2" and read: "fgets (unat len - length line) fl = Some x" "(r, rest) = x"
  from read have "fl \<noteq> []" "read_upto (unat len - length line - 1) fl = (r, rest)"
    by (auto simp: fgets_def split: if_splits)
  then show "((fe, len * 2, line', rest), fe, len, line, fl) \<in> measure (\<lambda>(fe, len, line, fl). length fl)"
    using read_upto_shorter [of fl "unat len - length line - 1"] room by simp
qed simp

declare read_line.simps [simp del]

section \<open>The file\<close>

text \<open>
  The error text is a local pointer that is not initialised. It is freed after an error; when the
  parser left it unset, an arbitrary address is freed.
\<close>

definition free_errstr :: "string option \<Rightarrow> 'a \<Rightarrow> 'a option" where
  "free_errstr err x = map_option (\<lambda>_. x) err"

text \<open>
  The loop over the lines. The buffer is cleared after each line; the first line of which nothing is
  visible ends the file.
\<close>

fun read_config ::
    "nat \<Rightarrow> file_env \<Rightarrow> cg_env \<Rightarrow> parse_env \<Rightarrow> nat \<Rightarrow> u32 \<Rightarrow> string \<Rightarrow> compositor \<Rightarrow> (int \<times> compositor) option" where
  "read_config 0 fe env penv num len fl c = None"
| "read_config (Suc fuel) fe env penv num len fl c = do {
     r \<leftarrow> read_line fe len [] fl;
     (case r of
        Inl _ \<Rightarrow> Some (2, c)
      | Inr (line, len, fl) \<Rightarrow>
          if line = [] then Some (0, c)
          else do {
            let line = take (strcspn_nl line) line;
            if is_command line
            then do {
              ((ret, err), c) \<leftarrow> parse_rc_line env penv line (fe_errno fe num) c;
              if ret \<noteq> 0 then free_errstr err (- 1, c) else read_config fuel fe env penv (Suc num) len fl c
            }
            else read_config fuel fe env penv (Suc num) len fl c
          })
   }"

definition set_configuration ::
    "file_env \<Rightarrow> cg_env \<Rightarrow> parse_env \<Rightarrow> string option \<Rightarrow> compositor \<Rightarrow> (int \<times> compositor) option" where
  "set_configuration fe env penv config_file c =
     (case config_file of
        None \<Rightarrow> Some (1, c)
      | Some fl \<Rightarrow>
          if \<not> fe_alloc fe 64 then None
          else read_config (Suc (length fl)) fe env penv 1 64 fl c)"

text \<open>Where the file is: \<^verbatim>\<open>get_config_file\<close>.\<close>

definition get_config_file :: "(string \<Rightarrow> string option) \<Rightarrow> string option \<Rightarrow> string option" where
  "get_config_file getenv udef_path =
     (case udef_path of
        Some p \<Rightarrow> Some p
      | None \<Rightarrow>
          (case getenv ''XDG_CONFIG_HOME'' of
             Some (ch # p) \<Rightarrow> Some ((ch # p) @ ''/cagebreak/config'')
           | _ \<Rightarrow>
               (case getenv ''HOME'' of
                  Some (ch # p) \<Rightarrow> Some ((ch # p) @ ''/.config/cagebreak/config'')
                | _ \<Rightarrow> None)))"

text \<open>
  The use \<^verbatim>\<open>main\<close> makes of both: the default file when the first one cannot be opened. The flag is
  whether the compositor goes on.
\<close>

definition load_configuration ::
    "file_env \<Rightarrow> cg_env \<Rightarrow> parse_env \<Rightarrow> (string \<Rightarrow> string option) \<Rightarrow> (string \<Rightarrow> string option) \<Rightarrow> string option \<Rightarrow>
     compositor \<Rightarrow> (bool \<times> compositor) option" where
  "load_configuration fe env penv fs getenv udef_path c =
     (case get_config_file getenv udef_path of
        None \<Rightarrow> Some (False, c)
      | Some path \<Rightarrow> do {
          (ret, c) \<leftarrow> set_configuration fe env penv (fs path) c;
          (ret, c) \<leftarrow> (if ret = 1 then set_configuration fe env penv (fs ''/etc/xdg/cagebreak/config'') c
                       else Some (ret, c));
          Some (ret = 0 \<and> s_running (c_srv c), c)
        })"

text \<open>
  The body of the loop of \<^verbatim>\<open>ipc_client_handle_command\<close>, for a line that is a command. The text of
  an error is displayed, then freed; it is not initialised either.
\<close>

definition ipc_run_line :: "cg_env \<Rightarrow> parse_env \<Rightarrow> bool \<Rightarrow> string \<Rightarrow> compositor \<Rightarrow> compositor option" where
  "ipc_run_line env penv en line c = do {
     p \<leftarrow> s_curr_output (c_srv c);
     let c = emit_srv (Message_clear p) c;
     ((ret, err), c) \<leftarrow> parse_rc_line env penv line en c;
     if ret \<noteq> 0
     then do {
       msg \<leftarrow> err;
       p \<leftarrow> s_curr_output (c_srv c);
       Some (c\<lparr>c_srv := message_printf p msg (c_srv c)\<rparr>)
     }
     else Some c
   }"

section \<open>The lines of the file\<close>

fun split_lines :: "string \<Rightarrow> string list" where
  "split_lines [] = []"
| "split_lines (c # cs) =
     (if c = NL then [] # split_lines cs
      else (case split_lines cs of [] \<Rightarrow> [[c]] | l # ls \<Rightarrow> (c # l) # ls))"

fun run_lines ::
    "file_env \<Rightarrow> cg_env \<Rightarrow> parse_env \<Rightarrow> nat \<Rightarrow> string list \<Rightarrow> compositor \<Rightarrow> (int \<times> compositor) option" where
  "run_lines fe env penv num [] c = Some (0, c)"
| "run_lines fe env penv num (l # ls) c =
     (if is_command l
      then do {
        ((ret, err), c) \<leftarrow> parse_rc_line env penv l (fe_errno fe num) c;
        if ret \<noteq> 0 then free_errstr err (- 1, c) else run_lines fe env penv (Suc num) ls c
      }
      else run_lines fe env penv (Suc num) ls c)"


section \<open>The reader reads the lines\<close>

lemma read_upto_spec:
  "read_upto n fl =
     (if NL \<in> set (take n fl)
      then (takeWhile (\<lambda>c. c \<noteq> NL) fl @ [NL], tl (dropWhile (\<lambda>c. c \<noteq> NL) fl))
      else (take n fl, drop n fl))"
  by (induction n fl rule: read_upto.induct) auto

lemma split_lines_NL: "NL \<in> set fl \<Longrightarrow>
    split_lines fl = takeWhile (\<lambda>c. c \<noteq> NL) fl # split_lines (tl (dropWhile (\<lambda>c. c \<noteq> NL) fl))"
  by (induction fl) auto

lemma split_lines_last: "NL \<notin> set fl \<Longrightarrow> fl \<noteq> [] \<Longrightarrow> split_lines fl = [fl]"
proof (induction fl)
  case (Cons c fl)
  then show ?case by (cases "fl = []") auto
qed simp

lemma c_string_id: "NUL \<notin> set s \<Longrightarrow> c_string s = s"
  by (simp add: c_string_def takeWhile_eq_all_conv) metis

lemma strcspn_nl_append: "NL \<notin> set a \<Longrightarrow> strcspn_nl (a @ b) = length a + strcspn_nl b"
  unfolding strcspn_nl_def by (subst takeWhile_append2) auto

lemma strcspn_nl_full: "NL \<notin> set a \<Longrightarrow> strcspn_nl a = length a"
  using strcspn_nl_append [of a "[]"] by (simp add: strcspn_nl_def)

text \<open>
  What the reader does with a line: the buffer holds the start \<open>a\<close> of the line without a newline,
  the file goes on with the rest. The file is short enough for the buffer never to reach 2 GiB.
\<close>

definition buffer_ok :: "u32 \<Rightarrow> nat \<Rightarrow> bool" where
  "buffer_ok len n \<longleftrightarrow> 64 \<le> unat len \<and> unat len \<le> 64 + 2 * n \<and> n < 2 ^ 29"

lemma double_small: "unat (len :: u32) < 2 ^ 31 \<Longrightarrow> unat (len * 2) = 2 * unat len"
  by (simp add: unat_word_ariths mult.commute)

lemma read_line_spec:
  assumes alloc: "\<forall>n. fe_alloc fe n" and nul: "NUL \<notin> set (a @ fl)" and nl: "NL \<notin> set a"
    and room: "length a + 2 \<le> unat len" and total: "length a + length fl \<le> n" and buf: "buffer_ok len n"
  shows "\<exists>line len' rest. read_line fe len a fl = Some (Inr (line, len', rest)) \<and> buffer_ok len' n \<and>
     (if NL \<in> set fl
      then line = a @ takeWhile (\<lambda>c. c \<noteq> NL) fl @ [NL] \<and> rest = tl (dropWhile (\<lambda>c. c \<noteq> NL) fl)
      else line = a @ fl \<and> rest = [])"
  using nul nl room total buf
proof (induction "length fl" arbitrary: a len fl rule: less_induct)
  case less
  show ?case
  proof (cases "fl = []")
    case True
    then show ?thesis using less.prems by (simp add: read_line.simps fgets_def)
  next
    case False
    let ?k = "unat len - length a - 1"
    obtain r rest where ru: "read_upto ?k fl = (r, rest)" by fastforce
    have app: "fl = r @ rest" and rk: "length r \<le> ?k" using read_upto_append [OF ru] by auto
    have fg: "fgets (unat len - length a) fl = Some (r, rest)" using False ru by (simp add: fgets_def)
    have cs: "c_string (a @ r) = a @ r" using less.prems(1) app by (intro c_string_id) auto
    show ?thesis
    proof (cases "NL \<in> set (take ?k fl)")
      case True
      then have r: "r = takeWhile (\<lambda>c. c \<noteq> NL) fl @ [NL]" and rest: "rest = tl (dropWhile (\<lambda>c. c \<noteq> NL) fl)"
        using ru by (auto simp: read_upto_spec)
      have "strcspn_nl (a @ r) = length a + (length r - 1)"
        using less.prems(2) r by (simp add: strcspn_nl_append) (simp add: strcspn_nl_def takeWhile_tail)
      moreover have "0 < length r" using r by simp
      ultimately have "strcspn_nl (a @ r) \<noteq> unat len - 1" using rk less.prems(3) by simp
      moreover have "NL \<in> set fl" using True in_set_takeD by metis
      ultimately show ?thesis
        using less.prems(3,5) fg cs r rest by (subst read_line.simps) (simp add: Let_def)
    next
      case no: False
      then have r: "r = take ?k fl" and rest: "rest = drop ?k fl" using ru by (auto simp: read_upto_spec)
      have nlr: "NL \<notin> set (a @ r)" using less.prems(2) no r by simp
      have csp: "strcspn_nl (a @ r) = length a + length r" using strcspn_nl_full [OF nlr] by simp
      show ?thesis
      proof (cases "length fl < ?k")
        case True
        then have rr: "r = fl" "rest = []" using r rest by auto
        have nl: "NL \<notin> set fl" using no True by simp
        have short: "length a + length fl \<noteq> unat len - 1" using True by linarith
        show ?thesis
          using less.prems(3,5) fg [unfolded rr] cs [unfolded rr] csp [unfolded rr] short nl
          by (subst read_line.simps) (simp add: Let_def)
      next
        case full: False
        have lr: "length r = ?k" using full r by simp
        have small: "unat len < 2 ^ 31" using less.prems(5) by (simp add: buffer_ok_def)
        have dbl: "unat (len * 2) = 2 * unat len" by (rule double_small [OF small])
        have nz: "len * 2 \<noteq> 0" using dbl less.prems(3) by (metis mult_is_0 unat_0 add_eq_0_iff_both_eq_0 le_zero_eq zero_neq_numeral)
        have step: "read_line fe len a fl = read_line fe (len * 2) (a @ r) rest"
          using less.prems(3) fg cs csp lr nz alloc by (subst read_line.simps) (simp add: Let_def)
        have "unat len \<le> n + 1" using lr less.prems(3,4) app by simp
        then have buf': "buffer_ok (len * 2) n" using less.prems(5) dbl by (simp add: buffer_ok_def)
        have "length rest < length fl" using lr app less.prems(3) by simp
        from less.hyps [OF this, of "a @ r" "len * 2"] nlr less.prems app dbl lr buf'
        obtain line len' rest' where ih: "read_line fe (len * 2) (a @ r) rest = Some (Inr (line, len', rest'))"
          "buffer_ok len' n"
          "if NL \<in> set rest then line = (a @ r) @ takeWhile (\<lambda>c. c \<noteq> NL) rest @ [NL] \<and> rest' = tl (dropWhile (\<lambda>c. c \<noteq> NL) rest)
           else line = (a @ r) @ rest \<and> rest' = []" by auto
        have "takeWhile (\<lambda>c. c \<noteq> NL) (r @ rest) = r @ takeWhile (\<lambda>c. c \<noteq> NL) rest"
          "dropWhile (\<lambda>c. c \<noteq> NL) (r @ rest) = dropWhile (\<lambda>c. c \<noteq> NL) rest"
          using nlr by (auto intro!: takeWhile_append2 dropWhile_append2)
        then show ?thesis using ih step nlr app by (auto split: if_splits)
      qed
    qed
  qed
qed

lemma set_tl_dropWhile: "set (tl (dropWhile P xs)) \<subseteq> set xs"
  by (induction xs) auto

lemma read_config_lines:
  assumes alloc: "\<forall>n. fe_alloc fe n" and nul: "NUL \<notin> set fl" and fuel: "length fl < fuel"
    and total: "length fl \<le> n" and buf: "buffer_ok len n"
  shows "read_config fuel fe env penv num len fl c = run_lines fe env penv num (split_lines fl) c"
  using nul fuel total buf
proof (induction fuel arbitrary: num len fl c)
  case (Suc fuel)
  have room: "length [] + 2 \<le> unat len" using Suc.prems(4) by (simp add: buffer_ok_def)
  have nul0: "NUL \<notin> set ([] @ fl)" using Suc.prems(1) by simp
  have tot0: "length [] + length fl \<le> n" using Suc.prems(3) by simp
  have nl0: "NL \<notin> set []" by simp
  note spec = read_line_spec [OF alloc nul0 nl0 room tot0 Suc.prems(4), unfolded append_Nil]
  obtain line len' rest where rl: "read_line fe len [] fl = Some (Inr (line, len', rest))" and buf': "buffer_ok len' n"
    and line: "if NL \<in> set fl then line = takeWhile (\<lambda>c. c \<noteq> NL) fl @ [NL] \<and> rest = tl (dropWhile (\<lambda>c. c \<noteq> NL) fl)
       else line = fl \<and> rest = []"
    using spec by blast
  show ?case
  proof (cases "fl = []")
    case True
    then show ?thesis using rl line by simp
  next
    case False
    let ?l = "takeWhile (\<lambda>c. c \<noteq> NL) fl"
    have ne: "line \<noteq> []" using line False by (auto split: if_splits)
    have lnl: "NL \<notin> set ?l" by (auto dest: set_takeWhileD)
    have cut: "take (strcspn_nl line) line = ?l"
    proof (cases "NL \<in> set fl")
      case True
      then have l: "line = ?l @ [NL]" using line by simp
      have "strcspn_nl line = length ?l" unfolding l strcspn_nl_append [OF lnl] by (simp add: strcspn_nl_def)
      then show ?thesis by (metis l append_eq_conv_conj)
    next
      case no: False
      then have l: "line = fl" using line by simp
      have "?l = fl" using no by (intro takeWhile_eq_all_conv [THEN iffD2]) auto
      moreover have "take (length fl) fl = fl" by simp
      ultimately show ?thesis unfolding l strcspn_nl_full [OF no] by (simp only:)
    qed
    have split: "split_lines fl = ?l # split_lines rest"
    proof (cases "NL \<in> set fl")
      case True
      then have "rest = tl (dropWhile (\<lambda>c. c \<noteq> NL) fl)" using line by simp
      then show ?thesis using split_lines_NL [OF True] by metis
    next
      case no: False
      have "?l = fl" using no by (intro takeWhile_eq_all_conv [THEN iffD2]) auto
      moreover have "rest = []" using line no by simp
      ultimately show ?thesis using split_lines_last [OF no False] by (simp only: split_lines.simps)
    qed
    have shorter: "length rest < length fl"
    proof (cases "NL \<in> set fl")
      case True
      then show ?thesis
        using line length_dropWhile_le [of "\<lambda>c. c \<noteq> NL" fl] False by (cases fl) (simp_all add: less_Suc_eq_le)
    next
      case no: False
      then show ?thesis using line False by simp
    qed
    have sub: "set rest \<subseteq> set fl"
    proof (cases "NL \<in> set fl")
      case True
      then have "rest = tl (dropWhile (\<lambda>c. c \<noteq> NL) fl)" using line by simp
      then show ?thesis by (simp only: set_tl_dropWhile)
    next
      case no: False
      then show ?thesis using line by simp
    qed
    have ih: "read_config fuel fe env penv num' len' rest c' = run_lines fe env penv num' (split_lines rest) c'" for num' c'
    proof (rule Suc.IH)
      show "NUL \<notin> set rest" using Suc.prems(1) sub by blast
      show "length rest < fuel" using Suc.prems(2) shorter by linarith
      show "length rest \<le> n" using Suc.prems(3) shorter by linarith
    qed (rule buf')
    have "read_config (Suc fuel) fe env penv num len fl c =
        (if is_command ?l
         then do {
           ((ret, err), c) \<leftarrow> parse_rc_line env penv ?l (fe_errno fe num) c;
           if ret \<noteq> 0 then free_errstr err (- 1, c) else read_config fuel fe env penv (Suc num) len' rest c
         }
         else read_config fuel fe env penv (Suc num) len' rest c)"
      unfolding read_config.simps rl by (simp only: bind.bind_lunit sum.case prod.case if_not_P [OF ne] Let_def cut)
    then show ?thesis unfolding split run_lines.simps ih .
  qed
qed simp

lemma set_configuration_runs_lines_ok:
  assumes "\<forall>n. fe_alloc fe n" and "NUL \<notin> set fl" and "length fl < 2 ^ 29"
  shows "set_configuration fe env penv (Some fl) c = run_lines fe env penv 1 (split_lines fl) c"
  using read_config_lines [OF assms(1,2), of "Suc (length fl)" "length fl" 64] assms
  by (simp add: set_configuration_def buffer_ok_def)

end
