(* ===== verification/Run_Props.thy ===== *)
theory Run_Props
  imports Key_Props
begin

text \<open>
  The parser and \<^verbatim>\<open>run_action\<close> together: a parsed command has the member of the union set that
  \<^verbatim>\<open>run_action\<close> reads for its action.
\<close>

section \<open>The member an action reads\<close>

definition member_ok :: "keybinding_action \<Rightarrow> keybinding_params \<Rightarrow> bool" where
  "member_ok act d \<longleftrightarrow>
     (if act \<in> {KEYBINDING_RUN_COMMAND, KEYBINDING_DISPLAY_MESSAGE, KEYBINDING_SEND_CUSTOM_EVENT,
                KEYBINDING_DEFINEMODE} then data_c d \<noteq> None
      else if act \<in> {KEYBINDING_SPLIT_VERTICAL, KEYBINDING_SPLIT_HORIZONTAL} then data_f d \<noteq> None
      else if act \<in> {KEYBINDING_CHANGE_TTY, KEYBINDING_SWITCH_OUTPUT, KEYBINDING_SWITCH_WORKSPACE,
                     KEYBINDING_SWITCH_MODE, KEYBINDING_SWITCH_DEFAULT_MODE, KEYBINDING_MERGE_LEFT,
                     KEYBINDING_MERGE_RIGHT, KEYBINDING_MERGE_TOP, KEYBINDING_MERGE_BOTTOM} then data_u d \<noteq> None
      else if act \<in> {KEYBINDING_LAYOUT_FULLSCREEN, KEYBINDING_CYCLE_VIEWS, KEYBINDING_CYCLE_TILES,
                     KEYBINDING_MOVE_TO_TILE, KEYBINDING_MOVE_TO_WORKSPACE, KEYBINDING_MOVE_TO_OUTPUT,
                     KEYBINDING_MOVE_VIEW_TO_TILE, KEYBINDING_MOVE_VIEW_TO_WORKSPACE,
                     KEYBINDING_MOVE_VIEW_TO_OUTPUT, KEYBINDING_SWAP_LEFT, KEYBINDING_SWAP_RIGHT,
                     KEYBINDING_SWAP_TOP, KEYBINDING_SWAP_BOTTOM, KEYBINDING_SWAP} then data_us d \<noteq> None
      else if act \<in> {KEYBINDING_RESIZE_TILE_HORIZONTAL, KEYBINDING_RESIZE_TILE_VERTICAL} then data_is d \<noteq> None
      else if act \<in> {KEYBINDING_CYCLE_OUTPUT, KEYBINDING_MOVE_VIEW_TO_CYCLE_OUTPUT} then data_b d \<noteq> None
      else if act \<in> {KEYBINDING_CURSOR, KEYBINDING_WORKSPACES} then data_i d \<noteq> None
      else if act = KEYBINDING_SETMODECURSOR then data_cs d \<noteq> None
      else if act = KEYBINDING_BACKGROUND then data_color d \<noteq> None
      else if act = KEYBINDING_CONFIGURE_OUTPUT then data_o_cfg d \<noteq> None
      else if act = KEYBINDING_CONFIGURE_INPUT then data_i_cfg d \<noteq> None
      else if act = KEYBINDING_CONFIGURE_MESSAGE then data_m_cfg d \<noteq> None
      else True)"

text \<open>The pointer \<^verbatim>\<open>data.kb\<close> is set exactly for \<^verbatim>\<open>definekey\<close>, and the binding there is typed as well.\<close>

definition points_to_kb :: "keybinding_action \<Rightarrow> keybinding_params \<Rightarrow> bool" where
  "points_to_kb act d \<longleftrightarrow> (act = KEYBINDING_DEFINEKEY \<longleftrightarrow> (\<exists>kb. d = Data_kb kb))"

primrec kb_typed :: "keybinding \<Rightarrow> bool" and params_typed :: "keybinding_params \<Rightarrow> bool" where
  "kb_typed (Keybinding mode modifiers key act d) \<longleftrightarrow> member_ok act d \<and> points_to_kb act d \<and> params_typed d"
| "params_typed Data_none \<longleftrightarrow> True"
| "params_typed (Data_c s) \<longleftrightarrow> True"
| "params_typed (Data_cs s t) \<longleftrightarrow> True"
| "params_typed (Data_u u) \<longleftrightarrow> True"
| "params_typed (Data_is u v) \<longleftrightarrow> True"
| "params_typed (Data_us u v w) \<longleftrightarrow> True"
| "params_typed (Data_i i) \<longleftrightarrow> True"
| "params_typed (Data_b b) \<longleftrightarrow> True"
| "params_typed (Data_f f) \<longleftrightarrow> True"
| "params_typed (Data_color r g b) \<longleftrightarrow> True"
| "params_typed (Data_kb kb) \<longleftrightarrow> kb_typed kb"
| "params_typed (Data_o_cfg oc) \<longleftrightarrow> True"
| "params_typed (Data_i_cfg ic) \<longleftrightarrow> True"
| "params_typed (Data_m_cfg mc) \<longleftrightarrow> True"

definition command_typed :: "command \<Rightarrow> bool" where
  "command_typed c \<longleftrightarrow> member_ok (fst c) (snd c) \<and> points_to_kb (fst c) (snd c) \<and> params_typed (snd c)"

text \<open>\<^verbatim>\<open>run_action\<close> goes through only with the member that \<open>member_ok\<close> asks for.\<close>

lemma on_srv_Some: "on_srv f c = Some c' \<Longrightarrow> \<exists>s. f (c_srv c) = Some s"
  by (auto simp: on_srv_def)

lemma action_tiles_member: "is_tiles_action act \<Longrightarrow> action_tiles act d s \<noteq> None \<Longrightarrow> member_ok act d"
  unfolding is_tiles_action_def insert_iff empty_iff
  by (elim disjE) (auto simp: action_tiles_def member_ok_def run_swap_def bind_eq_Some)

lemma action_views_member: "is_views_action act \<Longrightarrow> action_views act d s \<noteq> None \<Longrightarrow> member_ok act d"
  unfolding is_views_action_def insert_iff empty_iff
  by (elim disjE) (auto simp: action_views_def member_ok_def bind_eq_Some)

lemma run_action_reads_member:
  assumes "run_action env act d kb c = Some r"
  shows "member_ok act d"
proof (cases "is_tiles_action act")
  case True
  then have "act \<noteq> KEYBINDING_CHANGE_TTY" by (auto simp: is_tiles_action_def)
  then show ?thesis
    using assms True action_tiles_member [OF True] on_srv_Some by (fastforce simp: run_action_def)
next
  case not_tiles: False
  show ?thesis
  proof (cases "is_views_action act")
    case True
    then have "act \<noteq> KEYBINDING_CHANGE_TTY" by (auto simp: is_views_action_def)
    then show ?thesis
      using assms True not_tiles action_views_member [OF True] on_srv_Some by (fastforce simp: run_action_def)
  next
    case False
    with not_tiles assms show ?thesis
      by (cases act) (auto simp: run_action_def is_tiles_action_def is_views_action_def action_other_def
          member_ok_def bind_eq_Some)
  qed
qed

section \<open>Typed results\<close>

named_theorems typed \<open>results of the parser are typed\<close>

definition res_typed :: "command pres \<Rightarrow> bool" where
  "res_typed p \<longleftrightarrow> (\<forall>c en. p = (Inr c, en) \<longrightarrow> command_typed c)"

lemma res_typed_intros [typed]:
  "res_typed (perr msg en)"
  "res_typed (Inl e, en)"
  "res_typed (pok c en) = command_typed c"
  "(\<And>x en. p = (Inr x, en) \<Longrightarrow> res_typed (f x en)) \<Longrightarrow> res_typed (pbind p f)"
  by (auto simp: res_typed_def perr_def pok_def pbind_def split: prod.splits sum.splits)

definition opt_typed :: "command pres option \<Rightarrow> bool" where
  "opt_typed r \<longleftrightarrow> (\<forall>p. r = Some p \<longrightarrow> res_typed p)"

lemma opt_typed_simps [typed]:
  "opt_typed None" "opt_typed (Some p) = res_typed p"
  "opt_typed (if b then x else y) = ((b \<longrightarrow> opt_typed x) \<and> (\<not> b \<longrightarrow> opt_typed y))"
  by (auto simp: opt_typed_def)

lemma opt_typed_orelse: "opt_typed a \<Longrightarrow> opt_typed b \<Longrightarrow> opt_typed (orelse a b)"
  by (cases a) (auto simp: opt_typed_def)

lemma command_typed_pair:
  "command_typed (act, d) = (member_ok act d \<and> points_to_kb act d \<and> params_typed d)"
  by (simp add: command_typed_def)

lemmas typed_act = command_typed_pair member_ok_def points_to_kb_def data_defs

lemma cmd_split_typed: "opt_typed (cmd_split action s en)"
  by (simp add: cmd_split_def typed typed_act)

lemma cmd_basic_typed: "opt_typed (cmd_basic action s en)"
  by (auto simp: cmd_basic_def cmd_only_def typed typed_act split: prod.splits option.splits)

lemma cmd_resize_typed: "opt_typed (cmd_resize action s en)"
  by (auto simp: cmd_resize_def parse_resize_def typed typed_act split: prod.splits)

lemma cmd_switch_typed: "opt_typed (cmd_switch action s en)"
  by (auto simp: cmd_switch_def typed typed_act split: prod.splits)

lemma cmd_move_view_typed: "opt_typed (cmd_move_view action s en)"
  by (auto simp: cmd_move_view_def parse_move_view_def typed typed_act split: prod.splits)

lemma cmd_move_to_typed: "opt_typed (cmd_move_to action s en)"
  by (auto simp: cmd_move_to_def parse_move_to_def typed typed_act split: prod.splits)

lemma cmd_merge_typed: "opt_typed (cmd_merge action s en)"
  by (auto simp: cmd_merge_def parse_merge_def typed typed_act split: prod.splits)

lemma cmd_swap_typed: "opt_typed (cmd_swap action s en)"
  by (auto simp: cmd_swap_def parse_swap_def typed typed_act split: prod.splits option.splits)

lemma cmd_exchange_typed: "opt_typed (cmd_exchange action s en)"
  by (auto simp: cmd_exchange_def typed typed_act split: prod.splits)

lemma cmd_focus_dir_typed: "opt_typed (cmd_focus_dir action s en)"
  by (auto simp: cmd_focus_dir_def typed typed_act)

lemma cmd_mode_typed: "opt_typed (cmd_mode env action s en)"
  by (auto simp: cmd_mode_def Let_def typed typed_act split: prod.splits option.splits)

lemma parse_escape_typed: "parse_escape env s en = (Inr kb, en') \<Longrightarrow> kb_typed kb"
  by (auto simp: parse_escape_def member_ok_def points_to_kb_def data_defs split: sum.splits)

lemma cmd_config_typed: "opt_typed (cmd_config env action s en)"
  by (auto simp: cmd_config_def typed typed_act parse_escape_typed split: prod.splits)

lemma cmd_simple_typed: "cmd_simple env action s en = Some r \<Longrightarrow> res_typed r"
proof -
  have "opt_typed (cmd_simple env action s en)"
    unfolding cmd_simple_def
    by (intro opt_typed_orelse cmd_split_typed cmd_basic_typed cmd_resize_typed cmd_switch_typed
        cmd_move_view_typed cmd_move_to_typed cmd_merge_typed cmd_swap_typed cmd_exchange_typed
        cmd_focus_dir_typed cmd_mode_typed cmd_config_typed)
  then show "cmd_simple env action s en = Some r \<Longrightarrow> res_typed r" by (simp add: opt_typed_def)
qed

lemma definekey_typed: "kb_typed kb \<Longrightarrow> command_typed (KEYBINDING_DEFINEKEY, Data_kb kb)"
  by (simp add: typed_act)

declare parse_command.simps [simp del] parse_keybinding.simps [simp del]

lemma parse_typed:
  "parse_command env line en n = (Inr c, en1) \<Longrightarrow> command_typed c"
  "parse_keybinding env' mode line' en' m = (Inr kb, en2) \<Longrightarrow> kb_typed kb"
proof (induction env line en n and env' mode line' en' m arbitrary: c en1 and kb en2
    rule: parse_command_parse_keybinding.induct)
  case (1 env line en n)
  obtain action s where tok: "strtok_r '' '' line = (action, s)" by fastforce
  note eq = 1(3) [unfolded parse_command.simps tok prod.case]
  have n: "\<not> n \<ge> MAX_NESTING_LEVEL" using eq by (cases "n \<ge> MAX_NESTING_LEVEL") simp_all
  note eq = eq [unfolded if_not_P [OF n]]
  obtain a where a: "action = Some a" using eq by (cases action) simp_all
  note eq = eq [unfolded a option.case]
  show ?case
  proof (cases "cmd_simple env a s en")
    case (Some r)
    then have "r = (Inr c, en1)" using eq by simp
    then show ?thesis using cmd_simple_typed [OF Some] unfolding res_typed_def by blast
  next
    case None
    note eq = eq [unfolded None option.case]
    note ih1 = 1(1) [OF tok [symmetric] n a None] and ih2 = 1(2) [OF tok [symmetric] n a None]
    show ?thesis
    proof (cases "a = ''bind''")
      case True
      then obtain kb en2 where "parse_keybinding env 1 s en n = (Inr kb, en2)" and c: "c = (KEYBINDING_DEFINEKEY, Data_kb kb)"
        using eq by (auto simp: pbind_Inr)
      with ih1 [OF True] show ?thesis using definekey_typed by blast
    next
      case False
      note eq = eq [unfolded if_not_P [OF False]]
      have dk: "a = ''definekey''" using eq by (cases "a = ''definekey''") simp_all
      obtain t s' where tok': "strtok_r '' '' s = (t, s')" by fastforce
      note eq = eq [unfolded if_P [OF dk] tok' prod.case]
      obtain mode where t: "t = Some mode" using eq by (cases t) simp_all
      define i where "i = get_mode_index_from_name (pe_modes env) mode"
      note eq = eq [unfolded t option.case Let_def, folded i_def]
      have i: "i \<noteq> - 1" using eq by (cases "i = - 1") simp_all
      note eq = eq [unfolded if_not_P [OF i]]
      obtain kb en2 where "parse_keybinding env (word_of_int i) s' en n = (Inr kb, en2)"
        and c: "c = (KEYBINDING_DEFINEKEY, Data_kb kb)" using eq by (auto simp: pbind_Inr)
      with ih2 [OF False dk tok' [symmetric] t i_def i] show ?thesis using definekey_typed by blast
    qed
  qed
next
  case (2 env mode line en n)
  obtain key s where tok: "strtok_r '' '' line = (key, s)" by fastforce
  note eq = 2(2) [unfolded parse_keybinding.simps tok prod.case]
  obtain m k where mk: "parse_key env key = Inr (m, k)" using eq by (cases "parse_key env key") auto
  note eq = eq [unfolded mk sum.case prod.case]
  have n: "n < MAX_NESTING_LEVEL" using eq by (cases "n < MAX_NESTING_LEVEL") simp_all
  note eq = eq [unfolded if_P [OF n]]
  obtain act d en3 where c: "parse_command env s en (n + 1) = (Inr (act, d), en3)" and kb: "kb = Keybinding mode m k act d"
    using eq by (auto simp: pbind_Inr)
  have "command_typed (act, d)" using 2(1) [OF tok [symmetric] mk refl n c] .
  then show ?case using kb by (simp add: command_typed_def)
qed

text \<open>
  C28: Type soundness of commands: whatever the parser accepts, at any depth of nested bindings, has
  exactly the member of the parameter union set that \<^verbatim>\<open>run_action\<close> reads for its action.
\<close>

theorem parsed_commands_are_typed:
  assumes "parse_command env line en n = (Inr (act, d), en')"
  shows "member_ok act d \<and> points_to_kb act d \<and> params_typed d"
  using parse_typed(1) [OF assms] by (simp add: command_typed_def)

definition ex_penv :: parse_env where
  "ex_penv = \<lparr>pe_modes = [''top'', ''root'', ''resize''],
     pe_keysym_from_name = (\<lambda>n. if n = ''a'' then 97 else if n = ''b'' then 98 else 0),
     pe_code_from_name = (\<lambda>_. - 1), pe_code_get_name = (\<lambda>_. None), pe_uninit = 0\<rparr>"

lemmas cmd_defs = cmd_simple_def cmd_split_def cmd_basic_def cmd_resize_def cmd_switch_def cmd_move_view_def
  cmd_move_to_def cmd_merge_def cmd_swap_def cmd_exchange_def cmd_focus_dir_def cmd_mode_def cmd_config_def

lemma strtok_bind: "strtok_r '' '' ''bind a focusprev'' = (Some ''bind'', ''a focusprev'')"
  "strtok_r '' '' ''a focusprev'' = (Some ''a'', ''focusprev'')" "strtok_r '' '' ''focusprev'' = (Some ''focusprev'', [])"
  by (simp_all add: strtok_r_def)

lemma ex_bind:
  "parse_command ex_penv ''bind a focusprev'' False 1 =
     (Inr (KEYBINDING_DEFINEKEY, Data_kb (Keybinding 1 0 97 KEYBINDING_CYCLE_TILES (Data_us 1 0 0))), False)"
proof -
  have k: "parse_key ex_penv (Some ''a'') = Inr (0, 97)" by (simp add: parse_key_def ex_penv_def)
  have "parse_command ex_penv ''focusprev'' False 2 = (Inr (KEYBINDING_CYCLE_TILES, Data_us 1 0 0), False)"
    by (simp add: parse_command.simps strtok_bind cmd_simple_def cmd_split_def cmd_basic_def pok_def)
  then have p: "parse_keybinding ex_penv 1 ''a focusprev'' False 1 =
      (Inr (Keybinding 1 0 97 KEYBINDING_CYCLE_TILES (Data_us 1 0 0)), False)"
    by (simp add: parse_keybinding.simps strtok_bind k pok_def numeral_2_eq_2)
  have "cmd_simple ex_penv ''bind'' ''a focusprev'' False = None" by (simp add: cmd_defs)
  with p show ?thesis by (simp add: parse_command.simps strtok_bind pok_def)
qed

theorem parsed_commands_are_typed_witness:
  "\<exists>kb. parse_command ex_penv ''bind a focusprev'' False 1 = (Inr (KEYBINDING_DEFINEKEY, Data_kb kb), False) \<and>
        params_typed (Data_kb kb) \<and> kb_action kb = KEYBINDING_CYCLE_TILES"
  using parsed_commands_are_typed [OF ex_bind] ex_bind by (intro exI conjI) (auto simp del: params_typed.simps)

end
