(* ===== verification/Config_Props.thy ===== *)
theory Config_Props
  imports Config_File Run_Props
begin

text \<open>
  An error without a text: the consequences of the parser leaving \<^verbatim>\<open>*errstr\<close> unset for the two
  places that run a line.
\<close>

lemma strtok_hsplit: "strtok_r '' '' (''hsplit '' @ s) = (Some ''hsplit'', s)"
  using strtok_r_append [of "''hsplit''" "'' ''" "CHR '' ''" s] by simp

lemma hsplit_error:
  assumes "parse_percentage s en = (Inl e, en')"
  shows "parse_command env (''hsplit '' @ s) en 1 = (Inl e, en')"
proof -
  have "cmd_simple env ''hsplit'' s en = Some (Inl e, en')"
    using assms by (simp add: cmd_simple_def cmd_split_def pbind_def)
  then show ?thesis using strtok_hsplit [of s] by (simp add: parse_command.simps)
qed

lemma split_lines_one: "NL \<notin> set s \<Longrightarrow> split_lines (''hsplit '' @ s) = [''hsplit '' @ s]"
  by (rule split_lines_last) simp_all



definition ex_file_env :: file_env where
  "ex_file_env = \<lparr>fe_alloc = (\<lambda>_. True), fe_errno = (\<lambda>_. False)\<rparr>"

lemma percentage_two: "parse_percentage ''2'' False = (Inl None, False)"
  by (simp add: parse_percentage_def strtok_r_def Let_def strtof_eval)




section \<open>The reader ends\<close>

lemma read_line_shorter:
  assumes "read_line fe len line fl = Some (Inr (line', len', rest))"
  shows "length rest \<le> length fl \<and> (length rest = length fl \<longrightarrow> line' = line)"
  using assms
proof (induction fe len line fl rule: read_line.induct)
  case (1 fe len line fl)
  from "1.prems" have room: "\<not> length line + 2 > unat len" by (auto simp: read_line.simps split: if_splits)
  show ?case
  proof (cases "fgets (unat len - length line) fl")
    case None
    then show ?thesis using "1.prems" room by (auto simp: read_line.simps)
  next
    case (Some x)
    obtain r rs where x: "x = (r, rs)" by (cases x)
    have "fl \<noteq> []" "read_upto (unat len - length line - 1) fl = (r, rs)"
      using Some x by (auto simp: fgets_def split: if_splits)
    then have short: "length rs < length fl"
      using read_upto_shorter [of fl "unat len - length line - 1"] room by simp
    let ?line = "c_string (line @ r)"
    show ?thesis
    proof (cases "strcspn_nl ?line = unat len - 1")
      case True
      note eq = "1.prems" [unfolded read_line.simps [of fe len]]
      have rec: "read_line fe (len * 2) ?line rs = Some (Inr (line', len', rest))"
        using eq room Some x True by (simp add: Let_def split: if_splits)
      have ok: "\<not> (len * 2 = 0 \<or> \<not> fe_alloc fe (len * 2))"
        using eq room Some x True by (simp add: Let_def split: if_splits)
      have "length rest \<le> length rs" using "1.IH" [OF room Some x [symmetric] refl True ok rec] by simp
      then show ?thesis using short by simp
    next
      case False
      then have "rest = rs" using "1.prems" room Some x by (simp add: read_line.simps [of fe len] Let_def)
      then show ?thesis using short by simp
    qed
  qed
qed

lemma read_config_fuel:
  assumes "length fl < n" and "length fl < m"
  shows "read_config n fe env penv num len fl c = read_config m fe env penv num len fl c"
  using assms
proof (induction n arbitrary: m num len fl c)
  case (Suc n)
  then obtain m' where m: "m = Suc m'" by (cases m) auto
  have IH: "read_config n fe env penv num len rest c = read_config m' fe env penv num len rest c"
    if "length rest < length fl" for num len rest c
    by (rule Suc.IH) (use that Suc.prems m in linarith)+
  have shorter: "length rest < length fl" if "read_line fe len [] fl = Some (Inr (line, len', rest))" "line \<noteq> []" for line len' rest
    using read_line_shorter [OF that(1)] that(2) by linarith
  show ?case
  proof (cases "read_line fe len [] fl")
    case None
    then show ?thesis by (simp add: m)
  next
    case (Some r)
    show ?thesis
    proof (cases r)
      case (Inl u)
      then show ?thesis using Some by (simp add: m)
    next
      case (Inr y)
      obtain line len' rest where y: "y = (line, len', rest)" by (cases y)
      show ?thesis
      proof (cases "line = []")
        case True
        then show ?thesis using Some Inr y by (simp add: m)
      next
        case False
        then have "read_config n fe env penv (Suc num) len' rest c = read_config m' fe env penv (Suc num) len' rest c" for c
          using IH shorter Some Inr y by blast
        then show ?thesis using Some Inr y False by (simp add: m Let_def cong: if_cong)
      qed
    qed
  qed
qed simp



end
