(* ===== verification/Message.thy ===== *)
theory Message
  imports Run_Action
begin

text \<open>
  Messages on the screen (\<^verbatim>\<open>message.c\<close>): where a message is placed, the list of messages of each
  output, and the signal handler of \<^verbatim>\<open>cagebreak.c\<close> that removes them. What pango and cairo draw is
  a parameter; a message is its place and whether it has a node in the scene.
\<close>

section \<open>State and surroundings\<close>

text \<open>
  \<open>ms_node\<close> is the position of the scene node; \<open>None\<close> is a pointer that was never written (the
  struct comes from \<^verbatim>\<open>malloc\<close>).
\<close>

record cg_message =
  ms_position :: wlr_box
  ms_text :: string
  ms_node :: "(int \<times> int) option"

record messages =
  mg_comp :: compositor
  mg_list :: "out_ptr \<Rightarrow> cg_message list"

text \<open>
  \<open>me_text_size\<close> is what \<^verbatim>\<open>get_text_size\<close> measures, \<open>me_scale\<close> the scale of an output.
\<close>

record msg_env =
  me_text_size :: "string \<Rightarrow> f32 \<Rightarrow> int \<times> int"
  me_scale :: "nat \<Rightarrow> f32"
  me_alloc :: bool
  me_texture :: bool
  me_uninit :: "int \<times> int"

text \<open>
  An integer divided by a scale in double precision and cast back: the quotient is rounded to 53
  bits, ties to even, then truncated. The cast is undefined outside the range of \<^verbatim>\<open>int\<close>.
\<close>

definition double_quot :: "nat \<Rightarrow> nat \<Rightarrow> nat" where
  "double_quot p q =
     (if p = 0 then 0 else
      let e0 = int (bitlen p) - int (bitlen q) - 53; (a, b) = scaled p q e0;
          e = (if 2 ^ 53 * b \<le> a then e0 + 1 else e0); (a, b) = scaled p q e; m = div_even a b
      in if 0 \<le> e then m * 2 ^ nat e else m div 2 ^ nat (- e))"

definition unscale :: "int \<Rightarrow> f32 \<Rightarrow> int option" where
  "unscale len scale =
     (case scale of
        Fin m e \<Rightarrow>
          if m \<le> 0 \<or> len < 0 then None
          else let v = int (if 0 \<le> e then double_quot (nat len) (nat m * 2 ^ nat e)
                            else double_quot (nat len * 2 ^ nat (- e)) (nat m))
               in if v \<le> INT_MAX then Some v else None
      | _ \<Rightarrow> None)"

section \<open>The place of a message\<close>

text \<open>\<^verbatim>\<open>create_message_texture\<close> adds a padding of 8 and 2 pixels on each side.\<close>

definition texture_size :: "msg_env \<Rightarrow> string \<Rightarrow> f32 \<Rightarrow> int \<times> int" where
  "texture_size env text scale = (case me_text_size env text scale of (w, h) \<Rightarrow> (w + 2 * 8, h + 2 * 2))"

text \<open>The corner, edge or centre of the output a message hangs on: \<^verbatim>\<open>message_printf\<close>.\<close>

definition anchor_point :: "int \<times> int \<Rightarrow> cg_message_anchor \<Rightarrow> wlr_box \<Rightarrow> int \<times> int" where
  "anchor_point uninit anchor b =
     (case anchor of
        CG_MESSAGE_TOP_LEFT \<Rightarrow> (0, 0)
      | CG_MESSAGE_TOP_CENTER \<Rightarrow> (box_width b sdiv 2, 0)
      | CG_MESSAGE_TOP_RIGHT \<Rightarrow> (box_width b, 0)
      | CG_MESSAGE_BOTTOM_LEFT \<Rightarrow> (0, box_height b)
      | CG_MESSAGE_BOTTOM_CENTER \<Rightarrow> (box_width b sdiv 2, box_height b)
      | CG_MESSAGE_BOTTOM_RIGHT \<Rightarrow> (box_width b, box_height b)
      | CG_MESSAGE_CENTER \<Rightarrow> (box_width b sdiv 2, box_height b sdiv 2)
      | CG_MESSAGE_NOPT \<Rightarrow> uninit)"

text \<open>The upper left corner of the message: \<^verbatim>\<open>message_set_output\<close>.\<close>

definition place_message :: "cg_message_anchor \<Rightarrow> int \<times> int \<Rightarrow> int \<Rightarrow> int \<Rightarrow> wlr_box" where
  "place_message anchor xy width height =
     (let (x, y) = xy;
          (x, y) = (case anchor of
              CG_MESSAGE_TOP_LEFT \<Rightarrow> (0, 0)
            | CG_MESSAGE_TOP_CENTER \<Rightarrow> (x - width sdiv 2, 0)
            | CG_MESSAGE_TOP_RIGHT \<Rightarrow> (x - width, 0)
            | CG_MESSAGE_BOTTOM_LEFT \<Rightarrow> (0, y - height)
            | CG_MESSAGE_BOTTOM_CENTER \<Rightarrow> (x - width sdiv 2, y - height)
            | CG_MESSAGE_BOTTOM_RIGHT \<Rightarrow> (x - width, y - height)
            | CG_MESSAGE_CENTER \<Rightarrow> (x - width sdiv 2, y - height sdiv 2)
            | CG_MESSAGE_NOPT \<Rightarrow> (x, y))
      in \<lparr>box_x = x, box_y = y, box_width = width, box_height = height\<rparr>)"

section \<open>Operations\<close>

text \<open>
  \<^verbatim>\<open>message_set_output\<close>. The message is in the list before it is known whether the output has a
  scene output; without one it stays there with its node unset.
\<close>

definition has_scene_output :: "nat \<Rightarrow> cg_server \<Rightarrow> bool" where
  "has_scene_output w s \<longleftrightarrow> (\<exists>a < s_scene_brk s. s_scene_outputs s a = Some w)"

definition message_set_output ::
    "msg_env \<Rightarrow> out_ptr \<Rightarrow> string \<Rightarrow> int \<times> int \<Rightarrow> cg_message_anchor \<Rightarrow> messages \<Rightarrow> messages option" where
  "message_set_output env p text xy anchor st =
     (if \<not> me_alloc env \<or> \<not> me_texture env then Some st
      else do {
        out \<leftarrow> s_outs (c_srv (mg_comp st)) p;
        let scale = me_scale env (o_wlr_output out);
        let (bw, bh) = texture_size env text scale;
        width \<leftarrow> unscale bw scale;
        height \<leftarrow> unscale bh scale;
        let pos = place_message anchor xy width height;
        let msg = \<lparr>ms_position = pos, ms_text = text, ms_node = None\<rparr>;
        if \<not> has_scene_output (o_wlr_output out) (c_srv (mg_comp st))
        then Some (st\<lparr>mg_list := (mg_list st)(p := msg # mg_list st p)\<rparr>)
        else do {
          (b, s) \<leftarrow> output_get_layout_box p (c_srv (mg_comp st));
          let msg = msg\<lparr>ms_node := Some (box_x pos + box_x b, box_y pos + box_y b)\<rparr>;
          Some (st\<lparr>mg_comp := (mg_comp st)\<lparr>c_srv := s\<rparr>, mg_list := (mg_list st)(p := msg # mg_list st p)\<rparr>)
        }
      })"

definition message_printf_on ::
    "msg_env \<Rightarrow> out_ptr \<Rightarrow> string \<Rightarrow> messages \<Rightarrow> messages option" where
  "message_printf_on env p text st = do {
     out \<leftarrow> s_outs (c_srv (mg_comp st)) p;
     let cfg = c_message_config (mg_comp st);
     if o_destroyed out \<or> mc_enabled cfg = 0 \<or> \<not> me_alloc env then Some st
     else do {
       (b, s) \<leftarrow> output_get_layout_box p (c_srv (mg_comp st));
       let st = st\<lparr>mg_comp := (mg_comp st)\<lparr>c_srv := s\<rparr>\<rparr>;
       st \<leftarrow> message_set_output env p text (anchor_point (me_uninit env) (mc_anchor cfg) b) (mc_anchor cfg) st;
       Some (st\<lparr>mg_comp := emit_srv (Alarm (mc_display_time cfg)) (mg_comp st)\<rparr>)
     }
   }"

text \<open>\<^verbatim>\<open>message_printf_pos\<close> cuts the text to a buffer of 256 bytes.\<close>

definition message_printf_pos_on ::
    "msg_env \<Rightarrow> out_ptr \<Rightarrow> int \<times> int \<Rightarrow> cg_message_anchor \<Rightarrow> string \<Rightarrow> messages \<Rightarrow> messages option" where
  "message_printf_pos_on env p xy anchor text st = do {
     out \<leftarrow> s_outs (c_srv (mg_comp st)) p;
     let cfg = c_message_config (mg_comp st);
     if o_destroyed out \<or> mc_enabled cfg = 0 then Some st
     else do {
       st \<leftarrow> message_set_output env p (take 255 text) xy anchor st;
       Some (st\<lparr>mg_comp := emit_srv (Alarm (mc_display_time cfg)) (mg_comp st)\<rparr>)
     }
   }"

text \<open>Removing the messages destroys their nodes; an unset pointer is followed.\<close>

definition message_clear_on :: "out_ptr \<Rightarrow> messages \<Rightarrow> messages option" where
  "message_clear_on p st =
     (if \<exists>m \<in> set (mg_list st p). ms_node m = None then None
      else Some (st\<lparr>mg_list := (mg_list st)(p := [])\<rparr>))"

section \<open>Signals\<close>

datatype signal = SIGINT | SIGTERM | SIGALRM | SIGPIPE

fun clear_outputs :: "out_ptr list \<Rightarrow> messages \<Rightarrow> messages option" where
  "clear_outputs [] st = Some st"
| "clear_outputs (p # ps) st = do { st \<leftarrow> message_clear_on p st; clear_outputs ps st }"

definition handle_signal :: "signal \<Rightarrow> messages \<Rightarrow> messages option" where
  "handle_signal sig st =
     (case sig of
        SIGALRM \<Rightarrow> clear_outputs (s_outputs (c_srv (mg_comp st))) st
      | SIGPIPE \<Rightarrow> Some st
      | _ \<Rightarrow> Some (st\<lparr>mg_comp := emit_srv Display_terminate (mg_comp st)\<rparr>))"

section \<open>The messages of the other components\<close>

text \<open>
  The other components record the calls they make; this carries out one of them. The tile messages
  are centred (\<^verbatim>\<open>CG_MESSAGE_CENTER\<close>).
\<close>

definition show_call :: "msg_env \<Rightarrow> lib_call \<Rightarrow> messages \<Rightarrow> messages option" where
  "show_call env call st =
     (case call of
        Message_printf p text \<Rightarrow> message_printf_on env p text st
      | Message_printf_pos p x y text \<Rightarrow> message_printf_pos_on env p (x, y) CG_MESSAGE_CENTER text st
      | Message_clear p \<Rightarrow> message_clear_on p st
      | _ \<Rightarrow> Some st)"

fun show_calls :: "msg_env \<Rightarrow> lib_call list \<Rightarrow> messages \<Rightarrow> messages option" where
  "show_calls env [] st = Some st"
| "show_calls env (call # calls) st = do { st \<leftarrow> show_call env call st; show_calls env calls st }"


section \<open>Where messages are\<close>

definition inside :: "wlr_box \<Rightarrow> wlr_box \<Rightarrow> bool" where
  "inside b c \<longleftrightarrow> 0 \<le> box_x b \<and> 0 \<le> box_y b \<and> box_x b + box_width b \<le> box_width c \<and>
     box_y b + box_height b \<le> box_height c"

lemma sdiv_2: "0 \<le> W \<Longrightarrow> W sdiv 2 = W div (2 :: int)"
  by (cases "W = 0") (simp_all add: signed_divide_int_def)

lemma centre_inside: "0 \<le> w \<Longrightarrow> w \<le> W \<Longrightarrow> 0 \<le> W sdiv 2 - w sdiv 2 \<and> W sdiv 2 - w sdiv 2 + w \<le> (W :: int)"
  by (simp add: sdiv_2) presburger

lemma place_inside:
  assumes "anchor \<noteq> CG_MESSAGE_NOPT" and "0 \<le> w" "w \<le> box_width b" and "0 \<le> h" "h \<le> box_height b"
  shows "inside (place_message anchor (anchor_point u anchor b) w h) b"
  using assms centre_inside [of w "box_width b"] centre_inside [of h "box_height b"]
  by (cases anchor) (simp_all add: inside_def place_message_def anchor_point_def)

lemma unscale_pos: "unscale len scale = Some w \<Longrightarrow> 0 \<le> w"
  by (auto simp: unscale_def Let_def split: f32.splits if_splits)

lemma layout_box_upd:
  assumes "output_get_layout_box p s = Some (b, s')"
  shows "\<exists>outs. s' = s\<lparr>s_outs := outs\<rparr>"
  using output_get_layout_box_ok [OF assms] by blast


text \<open>A message that is shown: its size is at most that of the output.\<close>

lemma message_printf_shown:
  assumes out: "s_outs (c_srv (mg_comp st)) p = Some out" and on: "\<not> o_destroyed out"
    and enabled: "mc_enabled (c_message_config (mg_comp st)) \<noteq> 0" and mem: "me_alloc env" "me_texture env"
    and box: "output_get_layout_box p (c_srv (mg_comp st)) = Some (b, s')"
    and scene: "has_scene_output (o_wlr_output out) (c_srv (mg_comp st))"
    and size: "texture_size env text (me_scale env (o_wlr_output out)) = (bw, bh)"
      "unscale bw (me_scale env (o_wlr_output out)) = Some w" "unscale bh (me_scale env (o_wlr_output out)) = Some h"
  shows "\<exists>st' n. message_printf_on env p text st = Some st' \<and>
     mg_list st' = (mg_list st)(p := \<lparr>ms_position =
        place_message (mc_anchor (c_message_config (mg_comp st)))
          (anchor_point (me_uninit env) (mc_anchor (c_message_config (mg_comp st))) b) w h,
        ms_text = text, ms_node = Some n\<rparr> # mg_list st p)"
proof -
  obtain outs where sim: "outs_sim (s_outs (c_srv (mg_comp st))) outs" and s': "s' = (c_srv (mg_comp st))\<lparr>s_outs := outs\<rparr>"
    using output_get_layout_box_ok [OF box] by blast
  obtain out' where out': "outs p = Some out'" and w': "o_wlr_output out' = o_wlr_output out"
    using outs_simD [OF sim out] by metis
  let ?st = "st\<lparr>mg_comp := (mg_comp st)\<lparr>c_srv := s'\<rparr>\<rparr>"
  obtain b2 s2 where box2: "output_get_layout_box p s' = Some (b2, s2)"
    using output_get_layout_box_total [of s' p] out' s' by auto
  have sc: "has_scene_output (o_wlr_output out) s'" using scene by (simp add: has_scene_output_def s')
  show ?thesis
    using out on enabled mem box size box2 sc out'
    by (simp add: message_printf_on_def message_set_output_def Let_def s' w') ((rule exI)+, rule refl)
qed


text \<open>Without a scene output the message is kept with its node unset.\<close>

lemma message_printf_unshown:
  assumes out: "s_outs (c_srv (mg_comp st)) p = Some out" and on: "\<not> o_destroyed out"
    and enabled: "mc_enabled (c_message_config (mg_comp st)) \<noteq> 0" and mem: "me_alloc env" "me_texture env"
    and scene: "\<not> has_scene_output (o_wlr_output out) (c_srv (mg_comp st))"
    and size: "texture_size env text (me_scale env (o_wlr_output out)) = (bw, bh)"
      "unscale bw (me_scale env (o_wlr_output out)) = Some w" "unscale bh (me_scale env (o_wlr_output out)) = Some h"
  shows "\<exists>st' m. message_printf_on env p text st = Some st' \<and> mg_list st' p = m # mg_list st p \<and> ms_node m = None"
proof -
  obtain b s' where box: "output_get_layout_box p (c_srv (mg_comp st)) = Some (b, s')"
    using output_get_layout_box_total [of "c_srv (mg_comp st)" p] out by auto
  obtain outs where sim: "outs_sim (s_outs (c_srv (mg_comp st))) outs" and s': "s' = (c_srv (mg_comp st))\<lparr>s_outs := outs\<rparr>"
    using output_get_layout_box_ok [OF box] by blast
  obtain out' where out': "outs p = Some out'" and w': "o_wlr_output out' = o_wlr_output out"
    using outs_simD [OF sim out] by metis
  have sc: "\<not> has_scene_output (o_wlr_output out) s'" using scene by (simp add: has_scene_output_def s')
  show ?thesis
    using out on enabled mem box size sc out' by (simp add: message_printf_on_def message_set_output_def Let_def s' w')
qed

end
