(* ===== verification/Message_Props.thy ===== *)
theory Message_Props
  imports Message Key_Props
begin

text \<open>
  What the messages are good for: a message lies on its output, and the alarm removes it. On an output
  without a scene output the removal follows a pointer that was never set.
\<close>

lemma clear_outputs_ok:
  "\<forall>p \<in> set ps. \<forall>m \<in> set (mg_list st p). ms_node m \<noteq> None \<Longrightarrow>
   \<exists>st'. clear_outputs ps st = Some st' \<and> mg_comp st' = mg_comp st \<and>
     mg_list st' = (\<lambda>p. if p \<in> set ps then [] else mg_list st p)"
proof (induction ps arbitrary: st)
  case (Cons p ps)
  let ?st = "st\<lparr>mg_list := (mg_list st)(p := [])\<rparr>"
  have "\<forall>q \<in> set ps. \<forall>m \<in> set (mg_list ?st q). ms_node m \<noteq> None" using Cons.prems by auto
  from Cons.IH [OF this] obtain st' where "clear_outputs ps ?st = Some st'" "mg_comp st' = mg_comp st"
    "mg_list st' = (\<lambda>q. if q \<in> set ps then [] else mg_list ?st q)" by auto
  moreover have "message_clear_on p st = Some ?st" using Cons.prems by (auto simp: message_clear_on_def)
  ultimately show ?case by (intro exI [of _ st']) (auto simp: fun_eq_iff)
qed (simp add: fun_eq_iff)

lemma clear_outputs_fault:
  "p \<in> set ps \<Longrightarrow> m \<in> set (mg_list st p) \<Longrightarrow> ms_node m = None \<Longrightarrow> clear_outputs ps st = None"
proof (induction ps arbitrary: st)
  case (Cons q ps)
  show ?case
  proof (cases "message_clear_on q st")
    case None
    then show ?thesis by simp
  next
    case (Some st1)
    have ne: "q \<noteq> p"
    proof
      assume "q = p"
      then have "\<exists>m \<in> set (mg_list st q). ms_node m = None" using Cons.prems(2,3) by blast
      then have "message_clear_on q st = None" by (simp only: message_clear_on_def if_True)
      with Some show False by simp
    qed
    have "mg_list st1 p = mg_list st p"
      using Some ne by (auto simp: message_clear_on_def split: if_split_asm)
    then have "clear_outputs ps st1 = None" using Cons.prems ne by (intro Cons.IH) auto
    with Some show ?thesis by simp
  qed
qed simp


text \<open>
  C35: A message for an output that has no scene output is remembered with its scene node unset, and
  the alarm that is to remove it follows that pointer.
\<close>

theorem message_without_scene_output_faults:
  assumes out: "s_outs (c_srv (mg_comp st)) p = Some out" and on: "\<not> o_destroyed out"
    and enabled: "mc_enabled (c_message_config (mg_comp st)) \<noteq> 0" and mem: "me_alloc env" "me_texture env"
    and scene: "\<not> has_scene_output (o_wlr_output out) (c_srv (mg_comp st))"
    and size: "texture_size env text (me_scale env (o_wlr_output out)) = (bw, bh)"
      "unscale bw (me_scale env (o_wlr_output out)) = Some w" "unscale bh (me_scale env (o_wlr_output out)) = Some h"
  shows "\<exists>st'. message_printf_on env p text st = Some st' \<and> message_clear_on p st' = None \<and>
     (p \<in> set (s_outputs (c_srv (mg_comp st'))) \<longrightarrow> handle_signal SIGALRM st' = None)"
proof -
  obtain st' m where st': "message_printf_on env p text st = Some st'" "mg_list st' p = m # mg_list st p" "ms_node m = None"
    using message_printf_unshown [OF out on enabled mem scene size] by blast
  have "message_clear_on p st' = None" using st'(2,3) by (auto simp: message_clear_on_def)
  moreover have "handle_signal SIGALRM st' = None" if "p \<in> set (s_outputs (c_srv (mg_comp st')))"
    using clear_outputs_fault [OF that, of m st'] st'(2,3) by (simp add: handle_signal_def)
  ultimately show ?thesis using st'(1) by blast
qed

section \<open>Examples\<close>

definition ex_msg_env :: msg_env where
  "ex_msg_env = \<lparr>me_text_size = (\<lambda>t _. (8 * int (length t), 16)), me_scale = (\<lambda>_. Fin 1 0),
     me_alloc = True, me_texture = True, me_uninit = (0, 0)\<rparr>"

definition ex_messages :: messages where
  "ex_messages = \<lparr>mg_comp = ex_comp, mg_list = (\<lambda>_. [])\<rparr>"

lemma ex_unscale: "unscale 40 (Fin 1 0) = Some 40" "unscale 20 (Fin 1 0) = Some 20"
  by (simp_all add: unscale_def double_quot_def scaled_def div_even_def Let_def)

lemma ex_message:
  "s_outs (c_srv (mg_comp ex_messages)) 30 = Some (ex_out ''DP-1'' 0 [20, 21])"
  "\<not> o_destroyed (ex_out ''DP-1'' 0 [20, 21])" "o_wlr_output (ex_out ''DP-1'' 0 [20, 21]) = 0"
  "mc_enabled (c_message_config (mg_comp ex_messages)) \<noteq> 0"
  "mc_anchor (c_message_config (mg_comp ex_messages)) = CG_MESSAGE_TOP_RIGHT"
  "me_alloc ex_msg_env" "me_texture ex_msg_env" "me_scale ex_msg_env 0 = Fin 1 0"
  "has_scene_output 0 (c_srv (mg_comp ex_messages))" "mg_list ex_messages = (\<lambda>_. [])"
  "texture_size ex_msg_env ''abc'' (Fin 1 0) = (40, 20)"
  by (auto simp: ex_messages_def ex_defs ex_message_config_def ex_msg_env_def has_scene_output_def texture_size_def)


definition ex_unlit :: messages where
  "ex_unlit = ex_messages\<lparr>mg_comp := ex_comp\<lparr>c_srv := ex_server\<lparr>s_scene_outputs := Map.empty\<rparr>\<rparr>\<rparr>"

theorem message_without_scene_output_faults_witness:
  "\<exists>st'. message_printf_on ex_msg_env 30 ''abc'' ex_unlit = Some st' \<and> message_clear_on 30 st' = None"
proof -
  have "s_outs (c_srv (mg_comp ex_unlit)) 30 = Some (ex_out ''DP-1'' 0 [20, 21])"
    "mc_enabled (c_message_config (mg_comp ex_unlit)) \<noteq> 0" "\<not> has_scene_output 0 (c_srv (mg_comp ex_unlit))"
    using ex_message(1,4) by (simp_all add: ex_unlit_def ex_messages_def has_scene_output_def)
  then show ?thesis
    using message_without_scene_output_faults [of ex_unlit 30 "ex_out ''DP-1'' 0 [20, 21]" ex_msg_env "''abc''" 40 20 40 20]
      ex_message ex_unscale by auto
qed

end
