(* ===== verification/Startup.thy ===== *)
theory Startup
  imports Config_File
begin

text \<open>
  The state \<^verbatim>\<open>main\<close> (\<^verbatim>\<open>cagebreak.c\<close>) sets up before the first event, what it does with the
  outputs once the configuration is read, and what it frees at the end. The creation of the objects
  of wlroots in between is not part of it.
\<close>

section \<open>The initial state\<close>

text \<open>The seat of \<^verbatim>\<open>seat_create\<close>.\<close>

definition initial_seat :: cg_seat where
  "initial_seat = \<lparr>se_mode = 0, se_default_mode = 0, se_enable_cursor = True, se_cursor_tile = None,
     se_focused_view = None, se_num_keyboards = 0, se_num_pointers = 0, se_num_touch = 0,
     se_touch_lx = 0, se_touch_ly = 0, se_drag_icons = [], se_keyboard_focus = None,
     se_pointer_focus = None, se_dragging = False, se_cursor_x = 0, se_cursor_y = 0\<rparr>"

definition initial_server :: cg_server where
  "initial_server = \<lparr>s_tiles = Map.empty, s_views = Map.empty, s_workspaces = Map.empty, s_outs = Map.empty,
     s_tile_brk = 0, s_view_brk = 0, s_ws_brk = 0, s_outputs = [], s_disabled_outputs = [],
     s_curr_output = None, s_nws = 1, s_views_curr_id = 1, s_tiles_curr_id = 1, s_running = True,
     s_seat = initial_seat, s_layout = (\<lambda>_. zero_box), s_scene_outputs = Map.empty, s_scene_brk = 0,
     s_cursor_at = None, s_node_at = Hit_none, s_calls = []\<rparr>"

text \<open>The colours \<open>0.9\<close> and \<open>0.85\<close> as floats.\<close>

definition start_message_config :: cg_message_config where
  "start_message_config =
     \<lparr>mc_font = Some ''pango:Monospace 10'', mc_display_time = 2,
      mc_bg_color = [Fin 15099494 (- 24), Fin 14260634 (- 24), Fin 14260634 (- 24), Fin 1 0],
      mc_fg_color = [Fin 0 0, Fin 0 0, Fin 0 0, Fin 1 0], mc_enabled = 1, mc_anchor = CG_MESSAGE_TOP_RIGHT\<rparr>"

definition initial_compositor :: compositor where
  "initial_compositor = \<lparr>c_srv = initial_server, c_keybindings = keybinding_list_init, c_kb_heap = Map.empty,
     c_array = 0, c_kb_brk = 1, c_modes = Some [''top'', ''root'', ''resize''],
     c_modecursors = Some [None, Some ''cell'', None, None],
     c_bg_color = [Fin 0 0, Fin 0 0, Fin 0 0, Fin 1 0], c_message_config = start_message_config,
     c_output_config = [], c_input_config = [], c_groups = [], c_seat_keyboard = None, c_devices = []\<rparr>"

section \<open>The outputs after the configuration\<close>

text \<open>
  All outputs leave the list; in the old order, each is inserted by its priority and configured. With
  no output at all \<^verbatim>\<open>curr_output\<close> points into the empty list, not to an output.
\<close>

fun insert_and_configure ::
    "wlr_env \<Rightarrow> bool \<Rightarrow> cg_output_config list \<Rightarrow> out_ptr list \<Rightarrow> cg_server \<Rightarrow> cg_server option" where
  "insert_and_configure env listening cfgs [] s = Some s"
| "insert_and_configure env listening cfgs (p # ps) s = do {
     s \<leftarrow> output_insert p s;
     s \<leftarrow> output_configure env listening cfgs p s;
     insert_and_configure env listening cfgs ps s
   }"

definition configure_outputs_again :: "cg_env \<Rightarrow> compositor \<Rightarrow> compositor option" where
  "configure_outputs_again env c = do {
     let s = c_srv c;
     s \<leftarrow> insert_and_configure (ce_wlr env) (ce_listening env) (c_output_config c) (s_outputs s) (s\<lparr>s_outputs := []\<rparr>);
     Some (c\<lparr>c_srv := emit (Seat_call Cursor_warp)
              (s\<lparr>s_curr_output := (case s_outputs s of [] \<Rightarrow> None | p # _ \<Rightarrow> Some p)\<rparr>)\<rparr>)
   }"

text \<open>
  From the command line to the event loop: the configuration, then the outputs. The flag is whether
  the event loop is entered.
\<close>

definition start ::
    "file_env \<Rightarrow> cg_env \<Rightarrow> parse_env \<Rightarrow> (string \<Rightarrow> string option) \<Rightarrow> (string \<Rightarrow> string option) \<Rightarrow> string option \<Rightarrow>
     compositor \<Rightarrow> (bool \<times> compositor) option" where
  "start fe env penv fs getenv config_path c = do {
     (go, c) \<leftarrow> load_configuration fe env penv fs getenv config_path c;
     if go then map_option (Pair True) (configure_outputs_again env c) else Some (False, c)
   }"

section \<open>The end\<close>

text \<open>
  The cursor names are freed one per mode: the loop runs as far as the array of modes, so the array of
  cursors must be at least as long. The names themselves are not shared.
\<close>

definition free_modes :: "compositor \<Rightarrow> compositor option" where
  "free_modes c =
     (case c_modecursors c of
        None \<Rightarrow> Some (c\<lparr>c_modes := None\<rparr>)
      | Some cursors \<Rightarrow>
          (case c_modes c of
             None \<Rightarrow> Some (c\<lparr>c_modecursors := None\<rparr>)
           | Some modes \<Rightarrow>
               if length cursors < length modes then None
               else Some (c\<lparr>c_modes := None, c_modecursors := None\<rparr>)))"

definition free_keybindings :: "compositor \<Rightarrow> compositor option" where
  "free_keybindings c = do {
     h \<leftarrow> keybinding_list_free (Suc (c_kb_brk c)) (c_keybindings c) (c_kb_heap c);
     Some (c\<lparr>c_kb_heap := h\<rparr>)
   }"

text \<open>The part of the end of \<^verbatim>\<open>main\<close> that frees what the model holds.\<close>

definition shutdown :: "compositor \<Rightarrow> compositor option" where
  "shutdown c = do {
     c \<leftarrow> free_modes c;
     c \<leftarrow> free_keybindings (c\<lparr>c_output_config := [], c_input_config := []\<rparr>);
     Some (c\<lparr>c_message_config := (c_message_config c)\<lparr>mc_font := None\<rparr>,
             c_srv := (c_srv c)\<lparr>s_running := False\<rparr>\<rparr>)
   }"

end
