(* ===== verification/Define_Props.thy ===== *)
theory Define_Props
  imports Run_Props
begin

text \<open>
  A line that defines a key binding, from the text to the table: the parsed binding is put into
  memory and becomes the one found under its modifiers, mode and key.
\<close>

section \<open>A binding in memory\<close>

primrec kb_at :: "keybinding \<Rightarrow> kb_heap \<Rightarrow> kb_ptr \<Rightarrow> bool"
  and params_at :: "keybinding_params \<Rightarrow> kb_heap \<Rightarrow> kb_ptr option \<Rightarrow> bool" where
  "kb_at (Keybinding mode modifiers key act d) h p \<longleftrightarrow>
     (\<exists>q. h p = Some \<lparr>kc_mode = mode, kc_modifiers = modifiers, kc_key = key, kc_action = act,
                      kc_data = kb_params d, kc_kb = q\<rparr> \<and> params_at d h q)"
| "params_at Data_none h q \<longleftrightarrow> q = None"
| "params_at (Data_c s) h q \<longleftrightarrow> q = None"
| "params_at (Data_cs s t) h q \<longleftrightarrow> q = None"
| "params_at (Data_u u) h q \<longleftrightarrow> q = None"
| "params_at (Data_is u v) h q \<longleftrightarrow> q = None"
| "params_at (Data_us u v w) h q \<longleftrightarrow> q = None"
| "params_at (Data_i i) h q \<longleftrightarrow> q = None"
| "params_at (Data_b b) h q \<longleftrightarrow> q = None"
| "params_at (Data_f f) h q \<longleftrightarrow> q = None"
| "params_at (Data_color r g b) h q \<longleftrightarrow> q = None"
| "params_at (Data_kb kb) h q \<longleftrightarrow> (\<exists>p. q = Some p \<and> kb_at kb h p)"
| "params_at (Data_o_cfg oc) h q \<longleftrightarrow> q = None"
| "params_at (Data_i_cfg ic) h q \<longleftrightarrow> q = None"
| "params_at (Data_m_cfg mc) h q \<longleftrightarrow> q = None"

lemma kb_tree_step: "kb_tree n h p = Some ts \<Longrightarrow> kb_tree (Suc n) h p = Some ts"
proof (induction n arbitrary: p ts)
  case (Suc n)
  from Suc.prems show ?case
  proof (cases rule: kb_tree_Suc)
    case (leaf c)
    then show ?thesis by (simp split: option.split)
  next
    case (node c q us)
    have "kb_tree (Suc n) h q = Some us" using Suc.IH node(4) .
    then show ?thesis unfolding kb_tree.simps(2) [of "Suc n"] using node(1-3,5) by simp
  qed
qed simp

lemma kb_tree_mono:
  assumes "kb_tree n h p = Some ts" and "n \<le> m"
  shows "kb_tree m h p = Some ts"
  using assms(2,1) by (induction rule: dec_induct) (simp_all add: kb_tree_step del: kb_tree.simps)

lemma kb_forest_mono: "kb_forest n h ps = Some ts \<Longrightarrow> n \<le> m \<Longrightarrow> kb_forest m h ps = Some ts"
proof (induction ps arbitrary: ts)
  case (Cons p ps)
  obtain t us where t: "kb_tree n h p = Some t" and us: "kb_forest n h ps = Some us" and ts: "ts = t @ us"
    using Cons.prems(1) by (auto simp: bind_eq_Some simp del: kb_tree.simps)
  show ?case
    using kb_tree_mono [OF t Cons.prems(2)] Cons.IH [OF us Cons.prems(2)] by (simp add: ts)
qed simp

lemma kl_wf_mono: "kl_wf n l h \<Longrightarrow> n \<le> m \<Longrightarrow> kl_wf m l h"
  unfolding kl_wf_def using kb_forest_mono by blast

lemma kb_at_add:
  "kb_at kb h p \<Longrightarrow> h z = None \<Longrightarrow> kb_at kb (h(z \<mapsto> c)) p"
  "params_at d h q \<Longrightarrow> h z = None \<Longrightarrow> params_at d (h(z \<mapsto> c)) q"
  by (induction kb and d arbitrary: p and q) auto

text \<open>Allocation writes above the break only, and the cells of the new binding form a tree.\<close>

definition below :: "nat \<Rightarrow> kb_heap \<Rightarrow> bool" where
  "below brk h \<longleftrightarrow> (\<forall>p \<ge> brk. h p = None)"

definition kb_fresh :: "nat \<Rightarrow> kb_heap \<Rightarrow> nat \<Rightarrow> kb_heap \<Rightarrow> bool" where
  "kb_fresh brk h brk' h' \<longleftrightarrow> brk \<le> brk' \<and> (\<forall>p < brk. h' p = h p) \<and> below brk' h'"

definition child_ok :: "keybinding_params \<Rightarrow> nat \<Rightarrow> kb_ptr option \<Rightarrow> nat \<Rightarrow> kb_heap \<Rightarrow> bool" where
  "child_ok d brk q brk' h' \<longleftrightarrow>
     (if (\<exists>kb. d = Data_kb kb)
      then q = Some brk \<and> brk < brk' \<and> kb_tree (brk' - brk) h' brk = Some [brk..<brk']
      else q = None \<and> brk' = brk)"

lemma alloc_kb_correct:
  "kb_typed kb \<Longrightarrow> below brk h \<Longrightarrow> alloc_kb kb (brk, h) = (brk', h') \<Longrightarrow>
     kb_fresh brk h brk' h' \<and> brk < brk' \<and> kb_tree (brk' - brk) h' brk = Some [brk..<brk'] \<and> kb_at kb h' brk"
  "params_typed d \<Longrightarrow> below brk h \<Longrightarrow> alloc_params d (brk, h) = (q, brk', h') \<Longrightarrow>
     kb_fresh brk h brk' h' \<and> params_at d h' q \<and> child_ok d brk q brk' h'"
proof (induction kb and d arbitrary: brk h brk' h' and brk h brk' h' q)
  case (Keybinding mode modifiers key act d)
  obtain q b h1 where a: "alloc_params d (Suc brk, h) = (q, b, h1)" by (metis prod_cases3)
  let ?c = "\<lparr>kc_mode = mode, kc_modifiers = modifiers, kc_key = key, kc_action = act, kc_data = kb_params d, kc_kb = q\<rparr>"
  have h': "brk' = b" "h' = h1(brk \<mapsto> ?c)" using Keybinding.prems(3) a by auto
  have pt: "points_to_kb act d" "params_typed d" using Keybinding.prems(1) by auto
  have bl: "below (Suc brk) h" using Keybinding.prems(2) by (simp add: below_def)
  note ih = Keybinding.IH [OF pt(2) bl a]
  have none: "h1 brk = None" using ih Keybinding.prems(2) by (auto simp: kb_fresh_def below_def)
  have fresh: "kb_fresh brk h brk' h'" and lt: "brk < brk'"
    using ih h' by (auto simp: kb_fresh_def below_def)
  have at: "kb_at (Keybinding mode modifiers key act d) h' brk"
    using kb_at_add(2) [where d = d and h = h1 and z = brk, OF _ none] ih h' by simp
  have "kb_tree (brk' - brk) h' brk = Some [brk..<brk']"
  proof (cases "\<exists>kb. d = Data_kb kb")
    case True
    then have q: "q = Some (Suc brk)" "Suc brk < b" "kb_tree (b - Suc brk) h1 (Suc brk) = Some [Suc brk..<b]"
      and act: "act = KEYBINDING_DEFINEKEY" using ih pt(1) by (auto simp: child_ok_def points_to_kb_def)
    have "kb_tree (b - Suc brk) h' (Suc brk) = Some [Suc brk..<b]"
      by (rule kb_tree_frame [OF q(3)]) (simp add: h')
    moreover have "brk' - brk = Suc (b - Suc brk)" using q(2) h' by simp
    ultimately show ?thesis using q(1,2) act by (simp add: h' upt_conv_Cons)
  next
    case False
    then have "b = Suc brk" and "act \<noteq> KEYBINDING_DEFINEKEY" using ih pt(1) by (auto simp: child_ok_def points_to_kb_def)
    then show ?thesis by (simp add: h' upt_conv_Cons)
  qed
  with fresh lt at show ?case by simp
next
  case (Data_kb kb)
  obtain b h1 where "alloc_kb kb (brk, h) = (b, h1)" by fastforce
  with Data_kb show ?case by (auto simp: child_ok_def)
qed (simp_all add: kb_fresh_def child_ok_def)

section \<open>The table after the line\<close>

definition kb_ok :: "compositor \<Rightarrow> bool" where
  "kb_ok c \<longleftrightarrow> kl_wf (Suc (c_kb_brk c)) (c_keybindings c) (c_kb_heap c) \<and> below (c_kb_brk c) (c_kb_heap c)"

definition bound_to :: "compositor \<Rightarrow> kb_id \<Rightarrow> kb_ptr option" where
  "bound_to c = kb_lookup (c_keybindings c) (c_kb_heap c)"

text \<open>Freeing other bindings leaves a binding whose cells are still a tree as it was.\<close>

lemma kb_at_shrinks:
  "kb_typed kb \<Longrightarrow> kb_at kb h p \<Longrightarrow> kb_shrinks h h' \<Longrightarrow> kb_tree n h' p = Some ts \<Longrightarrow> kb_at kb h' p"
  "params_typed d \<Longrightarrow> params_at d h q \<Longrightarrow> kb_shrinks h h' \<Longrightarrow>
     (\<forall>p kb. d = Data_kb kb \<and> q = Some p \<longrightarrow> kb_tree n h' p = Some ts) \<Longrightarrow> params_at d h' q"
proof (induction kb and d arbitrary: p n ts and q n ts)
  case (Keybinding mode modifiers key act d)
  obtain k where n: "n = Suc k" using Keybinding.prems(4) by (cases n) auto
  obtain q where hp: "h p = Some \<lparr>kc_mode = mode, kc_modifiers = modifiers, kc_key = key, kc_action = act,
      kc_data = kb_params d, kc_kb = q\<rparr>" and q: "params_at d h q" using Keybinding.prems(2) by auto
  have typed: "params_typed d" "points_to_kb act d" using Keybinding.prems(1) by auto
  from Keybinding.prems(4) [unfolded n] have "h' p \<noteq> None" by (auto simp: bind_eq_Some)
  then have hp': "h' p = h p" using Keybinding.prems(3) by (auto simp: kb_shrinks_def dest: spec [of _ p])
  have "params_at d h' q"
  proof (cases "\<exists>kb. d = Data_kb kb")
    case True
    then have act: "act = KEYBINDING_DEFINEKEY" using typed by (simp add: points_to_kb_def)
    from True q obtain r where r: "q = Some r" by auto
    from Keybinding.prems(4) obtain us where "kb_tree k h' r = Some us"
      by (simp add: n hp' hp act r) blast
    then show ?thesis using Keybinding.IH [OF typed(1) q Keybinding.prems(3), of k us] r by simp
  next
    case False
    then show ?thesis using Keybinding.IH [OF typed(1) q Keybinding.prems(3), of n ts] by blast
  qed
  then show ?case using hp' hp by simp
next
  case (Data_kb kb)
  then show ?case by auto
qed simp_all


lemma params_kb_typed: "parse_command env line en n = (Inr (KEYBINDING_DEFINEKEY, Data_kb kb), en') \<Longrightarrow> kb_typed kb"
  using parse_typed(1) by (force simp: command_typed_def)

lemma kb_forest_tree: "kb_forest n h ps = Some ts \<Longrightarrow> p \<in> set ps \<Longrightarrow> \<exists>us. kb_tree n h p = Some us"
  by (induction ps arbitrary: ts) (auto simp: bind_eq_Some simp del: kb_tree.simps)

lemma kl_wf_dom:
  assumes "kl_wf n l h" and "below brk h"
  obtains ts where "kb_forest n h (kb_entries l) = Some ts" and "\<And>q. q \<in> set ts \<Longrightarrow> q < brk"
proof -
  obtain ts where ts: "kb_forest n h (kb_entries l) = Some ts" using assms(1) by (auto simp: kl_wf_def)
  have "q < brk" if "q \<in> set ts" for q
  proof (rule ccontr)
    assume "\<not> q < brk"
    then have "h q = None" using assms(2) by (simp add: below_def)
    then show False using kb_forest_dom [OF ts] that by auto
  qed
  then show thesis using that ts by blast
qed

lemma push_new_binding:
  assumes ok: "kb_ok c" and small: "unat (kl_capacity (c_keybindings c)) < 2 ^ 31"
    and typed: "kb_typed kb" and alloc: "alloc_kb kb (c_kb_brk c, c_kb_heap c) = (brk', h1)"
  shows "\<exists>l' h'. keybinding_list_push (Suc brk') True (c_keybindings c) (c_kb_brk c) h1 = Some (0, l', h') \<and>
     kl_wf (Suc brk') l' h' \<and> below brk' h' \<and> kb_at kb h' (c_kb_brk c) \<and>
     (\<forall>k. kb_lookup l' h' k =
        (if k = kb_id_of (the (h1 (c_kb_brk c))) then Some (c_kb_brk c)
         else kb_lookup (c_keybindings c) (c_kb_heap c) k))"
proof -
  let ?brk = "c_kb_brk c" and ?h = "c_kb_heap c" and ?l = "c_keybindings c"
  have wf: "kl_wf (Suc ?brk) ?l ?h" and bl: "below ?brk ?h" using ok by (auto simp: kb_ok_def)
  note A = alloc_kb_correct(1) [OF typed bl alloc]
  obtain ts where ts: "kb_forest (Suc ?brk) ?h (kb_entries ?l) = Some ts" and lt: "\<And>q. q \<in> set ts \<Longrightarrow> q < ?brk"
    using kl_wf_dom [OF wf bl] by metis
  have le: "Suc ?brk \<le> Suc brk'" using A by simp
  have same: "\<And>q. q < ?brk \<Longrightarrow> h1 q = ?h q" using A by (simp add: kb_fresh_def)
  have ts1: "kb_forest (Suc brk') h1 (kb_entries ?l) = Some ts"
    by (rule kb_forest_mono [OF kb_forest_frame [OF ts] le]) (simp add: same lt)
  have ents: "q < ?brk" if "q \<in> set (kb_entries ?l)" for q using kb_forest_dom [OF ts] lt that by blast
  have "map (\<lambda>q. kb_id_of (the (h1 q))) (kb_entries ?l) = map (\<lambda>q. kb_id_of (the (?h q))) (kb_entries ?l)"
    by (simp add: ents same)
  moreover have "distinct ts" using wf ts by (auto simp: kl_wf_def)
  ultimately have wf1: "kl_wf (Suc brk') ?l h1" using wf ts1 unfolding kl_wf_def by metis
  have lk: "kb_lookup ?l h1 k = kb_lookup ?l ?h k" for k
    by (rule option_eqI) (auto simp: kb_lookup_iff [OF wf] kb_lookup_iff [OF wf1] ents same)
  have tree: "kb_tree (Suc brk') h1 ?brk = Some [?brk..<brk']"
    using A kb_tree_mono [of "brk' - ?brk" h1 ?brk _ "Suc brk'"] by simp
  have disj: "set [?brk..<brk'] \<inter> set ts = {}" using lt by fastforce
  obtain l' h' where push: "keybinding_list_push (Suc brk') True ?l ?brk h1 = Some (0, l', h')"
    and wf': "kl_wf (Suc brk') l' h'"
    and upd: "\<forall>k. kb_lookup l' h' k = (if k = kb_id_of (the (h1 ?brk)) then Some ?brk else kb_lookup ?l h1 k)"
    using keybinding_list_push_ok [OF wf1 small tree _ ts1 disj] by (metis distinct_upt)
  have p': "?brk \<in> set (kb_entries l')"
    using upd kb_lookup_iff [OF wf'] by metis
  obtain ts' where "kb_forest (Suc brk') h' (kb_entries l') = Some ts'" using wf' by (auto simp: kl_wf_def)
  then have "?brk \<in> dom h'" using kb_forest_dom p' by blast
  then obtain b where b: "h' ?brk = Some b" by auto
  have len: "length (kl_array ?l) < 2 ^ 32" using wf small by (simp add: kl_wf_def)
  have sh: "kb_shrinks h1 h'" by (rule push_finds_itself(1) [OF push b len])
  obtain us where us: "kb_tree (Suc brk') h' ?brk = Some us"
    using \<open>kb_forest (Suc brk') h' (kb_entries l') = Some ts'\<close> p' kb_forest_tree by metis
  have "kb_at kb h' ?brk" using kb_at_shrinks(1) [OF typed _ sh us] A by blast
  moreover have "below brk' h'" using A sh unfolding below_def kb_fresh_def kb_shrinks_def by metis
  ultimately show ?thesis using push wf' upd lk by auto
qed

text \<open>
  C27: A line that parses to a definition of a key binding, at any depth of nesting, ends with the
  binding in memory and found under its own modifiers, mode and key; every other key keeps what it was
  bound to, the table stays well formed, and the line is reported as accepted.
\<close>

theorem definekey_line_defines:
  assumes ok: "kb_ok c" and small: "unat (kl_capacity (c_keybindings c)) < 2 ^ 31"
    and mem: "ce_realloc_ok env" and modes: "c_modes c = Some modes"
    and parse: "parse_command (penv\<lparr>pe_modes := modes\<rparr>) line en 1 =
                  (Inr (KEYBINDING_DEFINEKEY, Data_kb (Keybinding mode modifiers key act d)), en')"
  shows "\<exists>c' p. parse_rc_line env penv line en c = Some ((0, None), c') \<and> kb_ok c' \<and>
     kb_at (Keybinding mode modifiers key act d) (c_kb_heap c') p \<and>
     bound_to c' = (bound_to c)((modifiers, mode, key) \<mapsto> p)"
proof -
  let ?kb = "Keybinding mode modifiers key act d" and ?brk = "c_kb_brk c"
  obtain brk' h1 where alloc: "alloc_kb ?kb (?brk, c_kb_heap c) = (brk', h1)" by fastforce
  have typed: "kb_typed ?kb" by (rule params_kb_typed [OF parse])
  note new = push_new_binding [OF ok small typed alloc]
  have bl: "below ?brk (c_kb_heap c)" using ok by (simp add: kb_ok_def)
  note A = alloc_kb_correct(1) [OF typed bl alloc]
  have id: "kb_id_of (the (h1 ?brk)) = (modifiers, mode, key)" using A by (auto simp: kb_id_of_def)
  obtain l' h' where push: "keybinding_list_push (Suc brk') True (c_keybindings c) ?brk h1 = Some (0, l', h')"
    and wf': "kl_wf (Suc brk') l' h'" and bl': "below brk' h'" and at: "kb_at ?kb h' ?brk"
    and upd: "\<forall>k. kb_lookup l' h' k = (if k = (modifiers, mode, key) then Some ?brk else bound_to c k)"
    using new id by (auto simp: bound_to_def)
  obtain b where b: "h' ?brk = Some b" using at by auto
  let ?c = "c\<lparr>c_kb_brk := brk', c_kb_heap := h1\<rparr>"
  let ?moved = "kl_length (c_keybindings c) = kl_capacity (c_keybindings c) \<and> ce_realloc_moves env"
  let ?c' = "?c\<lparr>c_keybindings := l', c_kb_heap := h', c_array := (if ?moved then brk' else c_array c),
                c_kb_brk := (if ?moved then Suc brk' else brk')\<rparr>"
  have pb: "push_binding env ?brk ?c = Some ?c'"
    using push mem by (simp add: push_binding_def Let_def)
  have run: "run_action env KEYBINDING_DEFINEKEY (kb_params (Data_kb ?kb)) (Some ?brk) ?c =
      Some (0, event ''definekey'' [(''modifiers'', d32 (kc_modifiers b)), (''key'', d32 (kc_key b)),
                 (''command'', IStr (keybinding_action_string (kc_action b)))] ?c')"
    using b pb by (simp add: run_action_def action_other_def is_tiles_action_def is_views_action_def keybinding_definekey_def)
  have ap: "alloc_params (Data_kb ?kb) (?brk, c_kb_heap c) = (Some ?brk, brk', h1)"
    using alloc by (simp del: alloc_kb.simps)
  have line: "\<exists>evs. parse_rc_line env penv line en c = Some ((0, None), event ''definekey'' evs ?c')"
    by (rule exI, unfold parse_rc_line_def modes bind.bind_lunit parse prod.case sum.case ap run) simp
  have kept: "c_kb_heap (event n evs x) = c_kb_heap x" "c_kb_brk (event n evs x) = c_kb_brk x"
    "c_keybindings (event n evs x) = c_keybindings x" for n evs x by (simp_all add: event_def)
  have "kb_ok (event n evs ?c')" for n evs
    using kl_wf_mono [OF wf'] bl' by (auto simp: kb_ok_def kept below_def)
  moreover have "bound_to (event n evs ?c') = (bound_to c)((modifiers, mode, key) \<mapsto> ?brk)" for n evs
    using upd by (auto simp: bound_to_def kept)
  moreover have "kb_at ?kb (c_kb_heap (event n evs ?c')) ?brk" for n evs using at by (simp add: kept)
  ultimately show ?thesis using line by metis
qed


lemma ex_comp_kb_ok: "kb_ok ex_comp"
proof -
  have "kb_forest (Suc (Suc (Suc 1))) (c_kb_heap ex_comp) [0] = Some [0, 1]" by (simp add: ex_cell_def)
  moreover have "Suc (Suc (Suc 1)) = 4" by simp
  ultimately have "kb_forest 4 (c_kb_heap ex_comp) [0] = Some [0, 1]" by metis
  then show ?thesis by (simp add: kb_ok_def below_def kl_wf_def kb_entries_def del: kb_forest.simps)
qed

theorem definekey_line_defines_witness:
  "\<exists>c' p. parse_rc_line ex_cg_env ex_penv ''bind a focusprev'' False ex_comp = Some ((0, None), c') \<and>
     bound_to c' = (bound_to ex_comp)((0, 1, 97) \<mapsto> p)"
proof -
  have env: "ex_penv\<lparr>pe_modes := [''top'', ''root'', ''resize'']\<rparr> = ex_penv" by (simp add: ex_penv_def)
  have small: "unat (kl_capacity (c_keybindings ex_comp)) < 2 ^ 31" by simp
  show ?thesis
    using definekey_line_defines [OF ex_comp_kb_ok small ex_cg_env_simps(1) ex_comp_simps(7), of ex_penv, unfolded env, OF ex_bind]
    by blast
qed

end
