(* ===== verification/Startup_Props.thy ===== *)
theory Startup_Props
  imports Startup Define_Props
begin

text \<open>The start and the end of the program, and the key bindings in between.\<close>

lemma initial_kb_ok: "kb_ok initial_compositor"
  by (simp add: initial_compositor_def kb_ok_def below_def kl_wf_def keybinding_list_init_def kb_entries_def)

definition modes_ok :: "compositor \<Rightarrow> bool" where
  "modes_ok c \<longleftrightarrow> (\<exists>modes cursors. c_modes c = Some modes \<and> c_modecursors c = Some cursors \<and>
     length cursors = Suc (length modes))"

lemma definemode_modes_ok:
  assumes "modes_ok c" and "ce_realloc_modes env" "ce_realloc_cursors env"
  shows "\<exists>c'. keybinding_definemode env mode c = Some c' \<and> modes_ok c' \<and>
     c_modes c' = Some (the (c_modes c) @ [mode]) \<and> c_keybindings c' = c_keybindings c \<and>
     c_kb_heap c' = c_kb_heap c \<and> c_kb_brk c' = c_kb_brk c"
  using assms by (auto simp: modes_ok_def keybinding_definemode_def Let_def event_def)

text \<open>
  C40: At the end of the program everything that belongs to the table of key bindings is freed, nothing
  twice, and the cursors of the modes are freed within their array: from any state in which the table
  is well formed, as it is at the start and after each line that defines a key binding.
\<close>

theorem shutdown_frees_bindings:
  assumes kb: "kb_ok c" and modes: "modes_ok c"
  shows "\<exists>c' ts. shutdown c = Some c' \<and> c_modes c' = None \<and>
     kb_forest (Suc (c_kb_brk c)) (c_kb_heap c) (kb_entries (c_keybindings c)) = Some ts \<and>
     c_kb_heap c' = remove_cells ts (c_kb_heap c)"
proof -
  have wf: "kl_wf (Suc (c_kb_brk c)) (c_keybindings c) (c_kb_heap c)" using kb by (simp add: kb_ok_def)
  then obtain ts where ts: "kb_forest (Suc (c_kb_brk c)) (c_kb_heap c) (kb_entries (c_keybindings c)) = Some ts"
    "distinct ts" by (auto simp: kl_wf_def)
  have "keybinding_list_free (Suc (c_kb_brk c)) (c_keybindings c) (c_kb_heap c) = Some (remove_cells ts (c_kb_heap c))"
    using kl_wf_entries [OF wf] free_slots_forest [OF ts] by (simp add: keybinding_list_free_def)
  then show ?thesis
    using modes ts by (auto simp: shutdown_def free_modes_def free_keybindings_def modes_ok_def)
qed

theorem shutdown_frees_bindings_witness:
  "\<exists>c'. shutdown initial_compositor = Some c' \<and> c_kb_heap c' = Map.empty"
proof -
  have "modes_ok initial_compositor" by (simp add: modes_ok_def initial_compositor_def)
  from shutdown_frees_bindings [OF initial_kb_ok this] show ?thesis
    by (auto simp: initial_compositor_def keybinding_list_init_def kb_entries_def remove_cells_def)
qed

end
