(* ===== verification/Shells.thy ===== *)
theory Shells
  imports Views
begin

text \<open>
  The shells that bring views to life: \<^verbatim>\<open>xdg_shell.c\<close> and \<^verbatim>\<open>xwayland.c\<close>, with the
  popups and decorations of xdg-shell. Which signals of wlroots a view listens to is part of its
  state: a signal runs its handler only when the listener is linked, unlinking a listener that is not
  linked, and linking one that is, is a fault.
\<close>

section \<open>Listeners\<close>

definition wl_signal_add :: "'e \<Rightarrow> 'e set \<Rightarrow> 'e set option" where
  "wl_signal_add e ls = (if e \<in> ls then None else Some (insert e ls))"

definition wl_listener_remove :: "'e \<Rightarrow> 'e set \<Rightarrow> 'e set option" where
  "wl_listener_remove e ls = (if e \<in> ls then Some (ls - {e}) else None)"

section \<open>State\<close>

datatype xdg_event = Ev_commit | Ev_map | Ev_unmap | Ev_destroy | Ev_new_popup | Ev_request_fullscreen

record cg_xdg_shell_view =
  xv_toplevel :: "nat option"
  xv_listeners :: "xdg_event set"

datatype popup_event = Popup_commit | Popup_new_popup | Popup_reposition | Popup_destroy

record cg_xdg_shell_popup =
  pu_view :: view_ptr
  pu_wlr_popup :: nat
  pu_listeners :: "popup_event set"

datatype xway_event = Xev_associate | Xev_dissociate | Xev_map | Xev_unmap | Xev_destroy | Xev_request_fullscreen

record cg_xwayland_view =
  xw_surface :: "nat option"
  xw_scene_tree :: bool
  xw_listeners :: "xway_event set"

record shells =
  sh_srv :: cg_server
  sh_xdg :: "view_ptr \<rightharpoonup> cg_xdg_shell_view"
  sh_xway :: "view_ptr \<rightharpoonup> cg_xwayland_view"
  sh_popups :: "nat \<rightharpoonup> cg_xdg_shell_popup"
  sh_popup_brk :: nat
  sh_decorations :: "nat list"

text \<open>
  What wlroots knows of a toplevel, a popup, a decoration and an XWayland surface, and whether
  allocation succeeds.
\<close>

record shell_env =
  sx_alloc :: bool
  sx_tree :: bool
  sx_initial_commit :: "nat \<Rightarrow> bool"
  sx_surface :: "nat \<Rightarrow> surface"
  sx_requested_fullscreen :: "nat \<Rightarrow> bool"
  sx_deco_surface :: "nat \<Rightarrow> surface"
  sx_deco_initialized :: "nat \<Rightarrow> bool"
  sx_output_size :: "nat \<Rightarrow> int \<times> int"
  sx_fullscreen :: "nat \<Rightarrow> bool"

definition shell_emit :: "shell_call \<Rightarrow> shells \<Rightarrow> shells" where
  "shell_emit call sh = sh\<lparr>sh_srv := emit (Shell_call call) (sh_srv sh)\<rparr>"

definition on_shell :: "(cg_server \<Rightarrow> cg_server option) \<Rightarrow> shells \<Rightarrow> shells option" where
  "on_shell f sh = map_option (\<lambda>s. sh\<lparr>sh_srv := s\<rparr>) (f (sh_srv sh))"

definition upd_xdg :: "view_ptr \<Rightarrow> cg_xdg_shell_view \<Rightarrow> shells \<Rightarrow> shells" where
  "upd_xdg p xv sh = sh\<lparr>sh_xdg := (sh_xdg sh)(p \<mapsto> xv)\<rparr>"

definition upd_xway :: "view_ptr \<Rightarrow> cg_xwayland_view \<Rightarrow> shells \<Rightarrow> shells" where
  "upd_xway p xw sh = sh\<lparr>sh_xway := (sh_xway sh)(p \<mapsto> xw)\<rparr>"

section \<open>Decorations\<close>

definition handle_xdg_toplevel_decoration :: "shell_env \<Rightarrow> nat \<Rightarrow> shells \<Rightarrow> shells" where
  "handle_xdg_toplevel_decoration env d sh =
     (if \<not> sx_alloc env then sh else sh\<lparr>sh_decorations := wl_insert d (sh_decorations sh)\<rparr>)"

definition xdg_decoration_handle_destroy :: "nat \<Rightarrow> shells \<Rightarrow> shells" where
  "xdg_decoration_handle_destroy d sh = sh\<lparr>sh_decorations := wl_remove d (sh_decorations sh)\<rparr>"

definition xdg_decoration_handle_request_mode :: "shell_env \<Rightarrow> nat \<Rightarrow> shells \<Rightarrow> shells" where
  "xdg_decoration_handle_request_mode env d sh =
     (if sx_deco_initialized env d then shell_emit (Decoration_server_side d) sh else sh)"

definition xdg_decoration_from_surface :: "shell_env \<Rightarrow> surface \<Rightarrow> shells \<Rightarrow> nat option" where
  "xdg_decoration_from_surface env surf sh = List.find (\<lambda>d. sx_deco_surface env d = surf) (sh_decorations sh)"

section \<open>Toplevels of xdg-shell\<close>

definition handle_xdg_shell_toplevel_new ::
    "shell_env \<Rightarrow> nat \<Rightarrow> cg_view \<Rightarrow> shells \<Rightarrow> (view_ptr option \<times> shells) option" where
  "handle_xdg_shell_toplevel_new env t client sh =
     (let sh = shell_emit (Xdg_ping t) sh
      in if \<not> sx_alloc env then Some (None, sh)
         else do {
           (p, s) \<leftarrow> view_init CG_XDG_SHELL_VIEW client (sh_srv sh);
           let sh = upd_xdg p \<lparr>xv_toplevel = Some t, xv_listeners = {Ev_commit, Ev_map, Ev_unmap, Ev_destroy}\<rparr>
                      (sh\<lparr>sh_srv := s\<rparr>);
           Some (Some p, shell_emit (Xdg_scene_create p) sh)
         })"

definition handle_xdg_shell_toplevel_commit :: "shell_env \<Rightarrow> view_ptr \<Rightarrow> shells \<Rightarrow> shells option" where
  "handle_xdg_shell_toplevel_commit env p sh = do {
     xv \<leftarrow> sh_xdg sh p;
     t \<leftarrow> xv_toplevel xv;
     if \<not> sx_initial_commit env t then Some sh
     else do {
       let sh = (case xdg_decoration_from_surface env (sx_surface env t) sh of
                   None \<Rightarrow> sh
                 | Some d \<Rightarrow> shell_emit (Decoration_server_side d) sh);
       Some (shell_emit (Xdg_wm_capabilities p) (shell_emit (Xdg_schedule_configure t) sh))
     }
   }"

definition handle_xdg_shell_surface_request_fullscreen :: "shell_env \<Rightarrow> view_ptr \<Rightarrow> shells \<Rightarrow> shells option" where
  "handle_xdg_shell_surface_request_fullscreen env p sh = do {
     xv \<leftarrow> sh_xdg sh p;
     v \<leftarrow> s_views (sh_srv sh) p;
     t \<leftarrow> xv_toplevel xv;
     sh \<leftarrow> (case v_workspace v of
               None \<Rightarrow> Some sh
             | Some w \<Rightarrow> do {
                 ws \<leftarrow> s_workspaces (sh_srv sh) w;
                 out \<leftarrow> s_outs (sh_srv sh) (w_output ws);
                 let b = s_layout (sh_srv sh) (o_wlr_output out);
                 Some (sh\<lparr>sh_srv := emit (Xdg_set_size p (box_width b) (box_height b)) (sh_srv sh)\<rparr>)
               });
     Some (shell_emit (Xdg_set_fullscreen p (sx_requested_fullscreen env t)) sh)
   }"

definition handle_xdg_shell_surface_map :: "shell_env \<Rightarrow> view_ptr \<Rightarrow> shells \<Rightarrow> shells option" where
  "handle_xdg_shell_surface_map env p sh = do {
     xv \<leftarrow> sh_xdg sh p;
     ls \<leftarrow> wl_signal_add Ev_new_popup (xv_listeners xv);
     ls \<leftarrow> wl_signal_add Ev_request_fullscreen ls;
     t \<leftarrow> xv_toplevel xv;
     w \<leftarrow> curr_ws (sh_srv sh);
     on_shell (view_map p (sx_surface env t) w) (upd_xdg p (xv\<lparr>xv_listeners := ls\<rparr>) sh)
   }"

definition handle_xdg_shell_surface_unmap :: "view_ptr \<Rightarrow> shells \<Rightarrow> shells option" where
  "handle_xdg_shell_surface_unmap p sh = do {
     xv \<leftarrow> sh_xdg sh p;
     ls \<leftarrow> wl_listener_remove Ev_new_popup (xv_listeners xv);
     ls \<leftarrow> wl_listener_remove Ev_request_fullscreen ls;
     on_shell (view_unmap p) (upd_xdg p (xv\<lparr>xv_listeners := ls\<rparr>) sh)
   }"

text \<open>
  The toplevel pointer is cleared before the view goes. A view that is still mapped and has the focus
  is then deactivated through it.
\<close>

definition deactivates_gone :: "view_ptr \<Rightarrow> cg_server \<Rightarrow> bool option" where
  "deactivates_gone p s = do {
     v \<leftarrow> s_views s p;
     Some (v_surface v \<noteq> None \<and> se_focused_view (s_seat s) = Some p)
   }"

definition handle_xdg_shell_surface_destroy :: "view_ptr \<Rightarrow> shells \<Rightarrow> shells option" where
  "handle_xdg_shell_surface_destroy p sh = do {
     xv \<leftarrow> sh_xdg sh p;
     ls \<leftarrow> wl_listener_remove Ev_map (xv_listeners xv);
     ls \<leftarrow> wl_listener_remove Ev_unmap ls;
     ls \<leftarrow> wl_listener_remove Ev_destroy ls;
     ls \<leftarrow> wl_listener_remove Ev_commit ls;
     bad \<leftarrow> deactivates_gone p (sh_srv sh);
     if bad then None
     else on_shell (view_destroy p) (sh\<lparr>sh_xdg := (sh_xdg sh)(p := None)\<rparr>)
   }"

section \<open>Popups\<close>

definition popup_unconstrain :: "shell_env \<Rightarrow> nat \<Rightarrow> shells \<Rightarrow> shells option" where
  "popup_unconstrain env q sh = do {
     pu \<leftarrow> sh_popups sh q;
     v \<leftarrow> s_views (sh_srv sh) (pu_view pu);
     w \<leftarrow> v_workspace v;
     ws \<leftarrow> s_workspaces (sh_srv sh) w;
     out \<leftarrow> s_outs (sh_srv sh) (w_output ws);
     let (width, height) = sx_output_size env (o_wlr_output out);
     Some (shell_emit (Popup_unconstrain (pu_wlr_popup pu) (- v_ox v) (- v_oy v) width height) sh)
   }"

definition create_xdg_popup :: "shell_env \<Rightarrow> nat \<Rightarrow> view_ptr \<Rightarrow> shells \<Rightarrow> shells" where
  "create_xdg_popup env wlr_popup p sh =
     (if \<not> sx_alloc env \<or> \<not> sx_tree env then sh
      else sh\<lparr>sh_popups := (sh_popups sh)(sh_popup_brk sh \<mapsto>
                \<lparr>pu_view = p, pu_wlr_popup = wlr_popup,
                 pu_listeners = {Popup_commit, Popup_new_popup, Popup_reposition, Popup_destroy}\<rparr>),
              sh_popup_brk := Suc (sh_popup_brk sh)\<rparr>)"

definition handle_xdg_shell_popup_new :: "shell_env \<Rightarrow> nat \<Rightarrow> view_ptr \<Rightarrow> shells \<Rightarrow> shells" where
  "handle_xdg_shell_popup_new env wlr_popup p sh = create_xdg_popup env wlr_popup p sh"

definition handle_xdg_shell_popup_new_popup :: "shell_env \<Rightarrow> nat \<Rightarrow> nat \<Rightarrow> shells \<Rightarrow> shells option" where
  "handle_xdg_shell_popup_new_popup env wlr_popup q sh = do {
     pu \<leftarrow> sh_popups sh q;
     Some (create_xdg_popup env wlr_popup (pu_view pu) sh)
   }"

definition handle_xdg_shell_popup_commit :: "shell_env \<Rightarrow> nat \<Rightarrow> shells \<Rightarrow> shells option" where
  "handle_xdg_shell_popup_commit env q sh = do {
     pu \<leftarrow> sh_popups sh q;
     if sx_initial_commit env (pu_wlr_popup pu) then popup_unconstrain env q sh else Some sh
   }"

definition handle_xdg_shell_popup_reposition :: "shell_env \<Rightarrow> nat \<Rightarrow> shells \<Rightarrow> shells option" where
  "handle_xdg_shell_popup_reposition env q sh = popup_unconstrain env q sh"

definition handle_xdg_shell_popup_destroy :: "nat \<Rightarrow> shells \<Rightarrow> shells option" where
  "handle_xdg_shell_popup_destroy q sh = do {
     pu \<leftarrow> sh_popups sh q;
     ls \<leftarrow> wl_listener_remove Popup_new_popup (pu_listeners pu);
     ls \<leftarrow> wl_listener_remove Popup_destroy ls;
     ls \<leftarrow> wl_listener_remove Popup_commit ls;
     ls \<leftarrow> wl_listener_remove Popup_reposition ls;
     Some (shell_emit (Popup_scene_destroy (pu_wlr_popup pu)) (sh\<lparr>sh_popups := (sh_popups sh)(q := None)\<rparr>))
   }"

section \<open>XWayland\<close>

definition handle_xwayland_surface_new ::
    "shell_env \<Rightarrow> nat \<Rightarrow> cg_view \<Rightarrow> shells \<Rightarrow> (view_ptr option \<times> shells) option" where
  "handle_xwayland_surface_new env x client sh =
     (if \<not> sx_alloc env then Some (None, sh)
      else do {
        (p, s) \<leftarrow> view_init CG_XWAYLAND_VIEW client (sh_srv sh);
        Some (Some p, upd_xway p
          \<lparr>xw_surface = Some x, xw_scene_tree = False,
           xw_listeners = {Xev_associate, Xev_dissociate, Xev_destroy, Xev_request_fullscreen}\<rparr> (sh\<lparr>sh_srv := s\<rparr>))
      })"

definition handle_xwayland_surface_associate :: "view_ptr \<Rightarrow> shells \<Rightarrow> shells option" where
  "handle_xwayland_surface_associate p sh = do {
     xw \<leftarrow> sh_xway sh p;
     ls \<leftarrow> wl_signal_add Xev_unmap (xw_listeners xw);
     ls \<leftarrow> wl_signal_add Xev_map ls;
     Some (upd_xway p (xw\<lparr>xw_listeners := ls\<rparr>) sh)
   }"

definition handle_xwayland_surface_dissociate :: "view_ptr \<Rightarrow> shells \<Rightarrow> shells option" where
  "handle_xwayland_surface_dissociate p sh = do {
     xw \<leftarrow> sh_xway sh p;
     ls \<leftarrow> wl_listener_remove Xev_map (xw_listeners xw);
     ls \<leftarrow> wl_listener_remove Xev_unmap ls;
     Some (upd_xway p (xw\<lparr>xw_listeners := ls\<rparr>) sh)
   }"

definition handle_xwayland_surface_request_fullscreen :: "shell_env \<Rightarrow> view_ptr \<Rightarrow> shells \<Rightarrow> shells option" where
  "handle_xwayland_surface_request_fullscreen env p sh = do {
     xw \<leftarrow> sh_xway sh p;
     x \<leftarrow> xw_surface xw;
     Some (shell_emit (Xwayland_set_fullscreen p (sx_fullscreen env x)) sh)
   }"

text \<open>An unmanaged surface brings its own position, relative to the cached box of the output.\<close>

definition handle_xwayland_surface_map :: "shell_env \<Rightarrow> view_ptr \<Rightarrow> shells \<Rightarrow> shells option" where
  "handle_xwayland_surface_map env p sh = do {
     xw \<leftarrow> sh_xway sh p;
     x \<leftarrow> xw_surface xw;
     v \<leftarrow> s_views (sh_srv sh) p;
     s \<leftarrow> (if \<not> xwayland_view_should_manage v
           then do {
             c \<leftarrow> s_curr_output (sh_srv sh);
             out \<leftarrow> s_outs (sh_srv sh) c;
             upd_view p (\<lambda>v. v\<lparr>v_ox := fst (v_xsurface_pos v) - box_x (o_layout_box out),
                               v_oy := snd (v_xsurface_pos v) - box_y (o_layout_box out)\<rparr>) (sh_srv sh)
           }
           else Some (sh_srv sh));
     w \<leftarrow> curr_ws s;
     sh \<leftarrow> on_shell (view_map p (sx_surface env x) w) (sh\<lparr>sh_srv := s\<rparr>);
     Some (shell_emit (Xwayland_scene_create p) (upd_xway p (xw\<lparr>xw_scene_tree := True\<rparr>) sh))
   }"

definition handle_xwayland_surface_unmap :: "view_ptr \<Rightarrow> shells \<Rightarrow> shells option" where
  "handle_xwayland_surface_unmap p sh = on_shell (view_unmap p) sh"

text \<open>Here, too, the surface is cleared first; a view that is still mapped asks it whether it is managed.\<close>

definition handle_xwayland_surface_destroy :: "view_ptr \<Rightarrow> shells \<Rightarrow> shells option" where
  "handle_xwayland_surface_destroy p sh = do {
     xw \<leftarrow> sh_xway sh p;
     ls \<leftarrow> wl_listener_remove Xev_associate (xw_listeners xw);
     ls \<leftarrow> wl_listener_remove Xev_dissociate ls;
     ls \<leftarrow> wl_listener_remove Xev_destroy ls;
     ls \<leftarrow> wl_listener_remove Xev_request_fullscreen ls;
     v \<leftarrow> s_views (sh_srv sh) p;
     if v_surface v \<noteq> None then None
     else on_shell (view_destroy p) (sh\<lparr>sh_xway := (sh_xway sh)(p := None)\<rparr>)
   }"

end
