(* ===== verification/Life_Inv.thy ===== *)
theory Life_Inv
  imports Shells Switching_Inv
begin

text \<open>
  Mapping, unmapping and destroying a managed view keeps the invariant of the server and never faults.
  \<open>life_ok\<close> adds to \<open>server_ok\<close> and \<open>focus_ok\<close> what the removal of a view relies on: addresses are
  below the break, and a tile that shows a view belongs to the workspace of the view.
\<close>

section \<open>What focusing and tiling leave alone\<close>

definition view_core :: "cg_view \<Rightarrow> cg_view" where
  "view_core v = v\<lparr>v_tile := None, v_ox := 0, v_oy := 0\<rparr>"

definition vcore :: "cg_server \<Rightarrow> view_ptr \<Rightarrow> cg_view option" where
  "vcore s q = map_option view_core (s_views s q)"

definition members :: "cg_server \<Rightarrow> ws_ptr \<Rightarrow> view_ptr set option" where
  "members s w = map_option (\<lambda>ws. set (w_views ws)) (s_workspaces s w)"

definition same_world :: "cg_server \<Rightarrow> cg_server \<Rightarrow> bool" where
  "same_world s s' \<longleftrightarrow>
     s_ws_brk s' = s_ws_brk s \<and> s_view_brk s' = s_view_brk s \<and> s_curr_output s' = s_curr_output s \<and>
     live_ws s' = live_ws s \<and> vcore s' = vcore s \<and> members s' = members s"

lemma same_world_refl [simp]: "same_world s s"
  by (simp add: same_world_def)

lemma same_world_trans: "same_world s s' \<Longrightarrow> same_world s' s'' \<Longrightarrow> same_world s s''"
  by (simp add: same_world_def)

lemma world_emit [simp]:
  "vcore (emit c s) = vcore s" "members (emit c s) = members s" "live_ws (emit c s) = live_ws s"
  "vcore (upd_seat f s) = vcore s" "members (upd_seat f s) = members s" "live_ws (upd_seat f s) = live_ws s"
  "same_world s (emit c s') = same_world s s'" "same_world s (upd_seat f s') = same_world s s'"
  by (simp_all add: vcore_def members_def live_ws_def same_world_def fun_eq_iff)

lemma view_core_simps [simp]:
  "view_core (v\<lparr>v_tile := to\<rparr>) = view_core v" "view_core (maximized tp t v) = view_core v"
  by (simp_all add: view_core_def maximized_def)

lemma vcore_fields:
  assumes "vcore s' q = vcore s q" and "s_views s q = Some v"
  obtains v' where "s_views s' q = Some v'" and "v_workspace v' = v_workspace v" and "v_surface v' = v_surface v"
    and "v_type v' = v_type v" and "v_id v' = v_id v" and "v_pid v' = v_pid v" and "managed_view v' = managed_view v"
proof -
  from assms obtain v' where v': "s_views s' q = Some v'" and c: "view_core v' = view_core v"
    by (auto simp: vcore_def)
  have "f (view_core v') = f (view_core v)" for f :: "cg_view \<Rightarrow> 'b" using c by simp
  with c show thesis
    by (intro that [OF v'])
      (cases v, cases v', simp add: view_core_def managed_view_def xwayland_view_should_manage_def)+
qed

lemma vcore_hide: "map_option view_core (hide_view vo V q) = map_option view_core (V q)"
  by (cases "V q") (auto simp: hide_view_apply)

lemma vcore_show:
  assumes "s_views s p = Some v" and "s_views s' = (hide_view vo (s_views s))(p \<mapsto> maximized tp t v)"
  shows "vcore s' = vcore s"
  using assms by (auto simp: vcore_def fun_eq_iff vcore_hide)

lemma same_rest_world: "same_rest s s' \<Longrightarrow> vcore s' = vcore s \<Longrightarrow> same_world s s'"
  using outs_sim_parts(1) [of "s_outs s" "s_outs s'"]
  by (simp add: same_rest_def same_world_def members_def live_ws_def fun_eq_iff)

text \<open>Setting the view of a tile, and setting the focus, with one statement for both kinds of target.\<close>

definition target_ok :: "tile_ptr \<Rightarrow> ws_ptr \<Rightarrow> view_ptr option \<Rightarrow> cg_server \<Rightarrow> bool" where
  "target_ok tp w po s \<longleftrightarrow>
     (\<forall>p. po = Some p \<longrightarrow> (\<exists>ws. s_workspaces s w = Some ws \<and> p \<in> set (w_views ws)) \<and> only_on tp p s)"

lemma tile_update_world:
  assumes ok: "server_ok s" and t: "s_tiles s tp = Some t" and w: "t_workspace t = Some w" "w \<in> live_ws s"
    and po: "target_ok tp w po s"
  obtains s' where "workspace_tile_update_view tp po s = Some s'" and "server_ok s'" and "same_rest s s'"
    and "same_world s s'" and "s_tiles s' = (s_tiles s)(tp \<mapsto> t\<lparr>t_view := po\<rparr>)" and "s_seat s' = s_seat s"
proof (cases po)
  case None
  obtain s' where s': "workspace_tile_update_view tp None s = Some s'" "server_ok s'" "same_rest s s'"
    "s_tiles s' = (s_tiles s)(tp \<mapsto> t\<lparr>t_view := None\<rparr>)"
    "s_views s' = hide_view (t_view t) (s_views s)" "s_seat s' = s_seat s" using hide_ok [OF ok t] .
  have "vcore s' = vcore s" using s'(5) by (simp add: vcore_def fun_eq_iff vcore_hide)
  then show thesis using s' None same_rest_world [OF s'(3)] by (intro that [of s']) simp_all
next
  case (Some p)
  with po obtain ws where ws: "s_workspaces s w = Some ws" "p \<in> set (w_views ws)" "only_on tp p s"
    by (auto simp: target_ok_def)
  obtain s' v where s': "workspace_tile_update_view tp (Some p) s = Some s'" "server_ok s'" "same_rest s s'"
    "s_views s p = Some v" "s_tiles s' = (s_tiles s)(tp \<mapsto> t\<lparr>t_view := Some p\<rparr>)"
    "s_views s' = (hide_view (t_view t) (s_views s))(p \<mapsto> maximized tp t v)" "s_seat s' = s_seat s"
    using show_ok [OF ok t w ws] .
  show thesis using s' Some same_rest_world [OF s'(3) vcore_show [OF s'(4,6)]] by (intro that [of s']) simp_all
qed

lemma set_focus_world:
  assumes ok: "server_ok s" and w: "curr_ws s = Some w" and tp: "focused_tile_of w s = Some tp"
    and t: "s_tiles s tp = Some t" and po: "target_ok tp w po s"
  obtains s' where "seat_set_focus po s = Some s'" and "server_ok s'" and "focus_ok s'" and "same_world s s'"
    and "s_tiles s' = (s_tiles s)(tp \<mapsto> t\<lparr>t_view := po\<rparr>)" and "curr_tile s' = Some tp" and "curr_ws s' = Some w"
    and "se_focused_view (s_seat s') = po"
proof -
  have ct: "curr_tile s = Some tp" using w tp by (simp add: curr_tile_def)
  have "\<exists>s'. seat_set_focus po s = Some s' \<and> server_ok s' \<and> same_world s s' \<and>
      s_tiles s' = (s_tiles s)(tp \<mapsto> t\<lparr>t_view := po\<rparr>) \<and> se_focused_view (s_seat s') = po \<and>
      curr_ws s' = Some w \<and> focused_tile_of w s' = Some tp"
  proof (cases po)
    case None
    obtain s' where s': "seat_set_focus None s = Some s'" "server_ok s'" "same_rest s s'"
      "s_tiles s' = (s_tiles s)(tp \<mapsto> t\<lparr>t_view := None\<rparr>)"
      "s_views s' = hide_view (t_view t) (s_views s)" "se_focused_view (s_seat s') = None"
      using seat_focus_background_ok [OF ok ct t] .
    have "vcore s' = vcore s" using s'(5) by (simp add: vcore_def fun_eq_iff vcore_hide)
    moreover have "curr_ws s' = Some w"
      using w s'(3) outs_sim_curr_ws_of [of s s'] by (simp add: curr_ws_def same_rest_def)
    moreover have "focused_tile_of w s' = Some tp" using tp s'(3) by (simp add: focused_tile_of_def same_rest_def)
    ultimately show ?thesis using None s' same_rest_world [OF s'(3)] by auto
  next
    case (Some p)
    with po obtain ws where ws: "s_workspaces s w = Some ws" "p \<in> set (w_views ws)" "only_on tp p s"
      by (auto simp: target_ok_def)
    obtain s' t' v vs where s': "seat_set_focus (Some p) s = Some s'" "server_ok s'" "s_tiles s tp = Some t'"
      "s_views s p = Some v" "move_head_after p (w_views ws) = Some vs"
      "same_rest (s\<lparr>s_workspaces := (s_workspaces s)(w \<mapsto> ws\<lparr>w_views := vs\<rparr>)\<rparr>) s'"
      "s_tiles s' = (s_tiles s)(tp \<mapsto> t'\<lparr>t_view := Some p\<rparr>)"
      "s_views s' = (hide_view (t_view t') (s_views s))(p \<mapsto> maximized tp t' v)"
      "se_focused_view (s_seat s') = Some p"
      using seat_set_focus_ok [OF ok w ws(1) tp ws(2,3)] by metis
    let ?s1 = "s\<lparr>s_workspaces := (s_workspaces s)(w \<mapsto> ws\<lparr>w_views := vs\<rparr>)\<rparr>"
    have sim: "outs_sim (s_outs s) (s_outs s')" using s'(6) by (simp add: same_rest_def)
    have "vcore s' = vcore ?s1" using vcore_show [of ?s1 p v s'] s'(4,8) by simp
    then have "same_world ?s1 s'" using same_rest_world [OF s'(6)] by simp
    moreover have "same_world s ?s1"
      using ws(1) move_head_after_set [OF s'(5)] by (auto simp: same_world_def vcore_def members_def live_ws_def fun_eq_iff)
    ultimately have world: "same_world s s'" by (rule same_world_trans [rotated])
    have "curr_ws s' = Some w"
      using w s'(6) outs_sim_curr_ws_of [OF sim] by (simp add: curr_ws_def same_rest_def)
    moreover have "focused_tile_of w s' = Some tp"
      using tp ws(1) s'(6) by (simp add: focused_tile_of_def same_rest_def)
    ultimately show ?thesis using Some s' t world by auto
  qed
  then obtain s' where s': "seat_set_focus po s = Some s'" "server_ok s'" "same_world s s'"
    "s_tiles s' = (s_tiles s)(tp \<mapsto> t\<lparr>t_view := po\<rparr>)" "se_focused_view (s_seat s') = po"
    "curr_ws s' = Some w" "focused_tile_of w s' = Some tp" by blast
  then have "curr_tile s' = Some tp" by (simp add: curr_tile_def)
  moreover then have "focus_ok s'" using s'(4,5) by (simp add: focus_ok_def)
  ultimately show thesis using s' by (intro that [of s']) auto
qed


section \<open>The invariant\<close>

definition homes_ok :: "cg_server \<Rightarrow> bool" where
  "homes_ok s \<longleftrightarrow> (\<forall>t tl v vw. s_tiles s t = Some tl \<and> t_view tl = Some v \<and> s_views s v = Some vw \<longrightarrow>
     t_workspace tl = v_workspace vw \<and> v_surface vw \<noteq> None)"

definition brk_ok :: "cg_server \<Rightarrow> bool" where
  "brk_ok s \<longleftrightarrow> (\<forall>w \<in> live_ws s. w < s_ws_brk s) \<and> (\<forall>p \<ge> s_view_brk s. s_views s p = None)"

definition life_ok :: "cg_server \<Rightarrow> bool" where
  "life_ok s \<longleftrightarrow> server_ok s \<and> focus_ok s \<and> brk_ok s \<and> homes_ok s"

lemma life_ok_emit [simp]: "life_ok (emit c s) = life_ok s"
proof -
  have "homes_ok (emit c s) = homes_ok s" "brk_ok (emit c s) = brk_ok s" by (simp_all add: homes_ok_def brk_ok_def)
  then show ?thesis by (simp add: life_ok_def)
qed

lemma homes_ok_tile:
  assumes h: "homes_ok s" and v: "vcore s' = vcore s" and T: "s_tiles s' = (s_tiles s)(tp \<mapsto> t\<lparr>t_view := po\<rparr>)"
    and po: "\<And>p. po = Some p \<Longrightarrow> \<exists>v. s_views s p = Some v \<and> v_workspace v = t_workspace t \<and> v_surface v \<noteq> None"
  shows "homes_ok s'"
  unfolding homes_ok_def
proof (intro allI impI, elim conjE)
  fix x tl p vw
  assume a: "s_tiles s' x = Some tl" "t_view tl = Some p" "s_views s' p = Some vw"
  have "vcore s p = Some (view_core vw)" using fun_cong [OF v, of p] a(3) by (simp add: vcore_def)
  then obtain z where z: "s_views s p = Some z" by (auto simp: vcore_def)
  have e: "vcore s p = vcore s' p" using v by simp
  obtain z' where "s_views s' p = Some z'" "v_workspace z' = v_workspace z" "v_surface z' = v_surface z"
    using vcore_fields [OF e [symmetric] z] by metis
  then have wz: "v_workspace vw = v_workspace z" "v_surface vw = v_surface z" using a(3) by simp_all
  show "t_workspace tl = v_workspace vw \<and> v_surface vw \<noteq> None"
  proof (cases "x = tp")
    case True
    then have "tl = t\<lparr>t_view := po\<rparr>" using a(1) T by simp
    with po [of p] a(2) z wz show ?thesis by auto
  next
    case False
    then have "s_tiles s x = Some tl" using a(1) T by simp
    with h a(2) z wz show ?thesis by (simp add: homes_ok_def)
  qed
qed

lemma brk_ok_world: "brk_ok s \<Longrightarrow> same_world s s' \<Longrightarrow> brk_ok s'"
proof -
  assume b: "brk_ok s" and sw: "same_world s s'"
  have "s_views s' p = None" if "s_views s p = None" for p
  proof -
    have "vcore s' p = vcore s p" using sw by (simp add: same_world_def)
    then show ?thesis using that by (simp add: vcore_def)
  qed
  then show ?thesis using b sw by (simp add: brk_ok_def same_world_def)
qed

lemma unmapped_hidden:
  assumes "life_ok s" and "s_views s p = Some v" and "v_surface v = None"
  shows "v_tile v = None"
proof (rule ccontr)
  assume "v_tile v \<noteq> None"
  then obtain t where t: "v_tile v = Some t" by auto
  have "links_ok (s_tiles s) (s_views s)" "homes_ok s" using assms(1) by (simp_all add: life_ok_def server_ok_def)
  then show False using assms(2,3) t unfolding links_ok_def homes_ok_def by blast
qed

text \<open>A view that is not mapped is in no list and on no tile.\<close>

lemma unmapped_nowhere:
  assumes ok: "server_ok s" and w: "w \<in> live_ws s" "s_workspaces s w = Some ws"
    and v: "s_views s p = Some v" "v_surface v = None"
  shows "p \<notin> set (w_views ws)" and "p \<notin> set (w_unmanaged_views ws)"
proof -
  obtain q j where wok: "ws_ok (s_tiles s) (s_views s) q j w ws" using live_ws_ok [OF ok w(1)] w(2) by (metis option.sel)
  from ws_okD [OF wok] have a: "\<forall>v \<in> set (w_views ws). \<exists>vw. s_views s v = Some vw \<and> view_ok w True vw"
    "\<forall>v \<in> set (w_unmanaged_views ws). \<exists>vw. s_views s v = Some vw \<and> view_ok w False vw" by metis+
  show "p \<notin> set (w_views ws)" "p \<notin> set (w_unmanaged_views ws)"
    using a v by (auto simp: view_ok_def)
qed

lemma hidden_on_no_tile:
  "links_ok T V \<Longrightarrow> V p = Some v \<Longrightarrow> v_tile v = None \<Longrightarrow> T t = Some ti \<Longrightarrow> t_view ti \<noteq> Some p"
  unfolding links_ok_def by fastforce

section \<open>Linking and unlinking a view\<close>

lemma server_ok_link_view:
  assumes ok: "server_ok s" and w: "w \<in> live_ws s" "s_workspaces s w = Some ws"
    and v: "s_views s p = Some v" "v_surface v = None" "v_tile v = None"
    and v': "view_ok w True v'" "v_tile v' = None"
  shows "server_ok (s\<lparr>s_views := (s_views s)(p \<mapsto> v'), s_workspaces := (s_workspaces s)(w \<mapsto> ws\<lparr>w_views := p # w_views ws\<rparr>)\<rparr>)"
    (is "server_ok ?s")
proof -
  have live: "live_ws ?s = live_ws s" by (simp add: live_ws_def)
  have "out_ok ?s q" if q: "q \<in> set (s_outputs s)" for q
  proof -
    have "out_ok s q" using ok q by (simp add: server_ok_def)
    then obtain wss i where o: "out_wss (s_outs s) q = Some wss" "out_curr (s_outs s) q = Some i"
      "length wss = unat (s_nws s)" "distinct wss" "0 \<le> i" "i < int (length wss)"
      and all: "\<And>j. j < length wss \<Longrightarrow> \<exists>ws. s_workspaces s (wss ! j) = Some ws \<and>
        ws_ok (s_tiles s) (s_views s) q j (wss ! j) ws"
      unfolding out_ok_def by blast
    have "\<exists>ws'. s_workspaces ?s (wss ! j) = Some ws' \<and> ws_ok (s_tiles s) ((s_views s)(p \<mapsto> v')) q j (wss ! j) ws'"
      if j: "j < length wss" for j
    proof -
      obtain x where x: "s_workspaces s (wss ! j) = Some x" "ws_ok (s_tiles s) (s_views s) q j (wss ! j) x"
        using all [OF j] by blast
      have "wss ! j \<in> live_ws s" using q o(1) nth_mem [OF j] by (auto simp: live_ws_def)
      note nowhere = unmapped_nowhere [OF ok this x(1) v(1,2)]
      show ?thesis
      proof (cases "wss ! j = w")
        case True
        then have "x = ws" using x(1) w(2) by simp
        then have "ws_ok (s_tiles s) ((s_views s)(p \<mapsto> v')) q j w (ws\<lparr>w_views := p # w_views ws\<rparr>)"
          using x(2) True nowhere v'(1) unfolding ws_ok_def tile_ok_def by fastforce
        then show ?thesis using True by simp
      next
        case False
        have "ws_ok (s_tiles s) ((s_views s)(p \<mapsto> v')) q j (wss ! j) x"
          using x(2) nowhere unfolding ws_ok_def by (auto simp: fun_upd_def)
        then show ?thesis using False x(1) by simp
      qed
    qed
    then show ?thesis using o by (simp add: out_ok_def)
  qed
  moreover have "links_ok (s_tiles s) ((s_views s)(p \<mapsto> v'))"
  proof -
    have l: "links_ok (s_tiles s) (s_views s)" using ok by (simp add: server_ok_def)
    show ?thesis
      using l hidden_on_no_tile [OF l v(1,3)] v'(2) unfolding links_ok_def by (auto split: if_splits)
  qed
  moreover have "seat_ok ?s" using ok unfolding server_ok_def seat_ok_def live by auto
  ultimately show ?thesis using ok by (simp add: server_ok_def tiles_below_brk_def)
qed

lemma server_ok_unlink_view:
  assumes ok: "server_ok s" and v: "s_views s p = Some v" "v_tile v = None"
    and m: "managed_view v" and v': "v_tile v' = None"
  shows "server_ok (s\<lparr>s_workspaces := (\<lambda>w. map_option (ws_remove_view p) (s_workspaces s w)), s_views := (s_views s)(p \<mapsto> v')\<rparr>)"
    (is "server_ok ?s")
proof -
  have live: "live_ws ?s = live_ws s" by (simp add: live_ws_def)
  have l: "links_ok (s_tiles s) (s_views s)" using ok by (simp add: server_ok_def)
  note off = hidden_on_no_tile [OF l v]
  have ws: "ws_ok (s_tiles s) ((s_views s)(p \<mapsto> v')) q j w (ws_remove_view p x)"
    if "ws_ok (s_tiles s) (s_views s) q j w x" for q j w x
  proof -
    from that obtain ts where ts: "w_focused_tile x = Some (hd ts)" "is_ring (s_tiles s) ts"
      "\<forall>t \<in> set ts. \<exists>tl. s_tiles s t = Some tl \<and> tile_ok w (w_views x) tl" by (auto simp: ws_ok_def)
    have d: "distinct (w_views x)" using that by (simp add: ws_ok_def)
    have keep: "\<forall>t \<in> set ts. \<exists>tl. s_tiles s t = Some tl \<and> tile_ok w (remove1 p (w_views x)) tl"
    proof
      fix t assume "t \<in> set ts"
      then obtain tl where tl: "s_tiles s t = Some tl" "tile_ok w (w_views x) tl" using ts(3) by blast
      then show "\<exists>tl. s_tiles s t = Some tl \<and> tile_ok w (remove1 p (w_views x)) tl"
        using off [OF tl(1)] by (auto simp: tile_ok_def set_remove1_eq [OF d])
    qed
    have un: "p \<notin> set (w_unmanaged_views x)" using that v(1) m by (auto simp: ws_ok_def view_ok_def)
    show ?thesis
      using that ts keep d un
      by (auto simp: ws_ok_def ws_remove_view_def wl_remove_def set_remove1_eq remove1_idem)
  qed
  have "out_ok ?s q" if "q \<in> set (s_outputs s)" for q
  proof -
    have "out_ok s q" using ok that by (simp add: server_ok_def)
    then show ?thesis using ws unfolding out_ok_def by fastforce
  qed
  moreover have "links_ok (s_tiles s) ((s_views s)(p \<mapsto> v'))"
    using l off v' unfolding links_ok_def by (auto split: if_splits)
  moreover have "seat_ok ?s" using ok unfolding server_ok_def seat_ok_def live by auto
  ultimately show ?thesis using ok by (simp add: server_ok_def tiles_below_brk_def)
qed


section \<open>The previous view\<close>

lemma visible_total:
  assumes "links_ok (s_tiles s) (s_views s)" and "s_views s q = Some v" and "managed_view v"
  shows "view_is_visible q s = Some (v_tile v \<noteq> None)"
proof (cases "v_tile v")
  case None
  then show ?thesis using assms(2,3)
    by (simp add: view_is_visible_def view_get_tile_def managed_view_def)
next
  case (Some t)
  then have "\<exists>ti. s_tiles s t = Some ti \<and> t_view ti = Some q" using assms(1,2) unfolding links_ok_def by blast
  then obtain ti where "s_tiles s t = Some ti" "t_view ti = Some q" by blast
  then show ?thesis using assms(2,3) Some
    by (simp add: view_is_visible_def view_get_tile_def managed_view_def)
qed

lemma first_invisible_ok:
  assumes l: "links_ok (s_tiles s) (s_views s)"
    and a: "\<forall>q \<in> set qs. \<exists>v. s_views s q = Some v \<and> managed_view v"
  shows "\<exists>r. first_invisible qs s = Some r \<and> (\<forall>q. r = Some q \<longrightarrow> q \<in> set qs \<and> (\<exists>v. s_views s q = Some v \<and> v_tile v = None))"
  using a
proof (induction qs)
  case (Cons q qs)
  then obtain v where v: "s_views s q = Some v" "managed_view v" by auto
  show ?case
  proof (cases "v_tile v = None")
    case True
    then show ?thesis using v visible_total [OF l v] by simp
  next
    case False
    then show ?thesis using Cons visible_total [OF l v] by auto
  qed
qed simp

lemma set_views_before: "set (views_before p vs) \<subseteq> set vs"
proof (induction vs)
  case (Cons v vs)
  then show ?case by (cases "v = p") (auto simp: views_before_def)
qed (simp add: views_before_def)

lemma prev_not_self: "distinct vs \<Longrightarrow> p \<notin> set (views_before p vs)"
proof (induction vs)
  case (Cons v vs)
  then show ?case by (cases "v = p") (auto simp: views_before_def dest: set_takeWhileD)
qed (simp add: views_before_def)

lemma prev_view_ok:
  assumes ok: "server_ok s" and w: "w \<in> live_ws s" "s_workspaces s w = Some ws"
    and p: "p \<in> set (w_views ws)"
  obtains r where "view_get_prev_view p s = Some r" and
    "\<And>q. r = Some q \<Longrightarrow> q \<in> set (w_views ws) \<and> q \<noteq> p \<and> (\<exists>v. s_views s q = Some v \<and> v_tile v = None)"
proof -
  have all: "\<forall>v \<in> set (w_views ws). \<exists>vw. s_views s v = Some vw \<and> view_ok w True vw" and d: "distinct (w_views ws)"
    using live_wsD [OF ok w] by metis+
  then have m: "\<forall>q \<in> set (views_before p (w_views ws)). \<exists>v. s_views s q = Some v \<and> managed_view v"
    using set_views_before [of p "w_views ws"] by (fastforce simp: view_ok_def)
  have l: "links_ok (s_tiles s) (s_views s)" using ok by (simp add: server_ok_def)
  obtain r where r: "first_invisible (views_before p (w_views ws)) s = Some r"
    "\<forall>q. r = Some q \<longrightarrow> q \<in> set (views_before p (w_views ws)) \<and> (\<exists>v. s_views s q = Some v \<and> v_tile v = None)"
    using first_invisible_ok [OF l m] by blast
  obtain v where "s_views s p = Some v" "v_workspace v = Some w" using all p by (auto simp: view_ok_def)
  then have "view_get_prev_view p s = Some r" using w p r(1) by (simp add: view_get_prev_view_def)
  then show thesis using r(2) set_views_before [of p "w_views ws"] prev_not_self [OF d, of p] by (intro that [of r]) auto
qed


section \<open>Mapping\<close>

lemma view_map_life:
  assumes life: "life_ok s" and v: "s_views s p = Some v" "v_surface v = None" "v_tile v = None" "managed_view v"
    and w: "curr_ws s = Some w"
  shows "\<exists>s'. view_map p surf w s = Some s' \<and> life_ok s' \<and>
     s_ws_brk s' = s_ws_brk s \<and> s_view_brk s' = s_view_brk s \<and> live_ws s' = live_ws s \<and>
     vcore s' = (vcore s)(p \<mapsto> view_core (v\<lparr>v_surface := Some surf, v_workspace := Some w\<rparr>)) \<and>
     members s' = (members s)(w \<mapsto> insert p (the (members s w)))"
proof -
  have ok: "server_ok s" and brk: "brk_ok s" and homes: "homes_ok s" using life by (simp_all add: life_ok_def)
  have live: "w \<in> live_ws s" using curr_ws_live [OF ok w] .
  obtain ws where ws: "s_workspaces s w = Some ws" using live_ws_ok [OF ok live] by metis
  obtain tp t where tp: "focused_tile_of w s = Some tp" "s_tiles s tp = Some t" "tile_ok w (w_views ws) t"
    and o: "s_outs s (w_output ws) \<noteq> None" using live_wsD [OF ok live ws] by metis
  let ?v = "v\<lparr>v_surface := Some surf, v_workspace := Some w\<rparr>"
  let ?ws = "ws\<lparr>w_views := p # w_views ws\<rparr>"
  let ?s1 = "s\<lparr>s_views := (s_views s)(p \<mapsto> ?v), s_workspaces := (s_workspaces s)(w \<mapsto> ?ws)\<rparr>"
  let ?s2 = "(emit (Scene_reparent p w) (s\<lparr>s_views := (s_views s)(p \<mapsto> ?v)\<rparr>))\<lparr>s_workspaces := (s_workspaces s)(w \<mapsto> ?ws)\<rparr>"
  have s2: "?s2 = ?s1\<lparr>s_calls := s_calls s @ [Scene_reparent p w]\<rparr>" by (simp add: emit_def)
  have vok: "view_ok w True ?v" "v_tile ?v = None" using v(3,4) by (simp_all add: view_ok_def managed_view_def xwayland_view_should_manage_def)
  have ok1: "server_ok ?s1" by (rule server_ok_link_view [OF ok live ws v(1-3) vok])
  then have ok2: "server_ok ?s2" unfolding s2 by simp
  have live2: "live_ws ?s2 = live_ws s" by (simp add: live_ws_def)
  have w2: "curr_ws ?s2 = Some w" using w outs_sim_curr_ws_of [of s ?s2] by (simp add: curr_ws_def)
  have tp2: "focused_tile_of w ?s2 = Some tp" "s_tiles ?s2 tp = Some t" using tp ws by (simp_all add: focused_tile_of_def)
  have l: "links_ok (s_tiles s) (s_views s)" using ok by (simp add: server_ok_def)
  have target: "target_ok tp w (Some p) ?s2"
    using hidden_on_no_tile [OF l v(1,3)] by (auto simp: target_ok_def only_on_def)
  obtain s3 where s3: "seat_set_focus (Some p) ?s2 = Some s3" "server_ok s3" "focus_ok s3" "same_world ?s2 s3"
    "s_tiles s3 = (s_tiles ?s2)(tp \<mapsto> t\<lparr>t_view := Some p\<rparr>)"
    using set_focus_world [OF ok2 w2 tp2 target] .
  have homes2: "homes_ok ?s2"
    using homes hidden_on_no_tile [OF l v(1,3)] by (auto simp: homes_ok_def split: if_splits)
  have tw: "t_workspace t = Some w" using tp(3) by (simp add: tile_ok_def)
  have homes3: "homes_ok s3" using s3(4,5) tw by (intro homes_ok_tile [OF homes2 _ s3(5)]) (auto simp: same_world_def)
  have lt: "p < s_view_brk s" using brk v(1) by (metis brk_ok_def leI option.distinct(1))
  have brk2: "brk_ok ?s2" using brk lt by (auto simp: brk_ok_def live2)
  have brk3: "brk_ok s3" by (rule brk_ok_world [OF brk2 s3(4)])
  have core: "vcore s3 p = vcore ?s2 p" using s3(4) by (simp add: same_world_def)
  obtain v3 where v3: "s_views s3 p = Some v3" "v_workspace v3 = Some w" "v_surface v3 = Some surf"
    using vcore_fields [OF core, of ?v] by (auto simp: emit_def)
  obtain ti where ti: "tile_id_of p s3 = Some ti"
  proof (cases "v_tile v3")
    case (Some x)
    have "links_ok (s_tiles s3) (s_views s3)" using s3(2) by (simp add: server_ok_def)
    then have "s_tiles s3 x \<noteq> None" using v3(1) Some unfolding links_ok_def by blast
    then show thesis using that v3(1) Some by (auto simp: tile_id_of_def)
  qed (use that v3(1) in \<open>auto simp: tile_id_of_def\<close>)
  have live3: "w \<in> live_ws s3" using s3(4) live live2 by (simp add: same_world_def)
  obtain ws3 where ws3: "s_workspaces s3 w = Some ws3" "s_outs s3 (w_output ws3) \<noteq> None"
    using live_ws_ok [OF s3(2) live3] by metis
  obtain a where a: "output_event_args ''output'' ''output_id'' (w_output ws3) s3 = Some a"
    using output_event_args_total [OF s3(2) ws3(2)] by blast
  have pid: "view_get_pid v3 = Some (v_pid v3)" using v3(3) by (simp add: view_get_pid_def)
  have m: "\<not> (v_type v = CG_XWAYLAND_VIEW \<and> \<not> xwayland_view_should_manage v)" using v(4) by (simp add: managed_view_def)
  then have m': "\<not> (v_type ?v = CG_XWAYLAND_VIEW \<and> \<not> xwayland_view_should_manage ?v)"
    by (simp add: xwayland_view_should_manage_def)
  let ?s' = "ipc_send_event ''view_map''
             ([(''view_id'', d32 (v_id v3)), (''tile_id'', d32 ti),
               (''workspace'', d32 (w_num ws3 + 1))] @ a @ [(''view_pid'', IInt (v_pid v3))]) s3"
  have vl: "view_link w p (emit (Scene_reparent p w) (s\<lparr>s_views := (s_views s)(p \<mapsto> ?v)\<rparr>)) = Some ?s2"
    using ws by (simp add: view_link_def upd_ws_def wl_insert_def)
  have up: "upd_view p (\<lambda>v. v\<lparr>v_surface := Some surf, v_workspace := Some w\<rparr>) s = Some (s\<lparr>s_views := (s_views s)(p \<mapsto> ?v)\<rparr>)"
    using v(1) by (simp add: upd_view_def)
  have look: "s_views (emit (Scene_reparent p w) (s\<lparr>s_views := (s_views s)(p \<mapsto> ?v)\<rparr>)) p = Some ?v"
    "s_workspaces (emit (Scene_reparent p w) (s\<lparr>s_views := (s_views s)(p \<mapsto> ?v)\<rparr>)) w = Some ws" using ws by simp_all
  have step: "view_map p surf w s = Some ?s'"
    unfolding view_map_def up bind.bind_lunit Let_def look if_not_P [OF m'] vl s3(1) ti v3(1,2) ws3(1) a pid by simp
  have fields: "s_ws_brk s3 = s_ws_brk s \<and> s_view_brk s3 = s_view_brk s \<and> live_ws s3 = live_ws s \<and>
     vcore s3 = (vcore s)(p \<mapsto> view_core ?v) \<and> members s3 = (members s)(w \<mapsto> insert p (the (members s w)))"
    using s3(4) live2 ws by (auto simp: same_world_def vcore_def members_def fun_eq_iff)
  have life3: "life_ok s3" using s3(2,3) brk3 homes3 by (simp add: life_ok_def)
  have "life_ok ?s'" "same_world s3 ?s'"
    using life3 by (simp_all add: ipc_send_event_def)
  then show ?thesis using step fields by (intro exI [of _ ?s']) (simp add: same_world_def)
qed


section \<open>Unmapping\<close>

text \<open>
  The part of \<open>unmap_managed\<close> that moves the focus away from the view: afterwards the state is good
  again, the view is not shown on the focused tile, and a previous view that was hidden still is.
\<close>

definition unmap_focus :: "view_ptr \<Rightarrow> cg_view \<Rightarrow> view_ptr option \<Rightarrow> cg_server \<Rightarrow> cg_server option" where
  "unmap_focus p v prev s =
     (if se_focused_view (s_seat s) = Some p then seat_set_focus prev s
      else if se_keyboard_focus (s_seat s) = v_surface v
      then seat_set_focus (se_focused_view (s_seat s))
             (emit Keyboard_clear_focus (upd_seat (\<lambda>se. se\<lparr>se_keyboard_focus := None\<rparr>) s))
      else Some s)"

lemma focus_okD:
  assumes "server_ok s" and "focus_ok s"
  obtains w ws tp t where "curr_ws s = Some w" and "w \<in> live_ws s" and "s_workspaces s w = Some ws"
    and "focused_tile_of w s = Some tp" and "s_tiles s tp = Some t" and "tile_ok w (w_views ws) t"
    and "se_focused_view (s_seat s) = t_view t" and "curr_tile s = Some tp"
proof -
  obtain tp t where tp: "curr_tile s = Some tp" "s_tiles s tp = Some t" "se_focused_view (s_seat s) = t_view t"
    using assms(2) by (auto simp: focus_ok_def)
  obtain w where w: "curr_ws s = Some w" "focused_tile_of w s = Some tp"
    using tp(1) by (auto simp: curr_tile_def bind_eq_Some)
  have live: "w \<in> live_ws s" using curr_ws_live [OF assms(1) w(1)] .
  obtain ws where ws: "s_workspaces s w = Some ws" using live_ws_ok [OF assms(1) live] by metis
  have "tile_ok w (w_views ws) t" using live_wsD [OF assms(1) live ws] w(2) tp(2) by (metis option.sel)
  with that w live ws tp show thesis by blast
qed

lemma unmap_focus_life:
  assumes life: "life_ok s" and w: "w \<in> live_ws s" "s_workspaces s w = Some ws" and p: "p \<in> set (w_views ws)"
    and v: "s_views s p = Some v" and prev: "view_get_prev_view p s = Some r"
    and r: "\<And>q. r = Some q \<Longrightarrow> q \<in> set (w_views ws) \<and> q \<noteq> p \<and> (\<exists>v. s_views s q = Some v \<and> v_tile v = None)"
  obtains s' tp where "unmap_focus p v r s = Some s'" and "life_ok s'" and "same_world s s'"
    and "curr_tile s' = Some tp" and "\<And>ti. s_tiles s' tp = Some ti \<Longrightarrow> t_view ti \<noteq> Some p"
    and "\<And>t ti. t \<noteq> tp \<Longrightarrow> s_tiles s' t = s_tiles s t"
    and "\<And>q t ti. r = Some q \<Longrightarrow> t \<noteq> tp \<Longrightarrow> s_tiles s' t = Some ti \<Longrightarrow> t_view ti \<noteq> Some q"
    and "\<And>t ti. se_focused_view (s_seat s) = Some p \<Longrightarrow> s_tiles s' t = Some ti \<Longrightarrow> t_view ti \<noteq> Some p"
    and "\<And>q t ti. se_focused_view (s_seat s) \<noteq> Some p \<Longrightarrow> r = Some q \<Longrightarrow> s_tiles s' t = Some ti \<Longrightarrow> t_view ti \<noteq> Some q"
proof -
  have ok: "server_ok s" and fo: "focus_ok s" and brk: "brk_ok s" and homes: "homes_ok s" using life by (simp_all add: life_ok_def)
  have l: "links_ok (s_tiles s) (s_views s)" using ok by (simp add: server_ok_def)
  obtain cw cws tp t where c: "curr_ws s = Some cw" "cw \<in> live_ws s" "s_workspaces s cw = Some cws"
    "focused_tile_of cw s = Some tp" "s_tiles s tp = Some t" "tile_ok cw (w_views cws) t"
    "se_focused_view (s_seat s) = t_view t" "curr_tile s = Some tp" using focus_okD [OF ok fo] .
  have vw: "v_workspace v = Some w"
    using live_wsD [OF ok w] p v by (metis option.sel view_ok_def)
  have tw: "t_workspace t = Some cw" using c(6) by (simp add: tile_ok_def)
  have qhid: "t_view ti \<noteq> Some q" if "r = Some q" "s_tiles s x = Some ti" for q x ti
    using r [OF that(1)] hidden_on_no_tile [OF l _ _ that(2)] by blast
  have pon: "x = tp" if "t_view t = Some p" "s_tiles s x = Some ti" "t_view ti = Some p" for x ti
    using shown_only_on [OF l c(5) that(1)] that(2,3) by (auto simp: only_on_def)
  show thesis
  proof (cases "se_focused_view (s_seat s) = Some p")
    case True
    then have tv: "t_view t = Some p" using c(7) by simp
    have "cw = w" using homes c(5) tv v tw vw by (fastforce simp: homes_ok_def)
    then have cws: "cws = ws" using c(3) w(2) by simp
    have target: "target_ok tp cw r s"
      using r qhid c(3) cws by (auto simp: target_ok_def only_on_def)
    obtain s' where s': "seat_set_focus r s = Some s'" "server_ok s'" "focus_ok s'" "same_world s s'"
      "s_tiles s' = (s_tiles s)(tp \<mapsto> t\<lparr>t_view := r\<rparr>)" "curr_tile s' = Some tp"
      using set_focus_world [OF ok c(1,4,5) target] .
    have h: "homes_ok s'"
    proof (rule homes_ok_tile [OF homes _ s'(5)])
      show "vcore s' = vcore s" using s'(4) by (simp add: same_world_def)
      show "\<exists>v. s_views s q = Some v \<and> v_workspace v = t_workspace t \<and> v_surface v \<noteq> None" if "r = Some q" for q
      proof -
        have "q \<in> set (w_views cws)" using r [OF that] cws by simp
        then show ?thesis using live_wsD [OF ok c(2,3)] tw by (metis view_ok_def)
      qed
    qed
    have "r \<noteq> Some p" using r by blast
    then show thesis
      using s' True h brk_ok_world [OF brk s'(4)] pon [OF tv] qhid
      by (intro that [of s' tp]) (auto simp: unmap_focus_def life_ok_def split: if_splits)
  next
    case nf: False
    then have tv: "t_view t \<noteq> Some p" using c(7) by simp
    show thesis
    proof (cases "se_keyboard_focus (s_seat s) = v_surface v")
      case True
      let ?s1 = "emit Keyboard_clear_focus (upd_seat (\<lambda>se. se\<lparr>se_keyboard_focus := None\<rparr>) s)"
      have ok1: "server_ok ?s1" using ok by (simp add: server_ok_upd_seat)
      have c1: "curr_ws ?s1 = Some cw" "focused_tile_of cw ?s1 = Some tp" "s_tiles ?s1 tp = Some t"
        using c outs_sim_curr_ws_of [of s ?s1] by (simp_all add: curr_ws_def focused_tile_of_def)
      have target: "target_ok tp cw (t_view t) ?s1"
        using c(3,6) shown_only_on [OF l c(5)] by (auto simp: target_ok_def tile_ok_def only_on_def)
      obtain s' where s': "seat_set_focus (t_view t) ?s1 = Some s'" "server_ok s'" "focus_ok s'" "same_world ?s1 s'"
        "s_tiles s' = (s_tiles ?s1)(tp \<mapsto> t\<lparr>t_view := t_view t\<rparr>)" "curr_tile s' = Some tp"
        using set_focus_world [OF ok1 c1 target] .
      have T: "s_tiles s' = s_tiles s" using s'(5) c(5) by (simp add: fun_upd_idem)
      have sw: "same_world s s'" using s'(4) by (simp add: same_world_def)
      have h: "homes_ok s'"
      proof (rule homes_ok_tile [OF homes])
        show "vcore s' = vcore s" using sw by (simp add: same_world_def)
        show "s_tiles s' = (s_tiles s)(tp \<mapsto> t\<lparr>t_view := t_view t\<rparr>)" using s'(5) by simp
        show "\<exists>v. s_views s q = Some v \<and> v_workspace v = t_workspace t \<and> v_surface v \<noteq> None" if "t_view t = Some q" for q
          using that c(6) live_wsD [OF ok c(2,3)] tw by (metis tile_ok_def view_ok_def)
      qed
      show thesis
        using s' nf True h brk_ok_world [OF brk sw] T sw tv c(5,7) qhid
        by (intro that [of s' tp]) (auto simp: unmap_focus_def life_ok_def)
    next
      case False
      show thesis
        using nf False life tv c(5,8) qhid by (intro that [of s tp]) (auto simp: unmap_focus_def)
    qed
  qed
qed


lemma same_rest_focus_ok:
  assumes fo: "focus_ok s" and r: "same_rest s s'" and seat: "s_seat s' = s_seat s"
    and T: "s_tiles s' = (s_tiles s)(x \<mapsto> ti)" and x: "curr_tile s \<noteq> Some x"
  shows "focus_ok s'" and "curr_tile s' = curr_tile s"
proof -
  have w: "curr_ws s' = curr_ws s"
    using r outs_sim_curr_ws_of [of s s'] by (simp add: curr_ws_def same_rest_def)
  show ct: "curr_tile s' = curr_tile s" using r w by (simp add: curr_tile_def focused_tile_of_def same_rest_def)
  show "focus_ok s'" using fo T x seat by (auto simp: focus_ok_def ct)
qed

lemma unmap_managed_life:
  assumes life: "life_ok s" and w: "w \<in> live_ws s" "s_workspaces s w = Some ws" and p: "p \<in> set (w_views ws)"
    and v: "s_views s p = Some v"
  obtains s' v' where "unmap_managed p s = Some s'" and "life_ok s'" and "same_world s s'"
    and "s_views s' p = Some v'" and "v_tile v' = None" and "se_focused_view (s_seat s') \<noteq> Some p"
proof -
  have ok: "server_ok s" using life by (simp add: life_ok_def)
  obtain r where r: "view_get_prev_view p s = Some r"
    "\<And>q. r = Some q \<Longrightarrow> q \<in> set (w_views ws) \<and> q \<noteq> p \<and> (\<exists>v. s_views s q = Some v \<and> v_tile v = None)"
    using prev_view_ok [OF ok w p] by metis
  obtain s1 tp where s1: "unmap_focus p v r s = Some s1" "life_ok s1" "same_world s s1" "curr_tile s1 = Some tp"
    "\<And>ti. s_tiles s1 tp = Some ti \<Longrightarrow> t_view ti \<noteq> Some p"
    "\<And>q t ti. se_focused_view (s_seat s) \<noteq> Some p \<Longrightarrow> r = Some q \<Longrightarrow> s_tiles s1 t = Some ti \<Longrightarrow> t_view ti \<noteq> Some q"
    "\<And>t ti. se_focused_view (s_seat s) = Some p \<Longrightarrow> s_tiles s1 t = Some ti \<Longrightarrow> t_view ti \<noteq> Some p"
    using unmap_focus_life [OF life w p v r] by metis
  have ok1: "server_ok s1" and fo1: "focus_ok s1" and brk1: "brk_ok s1" and homes1: "homes_ok s1"
    using s1(2) by (simp_all add: life_ok_def)
  have l1: "links_ok (s_tiles s1) (s_views s1)" using ok1 by (simp add: server_ok_def)
  have vw: "v_workspace v = Some w" using live_wsD [OF ok w] p v by (metis option.sel view_ok_def)
  have core: "vcore s1 p = vcore s p" using s1(3) by (simp add: same_world_def)
  obtain v1 where v1: "s_views s1 p = Some v1" "v_workspace v1 = Some w" using vcore_fields [OF core v] vw by metis
  have live1: "w \<in> live_ws s1" using s1(3) w(1) by (simp add: same_world_def)
  obtain ws1 where ws1: "s_workspaces s1 w = Some ws1" using live_ws_ok [OF ok1 live1] by metis
  have "members s1 w = members s w" using s1(3) by (simp add: same_world_def)
  then have mem: "set (w_views ws1) = set (w_views ws)" using ws1 w(2) by (simp add: members_def)
  have step: "unmap_managed p s = (case view_get_tile p s1 of None \<Rightarrow> None | Some vt \<Rightarrow>
      (case vt of None \<Rightarrow> Some s1 | Some tp \<Rightarrow> workspace_tile_update_view tp r s1))"
    using v r(1) s1(1) by (simp add: unmap_managed_def unmap_focus_def split: option.split)
  have foc1: "se_focused_view (s_seat s1) \<noteq> Some p"
  proof -
    obtain ti where "s_tiles s1 tp = Some ti" "se_focused_view (s_seat s1) = t_view ti"
      using fo1 s1(4) by (auto simp: focus_ok_def)
    then show ?thesis using s1(5) by simp
  qed
  show thesis
  proof (cases "v_tile v1")
    case None
    then show thesis using step v1 s1(2,3) foc1 by (intro that [of s1 v1]) (simp_all add: view_get_tile_def)
  next
    case (Some x)
    then have "\<exists>ti. s_tiles s1 x = Some ti \<and> t_view ti = Some p" using l1 v1(1) unfolding links_ok_def by blast
    then obtain ti where ti: "s_tiles s1 x = Some ti" "t_view ti = Some p" by blast
    have nf: "se_focused_view (s_seat s) \<noteq> Some p" using s1(7) ti by blast
    have x: "curr_tile s1 \<noteq> Some x" using s1(4,5) ti by auto
    have tw: "t_workspace ti = Some w" using homes1 ti v1 by (auto simp: homes_ok_def)
    have target: "target_ok x w r s1"
      using r(2) s1(6) [OF nf] ws1 mem by (auto simp: target_ok_def only_on_def)
    obtain s2 where s2: "workspace_tile_update_view x r s1 = Some s2" "server_ok s2" "same_rest s1 s2"
      "same_world s1 s2" "s_tiles s2 = (s_tiles s1)(x \<mapsto> ti\<lparr>t_view := r\<rparr>)" "s_seat s2 = s_seat s1"
      using tile_update_world [OF ok1 ti(1) tw live1 target] .
    have fo2: "focus_ok s2" using same_rest_focus_ok [OF fo1 s2(3,6,5) x] by simp
    have h2: "homes_ok s2"
    proof (rule homes_ok_tile [OF homes1 _ s2(5)])
      show "vcore s2 = vcore s1" using s2(4) by (simp add: same_world_def)
      show "\<exists>v. s_views s1 q = Some v \<and> v_workspace v = t_workspace ti \<and> v_surface v \<noteq> None" if "r = Some q" for q
        using r(2) [OF that] mem live_wsD [OF ok1 live1 ws1] tw by (metis view_ok_def)
    qed
    have core2: "vcore s2 p = vcore s1 p" using s2(4) by (simp add: same_world_def)
    obtain v2 where v2: "s_views s2 p = Some v2" using vcore_fields [OF core2 v1(1)] by metis
    have l2: "links_ok (s_tiles s2) (s_views s2)" using s2(2) by (simp add: server_ok_def)
    have "v_tile v2 = None"
    proof (rule ccontr)
      assume "v_tile v2 \<noteq> None"
      then obtain y where "v_tile v2 = Some y" by auto
      then have "\<exists>tj. s_tiles s2 y = Some tj \<and> t_view tj = Some p" using l2 v2 unfolding links_ok_def by blast
      then obtain tj where tj: "s_tiles s2 y = Some tj" "t_view tj = Some p" by blast
      show False
      proof (cases "y = x")
        case True
        then have "r = Some p" using tj s2(5) by auto
        then show False using r(2) by blast
      next
        case False
        then have "s_tiles s1 y = Some tj" using tj s2(5) by simp
        then show False using shown_only_on [OF l1 ti] tj(2) False by (auto simp: only_on_def)
      qed
    qed
    then show thesis
      using step v1 ti Some s2(1) fo2 h2 brk_ok_world [OF brk1 s2(4)] s2(2,6) v2 same_world_trans [OF s1(3) s2(4)] foc1
      by (intro that [of s2 v2]) (simp_all add: view_get_tile_def life_ok_def)
  qed
qed

lemma view_unmap_life:
  assumes life: "life_ok s" and w: "w \<in> live_ws s" "s_workspaces s w = Some ws" and p: "p \<in> set (w_views ws)"
    and v: "s_views s p = Some v"
  shows "\<exists>s' v'. view_unmap p s = Some s' \<and> life_ok s' \<and>
     s_ws_brk s' = s_ws_brk s \<and> s_view_brk s' = s_view_brk s \<and> live_ws s' = live_ws s \<and>
     vcore s' = (vcore s)(p \<mapsto> view_core (v\<lparr>v_surface := None\<rparr>)) \<and>
     s_views s' p = Some v' \<and> v_tile v' = None \<and>
     (\<forall>x \<in> live_ws s. members s' x = map_option (\<lambda>A. A - {p}) (members s x)) \<and> se_focused_view (s_seat s') \<noteq> Some p"
proof -
  have ok: "server_ok s" using life by (simp add: life_ok_def)
  have vok: "view_ok w True v" using live_wsD [OF ok w] p v by (metis option.sel)
  then have vw: "v_workspace v = Some w" "v_surface v \<noteq> None" "managed_view v" by (simp_all add: view_ok_def)
  obtain s1 v1 where s1: "unmap_managed p s = Some s1" "life_ok s1" "same_world s s1"
    "s_views s1 p = Some v1" "v_tile v1 = None" "se_focused_view (s_seat s1) \<noteq> Some p"
    using unmap_managed_life [OF life w p v] .
  have ok1: "server_ok s1" and fo1: "focus_ok s1" and brk1: "brk_ok s1" and homes1: "homes_ok s1"
    using s1(2) by (simp_all add: life_ok_def)
  have live1: "live_ws s1 = live_ws s" using s1(3) by (simp add: same_world_def)
  obtain ws1 where ws1: "s_workspaces s1 w = Some ws1" using live_ws_ok [OF ok1] live1 w(1) by metis
  have mem1: "members s1 = members s" using s1(3) by (simp add: same_world_def)
  then have "set (w_views ws1) = set (w_views ws)" using ws1 w(2) by (simp add: members_def fun_eq_iff) (metis option.map(2) option.sel)
  then have p1: "p \<in> set (w_views ws1)" using p by simp
  have "w < s_ws_brk s1" using brk1 live1 w(1) by (simp add: brk_ok_def)
  then have linked: "view_linked p s1" using ws1 p1 by (force simp: view_linked_def list_ex_iff)
  have "vcore s1 p = vcore s p" using s1(3) by (simp add: same_world_def)
  then have core1: "view_core v1 = view_core v" using s1(4) v by (simp add: vcore_def)
  obtain v1' where v1': "s_views s1 p = Some v1'" "managed_view v1' = managed_view v"
    using vcore_fields [of s1 p s v] s1(3) v by (metis same_world_def)
  then have m1: "managed_view v1" using s1(4) vw(3) by simp
  let ?v1 = "v1\<lparr>v_surface := None\<rparr>"
  let ?W = "\<lambda>w. map_option (ws_remove_view p) (s_workspaces s1 w)"
  let ?s2 = "s1\<lparr>s_workspaces := ?W, s_views := (s_views s1)(p \<mapsto> ?v1)\<rparr>"
  have ok2: "server_ok ?s2" using s1(5) by (intro server_ok_unlink_view [OF ok1 s1(4,5) m1]) simp
  have live2: "live_ws ?s2 = live_ws s" using live1 by (simp add: live_ws_def)
  have fo2: "focus_ok ?s2"
  proof -
    have "curr_ws ?s2 = curr_ws s1" using outs_sim_curr_ws_of [of s1 ?s2] by (simp add: curr_ws_def)
    moreover have "focused_tile_of x ?s2 = focused_tile_of x s1" for x
      by (cases "s_workspaces s1 x") (simp_all add: focused_tile_of_def ws_remove_view_def)
    ultimately have "curr_tile ?s2 = curr_tile s1" by (simp add: curr_tile_def)
    then show ?thesis using fo1 by (simp add: focus_ok_def)
  qed
  have l1: "links_ok (s_tiles s1) (s_views s1)" using ok1 by (simp add: server_ok_def)
  have homes2: "homes_ok ?s2"
    using homes1 hidden_on_no_tile [OF l1 s1(4,5)] by (auto simp: homes_ok_def split: if_splits)
  have brk2: "brk_ok ?s2" using brk1 s1(4) live1 live2 by (auto simp: brk_ok_def)
  have life2: "life_ok ?s2" using ok2 fo2 homes2 brk2 by (simp add: life_ok_def)
  obtain a where a: "output_event_args ''output'' ''output_id'' (w_output ws) s = Some a"
    using output_event_args_total [OF ok] live_wsD [OF ok w] by metis
  have pid: "view_get_pid v = Some (v_pid v)" using vw(2) by (simp add: view_get_pid_def)
  obtain ti where ti: "tile_id_of p s = Some ti"
  proof (cases "v_tile v")
    case (Some x)
    have "links_ok (s_tiles s) (s_views s)" using ok by (simp add: server_ok_def)
    then have "s_tiles s x \<noteq> None" using v Some unfolding links_ok_def by blast
    then show thesis using that v Some by (auto simp: tile_id_of_def)
  qed (use that v in \<open>auto simp: tile_id_of_def\<close>)
  let ?s' = "ipc_send_event ''view_unmap''
               ([(''view_id'', d32 (v_id v)), (''tile_id'', d32 ti),
                 (''workspace'', d32 (w_num ws + 1))] @ a @ [(''view_pid'', IInt (v_pid v))]) ?s2"
  have un: "view_unlink p s1 = Some (s1\<lparr>s_workspaces := ?W\<rparr>)" using linked by (simp add: view_unlink_def)
  have up: "upd_view p (\<lambda>v. v\<lparr>v_surface := None\<rparr>) (s1\<lparr>s_workspaces := ?W\<rparr>) = Some ?s2"
    using s1(4) by (simp add: upd_view_def)
  have m: "v_type v \<noteq> CG_XWAYLAND_VIEW \<or> xwayland_view_should_manage v" using vw(3) by (simp add: managed_view_def)
  have step: "view_unmap p s = Some ?s'"
    unfolding view_unmap_def v bind.bind_lunit vw(1) w(2) a pid if_not_P [OF vw(2)] ti if_P [OF m] s1(1) un up ..
  have mems: "members ?s' x = map_option (\<lambda>A. A - {p}) (members s x)" if x: "x \<in> live_ws s" for x
  proof -
    obtain wx where wx: "s_workspaces s1 x = Some wx" using live_ws_ok [OF ok1] live1 x by metis
    have "distinct (w_views wx)" using live_wsD [OF ok1 _ wx] live1 x by metis
    moreover have "members s x = Some (set (w_views wx))" using mem1 wx by (metis members_def option.map(2))
    ultimately show ?thesis using wx
      by (auto simp: ipc_send_event_def members_def ws_remove_view_def wl_remove_def set_remove1_eq)
  qed
  have core: "vcore ?s' = (vcore s)(p \<mapsto> view_core (v\<lparr>v_surface := None\<rparr>))"
  proof
    fix q
    have "view_core ?v1 = (view_core v1)\<lparr>v_surface := None\<rparr>" "view_core (v\<lparr>v_surface := None\<rparr>) = (view_core v)\<lparr>v_surface := None\<rparr>"
      by (simp_all add: view_core_def)
    moreover have "vcore s1 q = vcore s q" using s1(3) by (simp add: same_world_def)
    ultimately show "vcore ?s' q = ((vcore s)(p \<mapsto> view_core (v\<lparr>v_surface := None\<rparr>))) q"
      using core1 by (simp add: vcore_def ipc_send_event_def)
  qed
  have "s_ws_brk ?s' = s_ws_brk s" "s_view_brk ?s' = s_view_brk s" "live_ws ?s' = live_ws s"
    using s1(3) live2 by (simp_all add: same_world_def ipc_send_event_def)
  moreover have "life_ok ?s'" using life2 by (simp add: ipc_send_event_def)
  moreover have "s_views ?s' p = Some ?v1" "v_tile ?v1 = None" using s1(5) by (simp_all add: ipc_send_event_def)
  moreover have "se_focused_view (s_seat ?s') \<noteq> Some p" using s1(6) by (simp add: ipc_send_event_def)
  ultimately show ?thesis using step core mems by blast
qed

section \<open>Creating and destroying\<close>

lemma view_init_life:
  assumes life: "life_ok s"
  shows "\<exists>p s'. view_init ty client s = Some (p, s') \<and> p = s_view_brk s \<and> life_ok s' \<and>
     s_ws_brk s' = s_ws_brk s \<and> s_view_brk s' = Suc (s_view_brk s) \<and> live_ws s' = live_ws s \<and> members s' = members s \<and>
     (\<exists>v. s_views s' p = Some v \<and> v_surface v = None \<and> v_tile v = None \<and> v_type v = ty) \<and>
     (\<forall>q. q \<noteq> p \<longrightarrow> s_views s' q = s_views s q) \<and> s_views s p = None"
proof -
  have ok: "server_ok s" and fo: "focus_ok s" and brk: "brk_ok s" and homes: "homes_ok s" using life by (simp_all add: life_ok_def)
  let ?p = "s_view_brk s"
  have new: "s_views s ?p = None" using brk by (simp add: brk_ok_def)
  let ?v = "client\<lparr>v_workspace := None, v_tile := None, v_surface := None, v_ox := 0, v_oy := 0,
                    v_type := ty, v_id := s_views_curr_id s\<rparr>"
  let ?s = "s\<lparr>s_views := (s_views s)(?p \<mapsto> ?v), s_view_brk := Suc ?p, s_views_curr_id := s_views_curr_id s + 1\<rparr>"
  have live: "live_ws ?s = live_ws s" by (simp add: live_ws_def)
  have ws: "ws_ok (s_tiles s) ((s_views s)(?p \<mapsto> ?v)) q j w x" if "ws_ok (s_tiles s) (s_views s) q j w x" for q j w x
    using that new by (auto simp: ws_ok_def)
  have "out_ok ?s q" if "q \<in> set (s_outputs s)" for q
  proof -
    have "out_ok s q" using ok that by (simp add: server_ok_def)
    then show ?thesis using ws unfolding out_ok_def by fastforce
  qed
  moreover have "links_ok (s_tiles s) ((s_views s)(?p \<mapsto> ?v))"
  proof -
    have l: "links_ok (s_tiles s) (s_views s)" using ok by (simp add: server_ok_def)
    have "t_view ti \<noteq> Some ?p" if "s_tiles s t = Some ti" for t ti
      using links_ok_view [OF l that, of ?p] new by auto
    then show ?thesis using l new unfolding links_ok_def by (auto split: if_splits)
  qed
  moreover have "seat_ok ?s" using ok new unfolding server_ok_def seat_ok_def live by auto
  ultimately have ok': "server_ok ?s" using ok by (simp add: server_ok_def tiles_below_brk_def)
  have cw: "curr_ws_of x ?s = curr_ws_of x s" for x using outs_sim_curr_ws_of [of s ?s] by simp
  then have w: "curr_ws ?s = curr_ws s" by (simp add: curr_ws_def)
  have "focus_ok ?s" using fo w by (simp add: focus_ok_def curr_tile_def focused_tile_of_def)
  moreover have "homes_ok ?s"
  proof -
    have l: "links_ok (s_tiles s) (s_views s)" using ok by (simp add: server_ok_def)
    have "t_view ti \<noteq> Some ?p" if "s_tiles s t = Some ti" for t ti
      using links_ok_view [OF l that, of ?p] new by auto
    then show ?thesis using homes by (auto simp: homes_ok_def)
  qed
  moreover have "brk_ok ?s" using brk live by (auto simp: brk_ok_def)
  ultimately have "life_ok ?s" using ok' by (simp add: life_ok_def)
  moreover obtain x where "curr_ws s = Some x" using focus_okD [OF ok fo] by metis
  ultimately show ?thesis
    using w live new by (simp add: view_init_def Let_def members_def fun_eq_iff)
qed

lemma view_destroy_life:
  assumes life: "life_ok s" and v: "s_views s p = Some v" "v_surface v = None" "v_tile v = None"
  shows "\<exists>s'. view_destroy p s = Some s' \<and> life_ok s' \<and>
     s_ws_brk s' = s_ws_brk s \<and> s_view_brk s' = s_view_brk s \<and> live_ws s' = live_ws s \<and> members s' = members s \<and>
     s_views s' = (s_views s)(p := None)"
proof -
  have ok: "server_ok s" and fo: "focus_ok s" and brk: "brk_ok s" and homes: "homes_ok s" using life by (simp_all add: life_ok_def)
  have l: "links_ok (s_tiles s) (s_views s)" using ok by (simp add: server_ok_def)
  note off = hidden_on_no_tile [OF l v(1,3)]
  obtain cw cws tp t where c: "curr_ws s = Some cw" "focused_tile_of cw s = Some tp" "s_tiles s tp = Some t"
    "se_focused_view (s_seat s) = t_view t" "curr_tile s = Some tp" using focus_okD [OF ok fo] by metis
  obtain co where co: "s_curr_output s = Some co" "curr_ws_of co s = Some cw"
    using c(1) by (auto simp: curr_ws_def bind_eq_Some)
  let ?s1 = "(emit (Scene_destroy_view p) s)\<lparr>s_views := (s_views s)(p := None)\<rparr>"
  have live: "live_ws ?s1 = live_ws s" by (simp add: live_ws_def)
  have ws: "ws_ok (s_tiles s) ((s_views s)(p := None)) q j w x"
    if "ws_ok (s_tiles s) (s_views s) q j w x" for q j w x
    using that v(1,2) unfolding ws_ok_def by (auto simp: view_ok_def)
  have "out_ok ?s1 q" if "q \<in> set (s_outputs s)" for q
  proof -
    have "out_ok s q" using ok that by (simp add: server_ok_def)
    then show ?thesis using ws unfolding out_ok_def by fastforce
  qed
  moreover have "links_ok (s_tiles s) ((s_views s)(p := None))"
    using l off unfolding links_ok_def by (auto split: if_splits)
  moreover have fv: "se_focused_view (s_seat s) \<noteq> Some p" using c(3,4) off by simp
  moreover have "seat_ok ?s1" using ok fv unfolding server_ok_def seat_ok_def live by auto
  ultimately have ok1: "server_ok ?s1" using ok by (simp add: server_ok_def tiles_below_brk_def)
  have cw: "curr_ws_of x ?s1 = curr_ws_of x s" for x using outs_sim_curr_ws_of [of s ?s1] by simp
  have ft: "focused_tile_of x ?s1 = focused_tile_of x s" for x by (simp add: focused_tile_of_def)
  have ct: "curr_tile ?s1 = Some tp" using c cw ft by (simp add: curr_tile_def curr_ws_def)
  have fo1: "focus_ok ?s1" using ct c by (simp add: focus_ok_def)
  have life1: "life_ok ?s1"
    using ok1 fo1 brk homes by (auto simp: life_ok_def brk_ok_def homes_ok_def live split: if_splits)
  have al: "s_views ?s1 q \<noteq> None" if "t_view t = Some q" for q
    using that off [OF c(3)] links_ok_view [OF l c(3) that] by auto
  obtain cs where act: "view_activate (t_view t) True ?s1 = Some (?s1\<lparr>s_calls := cs\<rparr>)"
    using view_activate_ok [OF al] by blast
  have "view_destroy p s = Some (?s1\<lparr>s_calls := cs\<rparr>)"
    using co v cw [of co] ft [of cw] c(2,3) act by (simp add: view_destroy_def view_impl_destroy_def)
  moreover have "life_ok (?s1\<lparr>s_calls := cs\<rparr>)"
  proof -
    have "homes_ok (?s1\<lparr>s_calls := cs\<rparr>) = homes_ok ?s1" "brk_ok (?s1\<lparr>s_calls := cs\<rparr>) = brk_ok ?s1"
      by (simp_all add: homes_ok_def brk_ok_def live_ws_def)
    moreover have "focus_ok (?s1\<lparr>s_calls := cs\<rparr>) = focus_ok ?s1"
      by (simp add: focus_ok_def curr_tile_def curr_ws_def curr_ws_of_def focused_tile_of_def)
    ultimately show ?thesis using life1 by (simp add: life_ok_def)
  qed
  ultimately show ?thesis by (auto simp: live_ws_def members_def fun_eq_iff)
qed

end
