(* ===== verification/Life_Props.thy ===== *)
theory Life_Props
  imports Life_Inv Example_Server
begin

text \<open>
  Clients of xdg-shell against the compositor: any sequence of requests of any number of clients,
  whatever wlroots answers. wlroots keeps the set of the surfaces that are mapped: it announces a map
  only of a surface that is not in the set, an unmap only of one that is, and it unmaps a surface
  before it announces its destruction.
\<close>

section \<open>Events of clients\<close>

datatype xdg_client_event =
    Client_new nat cg_view
  | Client_commit view_ptr
  | Client_map view_ptr
  | Client_unmap view_ptr
  | Client_fullscreen view_ptr
  | Client_popup nat view_ptr
  | Client_destroy view_ptr

text \<open>A signal runs the handler of a view only when the view listens to it.\<close>

definition xdg_signal :: "xdg_event \<Rightarrow> view_ptr \<Rightarrow> (shells \<Rightarrow> shells option) \<Rightarrow> shells \<Rightarrow> shells option" where
  "xdg_signal e p h sh = (case sh_xdg sh p of
     None \<Rightarrow> Some sh
   | Some xv \<Rightarrow> if e \<in> xv_listeners xv then h sh else Some sh)"

definition xdg_unmap_step :: "view_ptr \<Rightarrow> shells \<times> view_ptr set \<Rightarrow> (shells \<times> view_ptr set) option" where
  "xdg_unmap_step p = (\<lambda>(sh, M).
     if p \<notin> M then Some (sh, M)
     else map_option (\<lambda>sh. (sh, M - {p})) (xdg_signal Ev_unmap p (handle_xdg_shell_surface_unmap p) sh))"

fun xdg_client_step ::
    "shell_env \<times> xdg_client_event \<Rightarrow> shells \<times> view_ptr set \<Rightarrow> (shells \<times> view_ptr set) option" where
  "xdg_client_step (env, Client_new t client) (sh, M) =
     map_option (\<lambda>r. (snd r, M)) (handle_xdg_shell_toplevel_new env t client sh)"
| "xdg_client_step (env, Client_commit p) (sh, M) =
     map_option (\<lambda>sh. (sh, M)) (xdg_signal Ev_commit p (handle_xdg_shell_toplevel_commit env p) sh)"
| "xdg_client_step (env, Client_map p) (sh, M) =
     (if p \<in> M \<or> sh_xdg sh p = None then Some (sh, M)
      else map_option (\<lambda>sh. (sh, insert p M)) (xdg_signal Ev_map p (handle_xdg_shell_surface_map env p) sh))"
| "xdg_client_step (env, Client_unmap p) st = xdg_unmap_step p st"
| "xdg_client_step (env, Client_fullscreen p) (sh, M) =
     map_option (\<lambda>sh. (sh, M))
       (xdg_signal Ev_request_fullscreen p (handle_xdg_shell_surface_request_fullscreen env p) sh)"
| "xdg_client_step (env, Client_popup q p) (sh, M) =
     map_option (\<lambda>sh. (sh, M))
       (xdg_signal Ev_new_popup p (\<lambda>sh. Some (handle_xdg_shell_popup_new env q p sh)) sh)"
| "xdg_client_step (env, Client_destroy p) st = do {
     (sh, M) \<leftarrow> xdg_unmap_step p st;
     map_option (\<lambda>sh. (sh, M)) (xdg_signal Ev_destroy p (handle_xdg_shell_surface_destroy p) sh)
   }"

section \<open>The invariant\<close>

text \<open>
  A toplevel has a view, listens to the popups and the fullscreen requests of its surface exactly while
  it is mapped, and is then in the list of a workspace; while it is not mapped its view has no surface.
\<close>

definition xdg_listening :: "bool \<Rightarrow> xdg_event set" where
  "xdg_listening mapped = {Ev_commit, Ev_map, Ev_unmap, Ev_destroy} \<union>
     (if mapped then {Ev_new_popup, Ev_request_fullscreen} else {})"

definition xview_ok :: "cg_server \<Rightarrow> view_ptr set \<Rightarrow> view_ptr \<Rightarrow> cg_xdg_shell_view \<Rightarrow> bool" where
  "xview_ok s M p xv \<longleftrightarrow> (\<exists>t. xv_toplevel xv = Some t) \<and> xv_listeners xv = xdg_listening (p \<in> M) \<and>
     (\<exists>c. vcore s p = Some c \<and> v_type c = CG_XDG_SHELL_VIEW \<and>
       (if p \<in> M then \<exists>w \<in> live_ws s. \<exists>A. members s w = Some A \<and> p \<in> A else v_surface c = None))"

definition shells_ok :: "shells \<times> view_ptr set \<Rightarrow> bool" where
  "shells_ok st \<longleftrightarrow> life_ok (sh_srv (fst st)) \<and> snd st \<subseteq> dom (sh_xdg (fst st)) \<and>
     (\<forall>p xv. sh_xdg (fst st) p = Some xv \<longrightarrow> xview_ok (sh_srv (fst st)) (snd st) p xv)"

lemma xview_frame:
  assumes "xview_ok s M q xv" and "vcore s' q = vcore s q" and "live_ws s' = live_ws s" and "q \<in> M' \<longleftrightarrow> q \<in> M"
    and "\<And>w A. w \<in> live_ws s \<Longrightarrow> members s w = Some A \<Longrightarrow> q \<in> A \<Longrightarrow> \<exists>A'. members s' w = Some A' \<and> q \<in> A'"
  shows "xview_ok s' M' q xv"
  using assms unfolding xview_ok_def by (auto split: if_splits) (metis)+

lemma shells_okI:
  assumes "life_ok s" and "M \<subseteq> dom X" and "\<And>p xv. X p = Some xv \<Longrightarrow> xview_ok s M p xv" and "sh_srv sh = s" "sh_xdg sh = X"
  shows "shells_ok (sh, M)"
  using assms by (simp add: shells_ok_def)

lemma shells_okD:
  assumes "shells_ok (sh, M)"
  shows "life_ok (sh_srv sh)" and "M \<subseteq> dom (sh_xdg sh)"
    and "sh_xdg sh p = Some xv \<Longrightarrow> xview_ok (sh_srv sh) M p xv"
  using assms by (simp_all add: shells_ok_def)

lemma vcore_Some:
  assumes "vcore s p = Some c"
  obtains v where "s_views s p = Some v" and "c = view_core v" and "v_type v = v_type c" and "v_surface v = v_surface c"
  using assms that by (auto simp: vcore_def view_core_def)

lemma shell_emit_fields [simp]:
  "sh_srv (shell_emit c sh) = emit (Shell_call c) (sh_srv sh)" "sh_xdg (shell_emit c sh) = sh_xdg sh"
  by (simp_all add: shell_emit_def)

lemma shells_ok_same:
  assumes "shells_ok (sh, M)" and "life_ok (sh_srv sh') = life_ok (sh_srv sh)" and "sh_xdg sh' = sh_xdg sh"
    and "vcore (sh_srv sh') = vcore (sh_srv sh)" "live_ws (sh_srv sh') = live_ws (sh_srv sh)"
    "members (sh_srv sh') = members (sh_srv sh)"
  shows "shells_ok (sh', M)"
proof -
  have "xview_ok (sh_srv sh') M p xv = xview_ok (sh_srv sh) M p xv" for p xv
    unfolding xview_ok_def assms(4-6) ..
  then show ?thesis using assms(1-3) by (simp add: shells_ok_def)
qed

section \<open>Every event keeps it\<close>

lemma new_ok:
  assumes ok: "shells_ok (sh, M)"
  shows "\<exists>r. handle_xdg_shell_toplevel_new env t client sh = Some r \<and> shells_ok (snd r, M)"
proof (cases "sx_alloc env")
  case False
  then show ?thesis using ok by (simp add: handle_xdg_shell_toplevel_new_def shells_ok_same [OF ok])
next
  case True
  let ?s = "emit (Shell_call (Xdg_ping t)) (sh_srv sh)"
  have "life_ok ?s" using shells_okD(1) [OF ok] by simp
  from view_init_life [OF this, of CG_XDG_SHELL_VIEW client]
  obtain p s' v where i: "view_init CG_XDG_SHELL_VIEW client ?s = Some (p, s')" "life_ok s'" "live_ws s' = live_ws ?s"
    "members s' = members ?s" "s_views s' p = Some v" "v_surface v = None" "v_type v = CG_XDG_SHELL_VIEW"
    "\<forall>q. q \<noteq> p \<longrightarrow> s_views s' q = s_views ?s q" "s_views ?s p = None" by metis
  let ?X = "(sh_xdg sh)(p \<mapsto> \<lparr>xv_toplevel = Some t, xv_listeners = {Ev_commit, Ev_map, Ev_unmap, Ev_destroy}\<rparr>)"
  have np: "sh_xdg sh p = None"
  proof (rule ccontr)
    assume "sh_xdg sh p \<noteq> None"
    then obtain xv where "sh_xdg sh p = Some xv" by auto
    from shells_okD(3) [OF ok this] i(9) show False by (auto simp: xview_ok_def vcore_def)
  qed
  then have "p \<notin> M" using shells_okD(2) [OF ok] by auto
  have "xview_ok s' M q xv" if "?X q = Some xv" for q xv
  proof (cases "q = p")
    case True
    have "vcore s' p = Some (view_core v)" using i(5) by (simp add: vcore_def)
    then show ?thesis using that i(6,7) True \<open>p \<notin> M\<close> by (auto simp: xview_ok_def xdg_listening_def view_core_def)
  next
    case False
    then have "xview_ok (sh_srv sh) M q xv" using that shells_okD(3) [OF ok] by simp
    then show ?thesis by (rule xview_frame) (use False i(3,4,8) in \<open>simp_all add: vcore_def\<close>)
  qed
  then have "shells_ok (sh\<lparr>sh_srv := s', sh_xdg := ?X\<rparr>, M)"
    using i(2) shells_okD(2) [OF ok] by (intro shells_okI [of s' M ?X]) auto
  then have "shells_ok (shell_emit (Xdg_scene_create p) (sh\<lparr>sh_srv := s', sh_xdg := ?X\<rparr>), M)"
    by (rule shells_ok_same) simp_all
  moreover have "handle_xdg_shell_toplevel_new env t client sh =
      Some (Some p, shell_emit (Xdg_scene_create p) (sh\<lparr>sh_srv := s', sh_xdg := ?X\<rparr>))"
    using True i(1) by (simp add: handle_xdg_shell_toplevel_new_def Let_def upd_xdg_def shell_emit_def)
  ultimately show ?thesis by simp
qed

lemma map_ok:
  assumes ok: "shells_ok (sh, M)" and xv: "sh_xdg sh p = Some xv" and p: "p \<notin> M"
  shows "\<exists>sh'. handle_xdg_shell_surface_map env p sh = Some sh' \<and> shells_ok (sh', insert p M)"
proof -
  let ?s = "sh_srv sh"
  have life: "life_ok ?s" by (rule shells_okD(1) [OF ok])
  obtain t c where x: "xv_toplevel xv = Some t" "xv_listeners xv = xdg_listening False" "vcore ?s p = Some c"
    "v_type c = CG_XDG_SHELL_VIEW" "v_surface c = None"
    using shells_okD(3) [OF ok xv] p by (auto simp: xview_ok_def)
  obtain v where v: "s_views ?s p = Some v" "v_type v = CG_XDG_SHELL_VIEW" "v_surface v = None"
    using vcore_Some [OF x(3)] x(4,5) by metis
  have tile: "v_tile v = None" by (rule unmapped_hidden [OF life v(1,3)])
  have man: "managed_view v" using v(2) by (simp add: managed_view_def)
  obtain w where w: "curr_ws ?s = Some w" using focus_okD [of ?s] life by (metis life_ok_def)
  have wl: "w \<in> live_ws ?s" using life w by (auto simp: life_ok_def server_ok_def intro: curr_ws_live)
  let ?surf = "sx_surface env t"
  from view_map_life [OF life v(1,3) tile man w]
  obtain s' where m: "view_map p ?surf w ?s = Some s'" "life_ok s'" "live_ws s' = live_ws ?s"
    "vcore s' = (vcore ?s)(p \<mapsto> view_core (v\<lparr>v_surface := Some ?surf, v_workspace := Some w\<rparr>))"
    "members s' = (members ?s)(w \<mapsto> insert p (the (members ?s w)))" by metis
  let ?X = "(sh_xdg sh)(p \<mapsto> xv\<lparr>xv_listeners := xdg_listening True\<rparr>)"
  have "xview_ok s' (insert p M) q yv" if "?X q = Some yv" for q yv
  proof (cases "q = p")
    case True
    have "members s' w = Some (insert p (the (members ?s w)))" using m(5) by simp
    moreover have "w \<in> live_ws s'" using wl m(3) by simp
    moreover have "vcore s' p = Some (view_core (v\<lparr>v_surface := Some ?surf, v_workspace := Some w\<rparr>))" using m(4) by simp
    ultimately show ?thesis using that True x(1) v(2) by (auto simp: xview_ok_def view_core_def)
  next
    case False
    then have "xview_ok ?s M q yv" using that shells_okD(3) [OF ok] by simp
    then show ?thesis by (rule xview_frame) (use False m(3-5) in auto)
  qed
  then have "shells_ok (sh\<lparr>sh_srv := s', sh_xdg := ?X\<rparr>, insert p M)"
    using m(2) shells_okD(2) [OF ok] by (intro shells_okI [of s' "insert p M" ?X]) auto
  moreover have "wl_signal_add Ev_new_popup (xv_listeners xv) = Some (insert Ev_new_popup (xdg_listening False))"
    "wl_signal_add Ev_request_fullscreen (insert Ev_new_popup (xdg_listening False)) = Some (xdg_listening True)"
    using x(2) by (auto simp: wl_signal_add_def xdg_listening_def)
  ultimately show ?thesis
    using xv x(1) w m(1)
    by (intro exI [of _ "sh\<lparr>sh_srv := s', sh_xdg := ?X\<rparr>"])
      (simp add: handle_xdg_shell_surface_map_def on_shell_def upd_xdg_def)
qed

lemma unmap_step_ok:
  assumes ok: "shells_ok (sh, M)"
  shows "\<exists>sh'. xdg_unmap_step p (sh, M) = Some (sh', M - {p}) \<and> shells_ok (sh', M - {p})"
proof (cases "p \<in> M")
  case False
  then show ?thesis using ok by (simp add: xdg_unmap_step_def)
next
  case True
  let ?s = "sh_srv sh"
  have life: "life_ok ?s" by (rule shells_okD(1) [OF ok])
  obtain xv where xv: "sh_xdg sh p = Some xv" using True shells_okD(2) [OF ok] by auto
  obtain t c w A where x: "xv_toplevel xv = Some t" "xv_listeners xv = xdg_listening True" "vcore ?s p = Some c"
    "v_type c = CG_XDG_SHELL_VIEW" "w \<in> live_ws ?s" "members ?s w = Some A" "p \<in> A"
    using shells_okD(3) [OF ok xv] True by (auto simp: xview_ok_def)
  obtain v where v: "s_views ?s p = Some v" "v_type v = CG_XDG_SHELL_VIEW"
    using vcore_Some [OF x(3)] x(4) by metis
  obtain ws where ws: "s_workspaces ?s w = Some ws" "p \<in> set (w_views ws)" using x(6,7) by (auto simp: members_def)
  from view_unmap_life [OF life x(5) ws v(1)]
  obtain s' v' where m: "view_unmap p ?s = Some s'" "life_ok s'" "live_ws s' = live_ws ?s"
    "vcore s' = (vcore ?s)(p \<mapsto> view_core (v\<lparr>v_surface := None\<rparr>))"
    "\<forall>x \<in> live_ws ?s. members s' x = map_option (\<lambda>A. A - {p}) (members ?s x)" by metis
  let ?X = "(sh_xdg sh)(p \<mapsto> xv\<lparr>xv_listeners := xdg_listening False\<rparr>)"
  have "xview_ok s' (M - {p}) q yv" if "?X q = Some yv" for q yv
  proof (cases "q = p")
    case True
    then show ?thesis using that x(1) v(2) m(4) by (auto simp: xview_ok_def view_core_def)
  next
    case False
    then have "xview_ok ?s M q yv" using that shells_okD(3) [OF ok] by simp
    then show ?thesis by (rule xview_frame) (use False m(3-5) in auto)
  qed
  then have "shells_ok (sh\<lparr>sh_srv := s', sh_xdg := ?X\<rparr>, M - {p})"
    using m(2) shells_okD(2) [OF ok] by (intro shells_okI [of s' "M - {p}" ?X]) auto
  moreover have "wl_listener_remove Ev_new_popup (xv_listeners xv) = Some (xdg_listening True - {Ev_new_popup})"
    "wl_listener_remove Ev_request_fullscreen (xdg_listening True - {Ev_new_popup}) = Some (xdg_listening False)"
    using x(2) by (auto simp: wl_listener_remove_def xdg_listening_def)
  moreover have "Ev_unmap \<in> xv_listeners xv" using x(2) by (simp add: xdg_listening_def)
  ultimately show ?thesis
    using xv True m(1)
    by (intro exI [of _ "sh\<lparr>sh_srv := s', sh_xdg := ?X\<rparr>"])
      (simp add: xdg_unmap_step_def xdg_signal_def handle_xdg_shell_surface_unmap_def on_shell_def upd_xdg_def)
qed

lemma destroy_ok:
  assumes ok: "shells_ok (sh, M)" and p: "p \<notin> M"
  shows "\<exists>sh'. xdg_signal Ev_destroy p (handle_xdg_shell_surface_destroy p) sh = Some sh' \<and> shells_ok (sh', M)"
proof (cases "sh_xdg sh p")
  case None
  then show ?thesis using ok by (simp add: xdg_signal_def)
next
  case (Some xv)
  let ?s = "sh_srv sh"
  have life: "life_ok ?s" by (rule shells_okD(1) [OF ok])
  obtain c where x: "xv_listeners xv = xdg_listening False" "vcore ?s p = Some c" "v_surface c = None"
    using shells_okD(3) [OF ok Some] p by (auto simp: xview_ok_def)
  obtain v where v: "s_views ?s p = Some v" "v_surface v = None" using vcore_Some [OF x(2)] x(3) by metis
  from view_destroy_life [OF life v unmapped_hidden [OF life v]]
  obtain s' where m: "view_destroy p ?s = Some s'" "life_ok s'" "live_ws s' = live_ws ?s"
    "members s' = members ?s" "s_views s' = (s_views ?s)(p := None)" by metis
  let ?X = "(sh_xdg sh)(p := None)"
  have "xview_ok s' M q yv" if "?X q = Some yv" for q yv
  proof -
    have "q \<noteq> p" "xview_ok ?s M q yv" using that shells_okD(3) [OF ok] by (auto split: if_splits)
    from xview_frame [OF this(2)] this(1) m(3-5) show ?thesis by (auto simp: vcore_def)
  qed
  then have "shells_ok (sh\<lparr>sh_srv := s', sh_xdg := ?X\<rparr>, M)"
    using m(2) shells_okD(2) [OF ok] p by (intro shells_okI [of s' M ?X]) auto
  moreover have "wl_listener_remove Ev_map (xv_listeners xv) = Some {Ev_commit, Ev_unmap, Ev_destroy}"
    "wl_listener_remove Ev_unmap {Ev_commit, Ev_unmap, Ev_destroy} = Some {Ev_commit, Ev_destroy}"
    "wl_listener_remove Ev_destroy {Ev_commit, Ev_destroy} = Some {Ev_commit}"
    "wl_listener_remove Ev_commit {Ev_commit} = Some {}"
    using x(1) by (auto simp: wl_listener_remove_def xdg_listening_def)
  moreover have "Ev_destroy \<in> xv_listeners xv" using x(1) by (simp add: xdg_listening_def)
  ultimately show ?thesis
    using Some m(1) v
    by (intro exI [of _ "sh\<lparr>sh_srv := s', sh_xdg := ?X\<rparr>"])
      (simp add: xdg_signal_def handle_xdg_shell_surface_destroy_def on_shell_def deactivates_gone_def)
qed

lemma commit_ok:
  assumes ok: "shells_ok (sh, M)"
  shows "\<exists>sh'. xdg_signal Ev_commit p (handle_xdg_shell_toplevel_commit env p) sh = Some sh' \<and> shells_ok (sh', M)"
proof (cases "sh_xdg sh p")
  case None
  then show ?thesis using ok by (simp add: xdg_signal_def)
next
  case (Some xv)
  obtain t where t: "xv_toplevel xv = Some t" using shells_okD(3) [OF ok Some] by (auto simp: xview_ok_def)
  show ?thesis
    using Some t
    by (auto simp: xdg_signal_def handle_xdg_shell_toplevel_commit_def Let_def ok split: option.split
        intro!: shells_ok_same [OF ok])
qed

lemma fullscreen_ok:
  assumes ok: "shells_ok (sh, M)"
  shows "\<exists>sh'. xdg_signal Ev_request_fullscreen p (handle_xdg_shell_surface_request_fullscreen env p) sh = Some sh' \<and>
    shells_ok (sh', M)"
proof (cases "\<exists>xv. sh_xdg sh p = Some xv \<and> Ev_request_fullscreen \<in> xv_listeners xv")
  case False
  then show ?thesis using ok by (auto simp: xdg_signal_def split: option.split)
next
  case True
  let ?s = "sh_srv sh"
  have life: "life_ok ?s" by (rule shells_okD(1) [OF ok])
  then have sok: "server_ok ?s" by (simp add: life_ok_def)
  from True obtain xv where xv: "sh_xdg sh p = Some xv" "Ev_request_fullscreen \<in> xv_listeners xv" by blast
  obtain t w A where x: "xv_toplevel xv = Some t" "w \<in> live_ws ?s" "members ?s w = Some A" "p \<in> A" "p \<in> M"
    using shells_okD(3) [OF ok xv(1)] xv(2) by (auto simp: xview_ok_def xdg_listening_def split: if_splits)
  obtain ws where ws: "s_workspaces ?s w = Some ws" "p \<in> set (w_views ws)" using x(3,4) by (auto simp: members_def)
  obtain v where v: "s_views ?s p = Some v" "v_workspace v = Some w"
    using live_wsD [OF sok x(2) ws(1)] ws(2) by (auto simp: view_ok_def)
  obtain out where out: "s_outs ?s (w_output ws) = Some out"
    using live_wsD [OF sok x(2) ws(1)] by blast
  have "\<exists>sh'. handle_xdg_shell_surface_request_fullscreen env p sh = Some sh' \<and> shells_ok (sh', M)"
    using xv(1) x(1) v ws(1) out
    by (auto simp: handle_xdg_shell_surface_request_fullscreen_def Let_def intro!: shells_ok_same [OF ok])
  then show ?thesis using xv by (simp add: xdg_signal_def)
qed

lemma popup_ok:
  assumes ok: "shells_ok (sh, M)"
  shows "\<exists>sh'. xdg_signal Ev_new_popup p (\<lambda>sh. Some (handle_xdg_shell_popup_new env q p sh)) sh = Some sh' \<and>
    shells_ok (sh', M)"
  by (auto simp: xdg_signal_def handle_xdg_shell_popup_new_def create_xdg_popup_def ok split: option.split
      intro!: shells_ok_same [OF ok])

interpretation xdg: action_system xdg_client_step "\<lambda>_. True" shells_ok
proof
  fix st :: "shells \<times> view_ptr set" and a :: "shell_env \<times> xdg_client_event"
  assume "shells_ok st"
  moreover obtain sh M env ev where [simp]: "st = (sh, M)" "a = (env, ev)" by (metis surj_pair)
  ultimately have ok: "shells_ok (sh, M)" by simp
  show "\<exists>st'. xdg_client_step a st = Some st' \<and> shells_ok st'"
  proof (cases ev)
    case (Client_new t c)
    then show ?thesis using new_ok [OF ok, of env t c] by auto
  next
    case (Client_map p)
    then show ?thesis
      using map_ok [OF ok, of p _ env] ok shells_okD(3) [OF ok, of p]
      by (auto simp: xdg_signal_def xview_ok_def xdg_listening_def)
  next
    case (Client_destroy p)
    obtain sh' where u: "xdg_unmap_step p (sh, M) = Some (sh', M - {p})" "shells_ok (sh', M - {p})"
      using unmap_step_ok [OF ok] by blast
    from Client_destroy u(1) destroy_ok [OF u(2), of p] show ?thesis by auto
  next
    case (Client_unmap p)
    then show ?thesis using unmap_step_ok [OF ok, of p] by auto
  next
    case (Client_commit p)
    then show ?thesis using commit_ok [OF ok, of p env] by auto
  next
    case (Client_fullscreen p)
    then show ?thesis using fullscreen_ok [OF ok, of p env] by auto
  next
    case (Client_popup q p)
    then show ?thesis using popup_ok [OF ok, of p env q] by auto
  qed
qed

section \<open>Theorems\<close>


lemma ex_life_ok: "life_ok ex_server"
proof -
  have "homes_ok ex_server" by (auto simp: homes_ok_def ex_defs split: if_splits)
  moreover have "brk_ok ex_server" using ex_live_ws by (auto simp: brk_ok_def ex_server_def split: if_splits)
  ultimately show ?thesis using ex_server_ok ex_focus_ok by (simp add: life_ok_def)
qed

definition ex_xdg :: "bool \<Rightarrow> nat \<Rightarrow> cg_xdg_shell_view" where
  "ex_xdg mapped t = \<lparr>xv_toplevel = Some t, xv_listeners = xdg_listening mapped\<rparr>"

definition ex_shells :: shells where
  "ex_shells = \<lparr>sh_srv = ex_server, sh_xdg = [40 \<mapsto> ex_xdg True 1, 41 \<mapsto> ex_xdg True 2, 42 \<mapsto> ex_xdg True 3],
     sh_xway = Map.empty, sh_popups = Map.empty, sh_popup_brk = 0, sh_decorations = []\<rparr>"

lemma ex_shells_ok: "shells_ok (ex_shells, {40, 41, 42})"
proof (rule shells_okI [of ex_server _ "sh_xdg ex_shells"])
  fix p xv
  assume "sh_xdg ex_shells p = Some xv"
  then have p: "p \<in> {40, 41, 42}" "\<exists>t. xv = ex_xdg True t" by (auto simp: ex_shells_def split: if_splits)
  have m: "members ex_server 20 = Some {40, 41, 42}" by (simp add: members_def ex_server_def ex_ws_def)
  have v: "\<exists>c. vcore ex_server p = Some c \<and> v_type c = CG_XDG_SHELL_VIEW"
    using p(1) by (auto simp: vcore_def view_core_def ex_server_def ex_view_def)
  show "xview_ok ex_server {40, 41, 42} p xv"
    using p v m ex_live unfolding xview_ok_def ex_xdg_def by auto
qed (use ex_life_ok in \<open>auto simp: ex_shells_def\<close>)

definition ex_shell_env :: shell_env where
  "ex_shell_env = \<lparr>sx_alloc = True, sx_tree = True, sx_initial_commit = (\<lambda>_. True), sx_surface = (\<lambda>t. t + 100),
     sx_requested_fullscreen = (\<lambda>_. True), sx_deco_surface = (\<lambda>d. d), sx_deco_initialized = (\<lambda>_. True),
     sx_output_size = (\<lambda>_. (160, 80)), sx_fullscreen = (\<lambda>_. False)\<rparr>"


end
