(* ===== verification/Pointer.thy ===== *)
theory Pointer
  imports Compositor
begin

text \<open>
  Pointer, touch and drag (\<^verbatim>\<open>seat.c\<close>): the constraints by which a client locks or confines the
  pointer, the events of the cursor and of touch points, the requests of clients for the cursor image,
  selections and drags. Coordinates, doubles in the code, are rationals. The regions of pixman with
  \<^verbatim>\<open>wlr_region_confine\<close> are a parameter, as is what the scene and the layout hold at a position.
\<close>

section \<open>State\<close>

record 'r region_lib =
  rl_not_empty :: "'r \<Rightarrow> bool"
  rl_intersect :: "'r \<Rightarrow> 'r \<Rightarrow> 'r"
  rl_clear :: 'r
  rl_confine :: "'r \<Rightarrow> rat \<Rightarrow> rat \<Rightarrow> rat \<Rightarrow> rat \<Rightarrow> (rat \<times> rat) option"

datatype constraint_type = CONSTRAINT_LOCKED | CONSTRAINT_CONFINED

text \<open>
  The constraint of wlroots: \<open>pc_region\<close> is \<^verbatim>\<open>region\<close>, the next two fields are the region and the
  cursor hint of \<^verbatim>\<open>current\<close>, the state the client has committed.
\<close>

record 'r wlr_pointer_constraint =
  pc_surface :: surface
  pc_type :: constraint_type
  pc_region :: 'r
  pc_current_region :: 'r
  pc_hint :: "(rat \<times> rat) option"

datatype constraint_event = Con_set_region | Con_destroy

record cg_pointer_constraint =
  cp_listeners :: "constraint_event set"

text \<open>
  \<open>pt_commit\<close> is the surface whose commits \<^verbatim>\<open>constraint_commit\<close> listens to; \<open>pt_input_region\<close> is
  where a surface accepts input.
\<close>

record 'r pointers =
  pt_comp :: compositor
  pt_active :: "nat option"
  pt_confine :: 'r
  pt_commit :: "surface option"
  pt_wlr :: "nat \<rightharpoonup> 'r wlr_pointer_constraint"
  pt_input_region :: "surface \<Rightarrow> 'r"
  pt_cg :: "nat \<rightharpoonup> cg_pointer_constraint"
  pt_touch_id :: int

text \<open>
  \<open>pe_node_at\<close>: the node at a position with the position relative to it, if there is one;
  \<open>pe_output\<close>: the output there; \<open>pe_move\<close> and \<open>pe_warp\<close>: where the cursor is after
  \<^verbatim>\<open>wlr_cursor_move\<close> and \<^verbatim>\<open>wlr_cursor_warp\<close>; \<open>pe_absolute\<close>: device to layout coordinates;
  \<open>pe_for_surface\<close>: the constraint wlroots has for a surface; the last three: the touch points of
  wlroots and the serial of a touch that begins.
\<close>

record 'r pointer_env =
  pe_alloc :: bool
  pe_node_at :: "rat \<Rightarrow> rat \<Rightarrow> (node_hit \<times> rat \<times> rat) option"
  pe_output :: "rat \<Rightarrow> rat \<Rightarrow> (nat \<times> rat \<times> rat) option"
  pe_move :: "rat \<Rightarrow> rat \<Rightarrow> rat \<Rightarrow> rat \<Rightarrow> rat \<times> rat"
  pe_warp :: "rat \<Rightarrow> rat \<Rightarrow> rat \<Rightarrow> rat \<Rightarrow> rat \<times> rat"
  pe_absolute :: "rat \<Rightarrow> rat \<Rightarrow> rat \<times> rat"
  pe_for_surface :: "(nat \<rightharpoonup> 'r wlr_pointer_constraint) \<Rightarrow> surface \<Rightarrow> nat option"
  pe_touch_point :: "int \<Rightarrow> bool"
  pe_touch_num :: nat
  pe_touch_serial :: nat

definition pt_srv :: "'r pointers \<Rightarrow> cg_server" where
  "pt_srv p = c_srv (pt_comp p)"

definition upd_srv :: "(cg_server \<Rightarrow> cg_server) \<Rightarrow> 'r pointers \<Rightarrow> 'r pointers" where
  "upd_srv f p = p\<lparr>pt_comp := (pt_comp p)\<lparr>c_srv := f (c_srv (pt_comp p))\<rparr>\<rparr>"

definition pointer_emit :: "pointer_call \<Rightarrow> 'r pointers \<Rightarrow> 'r pointers" where
  "pointer_emit call = upd_srv (emit (Pointer_call call))"

definition notify_activity :: "'r pointers \<Rightarrow> 'r pointers" where
  "notify_activity = upd_srv (emit Idle_activity)"

definition cursor_pos :: "cg_server \<Rightarrow> rat \<times> rat" where
  "cursor_pos s = (se_cursor_x (s_seat s), se_cursor_y (s_seat s))"

definition move_cursor :: "rat \<times> rat \<Rightarrow> cg_server \<Rightarrow> cg_server" where
  "move_cursor xy = upd_seat (\<lambda>se. se\<lparr>se_cursor_x := fst xy, se_cursor_y := snd xy\<rparr>)"

text \<open>What the scene and the layout hold under the cursor where it is now.\<close>

definition look :: "'r pointer_env \<Rightarrow> cg_server \<Rightarrow> cg_server" where
  "look env s = s\<lparr>
     s_node_at := (case case_prod (pe_node_at env) (cursor_pos s) of None \<Rightarrow> Hit_none | Some (hit, _) \<Rightarrow> hit),
     s_cursor_at := case_prod (pe_output env) (cursor_pos s)\<rparr>"

definition cursor_motion :: "'r pointer_env \<Rightarrow> u32 \<Rightarrow> 'r pointers \<Rightarrow> 'r pointers option" where
  "cursor_motion env time p = do {
     s \<leftarrow> process_cursor_motion time (look env (pt_srv p));
     Some (upd_srv (\<lambda>_. s) p)
   }"

section \<open>Constraints\<close>

definition check_constraint_region :: "'r region_lib \<Rightarrow> 'r pointers \<Rightarrow> 'r pointers option" where
  "check_constraint_region lib p = do {
     c \<leftarrow> pt_active p;
     con \<leftarrow> pt_wlr p c;
     Some (p\<lparr>pt_confine := (if pc_type con = CONSTRAINT_CONFINED then pc_region con else rl_clear lib)\<rparr>)
   }"

definition constraint_region :: "'r region_lib \<Rightarrow> 'r wlr_pointer_constraint \<Rightarrow> 'r \<Rightarrow> 'r" where
  "constraint_region lib con input =
     (if rl_not_empty lib (pc_current_region con) then rl_intersect lib input (pc_current_region con) else input)"

definition update_region :: "'r region_lib \<Rightarrow> nat \<Rightarrow> 'r pointers \<Rightarrow> 'r pointers option" where
  "update_region lib c p = do {
     con \<leftarrow> pt_wlr p c;
     Some (p\<lparr>pt_wlr := (pt_wlr p)(c \<mapsto>
       con\<lparr>pc_region := constraint_region lib con (pt_input_region p (pc_surface con))\<rparr>)\<rparr>)
   }"

definition handle_constraint_commit :: "'r region_lib \<Rightarrow> 'r pointers \<Rightarrow> 'r pointers option" where
  "handle_constraint_commit lib p = do {
     c \<leftarrow> pt_active p;
     p \<leftarrow> update_region lib c p;
     check_constraint_region lib p
   }"

text \<open>
  The position of the surface is derived from the node under the cursor; when there is none, the
  relative position is not set and the code goes on with indeterminate numbers, a fault.
\<close>

definition warp_to_constraint_cursor_hint :: "'r pointer_env \<Rightarrow> 'r pointers \<Rightarrow> 'r pointers option" where
  "warp_to_constraint_cursor_hint env p = do {
     c \<leftarrow> pt_active p;
     con \<leftarrow> pt_wlr p c;
     case pc_hint con of
       None \<Rightarrow> Some p
     | Some (sx, sy) \<Rightarrow> do {
         let (x, y) = cursor_pos (pt_srv p);
         (_, lx, ly) \<leftarrow> pe_node_at env x y;
         let (cx, cy) = (x - lx + sx, y - ly + sy);
         Some (pointer_emit (Pointer_warp sx sy) (pointer_emit (Cursor_warp_to cx cy)
           (upd_srv (move_cursor (pe_warp env x y cx cy)) p)))
       }
   }"

definition seat_set_constraint ::
    "'r region_lib \<Rightarrow> 'r pointer_env \<Rightarrow> nat option \<Rightarrow> 'r pointers \<Rightarrow> 'r pointers option" where
  "seat_set_constraint lib env co p =
     (if pt_active p = co then Some p
      else do {
        p \<leftarrow> (case pt_active p of
                 None \<Rightarrow> Some p
               | Some old \<Rightarrow> do {
                   p \<leftarrow> (if co = None then warp_to_constraint_cursor_hint env p else Some p);
                   Some (pointer_emit (Constraint_deactivated old) p)
                 });
        let p = p\<lparr>pt_active := co\<rparr>;
        case co of
          None \<Rightarrow> Some (p\<lparr>pt_commit := None\<rparr>)
        | Some c \<Rightarrow> do {
            p \<leftarrow> update_region lib c p;
            p \<leftarrow> check_constraint_region lib p;
            con \<leftarrow> pt_wlr p c;
            Some (pointer_emit (Constraint_activated c) p\<lparr>pt_commit := Some (pc_surface con)\<rparr>)
          }
      })"

definition seat_maybe_set_constraint ::
    "'r region_lib \<Rightarrow> 'r pointer_env \<Rightarrow> surface option \<Rightarrow> 'r pointers \<Rightarrow> 'r pointers option" where
  "seat_maybe_set_constraint lib env so p =
     (case so of
        None \<Rightarrow> seat_set_constraint lib env None p
      | Some surface \<Rightarrow> seat_set_constraint lib env (pe_for_surface env (pt_wlr p) surface) p)"

definition handle_constraint_set_region :: "'r pointers \<Rightarrow> 'r pointers" where
  "handle_constraint_set_region p = p"

definition handle_constraint_destroy :: "'r pointer_env \<Rightarrow> nat \<Rightarrow> 'r pointers \<Rightarrow> 'r pointers option" where
  "handle_constraint_destroy env c p = do {
     cg \<leftarrow> pt_cg p c;
     if cp_listeners cg \<noteq> {Con_set_region, Con_destroy} then None
     else do {
       p \<leftarrow> (if pt_active p = Some c
              then do {
                p \<leftarrow> warp_to_constraint_cursor_hint env p;
                Some (p\<lparr>pt_commit := None, pt_active := None\<rparr>)
              }
              else Some p);
       Some (p\<lparr>pt_cg := (pt_cg p)(c := None)\<rparr>)
     }
   }"

definition handle_new_pointer_constraint ::
    "'r region_lib \<Rightarrow> 'r pointer_env \<Rightarrow> nat \<Rightarrow> 'r pointers \<Rightarrow> 'r pointers option" where
  "handle_new_pointer_constraint lib env c p =
     (if \<not> pe_alloc env then Some p
      else do {
        let p = p\<lparr>pt_cg := (pt_cg p)(c \<mapsto> \<lparr>cp_listeners = {Con_set_region, Con_destroy}\<rparr>)\<rparr>;
        con \<leftarrow> pt_wlr p c;
        case se_keyboard_focus (s_seat (pt_srv p)) of
          None \<Rightarrow> Some p
        | Some surface \<Rightarrow>
            if surface = pc_surface con then seat_set_constraint lib env (Some c) p else Some p
      })"

section \<open>Cursor\<close>

definition handle_cursor_motion_absolute ::
    "'r pointer_env \<Rightarrow> u32 \<Rightarrow> rat \<Rightarrow> rat \<Rightarrow> 'r pointers \<Rightarrow> 'r pointers option" where
  "handle_cursor_motion_absolute env time x y p = do {
     p \<leftarrow> cursor_motion env time (pointer_emit (Cursor_warp_absolute x y) (upd_srv (move_cursor (pe_absolute env x y)) p));
     Some (notify_activity p)
   }"

definition surface_at :: "'r pointer_env \<Rightarrow> rat \<times> rat \<Rightarrow> surface option" where
  "surface_at env xy = (case case_prod (pe_node_at env) xy of Some (Hit_buffer so, _) \<Rightarrow> so | _ \<Rightarrow> None)"

text \<open>
  The part of the displacement the active constraint allows; the inner \<open>None\<close> is the early return
  of \<^verbatim>\<open>handle_cursor_motion\<close>. The outer one is the access to an active constraint that is gone.
\<close>

definition allowed_motion ::
    "'r region_lib \<Rightarrow> 'r pointer_env \<Rightarrow> rat \<Rightarrow> rat \<Rightarrow> 'r pointers \<Rightarrow> (rat \<times> rat) option option" where
  "allowed_motion lib env dx dy p =
     (case pt_active p of
        None \<Rightarrow> Some (Some (dx, dy))
      | Some c \<Rightarrow> do {
          con \<leftarrow> pt_wlr p c;
          let xy = cursor_pos (pt_srv p);
          if surface_at env xy \<noteq> Some (pc_surface con) then Some (Some (dx, dy))
          else case pc_type con of
            CONSTRAINT_LOCKED \<Rightarrow> Some None
          | CONSTRAINT_CONFINED \<Rightarrow> do {
              (_, sx, sy) \<leftarrow> case_prod (pe_node_at env) xy;
              Some (case rl_confine lib (pt_confine p) sx sy (sx + dx) (sy + dy) of
                      None \<Rightarrow> None
                    | Some (x, y) \<Rightarrow> Some (x - sx, y - sy))
            }
        })"

definition handle_cursor_motion ::
    "'r region_lib \<Rightarrow> 'r pointer_env \<Rightarrow> u32 \<Rightarrow> rat \<Rightarrow> rat \<Rightarrow> 'r pointers \<Rightarrow> 'r pointers option" where
  "handle_cursor_motion lib env time dx dy p = do {
     let p = pointer_emit (Relative_motion dx dy) p;
     r \<leftarrow> allowed_motion lib env dx dy p;
     case r of
       None \<Rightarrow> Some p
     | Some (dx, dy) \<Rightarrow> do {
         let (x, y) = cursor_pos (pt_srv p);
         p \<leftarrow> cursor_motion env time (pointer_emit (Cursor_move dx dy) (upd_srv (move_cursor (pe_move env x y dx dy)) p));
         Some (notify_activity p)
       }
   }"

definition handle_cursor_frame :: "'r pointers \<Rightarrow> 'r pointers" where
  "handle_cursor_frame p = notify_activity (pointer_emit Pointer_notify_frame p)"

definition handle_cursor_axis :: "'r pointers \<Rightarrow> 'r pointers" where
  "handle_cursor_axis p = notify_activity (pointer_emit Pointer_notify_axis p)"

definition handle_cursor_button :: "u32 \<Rightarrow> bool \<Rightarrow> 'r pointers \<Rightarrow> 'r pointers" where
  "handle_cursor_button button pressed p = notify_activity (pointer_emit (Pointer_notify_button button pressed) p)"

text \<open>
  Clients are numbered; \<open>client_of\<close> gives the client of a surface, none when its resource is gone. A
  client that asks has a number, so a request without a focused surface is dropped.
\<close>

definition handle_request_set_cursor ::
    "bool \<Rightarrow> (surface \<Rightarrow> nat option) \<Rightarrow> nat \<Rightarrow> surface option \<Rightarrow> int \<Rightarrow> int \<Rightarrow> 'r pointers \<Rightarrow> 'r pointers option" where
  "handle_request_set_cursor renderer client_of client so hx hy p = do {
     let se = s_seat (pt_srv p);
     if \<not> se_enable_cursor se then Some p
     else do {
       cursors \<leftarrow> c_modecursors (pt_comp p);
       if unat (se_mode se) \<ge> length cursors then None
       else if cursors ! unat (se_mode se) \<noteq> None then Some p
       else if Option.bind (se_pointer_focus se) client_of = Some client \<and> renderer
         then Some (pointer_emit (Cursor_set_surface so hx hy) p)
         else Some p
     }
   }"

definition handle_request_set_selection :: "nat \<Rightarrow> 'r pointers \<Rightarrow> 'r pointers" where
  "handle_request_set_selection source p = pointer_emit (Set_selection source) p"

definition handle_request_set_primary_selection :: "nat \<Rightarrow> 'r pointers \<Rightarrow> 'r pointers" where
  "handle_request_set_primary_selection source p = pointer_emit (Set_primary_selection source) p"

section \<open>Touch\<close>

definition touch_at :: "rat \<times> rat \<Rightarrow> 'r pointers \<Rightarrow> 'r pointers" where
  "touch_at xy = upd_srv (upd_seat (\<lambda>se. se\<lparr>se_touch_lx := fst xy, se_touch_ly := snd xy\<rparr>))"

definition handle_touch_down :: "'r pointer_env \<Rightarrow> int \<Rightarrow> rat \<Rightarrow> rat \<Rightarrow> 'r pointers \<Rightarrow> 'r pointers" where
  "handle_touch_down env i x y p =
     (let xy = pe_absolute env x y;
          (serial, p) = (case surface_at env xy of
             None \<Rightarrow> (0, p)
           | Some surface \<Rightarrow> (pe_touch_serial env, pointer_emit (Touch_notify_down surface i) p));
          p = (if serial \<noteq> 0 \<and> pe_touch_num env = 1 then touch_at xy p\<lparr>pt_touch_id := i\<rparr> else p)
      in notify_activity p)"

definition handle_touch_up :: "'r pointer_env \<Rightarrow> int \<Rightarrow> 'r pointers \<Rightarrow> 'r pointers" where
  "handle_touch_up env i p =
     (if \<not> pe_touch_point env i then p else notify_activity (pointer_emit (Touch_notify_up i) p))"

definition handle_touch_motion :: "'r pointer_env \<Rightarrow> int \<Rightarrow> rat \<Rightarrow> rat \<Rightarrow> 'r pointers \<Rightarrow> 'r pointers" where
  "handle_touch_motion env i x y p =
     (if \<not> pe_touch_point env i then p
      else
        let xy = pe_absolute env x y;
            p = (case case_prod (pe_node_at env) xy of
                   Some (Hit_buffer so, _) \<Rightarrow>
                     pointer_emit (Touch_notify_motion i)
                       (case so of None \<Rightarrow> p | Some surface \<Rightarrow> pointer_emit (Touch_point_focus surface i) p)
                 | _ \<Rightarrow> pointer_emit (Touch_clear_focus i) p);
            p = (if i = pt_touch_id p then touch_at xy p else p)
        in notify_activity p)"

section \<open>Drags\<close>

definition handle_request_start_drag :: "bool \<Rightarrow> bool \<Rightarrow> nat \<Rightarrow> 'r pointers \<Rightarrow> 'r pointers" where
  "handle_request_start_drag pointer_serial touch_serial drag p =
     (if pointer_serial then pointer_emit (Start_pointer_drag drag) p
      else if touch_serial then pointer_emit (Start_touch_drag drag) p
      else pointer_emit (Data_source_destroy drag) p)"

definition handle_start_drag :: "bool \<Rightarrow> bool \<Rightarrow> cg_drag_icon option \<Rightarrow> 'r pointers \<Rightarrow> 'r pointers" where
  "handle_start_drag alloc tree icon p =
     (case icon of
        None \<Rightarrow> p
      | Some di \<Rightarrow>
          if \<not> alloc \<or> \<not> tree then p
          else
            let (di, cs) = drag_icon_update_position 0 (s_seat (pt_srv p)) (di\<lparr>di_lx := 0, di_ly := 0\<rparr>)
            in upd_srv (\<lambda>s. (upd_seat (\<lambda>se. se\<lparr>se_drag_icons := di # se_drag_icons se\<rparr>) s)
                 \<lparr>s_calls := s_calls s @ cs\<rparr>) p)"

definition handle_drag_icon_destroy :: "nat \<Rightarrow> 'r pointers \<Rightarrow> 'r pointers option" where
  "handle_drag_icon_destroy i p =
     (if i \<ge> length (se_drag_icons (s_seat (pt_srv p))) then None
      else Some (pointer_emit (Drag_scene_destroy i)
        (upd_srv (upd_seat (\<lambda>se. se\<lparr>se_drag_icons :=
           take i (se_drag_icons se) @ drop (Suc i) (se_drag_icons se)\<rparr>)) p)))"

end
