(* ===== verification/Pointer_Props.thy ===== *)
theory Pointer_Props
  imports Pointer Switching_Inv Key_Props
begin

text \<open>
  Pointer constraints: one is active at most, its commits are followed, the region the pointer is
  confined to is the one the client has committed, and motion respects it.
\<close>

section \<open>The invariant\<close>

definition follows :: "'r region_lib \<Rightarrow> 'r pointers \<Rightarrow> 'r wlr_pointer_constraint \<Rightarrow> bool" where
  "follows lib p con \<longleftrightarrow> pt_commit p = Some (pc_surface con) \<and>
     pc_region con = constraint_region lib con (pt_input_region p (pc_surface con)) \<and>
     pt_confine p = (if pc_type con = CONSTRAINT_CONFINED then pc_region con else rl_clear lib)"

definition active_ok :: "'r region_lib \<Rightarrow> 'r pointers \<Rightarrow> bool" where
  "active_ok lib p \<longleftrightarrow> (case pt_active p of
     None \<Rightarrow> pt_commit p = None
   | Some c \<Rightarrow> pt_wlr p c \<noteq> None \<and> follows lib p (the (pt_wlr p c)))"

definition constraints_ok :: "'r region_lib \<Rightarrow> 'r pointers \<Rightarrow> bool" where
  "constraints_ok lib p \<longleftrightarrow> active_ok lib p \<and> dom (pt_cg p) = dom (pt_wlr p) \<and>
     (\<forall>cg \<in> ran (pt_cg p). cp_listeners cg = {Con_set_region, Con_destroy})"

definition wlr_outputs :: "cg_server \<Rightarrow> nat set" where
  "wlr_outputs s = {c. \<exists>q \<in> set (s_outputs s). out_wlr (s_outs s) q = Some c}"

definition pointers_ok :: "'r region_lib \<Rightarrow> nat set \<Rightarrow> 'r pointers \<Rightarrow> bool" where
  "pointers_ok lib O' p \<longleftrightarrow> server_ok (pt_srv p) \<and> O' \<subseteq> wlr_outputs (pt_srv p) \<and> constraints_ok lib p"

lemma upd_srv_fields [simp]:
  "pt_srv (upd_srv f p) = f (pt_srv p)" "pt_active (upd_srv f p) = pt_active p" "pt_confine (upd_srv f p) = pt_confine p"
  "pt_commit (upd_srv f p) = pt_commit p" "pt_wlr (upd_srv f p) = pt_wlr p"
  "pt_input_region (upd_srv f p) = pt_input_region p" "pt_cg (upd_srv f p) = pt_cg p"
  by (simp_all add: upd_srv_def pt_srv_def)

lemma pt_srv_upd [simp]:
  "pt_srv (p\<lparr>pt_active := a\<rparr>) = pt_srv p" "pt_srv (p\<lparr>pt_confine := r\<rparr>) = pt_srv p"
  "pt_srv (p\<lparr>pt_commit := so\<rparr>) = pt_srv p" "pt_srv (p\<lparr>pt_wlr := W\<rparr>) = pt_srv p"
  "pt_srv (p\<lparr>pt_input_region := I\<rparr>) = pt_srv p" "pt_srv (p\<lparr>pt_cg := C\<rparr>) = pt_srv p"
  by (simp_all add: pt_srv_def)

lemma constraints_upd_srv [simp]:
  "active_ok lib (upd_srv f p) = active_ok lib p" "constraints_ok lib (upd_srv f p) = constraints_ok lib p"
  by (simp_all add: active_ok_def constraints_ok_def follows_def split: option.split)

lemma constraint_region_cong [simp]:
  "constraint_region lib (con\<lparr>pc_region := r\<rparr>) input = constraint_region lib con input"
  by (simp add: constraint_region_def)

lemma pointers_ok_upd_srv:
  assumes "pointers_ok lib O' p" and "server_ok (f (pt_srv p))" and "wlr_outputs (f (pt_srv p)) = wlr_outputs (pt_srv p)"
  shows "pointers_ok lib O' (upd_srv f p)"
  using assms by (simp add: pointers_ok_def)

lemma wlr_outputs_simps [simp]:
  "wlr_outputs (emit c s) = wlr_outputs s" "wlr_outputs (upd_seat f s) = wlr_outputs s"
  "wlr_outputs (move_cursor xy s) = wlr_outputs s" "wlr_outputs (look env s) = wlr_outputs s"
  by (simp_all add: wlr_outputs_def move_cursor_def look_def)

lemma server_ok_move: "server_ok s \<Longrightarrow> server_ok (move_cursor xy s)"
  unfolding move_cursor_def by (rule server_ok_upd_seat) simp_all

lemma pointers_ok_emit [simp]:
  "pointers_ok lib O' p \<Longrightarrow> pointers_ok lib O' (pointer_emit call p)"
  "pointers_ok lib O' p \<Longrightarrow> pointers_ok lib O' (notify_activity p)"
  by (simp_all add: pointer_emit_def notify_activity_def pointers_ok_def)

lemma pointer_emit_fields [simp]:
  "pt_srv (pointer_emit call p) = emit (Pointer_call call) (pt_srv p)" "pt_active (pointer_emit call p) = pt_active p"
  "pt_confine (pointer_emit call p) = pt_confine p" "pt_commit (pointer_emit call p) = pt_commit p"
  "pt_wlr (pointer_emit call p) = pt_wlr p" "pt_input_region (pointer_emit call p) = pt_input_region p"
  "pt_cg (pointer_emit call p) = pt_cg p"
  by (simp_all add: pointer_emit_def)

lemma pointers_ok_move: "pointers_ok lib O' p \<Longrightarrow> pointers_ok lib O' (upd_srv (move_cursor xy) p)"
  by (rule pointers_ok_upd_srv) (simp_all add: pointers_ok_def server_ok_move)

section \<open>Constraints\<close>

text \<open>What wlroots promises: a node under the cursor, outputs of the layout, constraints for their surface.\<close>

definition pointer_env_ok :: "nat set \<Rightarrow> 'r pointer_env \<Rightarrow> bool" where
  "pointer_env_ok O' env \<longleftrightarrow> pe_alloc env \<and> (\<forall>x y. pe_node_at env x y \<noteq> None) \<and>
     (\<forall>x y c a b. pe_output env x y = Some (c, a, b) \<longrightarrow> c \<in> O') \<and>
     (\<forall>C sf c. pe_for_surface env C sf = Some c \<longrightarrow> (\<exists>con. C c = Some con \<and> pc_surface con = sf))"

lemma node_under:
  assumes "pointer_env_ok O' env"
  obtains hit lx ly where "pe_node_at env x y = Some (hit, lx, ly)"
proof -
  have "pe_node_at env x y \<noteq> None" using assms by (simp add: pointer_env_ok_def)
  then obtain n where n: "pe_node_at env x y = Some n" by blast
  obtain hit lx ly where "n = (hit, lx, ly)" by (cases n)
  with n show thesis by (intro that) simp
qed

lemma warp_ok:
  assumes ok: "pointers_ok lib O' p" and env: "pointer_env_ok O' env" and a: "pt_active p = Some c" "pt_wlr p c = Some con"
  obtains f where "warp_to_constraint_cursor_hint env p = Some (upd_srv f p)"
    and "server_ok (f (pt_srv p))" and "wlr_outputs (f (pt_srv p)) = wlr_outputs (pt_srv p)"
proof (cases "pc_hint con")
  case None
  then show thesis using that [of "\<lambda>s. s"] a ok
    by (simp add: warp_to_constraint_cursor_hint_def upd_srv_def pointers_ok_def)
next
  case (Some h)
  obtain sx sy where h: "h = (sx, sy)" by (cases h)
  obtain x y where xy: "cursor_pos (pt_srv p) = (x, y)" by (cases "cursor_pos (pt_srv p)")
  obtain hit lx ly where n: "pe_node_at env x y = Some (hit, lx, ly)" using node_under [OF env] .
  let ?f = "\<lambda>s. emit (Pointer_call (Pointer_warp sx sy)) (emit (Pointer_call (Cursor_warp_to (x - lx + sx) (y - ly + sy)))
     (move_cursor (pe_warp env x y (x - lx + sx) (y - ly + sy)) s))"
  have "warp_to_constraint_cursor_hint env p = Some (upd_srv ?f p)"
    using a Some h xy n by (simp add: warp_to_constraint_cursor_hint_def pointer_emit_def upd_srv_def)
  then show thesis by (rule that) (use ok in \<open>simp_all add: pointers_ok_def server_ok_move\<close>)
qed

lemma active_constraint:
  assumes "pointers_ok lib O' p" and "pt_active p = Some c"
  obtains con where "pt_wlr p c = Some con"
  using assms that by (auto simp: pointers_ok_def constraints_ok_def active_ok_def)

lemma activate_ok:
  assumes ok: "pointers_ok lib O' p" and con: "pt_wlr p c = Some con"
  shows "\<exists>p'. (do {
      p \<leftarrow> update_region lib c (p\<lparr>pt_active := Some c\<rparr>);
      p \<leftarrow> check_constraint_region lib p;
      con \<leftarrow> pt_wlr p c;
      Some (pointer_emit (Constraint_activated c) p\<lparr>pt_commit := Some (pc_surface con)\<rparr>) }) = Some p' \<and>
    pointers_ok lib O' p' \<and> pt_active p' = Some c"
proof -
  have "dom ((pt_wlr p)(c \<mapsto> x)) = dom (pt_wlr p)" for x using con by auto
  then show ?thesis using ok con
    by (auto simp: update_region_def check_constraint_region_def pointers_ok_def constraints_ok_def active_ok_def
        pointer_emit_def follows_def split: option.splits)
qed

lemma set_constraint_ok:
  assumes ok: "pointers_ok lib O' p" and env: "pointer_env_ok O' env" and c: "\<And>c. co = Some c \<Longrightarrow> pt_wlr p c \<noteq> None"
  shows "\<exists>p'. seat_set_constraint lib env co p = Some p' \<and> pointers_ok lib O' p' \<and> pt_active p' = co"
proof (cases "pt_active p = co")
  case True
  then show ?thesis using ok by (simp add: seat_set_constraint_def)
next
  case False
  have "\<exists>f. (case pt_active p of None \<Rightarrow> Some p
       | Some old \<Rightarrow> do {
           p \<leftarrow> (if co = None then warp_to_constraint_cursor_hint env p else Some p);
           Some (pointer_emit (Constraint_deactivated old) p) }) = Some (upd_srv f p) \<and> pointers_ok lib O' (upd_srv f p)"
  proof (cases "pt_active p")
    case None
    have "upd_srv (\<lambda>s. s) p = p" by (simp add: upd_srv_def)
    then show ?thesis using None ok by (intro exI [of _ "\<lambda>s. s"]) simp
  next
    case (Some old)
    have *: "pointer_emit (Constraint_deactivated old) (upd_srv f p) =
        upd_srv (\<lambda>s. emit (Pointer_call (Constraint_deactivated old)) (f s)) p" for f
      by (simp add: pointer_emit_def upd_srv_def)
    obtain con where con: "pt_wlr p old = Some con" using active_constraint [OF ok Some] .
    obtain f where f: "(if co = None then warp_to_constraint_cursor_hint env p else Some p) = Some (upd_srv f p)"
      "server_ok (f (pt_srv p))" "wlr_outputs (f (pt_srv p)) = wlr_outputs (pt_srv p)"
    proof (cases "co = None")
      case True
      then show thesis using warp_ok [OF ok env Some con] that by auto
    next
      case False
      have "upd_srv (\<lambda>s. s) p = p" by (simp add: upd_srv_def)
      moreover obtain d where "co = Some d" using False by blast
      ultimately show thesis by (intro that [of "\<lambda>s. s"]) (use ok in \<open>simp_all add: pointers_ok_def\<close>)
    qed
    have "pointers_ok lib O' (upd_srv (\<lambda>s. emit (Pointer_call (Constraint_deactivated old)) (f s)) p)"
      using ok f by (intro pointers_ok_upd_srv) simp_all
    then show ?thesis using Some f(1) by (auto simp: *)
  qed
  then obtain f where f: "(case pt_active p of None \<Rightarrow> Some p
       | Some old \<Rightarrow> do {
           p \<leftarrow> (if co = None then warp_to_constraint_cursor_hint env p else Some p);
           Some (pointer_emit (Constraint_deactivated old) p) }) = Some (upd_srv f p)" "pointers_ok lib O' (upd_srv f p)"
    by blast
  let ?p = "upd_srv f p"
  have eq: "seat_set_constraint lib env co p = (case co of
       None \<Rightarrow> Some (?p\<lparr>pt_active := co, pt_commit := None\<rparr>)
     | Some c \<Rightarrow> do {
         p \<leftarrow> update_region lib c (?p\<lparr>pt_active := co\<rparr>);
         p \<leftarrow> check_constraint_region lib p;
         con \<leftarrow> pt_wlr p c;
         Some (pointer_emit (Constraint_activated c) p\<lparr>pt_commit := Some (pc_surface con)\<rparr>) })"
    using False by (simp only: seat_set_constraint_def if_False f(1) Option.bind.simps Let_def)
  show ?thesis
  proof (cases co)
    case None
    have "pointers_ok lib O' (?p\<lparr>pt_active := None, pt_commit := None\<rparr>)"
      using f(2) by (simp add: pointers_ok_def constraints_ok_def active_ok_def)
    then show ?thesis using eq None by simp
  next
    case (Some d)
    then obtain con where "pt_wlr ?p d = Some con" using c by fastforce
    from activate_ok [OF f(2) this] show ?thesis using eq Some by simp
  qed
qed

section \<open>Events\<close>

text \<open>
  Clients create constraints, commit their surfaces with a new input region and, for the constraints
  of the surface, a region and a hint, and destroy constraints; the keyboard focus moves between
  surfaces; the pointer moves.
\<close>

datatype 'r pointer_event =
    New_constraint nat surface constraint_type 'r
  | Commit_surface surface 'r "nat \<Rightarrow> 'r \<times> (rat \<times> rat) option"
  | Constraint_gone nat
  | Focus_surface "surface option"
  | Motion u32 rat rat
  | Motion_absolute u32 rat rat

definition commit_state ::
    "surface \<Rightarrow> (nat \<Rightarrow> 'r \<times> (rat \<times> rat) option) \<Rightarrow> nat \<Rightarrow> 'r wlr_pointer_constraint \<Rightarrow> 'r wlr_pointer_constraint" where
  "commit_state sf new c con =
     (if pc_surface con = sf then con\<lparr>pc_current_region := fst (new c), pc_hint := snd (new c)\<rparr> else con)"

fun pointer_step ::
    "'r region_lib \<Rightarrow> 'r pointer_env \<times> 'r pointer_event \<Rightarrow> 'r pointers \<Rightarrow> 'r pointers option" where
  "pointer_step lib (env, New_constraint c sf ty r) p =
     (if pt_wlr p c \<noteq> None then Some p
      else handle_new_pointer_constraint lib env c (p\<lparr>pt_wlr := (pt_wlr p)(c \<mapsto>
        \<lparr>pc_surface = sf, pc_type = ty, pc_region = r, pc_current_region = r, pc_hint = None\<rparr>)\<rparr>))"
| "pointer_step lib (env, Commit_surface sf input new) p =
     (let p' = p\<lparr>pt_wlr := (\<lambda>c. map_option (commit_state sf new c) (pt_wlr p c)),
                 pt_input_region := (pt_input_region p)(sf := input)\<rparr>
      in if pt_commit p = Some sf then handle_constraint_commit lib p' else Some p')"
| "pointer_step lib (env, Constraint_gone c) p =
     (if pt_wlr p c = None then Some p
      else map_option (\<lambda>p. p\<lparr>pt_wlr := (pt_wlr p)(c := None)\<rparr>)
        (if pt_cg p c = None then Some p else handle_constraint_destroy env c p))"
| "pointer_step lib (env, Focus_surface so) p =
     seat_maybe_set_constraint lib env so (upd_srv (upd_seat (\<lambda>se. se\<lparr>se_keyboard_focus := so\<rparr>)) p)"
| "pointer_step lib (env, Motion time dx dy) p = handle_cursor_motion lib env time dx dy p"
| "pointer_step lib (env, Motion_absolute time x y) p = handle_cursor_motion_absolute env time x y p"

lemma new_constraint_ok:
  assumes ok: "pointers_ok lib O' p" and env: "pointer_env_ok O' env"
  shows "\<exists>p'. pointer_step lib (env, New_constraint c sf ty r) p = Some p' \<and> pointers_ok lib O' p'"
proof (cases "pt_wlr p c")
  case (Some con)
  then show ?thesis using ok by simp
next
  case None
  let ?con = "\<lparr>pc_surface = sf, pc_type = ty, pc_region = r, pc_current_region = r, pc_hint = None\<rparr>"
  let ?p = "p\<lparr>pt_wlr := (pt_wlr p)(c \<mapsto> ?con), pt_cg := (pt_cg p)(c \<mapsto> \<lparr>cp_listeners = {Con_set_region, Con_destroy}\<rparr>)\<rparr>"
  have "active_ok lib ?p" using ok None
    by (auto simp: active_ok_def follows_def pointers_ok_def constraints_ok_def split: option.splits)
  then have ok': "pointers_ok lib O' ?p"
    using ok by (auto simp: pointers_ok_def constraints_ok_def ran_def)
  have "\<exists>p'. seat_set_constraint lib env (Some c) ?p = Some p' \<and> pointers_ok lib O' p'"
    using set_constraint_ok [OF ok' env, of "Some c"] by auto
  then show ?thesis
    using None ok' env by (auto simp: handle_new_pointer_constraint_def pointer_env_ok_def Let_def split: option.split)
qed

lemma commit_surface_ok:
  assumes ok: "pointers_ok lib O' p"
  shows "\<exists>p'. pointer_step lib (env, Commit_surface sf input new) p = Some p' \<and> pointers_ok lib O' p'"
proof -
  let ?W = "\<lambda>c. map_option (commit_state sf new c) (pt_wlr p c)"
  let ?p = "p\<lparr>pt_wlr := ?W, pt_input_region := (pt_input_region p)(sf := input)\<rparr>"
  have dom: "dom ?W = dom (pt_wlr p)" by auto
  have C: "dom (pt_cg p) = dom (pt_wlr p)" "\<forall>cg \<in> ran (pt_cg p). cp_listeners cg = {Con_set_region, Con_destroy}"
    "server_ok (pt_srv p)" "O' \<subseteq> wlr_outputs (pt_srv p)" "active_ok lib p"
    using ok by (simp_all add: pointers_ok_def constraints_ok_def)
  show ?thesis
  proof (cases "pt_commit p = Some sf")
    case False
    have "active_ok lib ?p" using C(5) False
      by (auto simp: active_ok_def follows_def commit_state_def split: option.splits)
    then show ?thesis using False C dom by (simp add: pointers_ok_def constraints_ok_def)
  next
    case True
    then obtain c con where a: "pt_active p = Some c" "pt_wlr p c = Some con" "pc_surface con = sf"
      using C(5) by (auto simp: active_ok_def follows_def split: option.splits)
    let ?con = "commit_state sf new c con"
    let ?con' = "?con\<lparr>pc_region := constraint_region lib ?con input\<rparr>"
    let ?q = "?p\<lparr>pt_wlr := ?W(c \<mapsto> ?con'), pt_confine := (if pc_type ?con' = CONSTRAINT_CONFINED then pc_region ?con' else rl_clear lib)\<rparr>"
    have s: "pc_surface ?con = sf" using a(3) by (simp add: commit_state_def)
    have "handle_constraint_commit lib ?p = Some ?q"
      using a s by (simp add: handle_constraint_commit_def update_region_def check_constraint_region_def)
    moreover have "dom (?W(c \<mapsto> ?con')) = dom (pt_wlr p)" using a(2) by auto
    then have "pointers_ok lib O' ?q"
      using C a(1) s True by (simp add: pointers_ok_def constraints_ok_def active_ok_def follows_def)
    ultimately show ?thesis using True by (simp add: Let_def)
  qed
qed

lemma gone_ok:
  assumes ok: "pointers_ok lib O' p" and env: "pointer_env_ok O' env"
  shows "\<exists>p'. pointer_step lib (env, Constraint_gone c) p = Some p' \<and> pointers_ok lib O' p'"
proof (cases "pt_wlr p c")
  case None
  then show ?thesis using ok by simp
next
  case (Some con)
  have C: "dom (pt_cg p) = dom (pt_wlr p)" "\<forall>cg \<in> ran (pt_cg p). cp_listeners cg = {Con_set_region, Con_destroy}"
    "server_ok (pt_srv p)" "O' \<subseteq> wlr_outputs (pt_srv p)" "active_ok lib p"
    using ok by (simp_all add: pointers_ok_def constraints_ok_def)
  have "c \<in> dom (pt_cg p)" using Some C(1) by auto
  then obtain cg where cg: "pt_cg p c = Some cg" by auto
  then have l: "cp_listeners cg = {Con_set_region, Con_destroy}" using C(2) by (auto simp: ran_def)
  have r: "ran ((pt_cg p)(c := None)) \<subseteq> ran (pt_cg p)" by (auto simp: ran_def)
  show ?thesis
  proof (cases "pt_active p = Some c")
    case True
    obtain f where f: "warp_to_constraint_cursor_hint env p = Some (upd_srv f p)" "server_ok (f (pt_srv p))"
      "wlr_outputs (f (pt_srv p)) = wlr_outputs (pt_srv p)" using warp_ok [OF ok env True Some] .
    show ?thesis using Some cg l True f C r
      by (auto simp: handle_constraint_destroy_def pointers_ok_def constraints_ok_def active_ok_def)
  next
    case False
    have "active_ok lib (p\<lparr>pt_cg := X, pt_wlr := (pt_wlr p)(c := None)\<rparr>)" for X
      using C(5) False by (auto simp: active_ok_def follows_def split: option.splits)
    then show ?thesis using Some cg l False C r
      by (auto simp: handle_constraint_destroy_def pointers_ok_def constraints_ok_def)
  qed
qed

lemma focus_surface_ok:
  assumes ok: "pointers_ok lib O' p" and env: "pointer_env_ok O' env"
  shows "\<exists>p'. pointer_step lib (env, Focus_surface so) p = Some p' \<and> pointers_ok lib O' p'"
proof -
  let ?p = "upd_srv (upd_seat (\<lambda>se. se\<lparr>se_keyboard_focus := so\<rparr>)) p"
  have ok': "pointers_ok lib O' ?p"
    by (rule pointers_ok_upd_srv [OF ok]) (use ok in \<open>auto simp: pointers_ok_def intro: server_ok_upd_seat\<close>)
  have "pt_wlr ?p c \<noteq> None" if "pe_for_surface env (pt_wlr ?p) sf = Some c" for sf c
    using that env unfolding pointer_env_ok_def by (metis option.distinct(1))
  then show ?thesis
    using set_constraint_ok [OF ok' env, of None] set_constraint_ok [OF ok' env, of "pe_for_surface env (pt_wlr ?p) (the so)"]
    by (auto simp: seat_maybe_set_constraint_def split: option.split)
qed

section \<open>Motion\<close>

lemma look_ok:
  assumes "server_ok s" and "O' \<subseteq> wlr_outputs s" and "pointer_env_ok O' env"
  shows "server_ok (look env s)"
proof -
  have "\<exists>q \<in> set (s_outputs s). out_wlr (s_outs s) q = Some c" if "case_prod (pe_output env) (cursor_pos s) = Some (c, x, y)" for c x y
    using that assms(2,3) by (fastforce simp: wlr_outputs_def pointer_env_ok_def case_prod_beta)
  then show ?thesis using assms(1) by (simp add: look_def server_ok_def out_ok_def live_ws_def seat_ok_def tiles_below_brk_def)
qed

lemma upd_seat_pos [simp]: "cursor_pos (upd_seat f s) = (se_cursor_x (f (s_seat s)), se_cursor_y (f (s_seat s)))"
  by (simp add: cursor_pos_def)

lemma cursor_pos_emit [simp]: "cursor_pos (emit c s) = cursor_pos s" "cursor_pos (s\<lparr>s_calls := cs\<rparr>) = cursor_pos s"
  by (simp_all add: cursor_pos_def)

lemma process_cursor_motion_pos:
  assumes "process_cursor_motion time s = Some s'"
  shows "cursor_pos s' = cursor_pos s"
proof -
  have n: "cursor_pos (pointer_notify time s) = cursor_pos s" for s
    by (auto simp: pointer_notify_def Let_def cursor_pos_def split: node_hit.split option.split)
  have e: "cursor_pos s' = cursor_pos s" if "cursor_switch_event old q new s = Some s'" for old q new s s'
    using that by (auto simp: cursor_switch_event_def bind_eq_Some ipc_send_event_def)
  have c: "cursor_pos s' = cursor_pos s" if "cursor_switch_tile c ox oy s = Some s'" for c ox oy s s'
    using that e by (fastforce simp: cursor_switch_tile_def bind_eq_Some cursor_pos_def Let_def split: option.splits if_splits)
  obtain dis cs where d: "drag_icons_update 0 (s_seat (pointer_notify time s))
      (se_drag_icons (s_seat (pointer_notify time s))) = (dis, cs)" by fastforce
  let ?s1 = "upd_seat (\<lambda>se. se\<lparr>se_drag_icons := dis\<rparr>) (pointer_notify time s)"
  let ?s2 = "emit Idle_activity (?s1\<lparr>s_calls := s_calls ?s1 @ cs\<rparr>)"
  have p2: "cursor_pos ?s2 = cursor_pos s" using n [of s] by (simp add: cursor_pos_def)
  have "process_cursor_motion time s =
      (case s_cursor_at ?s2 of None \<Rightarrow> Some ?s2 | Some (c, ox, oy) \<Rightarrow> cursor_switch_tile c ox oy ?s2)"
    by (simp add: process_cursor_motion_def Let_def d)
  with assms p2 c show ?thesis by (auto split: option.splits)
qed

lemma cursor_motion_ok:
  assumes ok: "pointers_ok lib O' p" and env: "pointer_env_ok O' env"
  shows "\<exists>p'. cursor_motion env time p = Some p' \<and> pointers_ok lib O' p' \<and> cursor_pos (pt_srv p') = cursor_pos (pt_srv p)"
proof -
  have s: "server_ok (look env (pt_srv p))" using ok env by (auto simp: pointers_ok_def intro: look_ok)
  obtain s' where s': "process_cursor_motion time (look env (pt_srv p)) = Some s'" "server_ok s'"
    "same_focus (look env (pt_srv p)) s'" using process_cursor_motion_ok [OF s] .
  have "same_rest (look env (pt_srv p)) s'" using s'(3) by (simp add: same_focus_def)
  then have "wlr_outputs s' = wlr_outputs (pt_srv p)"
    using outs_sim_parts(3) by (auto simp: wlr_outputs_def same_rest_def look_def)
  moreover have "cursor_pos s' = cursor_pos (pt_srv p)"
    using process_cursor_motion_pos [OF s'(1)] by (simp add: look_def cursor_pos_def)
  moreover have "cursor_motion env time p = Some (upd_srv (\<lambda>_. s') p)" using s'(1) by (simp add: cursor_motion_def)
  ultimately show ?thesis using ok s'(2) by (auto intro!: pointers_ok_upd_srv)
qed

lemma moved_ok:
  assumes ok: "pointers_ok lib O' p" and env: "pointer_env_ok O' env"
  obtains p' where "cursor_motion env time (pointer_emit call (upd_srv (move_cursor xy) p)) = Some p'"
    and "pointers_ok lib O' p'" and "cursor_pos (pt_srv p') = xy"
proof -
  let ?p = "pointer_emit call (upd_srv (move_cursor xy) p)"
  have "pointers_ok lib O' ?p" by (intro pointers_ok_emit pointers_ok_move ok)
  from cursor_motion_ok [OF this env] obtain p' where "cursor_motion env time ?p = Some p'"
    "pointers_ok lib O' p'" "cursor_pos (pt_srv p') = cursor_pos (pt_srv ?p)" by blast
  then show thesis by (intro that) (simp_all add: move_cursor_def)
qed

lemma allowed_ok:
  assumes ok: "pointers_ok lib O' p" and env: "pointer_env_ok O' env"
  shows "\<exists>r. allowed_motion lib env dx dy p = Some r"
proof (cases "pt_active p")
  case None
  then show ?thesis by (simp add: allowed_motion_def)
next
  case (Some c)
  obtain con where con: "pt_wlr p c = Some con" using active_constraint [OF ok Some] .
  obtain x y where xy: "cursor_pos (pt_srv p) = (x, y)" by fastforce
  obtain hit lx ly where n: "pe_node_at env x y = Some (hit, lx, ly)" using node_under [OF env] .
  show ?thesis using Some con xy n
    by (cases "surface_at env (x, y) = Some (pc_surface con)"; cases "pc_type con")
      (simp_all add: allowed_motion_def)
qed

lemma motion_ok:
  assumes ok: "pointers_ok lib O' p" and env: "pointer_env_ok O' env"
  shows "\<exists>p'. handle_cursor_motion lib env time dx dy p = Some p' \<and> pointers_ok lib O' p'"
proof -
  let ?p = "pointer_emit (Relative_motion dx dy) p"
  have okp: "pointers_ok lib O' ?p" using ok by simp
  obtain r where r: "allowed_motion lib env dx dy ?p = Some r" using allowed_ok [OF okp env] by blast
  show ?thesis
  proof (cases r)
    case None
    then show ?thesis using r okp by (simp add: handle_cursor_motion_def Let_def)
  next
    case (Some d)
    obtain x y where xy: "cursor_pos (pt_srv p) = (x, y)" by fastforce
    obtain a b where "d = (a, b)" by (cases d)
    moreover obtain p' where "cursor_motion env time (pointer_emit (Cursor_move a b)
        (upd_srv (move_cursor (pe_move env x y a b)) ?p)) = Some p'" "pointers_ok lib O' p'"
      using moved_ok [OF okp env] .
    ultimately show ?thesis using Some r xy by (simp add: handle_cursor_motion_def)
  qed
qed

lemma motion_absolute_ok:
  assumes ok: "pointers_ok lib O' p" and env: "pointer_env_ok O' env"
  shows "\<exists>p'. handle_cursor_motion_absolute env time x y p = Some p' \<and> pointers_ok lib O' p'"
proof -
  obtain p' where "cursor_motion env time (pointer_emit (Cursor_warp_absolute x y)
      (upd_srv (move_cursor (pe_absolute env x y)) p)) = Some p'" "pointers_ok lib O' p'"
    using moved_ok [OF ok env] .
  then show ?thesis by (simp add: handle_cursor_motion_absolute_def)
qed

interpretation ptr: action_system "pointer_step lib" "\<lambda>a. pointer_env_ok O' (fst a)" "pointers_ok lib O'" for lib O'
proof
  fix p :: "'a pointers" and a :: "'a pointer_env \<times> 'a pointer_event"
  assume ok: "pointers_ok lib O' p" and v: "pointer_env_ok O' (fst a)"
  obtain env ev where a: "a = (env, ev)" by (cases a)
  show "\<exists>p'. pointer_step lib a p = Some p' \<and> pointers_ok lib O' p'"
  proof (cases ev)
    case (New_constraint c sf ty r)
    then show ?thesis using a v new_constraint_ok [OF ok, of env c sf ty r] by simp
  next
    case (Commit_surface sf input new)
    then show ?thesis using a commit_surface_ok [OF ok, of env sf input new] by (simp only:)
  next
    case (Constraint_gone c)
    then show ?thesis using a v gone_ok [OF ok, of env c] by (simp only: fst_conv)
  next
    case (Focus_surface so)
    then show ?thesis using a v focus_surface_ok [OF ok, of env so] by (simp only: fst_conv)
  next
    case (Motion time dx dy)
    then show ?thesis using a v motion_ok [OF ok, of env time dx dy] by simp
  next
    case (Motion_absolute time x y)
    then show ?thesis using a v motion_absolute_ok [OF ok, of env time x y] by simp
  qed
qed

section \<open>Theorems\<close>

text \<open>
  \<open>inside\<close> tells which points a region holds: a point that \<^verbatim>\<open>wlr_region_confine\<close> gives is in the
  region, and the intersection of regions is that of their points.
\<close>

definition region_laws :: "'r region_lib \<Rightarrow> ('r \<Rightarrow> rat \<Rightarrow> rat \<Rightarrow> bool) \<Rightarrow> bool" where
  "region_laws lib inside \<longleftrightarrow>
     (\<forall>r a b c d x y. rl_confine lib r a b c d = Some (x, y) \<longrightarrow> inside r x y) \<and>
     (\<forall>r q x y. inside (rl_intersect lib r q) x y \<longleftrightarrow> inside r x y \<and> inside q x y)"

definition confined_to :: "'r region_lib \<Rightarrow> ('r \<Rightarrow> rat \<Rightarrow> rat \<Rightarrow> bool) \<Rightarrow> 'r pointers \<Rightarrow> 'r wlr_pointer_constraint \<Rightarrow> rat \<Rightarrow> rat \<Rightarrow> bool" where
  "confined_to lib inside p con x y \<longleftrightarrow> inside (pt_input_region p (pc_surface con)) x y \<and>
     (rl_not_empty lib (pc_current_region con) \<longrightarrow> inside (pc_current_region con) x y)"

lemma confine_inside:
  assumes ok: "pointers_ok lib O' p" and laws: "region_laws lib inside"
    and a: "pt_active p = Some c" "pt_wlr p c = Some con" "pc_type con = CONSTRAINT_CONFINED"
    and r: "rl_confine lib (pt_confine p) sx sy ex ey = Some (x, y)"
  shows "confined_to lib inside p con x y"
proof -
  have "pt_confine p = constraint_region lib con (pt_input_region p (pc_surface con))"
    using ok a by (simp add: pointers_ok_def constraints_ok_def active_ok_def follows_def)
  moreover have "inside (pt_confine p) x y" using laws r unfolding region_laws_def by blast
  ultimately show ?thesis using laws
    by (auto simp: confined_to_def constraint_region_def region_laws_def split: if_splits)
qed


type_synonym ex_region = "rat \<times> rat \<times> rat \<times> rat"

fun ex_inside :: "ex_region \<Rightarrow> rat \<Rightarrow> rat \<Rightarrow> bool" where
  "ex_inside (x0, y0, x1, y1) x y \<longleftrightarrow> x0 \<le> x \<and> x \<le> x1 \<and> y0 \<le> y \<and> y \<le> y1"

fun ex_intersect :: "ex_region \<Rightarrow> ex_region \<Rightarrow> ex_region" where
  "ex_intersect (x0, y0, x1, y1) (a0, b0, a1, b1) = (max x0 a0, max y0 b0, min x1 a1, min y1 b1)"

fun ex_confine :: "ex_region \<Rightarrow> rat \<Rightarrow> rat \<Rightarrow> rat \<Rightarrow> rat \<Rightarrow> (rat \<times> rat) option" where
  "ex_confine (x0, y0, x1, y1) a b c d =
     (if ex_inside (x0, y0, x1, y1) a b then Some (max x0 (min x1 c), max y0 (min y1 d)) else None)"

definition ex_region_lib :: "ex_region region_lib" where
  "ex_region_lib = \<lparr>rl_not_empty = (\<lambda>(x0, y0, x1, y1). x0 < x1 \<and> y0 < y1), rl_intersect = ex_intersect,
     rl_clear = (0, 0, 0, 0), rl_confine = ex_confine\<rparr>"

lemma ex_region_laws: "region_laws ex_region_lib ex_inside"
  by (auto simp: region_laws_def ex_region_lib_def split: if_splits)

text \<open>A view of 100 by 80 pixels whose client confines the pointer to a square; the cursor is at (0, 0).\<close>

definition ex_pointer_env :: "ex_region pointer_env" where
  "ex_pointer_env = \<lparr>pe_alloc = True, pe_node_at = (\<lambda>x y. Some (Hit_buffer (Some 1), x, y)),
     pe_output = (\<lambda>x y. Some (0, x, y)), pe_move = (\<lambda>x y dx dy. (x + dx, y + dy)), pe_warp = (\<lambda>_ _ x y. (x, y)),
     pe_absolute = (\<lambda>x y. (160 * x, 80 * y)),
     pe_for_surface = (\<lambda>C sf. case C 7 of Some con \<Rightarrow> if pc_surface con = sf then Some 7 else None | None \<Rightarrow> None),
     pe_touch_point = (\<lambda>_. False), pe_touch_num = 0, pe_touch_serial = 0\<rparr>"

definition ex_constraint :: "constraint_type \<Rightarrow> ex_region wlr_pointer_constraint" where
  "ex_constraint ty = \<lparr>pc_surface = 1, pc_type = ty, pc_region = (0, 0, 20, 20), pc_current_region = (0, 0, 20, 20),
     pc_hint = Some (5, 5)\<rparr>"

definition ex_pointers :: "constraint_type \<Rightarrow> ex_region pointers" where
  "ex_pointers ty = \<lparr>pt_comp = ex_comp, pt_active = Some 7,
     pt_confine = (if ty = CONSTRAINT_CONFINED then (0, 0, 20, 20) else (0, 0, 0, 0)), pt_commit = Some 1,
     pt_wlr = [7 \<mapsto> ex_constraint ty], pt_input_region = (\<lambda>_. (0, 0, 100, 80)),
     pt_cg = [7 \<mapsto> \<lparr>cp_listeners = {Con_set_region, Con_destroy}\<rparr>], pt_touch_id = 0\<rparr>"

lemma ex_pointers_fields [simp]:
  "pt_active (ex_pointers ty) = Some 7" "pt_wlr (ex_pointers ty) 7 = Some (ex_constraint ty)"
  "pc_type (ex_constraint ty) = ty" "pc_surface (ex_constraint ty) = 1" "pt_srv (ex_pointers ty) = ex_server"
  by (simp_all add: ex_pointers_def ex_constraint_def pt_srv_def)

lemma ex_pointer_env_ok: "pointer_env_ok {0} ex_pointer_env"
  by (auto simp: pointer_env_ok_def ex_pointer_env_def split: option.splits if_splits)

lemma ex_pointers_ok: "pointers_ok ex_region_lib {0} (ex_pointers ty)"
proof -
  have "0 \<in> wlr_outputs ex_server" by (simp add: wlr_outputs_def out_wlr_def) (simp add: ex_server_def ex_out_def)
  then show ?thesis using ex_server_ok
    by (auto simp: pointers_ok_def constraints_ok_def active_ok_def follows_def constraint_region_def ex_pointers_def
        ex_constraint_def ex_region_lib_def pt_srv_def ran_def)
qed






end
