(* ===== verification/Layer_Idle.thy ===== *)
theory Layer_Idle
  imports Views
begin

text \<open>
  The layer shell (\<^verbatim>\<open>layer_shell.c\<close>) and idle inhibition (\<^verbatim>\<open>idle_inhibit_v1.c\<close>): surfaces of clients
  such as bars and lock screens with the keyboard focus they may take, and the list of the inhibitors
  that keep the idle notifier silent.
\<close>

section \<open>Layer surfaces\<close>

datatype keyboard_interactivity = INTERACTIVITY_NONE | INTERACTIVITY_EXCLUSIVE | INTERACTIVITY_ON_DEMAND

datatype layer = LAYER_BACKGROUND | LAYER_BOTTOM | LAYER_TOP | LAYER_OVERLAY

datatype layer_event = Lev_map | Lev_unmap | Lev_destroy | Lev_commit | Lev_new_popup

text \<open>What wlroots has of a layer surface; \<open>wl_layer\<close> is none for a value that is no layer.\<close>

record wlr_layer_surface =
  wl_surface :: surface
  wl_output :: "nat option"
  wl_layer :: "layer option"
  wl_interactive :: keyboard_interactivity

record cg_layer_surface =
  ly_wlr :: wlr_layer_surface
  ly_listeners :: "layer_event set"

record layers =
  la_srv :: cg_server
  la_surfaces :: "nat \<rightharpoonup> cg_layer_surface"

text \<open>
  \<open>le_data\<close> is the output of the server that belongs to one of wlroots, \<open>le_tree\<close> whether it has
  the scene tree for a layer.
\<close>

record layer_env =
  le_alloc :: bool
  le_data :: "nat \<Rightarrow> out_ptr option"
  le_tree :: "out_ptr \<Rightarrow> layer \<Rightarrow> bool"
  le_scene :: bool
  le_initial_commit :: bool
  le_resolution :: "nat \<Rightarrow> int \<times> int"

definition layer_emit :: "shell_call \<Rightarrow> layers \<Rightarrow> layers" where
  "layer_emit call la = la\<lparr>la_srv := emit (Shell_call call) (la_srv la)\<rparr>"

definition takes_keyboard :: "wlr_layer_surface \<Rightarrow> bool" where
  "takes_keyboard w \<longleftrightarrow>
     wl_interactive w = INTERACTIVITY_EXCLUSIVE \<or> wl_interactive w = INTERACTIVITY_ON_DEMAND"

definition handle_layer_surface_map :: "nat \<Rightarrow> layers \<Rightarrow> layers option" where
  "handle_layer_surface_map l la = do {
     ly \<leftarrow> la_surfaces la l;
     let w = ly_wlr ly;
     if takes_keyboard w
     then Some (la\<lparr>la_srv := emit (Keyboard_enter (Some (wl_surface w)))
                  (upd_seat (\<lambda>se. se\<lparr>se_keyboard_focus := Some (wl_surface w)\<rparr>) (la_srv la))\<rparr>)
     else Some la
   }"

definition handle_layer_surface_unmap :: "nat \<Rightarrow> layers \<Rightarrow> layers option" where
  "handle_layer_surface_unmap l la = do {
     ly \<leftarrow> la_surfaces la l;
     if se_keyboard_focus (s_seat (la_srv la)) = Some (wl_surface (ly_wlr ly))
     then Some (la\<lparr>la_srv := emit Keyboard_clear_focus
                  (upd_seat (\<lambda>se. se\<lparr>se_keyboard_focus := None\<rparr>) (la_srv la))\<rparr>)
     else Some la
   }"

definition handle_layer_surface_destroy :: "nat \<Rightarrow> layers \<Rightarrow> layers option" where
  "handle_layer_surface_destroy l la = do {
     ly \<leftarrow> la_surfaces la l;
     if ly_listeners ly \<noteq> {Lev_map, Lev_unmap, Lev_destroy, Lev_commit, Lev_new_popup} then None
     else Some (la\<lparr>la_surfaces := (la_surfaces la)(l := None)\<rparr>)
   }"

definition handle_layer_surface_commit :: "layer_env \<Rightarrow> nat \<Rightarrow> layers \<Rightarrow> layers option" where
  "handle_layer_surface_commit env l la = do {
     ly \<leftarrow> la_surfaces la l;
     if \<not> le_initial_commit env then Some la
     else case wl_output (ly_wlr ly) of
       None \<Rightarrow> Some la
     | Some o' \<Rightarrow> let (width, height) = le_resolution env o' in Some (layer_emit (Layer_configure l width height) la)
   }"

definition handle_new_popup :: "layers \<Rightarrow> layers" where
  "handle_new_popup la = la"

text \<open>A surface without an output gets the first one of the server.\<close>

definition choose_output :: "cg_server \<Rightarrow> wlr_layer_surface \<Rightarrow> (nat option) option" where
  "choose_output s w = (case wl_output w of
     Some o' \<Rightarrow> Some (Some o')
   | None \<Rightarrow> (case s_outputs s of
       [] \<Rightarrow> Some None
     | p # _ \<Rightarrow> map_option (\<lambda>out. Some (o_wlr_output out)) (s_outs s p)))"

definition handle_new_layer_surface :: "layer_env \<Rightarrow> nat \<Rightarrow> wlr_layer_surface \<Rightarrow> layers \<Rightarrow> layers option" where
  "handle_new_layer_surface env l w la =
     (if \<not> le_alloc env then Some (layer_emit (Layer_surface_destroy l) la)
      else do {
        oo \<leftarrow> choose_output (la_srv la) w;
        case oo of
          None \<Rightarrow> Some (layer_emit (Layer_surface_destroy l) la)
        | Some o' \<Rightarrow> do {
            out \<leftarrow> le_data env o';
            case wl_layer w of
              None \<Rightarrow> Some (layer_emit (Layer_surface_destroy l) la)
            | Some layer \<Rightarrow>
                if \<not> le_tree env out layer then Some (layer_emit (Layer_surface_destroy l) la)
                else if \<not> le_scene env
                  then Some (layer_emit (Layer_surface_destroy l) (layer_emit (Layer_scene_create l out) la))
                else Some (layer_emit (Layer_scene_create l out)
                  (la\<lparr>la_surfaces := (la_surfaces la)(l \<mapsto>
                     \<lparr>ly_wlr = w\<lparr>wl_output := Some o'\<rparr>,
                      ly_listeners = {Lev_map, Lev_unmap, Lev_destroy, Lev_commit, Lev_new_popup}\<rparr>)\<rparr>))
          }
      })"

section \<open>Idle inhibition\<close>

text \<open>\<open>id_inhibited\<close> is what the idle notifier was told last.\<close>

record idle =
  id_inhibitors :: "nat list"
  id_inhibited :: bool

definition idle_inhibit_v1_check_active :: "idle \<Rightarrow> idle" where
  "idle_inhibit_v1_check_active st = st\<lparr>id_inhibited := id_inhibitors st \<noteq> []\<rparr>"

definition handle_idle_inhibitor_v1_new :: "bool \<Rightarrow> nat \<Rightarrow> idle \<Rightarrow> idle" where
  "handle_idle_inhibitor_v1_new alloc i st =
     (if \<not> alloc then st
      else idle_inhibit_v1_check_active (st\<lparr>id_inhibitors := wl_insert i (id_inhibitors st)\<rparr>))"

definition idle_handle_destroy :: "nat \<Rightarrow> idle \<Rightarrow> idle option" where
  "idle_handle_destroy i st =
     (if i \<notin> set (id_inhibitors st) then None
      else Some (idle_inhibit_v1_check_active (st\<lparr>id_inhibitors := wl_remove i (id_inhibitors st)\<rparr>)))"

end
