(* ===== verification/Layer_Props.thy ===== *)
theory Layer_Props
  imports Layer_Idle Example_Server
begin

text \<open>
  Properties of idle inhibition, whose specification is the set of the inhibitors that are alive, and
  of the keyboard focus of layer surfaces.
\<close>

section \<open>Idle inhibition\<close>

text \<open>
  An inhibitor object of a client; \<open>alloc\<close> tells whether the compositor can allocate its own record
  for it. Destroying an object runs the handler only when it was registered.
\<close>

datatype idle_event = Inhibitor_new bool nat | Inhibitor_gone nat

fun idle_step :: "idle_event \<Rightarrow> idle \<times> nat set \<Rightarrow> (idle \<times> nat set) option" where
  "idle_step (Inhibitor_new alloc i) (st, L) =
     (if i \<in> L then Some (st, L)
      else Some (handle_idle_inhibitor_v1_new alloc i st, if alloc then insert i L else L))"
| "idle_step (Inhibitor_gone i) (st, L) =
     (if i \<notin> L then Some (st, L) else map_option (\<lambda>st. (st, L - {i})) (idle_handle_destroy i st))"

definition idle_ok :: "idle \<times> nat set \<Rightarrow> bool" where
  "idle_ok st \<longleftrightarrow> distinct (id_inhibitors (fst st)) \<and> set (id_inhibitors (fst st)) = snd st \<and>
     (id_inhibited (fst st) \<longleftrightarrow> snd st \<noteq> {})"

text \<open>The specification: the inhibitors that are alive after some events.\<close>

fun alive :: "idle_event list \<Rightarrow> nat set \<Rightarrow> nat set" where
  "alive [] L = L"
| "alive (Inhibitor_new alloc i # evs) L = alive evs (if alloc then insert i L else L)"
| "alive (Inhibitor_gone i # evs) L = alive evs (L - {i})"

lemma idle_new_ok:
  assumes "idle_ok (st, L)"
  shows "\<exists>st'. idle_step (Inhibitor_new alloc i) (st, L) = Some (st', if alloc then insert i L else L) \<and>
    idle_ok (st', if alloc then insert i L else L)"
  using assms by (auto simp: idle_ok_def handle_idle_inhibitor_v1_new_def idle_inhibit_v1_check_active_def wl_insert_def
      insert_absorb)

lemma idle_gone_ok:
  assumes "idle_ok (st, L)"
  shows "\<exists>st'. idle_step (Inhibitor_gone i) (st, L) = Some (st', L - {i}) \<and> idle_ok (st', L - {i})"
proof (cases "i \<in> L")
  case True
  let ?xs = "remove1 i (id_inhibitors st)"
  have s: "set ?xs = L - {i}" "distinct ?xs" using assms by (simp_all add: idle_ok_def set_remove1_eq)
  then have "?xs \<noteq> [] \<longleftrightarrow> L - {i} \<noteq> {}" by (metis set_empty)
  then have "idle_ok (\<lparr>id_inhibitors = ?xs, id_inhibited = (?xs \<noteq> [])\<rparr>, L - {i})" using s by (simp add: idle_ok_def)
  moreover have "i \<in> set (id_inhibitors st)" using assms True by (simp add: idle_ok_def)
  then have "idle_step (Inhibitor_gone i) (st, L) = Some (\<lparr>id_inhibitors = ?xs, id_inhibited = (?xs \<noteq> [])\<rparr>, L - {i})"
    using True by (cases st) (simp add: idle_handle_destroy_def idle_inhibit_v1_check_active_def wl_remove_def)
  ultimately show ?thesis by blast
next
  case False
  then show ?thesis using assms by simp
qed

lemma idle_run:
  assumes "idle_ok (st, L)"
  shows "\<exists>st'. run_actions idle_step evs (st, L) = Some (st', alive evs L) \<and> idle_ok (st', alive evs L)"
  using assms
proof (induction evs arbitrary: st L)
  case (Cons ev evs)
  then show ?case
  proof (cases ev)
    case (Inhibitor_new alloc i)
    obtain st1 where "idle_step ev (st, L) = Some (st1, if alloc then insert i L else L)"
      "idle_ok (st1, if alloc then insert i L else L)"
      using idle_new_ok [OF Cons.prems, of alloc i] unfolding Inhibitor_new by blast
    with Cons.IH [OF this(2)] Inhibitor_new show ?thesis by simp
  next
    case (Inhibitor_gone i)
    obtain st1 where "idle_step ev (st, L) = Some (st1, L - {i})" "idle_ok (st1, L - {i})"
      using idle_gone_ok [OF Cons.prems, of i] unfolding Inhibitor_gone by blast
    with Cons.IH [OF this(2)] Inhibitor_gone show ?thesis by simp
  qed
qed simp

text \<open>
  C37: The compositor inhibits idling exactly while an inhibitor is alive. Starting without inhibitors,
  whatever inhibitors clients create and destroy, and whichever allocations fail, no handler faults,
  the list of the server holds the inhibitors that are alive, each once, and the idle notifier has
  been told that idling is inhibited if and only if there is one.
\<close>

theorem idle_inhibited_while_alive:
  "\<exists>st. run_actions idle_step evs (\<lparr>id_inhibitors = [], id_inhibited = False\<rparr>, {}) = Some (st, alive evs {}) \<and>
    set (id_inhibitors st) = alive evs {} \<and> distinct (id_inhibitors st) \<and> (id_inhibited st \<longleftrightarrow> alive evs {} \<noteq> {})"
proof -
  have "idle_ok (\<lparr>id_inhibitors = [], id_inhibited = False\<rparr>, {})" by (simp add: idle_ok_def)
  from idle_run [OF this, of evs] show ?thesis by (auto simp: idle_ok_def)
qed

section \<open>Layer surfaces\<close>

text \<open>
  C38: A layer surface that took the keyboard does not give it back. When a surface that takes keyboard
  input is mapped and unmapped again, the view that is focused stays the focused one, but afterwards
  no surface has the keyboard focus, and nothing is sent to the view.
\<close>

theorem layer_unmap_loses_keyboard:
  assumes "la_surfaces la l = Some ly" and "takes_keyboard (ly_wlr ly)" and "se_focused_view (s_seat (la_srv la)) = Some p"
  shows "\<exists>la1 la2. handle_layer_surface_map l la = Some la1 \<and> handle_layer_surface_unmap l la1 = Some la2 \<and>
    se_keyboard_focus (s_seat (la_srv la1)) = Some (wl_surface (ly_wlr ly)) \<and>
    se_focused_view (s_seat (la_srv la2)) = Some p \<and> se_keyboard_focus (s_seat (la_srv la2)) = None \<and>
    s_calls (la_srv la2) = s_calls (la_srv la) @ [Keyboard_enter (Some (wl_surface (ly_wlr ly))), Keyboard_clear_focus]"
  using assms by (simp add: handle_layer_surface_map_def handle_layer_surface_unmap_def emit_def upd_seat_def Let_def)

definition ex_layers :: layers where
  "ex_layers = \<lparr>la_srv = ex_server, la_surfaces = [5 \<mapsto> \<lparr>
     ly_wlr = \<lparr>wl_surface = 9, wl_output = Some 0, wl_layer = Some LAYER_OVERLAY, wl_interactive = INTERACTIVITY_EXCLUSIVE\<rparr>,
     ly_listeners = {Lev_map, Lev_unmap, Lev_destroy, Lev_commit, Lev_new_popup}\<rparr>]\<rparr>"

theorem layer_unmap_loses_keyboard_witness:
  "\<exists>la1 la2. handle_layer_surface_map 5 ex_layers = Some la1 \<and> handle_layer_surface_unmap 5 la1 = Some la2 \<and>
    se_keyboard_focus (s_seat (la_srv la1)) = Some 9 \<and>
    se_focused_view (s_seat (la_srv la2)) = Some 40 \<and> se_keyboard_focus (s_seat (la_srv la2)) = None \<and>
    s_calls (la_srv la2) = s_calls (la_srv ex_layers) @ [Keyboard_enter (Some 9), Keyboard_clear_focus]"
proof -
  let ?ly = "the (la_surfaces ex_layers 5)"
  have *: "la_surfaces ex_layers 5 = Some ?ly" "takes_keyboard (ly_wlr ?ly)" "se_focused_view (s_seat (la_srv ex_layers)) = Some 40"
    "wl_surface (ly_wlr ?ly) = 9"
    by (simp_all add: ex_layers_def takes_keyboard_def ex_seat_def)
  from layer_unmap_loses_keyboard [OF *(1-3)] show ?thesis by (simp only: *(4))
qed

end
