(* ===== verification/Cycle_Props.thy ===== *)
theory Cycle_Props
  imports Example_Server
begin

text \<open>
  Cycling through the tiles of a workspace: as every press of the key moves the focus one tile along
  the ring, each tile of the ring is focused after fewer presses than there are tiles.
\<close>

section \<open>Positions in a ring\<close>

lemma is_ring_rotate_n: "is_ring h ts \<Longrightarrow> is_ring h (rotate n ts)"
  using is_ring_rotate [of h "drop (n mod length ts) ts" "take (n mod length ts) ts"] by (simp add: rotate_drop_take)

lemma ring_hd:
  assumes "is_ring h ts"
  shows "nxt h (hd ts) = Some (hd (rotate1 ts))" and "prv h (hd (rotate1 ts)) = Some (hd ts)"
proof -
  obtain x xs where ts: "ts = x # xs" using assms by (cases ts) (simp_all add: is_ring_def)
  have "nxt h x = Some (hd (xs @ [x])) \<and> prv h (hd (xs @ [x])) = Some x"
  proof (cases xs)
    case Nil
    then show ?thesis using assms ts by (simp add: is_ring_single)
  next
    case (Cons y zs)
    then show ?thesis using assms ts is_ring_link_hd by simp
  qed
  with ts show "nxt h (hd ts) = Some (hd (rotate1 ts))" "prv h (hd (rotate1 ts)) = Some (hd ts)" by simp_all
qed

lemma ring_nth:
  assumes r: "is_ring h ts" and i: "i < length ts"
  shows "nxt h (ts ! i) = Some (ts ! (Suc i mod length ts))" and "prv h (ts ! (Suc i mod length ts)) = Some (ts ! i)"
proof -
  have ne: "ts \<noteq> []" using i by auto
  have "hd (rotate i ts) = ts ! i" "hd (rotate1 (rotate i ts)) = ts ! (Suc i mod length ts)"
    using hd_rotate_conv_nth [OF ne, of i] hd_rotate_conv_nth [OF ne, of "Suc i"] i by simp_all
  with ring_hd [OF is_ring_rotate_n [OF r, of i]]
  show "nxt h (ts ! i) = Some (ts ! (Suc i mod length ts))" "prv h (ts ! (Suc i mod length ts)) = Some (ts ! i)" by simp_all
qed

text \<open>One press moves the position by one, or by one less than the length in reverse order.\<close>

definition cycle_by :: "bool \<Rightarrow> nat \<Rightarrow> nat" where
  "cycle_by r n = (if r then n - 1 else 1)"

lemma ring_step:
  assumes r: "is_ring h ts" and i: "i < length ts"
  shows "(if r then prv h (ts ! i) else nxt h (ts ! i)) = Some (ts ! ((i + cycle_by r (length ts)) mod length ts))"
proof (cases r)
  case True
  let ?n = "length ts"
  have n: "0 < ?n" using i by linarith
  let ?j = "(i + (?n - 1)) mod ?n"
  have "Suc (i + (?n - 1)) = i + ?n" using n by simp
  then have "Suc ?j mod ?n = (i + ?n) mod ?n" by (simp only: mod_Suc_eq)
  then have "Suc ?j mod ?n = i" using i by simp
  moreover have "?j < ?n" using n by (rule mod_less_divisor)
  note ring_nth(2) [OF r this]
  ultimately have "prv h (ts ! i) = Some (ts ! ?j)" by (simp only:)
  then show ?thesis using True by (simp only: cycle_by_def if_True)
next
  case False
  then show ?thesis using ring_nth(1) [OF r i] by (simp add: cycle_by_def)
qed

lemma cycle_hits:
  assumes "j < n"
  shows "\<exists>k < n. k * cycle_by r n mod n = j"
proof (cases r)
  case True
  show ?thesis
  proof (cases "j = 0")
    case True
    then show ?thesis using assms by (intro exI [of _ 0]) simp
  next
    case False
    let ?k = "n - j"
    have "?k * (n - 1) + n = ?k * n + j"
    proof -
      have "?k * (n - 1) + ?k = ?k * n" using assms by (cases n) simp_all
      then show ?thesis using assms by simp
    qed
    then have "?k * (n - 1) mod n = j mod n"
      by (metis mod_add_self2 mod_mult_self3)
    then show ?thesis using assms False True by (intro exI [of _ ?k]) (simp add: cycle_by_def \<open>r\<close>)
  qed
next
  case False
  then show ?thesis using assms by (intro exI [of _ j]) (simp add: cycle_by_def)
qed

section \<open>Cycling\<close>

text \<open>Tiles of workspaces have distinct numbers.\<close>

definition live_ids_unique :: "cg_server \<Rightarrow> bool" where
  "live_ids_unique s \<longleftrightarrow> inj_on (\<lambda>t. t_id (the (s_tiles s t)))
     {t. \<exists>tl w. s_tiles s t = Some tl \<and> t_workspace tl = Some w \<and> w \<in> live_ws s}"

lemma live_ids:
  assumes ok: "server_ok s" and u: "live_ids_unique s"
  shows "tile_ids_unique s"
proof -
  have "\<exists>tl w. s_tiles s t = Some tl \<and> t_workspace tl = Some w \<and> w \<in> live_ws s" if t: "t \<in> set (all_tiles s)" for t
  proof -
    obtain w where w: "w \<in> live_ws s" "t \<in> set (the (ws_ring w s))"
      using t set_all_ws [OF ok] by (auto simp: all_tiles_def)
    obtain ws where ws: "s_workspaces s w = Some ws" using live_ws_ok [OF ok w(1)] by metis
    obtain ts where "ws_ring w s = Some ts" "\<forall>t \<in> set ts. \<exists>tl. s_tiles s t = Some tl \<and> tile_ok w (w_views ws) tl"
      using live_ws_ring [OF ok w(1) ws] by metis
    with w show ?thesis by (force simp: tile_ok_def)
  qed
  then show ?thesis using u unfolding live_ids_unique_def tile_ids_unique_def by (auto elim: inj_on_subset)
qed

lemma cycle_run:
  assumes "server_ok s" and "live_ids_unique s" and "is_ring (s_tiles s) ts" and "i < length ts" and "curr_tile s = Some (ts ! i)"
  shows "\<exists>s'. run_actions keybinding_cycle_tiles (replicate k r) s = Some s' \<and> server_ok s' \<and> s_tiles s' = s_tiles s \<and>
    curr_tile s' = Some (ts ! ((i + k * cycle_by r (length ts)) mod length ts))"
  using assms
proof (induction k arbitrary: s i)
  case (Suc k)
  let ?n = "length ts"
  obtain s1 tp t n where s1: "keybinding_cycle_tiles r s = Some s1" "server_ok s1" "s_tiles s1 = s_tiles s"
    "live_ws s1 = live_ws s" "curr_tile s = Some tp" "s_tiles s tp = Some t" "(if r then t_prev t else t_next t) = Some n"
    "tile_ids_unique s \<longrightarrow> curr_tile s1 = Some n"
    using cycle_tiles_ok [OF Suc.prems(1)] by metis
  let ?i = "(i + cycle_by r ?n) mod ?n"
  have "n = ts ! ?i"
    using ring_step [OF Suc.prems(3,4), of r] s1(5-7) Suc.prems(5) by (auto simp: nxt_def prv_def split: if_splits)
  then have c: "curr_tile s1 = Some (ts ! ?i)" using s1(8) live_ids [OF Suc.prems(1,2)] by simp
  have "live_ids_unique s1" using Suc.prems(2) s1(3,4) by (simp add: live_ids_unique_def)
  moreover have "?i < ?n" using Suc.prems(4) by (intro mod_less_divisor) linarith
  ultimately obtain s' where "run_actions keybinding_cycle_tiles (replicate k r) s1 = Some s'" "server_ok s'"
    "s_tiles s' = s_tiles s1" "curr_tile s' = Some (ts ! ((?i + k * cycle_by r ?n) mod ?n))"
    using Suc.IH [of s1 ?i] s1(2,3) c Suc.prems(3) by auto
  moreover have "(?i + k * cycle_by r ?n) mod ?n = (i + Suc k * cycle_by r ?n) mod ?n"
    by (simp add: mod_simps algebra_simps)
  ultimately show ?case using s1(1,3) by simp
qed simp

text \<open>
  C5: Cycling reaches every tile. On a workspace with \<open>n\<close> tiles in its ring, pressing the key for the
  next tile, or the one for the previous tile, some number of times below \<open>n\<close> focuses any given one of
  them, and pressing it \<open>n\<close> times focuses the first tile again. No tile changes on the way, and the
  state stays consistent.
\<close>

theorem cycling_reaches_every_tile:
  assumes ok: "server_ok s" and u: "live_ids_unique s" and w: "curr_ws s = Some w" "ws_ring w s = Some ts" and t: "t \<in> set ts"
  shows "(\<exists>k < length ts. \<exists>s'. run_actions keybinding_cycle_tiles (replicate k r) s = Some s' \<and> server_ok s' \<and>
      s_tiles s' = s_tiles s \<and> curr_tile s' = Some t) \<and>
    (\<exists>s'. run_actions keybinding_cycle_tiles (replicate (length ts) r) s = Some s' \<and> server_ok s' \<and>
      s_tiles s' = s_tiles s \<and> curr_tile s' = curr_tile s)"
proof -
  have ring: "is_ring (s_tiles s) ts" "curr_tile s = Some (hd ts)" using curr_ring [OF ok] w by (metis option.sel)+
  then have c: "0 < length ts" "curr_tile s = Some (ts ! 0)" by (auto simp: is_ring_def hd_conv_nth)
  obtain j where j: "j < length ts" "t = ts ! j" using t by (auto simp: in_set_conv_nth)
  obtain k where k: "k < length ts" "k * cycle_by r (length ts) mod length ts = j" using cycle_hits [OF j(1)] by blast
  note run = cycle_run [OF ok u ring(1) c]
  show ?thesis using run [of k r] run [of "length ts" r] j(2) k c(2) by auto
qed

theorem cycling_reaches_every_tile_witness:
  "(\<exists>k < length [10, 11 :: nat]. \<exists>s'. run_actions keybinding_cycle_tiles (replicate k True) ex_server = Some s' \<and> server_ok s' \<and>
      s_tiles s' = s_tiles ex_server \<and> curr_tile s' = Some 11) \<and>
    (\<exists>s'. run_actions keybinding_cycle_tiles (replicate (length [10, 11 :: nat]) True) ex_server = Some s' \<and> server_ok s' \<and>
      s_tiles s' = s_tiles ex_server \<and> curr_tile s' = curr_tile ex_server)"
proof -
  have "live_ids_unique ex_server"
    by (auto simp: live_ids_unique_def inj_on_def ex_server_def ex_tile_def split: if_splits)
  from cycling_reaches_every_tile [OF ex_server_ok this ex_curr(1) ex_rings(1), of 11 True] show ?thesis by simp
qed

end
