(* ===== verification/Start_Props.thy ===== *)
theory Start_Props
  imports Startup Life_Props Example_Output
begin

text \<open>
  The first output: plugging an output into the server as \<^verbatim>\<open>main\<close> sets it up gives a state in which
  the invariant of outputs, workspaces, tiles and focus holds; from there on, clients can be served.
\<close>

section \<open>The server with a bare output\<close>

definition bare :: "out_ptr \<Rightarrow> nat \<Rightarrow> out_ptr list \<Rightarrow> cg_output \<Rightarrow> (nat \<Rightarrow> wlr_box) \<Rightarrow> lib_call list \<Rightarrow> cg_server" where
  "bare p w ps out l cs = initial_server\<lparr>s_outs := [p \<mapsto> out], s_outputs := ps, s_scene_outputs := [0 \<mapsto> w],
     s_scene_brk := 1, s_layout := l, s_calls := cs\<rparr>"

definition bare_out :: "nat \<Rightarrow> string \<Rightarrow> wlr_box \<Rightarrow> bool \<Rightarrow> cg_output" where
  "bare_out w name b bg = (new_output w name (- 1) 0)\<lparr>o_layout_box := b, o_bg := bg\<rparr>"

lemma bare_out_fields [simp]:
  "o_wlr_output (bare_out w name b bg) = w" "o_priority (bare_out w name b bg) = - 1" "o_workspaces (bare_out w name b bg) = None"
  "o_scene_output (bare_out w name b bg) = Some 0" "o_layout_box (bare_out w name b bg) = b" "o_bg (bare_out w name b bg) = bg"
  "o_name (bare_out w name b bg) = name" "o_curr_workspace (bare_out w name b bg) = 0"
  "(bare_out w name b bg)\<lparr>o_layout_box := b'\<rparr> = bare_out w name b' bg"
  "(bare_out w name b bg)\<lparr>o_bg := bg'\<rparr> = bare_out w name b bg'"
  by (simp_all add: bare_out_def new_output_def)

lemma bare_fields [simp]:
  "s_outs (bare p w ps out l cs) = [p \<mapsto> out]" "s_outputs (bare p w ps out l cs) = ps" "s_layout (bare p w ps out l cs) = l"
  "s_scene_outputs (bare p w ps out l cs) = [0 \<mapsto> w]" "s_scene_brk (bare p w ps out l cs) = 1"
  "(bare p w ps out l cs)\<lparr>s_layout := l'\<rparr> = bare p w ps out l' cs"
  "(bare p w ps out l cs)\<lparr>s_outs := [p \<mapsto> out']\<rparr> = bare p w ps out' l cs"
  "emit c (bare p w ps out l cs) = bare p w ps out l (cs @ [c])"
  by (simp_all add: bare_def emit_def)

lemma bare_upd [simp]: "upd_out p f (bare p w ps out l cs) = Some (bare p w ps (f out) l cs)"
  by (simp add: upd_out_def)

lemma bare_commit:
  assumes "o_wlr_output out = w"
  shows "\<exists>l' cs'. output_commit env False p ops (bare p w ps out l cs) = Some (bare p w ps out l' cs')"
  using assms by (cases "we_commit env w ops") (simp_all add: output_commit_def Let_def, blast+)

lemma bare_layout:
  "\<exists>ops' b l' cs'. layout_auto env p ops (bare p w [p] (bare_out w name zero_box bg) l cs) =
     Some (ops', bare p w [p] (bare_out w name b bg) l' cs')"
  by (simp add: layout_auto_def scene_layout_add_def live_scene_output_def Let_def) blast

lemma bare_configure:
  "\<exists>b bg l' cs'. output_configure env False [] p (bare p w [p] (bare_out w name zero_box False) l cs) =
     Some (bare p w [p] (bare_out w name b bg) l' cs')"
proof -
  let ?s = "bare p w [p] (bare_out w name zero_box False) l cs"
  obtain ops' b l1 cs1 where a: "layout_auto env p [] ?s = Some (ops', bare p w [p] (bare_out w name b False) l1 cs1)"
    using bare_layout by blast
  obtain l2 cs2 where c: "output_commit env False p (ops' @ [Op_enabled True]) (bare p w [p] (bare_out w name b False) l1 cs1) =
      Some (bare p w [p] (bare_out w name b False) l2 cs2)" using bare_commit [of "bare_out w name b False" w] by force
  have ops: "angle_scale_ops empty_output_config = []"
    by (simp add: angle_scale_ops_def empty_output_config_def  f32_eq.simps)
  have "wlr_box_empty zero_box" by (simp add: wlr_box_empty_def zero_box_def)
  with a c ops show ?thesis
    by (simp add: output_configure_def output_apply_config_def output_total_config_def apply_role_def apply_status_def
        empty_output_config_def output_background_def Let_def)
      blast
qed

section \<open>The first output\<close>

definition one_tile :: "wlr_box \<Rightarrow> cg_tile" where
  "one_tile b = \<lparr>t_workspace = Some 0, t_box = \<lparr>box_x = 0, box_y = 0, box_width = box_width b, box_height = box_height b\<rparr>,
     t_view = None, t_next = Some 0, t_prev = Some 0, t_id = 1\<rparr>"

definition one_workspace :: "out_ptr \<Rightarrow> cg_workspace" where
  "one_workspace p = \<lparr>w_views = [], w_unmanaged_views = [], w_output = p, w_focused_tile = Some 0, w_num = 0\<rparr>"

definition with_output ::
    "out_ptr \<Rightarrow> nat \<Rightarrow> string \<Rightarrow> wlr_box \<Rightarrow> bool \<Rightarrow> (nat \<Rightarrow> wlr_box) \<Rightarrow> lib_call list \<Rightarrow> cg_server" where
  "with_output p w name b bg l cs = (bare p w [p] ((bare_out w name b bg)\<lparr>o_workspaces := Some [0]\<rparr>) l cs)
     \<lparr>s_tiles := [0 \<mapsto> one_tile b], s_workspaces := [0 \<mapsto> one_workspace p], s_tile_brk := 1, s_ws_brk := 1,
      s_tiles_curr_id := 2, s_curr_output := Some p\<rparr>"

lemma bare_more [simp]:
  "s_tiles (bare p w ps out l cs) = Map.empty" "s_workspaces (bare p w ps out l cs) = Map.empty"
  "s_tile_brk (bare p w ps out l cs) = 0" "s_ws_brk (bare p w ps out l cs) = 0" "s_nws (bare p w ps out l cs) = 1"
  "s_tiles_curr_id (bare p w ps out l cs) = 1" "s_curr_output (bare p w ps out l cs) = None"
  "s_views (bare p w ps out l cs) = Map.empty" "s_view_brk (bare p w ps out l cs) = 0"
  "s_seat (bare p w ps out l cs) = initial_seat" "s_cursor_at (bare p w ps out l cs) = None"
  by (simp_all add: bare_def initial_server_def)

lemma bare_workspaces:
  "new_workspaces p (bare p w [p] (bare_out w name b bg) l cs) = Some ([0],
     (bare p w [p] (bare_out w name (if wlr_box_empty (l w) then b else l w) bg) l (cs @ [Scene_create_ws 0]))
       \<lparr>s_tiles := [0 \<mapsto> one_tile (if wlr_box_empty (l w) then b else l w)], s_workspaces := [0 \<mapsto> one_workspace p],
        s_tile_brk := 1, s_ws_brk := 1, s_tiles_curr_id := 2\<rparr>)"
proof -
  have "\<not> o_destroyed (bare_out w name b bg)" by (simp add: bare_out_def new_output_def)
  then show ?thesis
    by (simp add: new_workspaces_def full_screen_workspace_def full_screen_workspace_tiles_def calloc_tile_def
        upd_ws_def upd_tile_def output_get_layout_box_def workspace_tile_update_view_def upd_out_def Let_def
        one_tile_def one_workspace_def bare_def emit_def initial_server_def)
qed

lemma first_output:
  "\<exists>b bg l cs. first_connection env [] [] p w name initial_server = Some (with_output p w name b bg l cs)"
proof -
  let ?out = "bare_out w name zero_box False"
  have c: "scene_output_create w initial_server = (0, (initial_server\<lparr>s_scene_outputs := [0 \<mapsto> w], s_scene_brk := 1,
      s_calls := [Output_call (Scene_output_create w)]\<rparr>))"
    by (simp add: scene_output_create_def initial_server_def emit_def)
  have o: "new_output w name (stored_priority [] name) 0 = ?out"
    by (simp add: bare_out_def stored_priority_def) (simp add: new_output_def)
  have b: "(initial_server\<lparr>s_scene_outputs := [0 \<mapsto> w], s_scene_brk := 1, s_calls := cs,
      s_outs := [p \<mapsto> out]\<rparr>) = bare p w [] out (\<lambda>_. zero_box) cs" for out cs
    by (simp add: bare_def initial_server_def)
  obtain l1 cs1 where c1: "output_commit env False p [Op_transform 0, Op_enabled True]
      (bare p w [] ?out (\<lambda>_. zero_box) [Output_call (Scene_output_create w)]) = Some (bare p w [] ?out l1 cs1)"
    using bare_commit [of ?out w] by force
  have i: "output_insert p (bare p w [] ?out l1 cs1) = Some (bare p w [p] ?out l1 cs1)"
    by (simp add: output_insert_def) (simp add: bare_def)
  obtain bx bg l2 cs2 where c2: "output_configure env False [] p (bare p w [p] ?out l1 cs1) =
      Some (bare p w [p] (bare_out w name bx bg) l2 cs2)" using bare_configure by blast
  have n: "s_outs initial_server = Map.empty" by (simp add: initial_server_def)
  have f: "first_connection env [] [] p w name initial_server = Some (with_output p w name (l2 w) bg l2
      (cs2 @ [Scene_create_ws 0, Scene_raise_ws 0, Scene_lower_ws 0, Scene_raise_ws 0, Scene_raise_layers p, Scene_raise_layers p]))"
    using c o b c1 i c2
    by (simp add: first_connection_def Let_def n bare_workspaces)
      (simp add: with_output_def workspace_focus_def ws_at_def upd_out_def bare_def emit_def initial_server_def
        bare_out_def new_output_def)
  then show ?thesis by blast
qed

lemma with_output_fields [simp]:
  "s_outs (with_output p w name b bg l cs) = [p \<mapsto> (bare_out w name b bg)\<lparr>o_workspaces := Some [0]\<rparr>]"
  "s_outputs (with_output p w name b bg l cs) = [p]" "s_curr_output (with_output p w name b bg l cs) = Some p"
  "s_workspaces (with_output p w name b bg l cs) = [0 \<mapsto> one_workspace p]" "s_views (with_output p w name b bg l cs) = Map.empty"
  "s_tiles (with_output p w name b bg l cs) = [0 \<mapsto> one_tile b]" "s_nws (with_output p w name b bg l cs) = 1"
  "s_tile_brk (with_output p w name b bg l cs) = 1" "s_ws_brk (with_output p w name b bg l cs) = 1"
  "s_view_brk (with_output p w name b bg l cs) = 0" "s_seat (with_output p w name b bg l cs) = initial_seat"
  "s_cursor_at (with_output p w name b bg l cs) = None"
  by (simp_all add: with_output_def)

lemma with_output_ok: "life_ok (with_output p w name b bg l cs)"
proof -
  let ?s = "with_output p w name b bg l cs"
  have o: "out_wss (s_outs ?s) p = Some [0]" "out_curr (s_outs ?s) p = Some 0"
    by (simp_all add: out_wss_def out_curr_def)
  have live: "live_ws ?s = {0}" using o by (auto simp: live_ws_def)
  have ws: "ws_ok (s_tiles ?s) (s_views ?s) p 0 0 (one_workspace p)"
    by (auto simp: ws_ok_def one_workspace_def one_tile_def tile_ok_def is_ring_single nxt_def prv_def intro!: exI [of _ "[0]"])
  then have "out_ok ?s p" using o by (simp add: out_ok_def)
  moreover have "links_ok (s_tiles ?s) (s_views ?s)" by (simp add: links_ok_def one_tile_def)
  moreover have "seat_ok ?s" by (simp add: seat_ok_def initial_seat_def)
  moreover have "tiles_below_brk ?s" by (simp add: tiles_below_brk_def)
  ultimately have ok: "server_ok ?s" by (simp add: server_ok_def)
  have "curr_tile ?s = Some 0"
    by (simp add: curr_tile_def curr_ws_def curr_ws_of_def ws_at_def focused_tile_of_def one_workspace_def)
  then have "focus_ok ?s" by (simp add: focus_ok_def one_tile_def initial_seat_def)
  moreover have "brk_ok ?s" using live by (simp add: brk_ok_def)
  moreover have "homes_ok ?s" by (simp add: homes_ok_def)
  ultimately show ?thesis using ok by (simp add: life_ok_def)
qed

lemma first_output_ok:
  assumes "we_init_render env w"
  shows "\<exists>s. handle_new_output env renderer [] [] p w name initial_server = Some s \<and> life_ok s \<and>
    s_outputs s = [p] \<and> s_views s = Map.empty"
proof -
  obtain b bg l cs where f: "first_connection env [] [] p w name initial_server = Some (with_output p w name b bg l cs)"
    using first_output by blast
  have i: "s_outputs initial_server = []" by (simp add: initial_server_def)
  have "output_get_num p (emit c (with_output p w name b bg l cs)) = Some 1"
    "output_get_num p (emit c (emit d (with_output p w name b bg l cs))) = Some 1" for c d
    by (simp_all add: output_get_num_def)
  then show ?thesis using assms f i with_output_ok
    by (cases renderer) (simp_all add: handle_new_output_def ipc_send_event_def Let_def)
qed

section \<open>Theorem\<close>



end
