(* ===== verification/Device_Props.thy ===== *)
theory Device_Props
  imports Seat_Devices Key_Props
begin

text \<open>
  The counters of the seat: how many keyboards, pointers and touch devices there are, as numbers of 16
  bits, and what a keyboard that could not be set up does to them.
\<close>

definition ex_keyboard :: cg_input_device where
  "ex_keyboard = \<lparr>dv_identifier = ''0:0:keyboard'', dv_wlr_device = 77, dv_is_virtual = False,
     dv_type = WLR_INPUT_DEVICE_KEYBOARD, dv_libinput = None, dv_pointer = False, dv_touch = False\<rparr>"

definition ex_no_keymap :: device_env where
  "ex_no_keymap = \<lparr>de_device_ok = True, de_alloc_ok = True, de_context_ok = True, de_keymap = None, de_rate = 25, de_delay = 600,
     de_add_ok = (\<lambda>_. True), de_group_alloc_ok = True, de_new_group = Some 90, de_output_name = None\<rparr>"

lemma configure_device_fields [simp]:
  "dv_wlr_device (configure_device cfgs d) = dv_wlr_device d" "dv_type (configure_device cfgs d) = dv_type d"
  by (simp_all add: configure_device_def split: option.split)

text \<open>
  C39: A keyboard that could not be set up is counted down when it goes. If no keymap can be compiled, a
  new keyboard is not counted, but it is in the list of devices; when it is unplugged the counter is
  decremented all the same, and from 0 it wraps to 65535: the seat then announces a keyboard although
  there is none.
\<close>

theorem failed_keyboard_wraps_counter:
  assumes type: "dv_type d = WLR_INPUT_DEVICE_KEYBOARD" and alloc: "de_device_ok de" and fail: "\<not> de_context_ok de \<or> de_keymap de = None"
    and none: "se_num_keyboards (s_seat (c_srv c)) = 0"
    and new: "keyboard_group_of (dv_wlr_device d) c = None" "\<forall>x \<in> set (c_devices c). dv_wlr_device x \<noteq> dv_wlr_device d"
  shows "\<exists>c1 c2. new_input env de virtual d c = Some c1 \<and>
    input_manager_handle_device_destroy env (dv_wlr_device d) c1 = Some c2 \<and> c_devices c2 = c_devices c \<and>
    se_num_keyboards (s_seat (c_srv c1)) = 0 \<and> se_num_keyboards (s_seat (c_srv c2)) = 65535 \<and>
    (\<exists>pointer touch. Seat_call (Set_capabilities True pointer touch) \<in> set (s_calls (c_srv c2)))"
proof -
  let ?d = "configure_device (c_input_config c) (d\<lparr>dv_is_virtual := virtual, dv_pointer := False, dv_touch := False\<rparr>)"
  let ?c = "update_capabilities env c"
  have f: "new_keyboard de ?d c = c" using fail by (auto simp: new_keyboard_def split: bool.split option.split)
  have u: "s_seat (c_srv (update_capabilities env c)) = s_seat (c_srv c)"
    "c_groups (update_capabilities env c) = c_groups c" "c_devices (update_capabilities env c) = c_devices c"
    "Seat_call (Set_capabilities (se_num_keyboards (s_seat (c_srv c)) > 0) (se_num_pointers (s_seat (c_srv c)) > 0)
       (se_num_touch (s_seat (c_srv c)) > 0)) \<in> set (s_calls (c_srv (update_capabilities env c)))" for c
    by (simp_all add: update_capabilities_def emit_srv_def emit_def Let_def)
  have a: "new_input env de virtual d c = Some (?c\<lparr>c_devices := ?d # c_devices c\<rparr>)"
    using type alloc f u(3) by (simp add: new_input_def seat_add_device_def wl_insert_def Let_def)
  let ?c1 = "?c\<lparr>c_devices := ?d # c_devices c\<rparr>"
  let ?r = "count_seat (\<lambda>se. se\<lparr>se_num_keyboards := se_num_keyboards se - 1\<rparr>) ?c1"
  have g: "keyboard_group_of (dv_wlr_device d) ?c1 = None" using new(1) u(2) by (simp add: keyboard_group_of_def)
  have r: "remove_keyboard ?d ?c1 = ?r" using g by (simp add: remove_keyboard_def)
  let ?c2 = "update_capabilities env ?r"
  have b: "input_manager_handle_device_destroy env (dv_wlr_device d) ?c1 = Some (?c2\<lparr>c_devices := c_devices c\<rparr>)"
    using type r u(3) [of ?r]
    by (simp add: input_manager_handle_device_destroy_def seat_remove_device_def wl_remove_def count_seat_def Let_def)
  have n: "se_num_keyboards (s_seat (c_srv ?r)) = 65535" using none u(1) by (simp add: count_seat_def upd_seat_def)
  then have "Seat_call (Set_capabilities True (se_num_pointers (s_seat (c_srv ?r)) > 0) (se_num_touch (s_seat (c_srv ?r)) > 0))
      \<in> set (s_calls (c_srv ?c2))" using u(4) [of ?r] by simp
  moreover have "se_num_keyboards (s_seat (c_srv ?c2)) = 65535" using n u(1) [of ?r] by simp
  moreover have "se_num_keyboards (s_seat (c_srv ?c1)) = 0" using none u(1) [of c] by simp
  ultimately show ?thesis using a b by auto
qed

definition ex_no_keyboard :: compositor where
  "ex_no_keyboard = count_seat (\<lambda>se. se\<lparr>se_num_keyboards := 0\<rparr>) ex_comp"

theorem failed_keyboard_wraps_counter_witness:
  "\<exists>c1 c2. new_input ex_cg_env ex_no_keymap False ex_keyboard ex_no_keyboard = Some c1 \<and>
    input_manager_handle_device_destroy ex_cg_env (dv_wlr_device ex_keyboard) c1 = Some c2 \<and>
    c_devices c2 = c_devices ex_no_keyboard \<and>
    se_num_keyboards (s_seat (c_srv c1)) = 0 \<and> se_num_keyboards (s_seat (c_srv c2)) = 65535 \<and>
    (\<exists>pointer touch. Seat_call (Set_capabilities True pointer touch) \<in> set (s_calls (c_srv c2)))"
proof (rule failed_keyboard_wraps_counter)
  show "keyboard_group_of (dv_wlr_device ex_keyboard) ex_no_keyboard = None"
    by (simp add: keyboard_group_of_def ex_no_keyboard_def count_seat_def ex_keyboard_def ex_group_def)
qed (simp_all add: ex_keyboard_def ex_no_keymap_def ex_no_keyboard_def count_seat_def)

end
